(* ===== verification/JsPrelude.thy ===== *)
theory JsPrelude
  imports "HOL-Library.Char_ord" "HOL-Library.List_Lexorder"
begin

text \<open>
  The part of JavaScript that src/src/wreq-js.ts relies on, as HOL types and functions: strings,
  numbers, dynamic values, thrown errors and the result type of code that may throw.

  \<^item> A JavaScript string is a list of code units. The model's strings are HOL's \<open>string\<close>, so its
    code units lie below 256 (Latin-1). On that range \<open>trim\<close>, \<open>toLowerCase\<close> and the UTF-8 length are
    exact; \<open>toUpperCase\<close> is exact but for the two letters whose capital is beyond 255 (181 and 255),
    which it leaves alone.
  \<^item> A finite number is represented by its shortest decimal, the one that \<open>Number.prototype.toString\<close>
    prints: an integer, or \<open>m * 10 ^ -k\<close> with \<open>k > 0\<close>. \<open>-0\<close> is identified with \<open>0\<close>.
  \<^item> A value of unknown type (an option a caller passes) is a \<open>jsval\<close>. Getters, proxies and inherited
    properties are outside the model.
  \<^item> Code that may throw returns \<open>'a res\<close>, with \<open>Inl\<close> for the thrown error.
\<close>

named_theorems js_simps \<open>evaluation rules for values, errors and results\<close>
named_theorems js_split \<open>split rules for results\<close>

section \<open>Strings\<close>

abbreviation code_unit :: "char \<Rightarrow> nat" where
  "code_unit c \<equiv> of_char c"

abbreviation squote :: string where
  "squote \<equiv> [CHR 0x27]"

definition is_space :: "char \<Rightarrow> bool" where
  "is_space c \<longleftrightarrow> code_unit c \<in> {9, 10, 11, 12, 13, 32, 160}"

definition trim :: "string \<Rightarrow> string" where
  "trim s = rev (dropWhile is_space (rev (dropWhile is_space s)))"

definition lower_char :: "char \<Rightarrow> char" where
  "lower_char c =
     (let n = code_unit c in
      if (65 \<le> n \<and> n \<le> 90) \<or> (192 \<le> n \<and> n \<le> 222 \<and> n \<noteq> 215) then char_of (n + 32) else c)"

definition to_lower :: "string \<Rightarrow> string" where
  "to_lower s = map lower_char s"

definition upper_char :: "char \<Rightarrow> string" where
  "upper_char c =
     (let n = code_unit c in
      if n = 223 then ''SS''
      else if (97 \<le> n \<and> n \<le> 122) \<or> (224 \<le> n \<and> n \<le> 254 \<and> n \<noteq> 247) then [char_of (n - 32)]
      else [c])"

definition to_upper :: "string \<Rightarrow> string" where
  "to_upper s = concat (map upper_char s)"

text \<open>Does a text occur in another? \<open>String.prototype.includes\<close>.\<close>

fun has_text :: "string \<Rightarrow> string \<Rightarrow> bool" where
  "has_text [] t = (t = [])"
| "has_text (c # cs) t = (take (length t) (c # cs) = t \<or> has_text cs t)"

fun join :: "string \<Rightarrow> string list \<Rightarrow> string" where
  "join sep [] = []"
| "join sep [s] = s"
| "join sep (s # t # ts) = s @ sep @ join sep (t # ts)"

text \<open>UTF-8: a code unit below 128 is one byte, one of the rest of Latin-1 two.\<close>

definition utf8_char :: "char \<Rightarrow> nat list" where
  "utf8_char c =
     (let n = code_unit c in if n < 128 then [n] else [192 + n div 64, 128 + n mod 64])"

definition utf8_bytes :: "string \<Rightarrow> nat list" where
  "utf8_bytes s = concat (map utf8_char s)"

definition utf8_length :: "string \<Rightarrow> nat" where
  "utf8_length s = length (utf8_bytes s)"

subsection \<open>Facts about strings\<close>

lemma code_unit_bound [simp]: "code_unit c < 256"
  using of_char_eq_iff by simp

lemma lower_char_idem [simp]: "lower_char (lower_char c) = lower_char c"
  by (auto simp: lower_char_def Let_def)

lemma to_lower_idem [simp]: "to_lower (to_lower s) = to_lower s"
  by (simp add: to_lower_def)

lemma to_lower_Nil [simp]: "to_lower s = [] \<longleftrightarrow> s = []"
  by (simp add: to_lower_def)

lemma to_lower_append [simp]: "to_lower (s @ t) = to_lower s @ to_lower t"
  by (simp add: to_lower_def)

lemma dropWhile_idem [simp]: "dropWhile P (dropWhile P xs) = dropWhile P xs"
  by (induction xs) auto

lemma dropWhile_rev_dropWhile:
  "dropWhile P xs = xs \<Longrightarrow> dropWhile P (rev (dropWhile P (rev xs))) = rev (dropWhile P (rev xs))"
proof (cases xs)
  case (Cons x ys)
  assume "dropWhile P xs = xs"
  with Cons have x: "\<not> P x"
    by (auto split: if_splits) (metis impossible_Cons length_dropWhile_le)
  have "\<exists>zs. dropWhile P (rev xs) = zs @ [x]"
    using Cons x by (auto simp: dropWhile_append)
  with x show ?thesis by auto
qed simp

lemma trim_idem [simp]: "trim (trim s) = trim s"
proof -
  let ?t = "dropWhile is_space s"
  have "dropWhile is_space (rev (dropWhile is_space (rev ?t))) = rev (dropWhile is_space (rev ?t))"
    by (rule dropWhile_rev_dropWhile) simp
  then show ?thesis by (simp add: trim_def)
qed

lemma trim_Nil_iff: "trim s = [] \<longleftrightarrow> (\<forall>c \<in> set s. is_space c)"
proof -
  have "trim s = [] \<longleftrightarrow> (\<forall>c \<in> set (dropWhile is_space s). is_space c)"
    by (simp add: trim_def)
  also have "\<dots> \<longleftrightarrow> (\<forall>c \<in> set s. is_space c)"
    by (induction s) auto
  finally show ?thesis .
qed

lemma trim_empty [simp]: "trim [] = []"
  by (simp add: trim_def)

lemma join_single_iff [simp]: "join sep [s] = s"
  by simp

lemma join_append_single: "xs \<noteq> [] \<Longrightarrow> join sep (xs @ [s]) = join sep xs @ sep @ s"
  by (induction sep xs rule: join.induct) auto

lemma has_text_prefix: "has_text (t @ ys) t"
proof (cases "t @ ys")
  case (Cons c cs)
  have "take (length t) (t @ ys) = t" by simp
  with Cons show ?thesis by simp
qed simp

lemma has_text_append: "has_text (xs @ t @ ys) t"
  by (induction xs) (auto simp: has_text_prefix)

lemma utf8_length_Nil [simp]: "utf8_length [] = 0"
  by (simp add: utf8_length_def utf8_bytes_def)

lemma utf8_length_append [simp]: "utf8_length (s @ t) = utf8_length s + utf8_length t"
  by (simp add: utf8_length_def utf8_bytes_def)

lemma utf8_length_bounds: "length s \<le> utf8_length s \<and> utf8_length s \<le> 2 * length s"
  by (induction s) (auto simp: utf8_length_def utf8_bytes_def utf8_char_def Let_def)

lemma utf8_bytes_are_bytes: "b \<in> set (utf8_bytes s) \<Longrightarrow> b < 256"
proof (induction s)
  case (Cons c s)
  have "n < 256 \<Longrightarrow> 192 + n div 64 < 256" for n :: nat
    by simp
  moreover have "128 + n mod 64 < 256" for n :: nat
    by (simp add: less_trans [of _ "64"])
  ultimately show ?case
    using Cons by (auto simp: utf8_bytes_def utf8_char_def Let_def split: if_splits)
qed (simp add: utf8_bytes_def)

section \<open>Numbers\<close>

datatype number = NumNaN | NumInfinity bool | NumInt int | NumDec int nat

definition is_finite :: "number \<Rightarrow> bool" where
  "is_finite n = (case n of NumInt _ \<Rightarrow> True | NumDec _ _ \<Rightarrow> True | _ \<Rightarrow> False)"

definition is_integer :: "number \<Rightarrow> bool" where
  "is_integer n = (case n of NumInt _ \<Rightarrow> True | _ \<Rightarrow> False)"

definition is_safe_integer :: "number \<Rightarrow> bool" where
  "is_safe_integer n = (case n of NumInt i \<Rightarrow> \<bar>i\<bar> \<le> 9007199254740991 | _ \<Rightarrow> False)"

text \<open>Comparisons with an integer constant; every comparison with NaN is false.\<close>

fun num_less :: "number \<Rightarrow> int \<Rightarrow> bool" where
  "num_less NumNaN c = False"
| "num_less (NumInfinity neg) c = neg"
| "num_less (NumInt i) c = (i < c)"
| "num_less (NumDec m k) c = (m < c * 10 ^ k)"

fun num_greater :: "number \<Rightarrow> int \<Rightarrow> bool" where
  "num_greater NumNaN c = False"
| "num_greater (NumInfinity neg) c = (\<not> neg)"
| "num_greater (NumInt i) c = (c < i)"
| "num_greater (NumDec m k) c = (c * 10 ^ k < m)"

fun num_eq :: "number \<Rightarrow> int \<Rightarrow> bool" where
  "num_eq (NumInt i) c = (i = c)"
| "num_eq _ c = False"

definition num_le :: "number \<Rightarrow> int \<Rightarrow> bool" where
  "num_le n c \<longleftrightarrow> n \<noteq> NumNaN \<and> \<not> num_greater n c"

definition num_ge :: "number \<Rightarrow> int \<Rightarrow> bool" where
  "num_ge n c \<longleftrightarrow> n \<noteq> NumNaN \<and> \<not> num_less n c"

definition digit_char :: "nat \<Rightarrow> char" where
  "digit_char d = char_of (48 + d)"

fun nat_str :: "nat \<Rightarrow> string" where
  "nat_str n = (if n < 10 then [digit_char n] else nat_str (n div 10) @ [digit_char (n mod 10)])"

declare nat_str.simps [simp del]

text \<open>The mantissa of the exponent form: one digit, then the rest behind a point.\<close>

definition mantissa_str :: "string \<Rightarrow> string" where
  "mantissa_str ds = (case ds of [] \<Rightarrow> [] | [d] \<Rightarrow> [d] | d # rest \<Rightarrow> d # ''.'' @ rest)"

definition sign_str :: "int \<Rightarrow> string" where
  "sign_str i = (if i < 0 then ''-'' else [])"

definition number_string :: "number \<Rightarrow> string" where
  "number_string n = (case n of
      NumNaN \<Rightarrow> ''NaN''
    | NumInfinity neg \<Rightarrow> (if neg then ''-Infinity'' else ''Infinity'')
    | NumInt i \<Rightarrow>
        (let ds = nat_str (nat \<bar>i\<bar>) in
         sign_str i @
         (if length ds \<le> 21 then ds
          else mantissa_str (rev (dropWhile (\<lambda>c. c = CHR ''0'') (rev ds)))
               @ ''e+'' @ nat_str (length ds - 1)))
    | NumDec m k \<Rightarrow>
        (let ds = nat_str (nat \<bar>m\<bar>); p = int (length ds) - int k in
         sign_str m @
         (if 0 < p then take (nat p) ds @ ''.'' @ drop (nat p) ds
          else if -6 < p then ''0.'' @ replicate (nat (- p)) (CHR ''0'') @ ds
          else mantissa_str ds @ ''e-'' @ nat_str (nat (1 - p)))))"

section \<open>Values\<close>

text \<open>
  An entry of a \<open>Headers\<close> object (\<open>HeaderStoreEntry\<close>); its store is a map from normalised names to
  entries, in insertion order.
\<close>

record HeaderStoreEntry =
  entry_name :: string
  entry_values :: "string list"

type_synonym header_store = "(string \<times> HeaderStoreEntry) list"

type_synonym HeaderTuple = "string \<times> string"

text \<open>
  \<open>JObject\<close> is a plain object with its own enumerable properties in the order \<open>Object.entries\<close>
  lists them; \<open>JHeaders\<close> an instance of the program's \<open>Headers\<close>; \<open>JIterable\<close> any other iterable that
  is not an array (with the text \<open>String\<close> gives for it and the values it yields); \<open>JInstance\<close> any
  other object (its class and its text); \<open>JFunction\<close> a function (its text).
\<close>

datatype jsval =
    JUndefined
  | JNull
  | JBool bool
  | JNumber number
  | JString string
  | JArray "jsval list"
  | JObject "(string \<times> jsval) list"
  | JHeaders header_store
  | JIterable string "jsval list"
  | JInstance string string
  | JFunction string

type_synonym props = "(string \<times> jsval) list"

fun truthy :: "jsval \<Rightarrow> bool" where
  "truthy JUndefined = False"
| "truthy JNull = False"
| "truthy (JBool b) = b"
| "truthy (JNumber n) = (n \<noteq> NumNaN \<and> n \<noteq> NumInt 0)"
| "truthy (JString s) = (s \<noteq> [])"
| "truthy _ = True"

definition nullish :: "jsval \<Rightarrow> bool" where
  "nullish v \<longleftrightarrow> v = JUndefined \<or> v = JNull"

text \<open>\<open>String(value)\<close>; inside an array's text, undefined and null are empty.\<close>

fun js_string :: "jsval \<Rightarrow> string" where
  "js_string JUndefined = ''undefined''"
| "js_string JNull = ''null''"
| "js_string (JBool b) = (if b then ''true'' else ''false'')"
| "js_string (JNumber n) = number_string n"
| "js_string (JString s) = s"
| "js_string (JArray vs) =
     join '','' (map (\<lambda>v. if nullish v then [] else js_string v) vs)"
| "js_string (JObject ps) = ''[object Object]''"
| "js_string (JHeaders st) = ''[object Object]''"
| "js_string (JIterable s vs) = s"
| "js_string (JInstance c s) = s"
| "js_string (JFunction s) = s"

definition is_string :: "jsval \<Rightarrow> bool" where
  "is_string v = (case v of JString _ \<Rightarrow> True | _ \<Rightarrow> False)"

definition is_array :: "jsval \<Rightarrow> bool" where
  "is_array v = (case v of JArray _ \<Rightarrow> True | _ \<Rightarrow> False)"

text \<open>\<open>typeof value === "object" && value !== null\<close>.\<close>

fun is_object :: "jsval \<Rightarrow> bool" where
  "is_object (JArray _) = True"
| "is_object (JObject _) = True"
| "is_object (JHeaders _) = True"
| "is_object (JIterable _ _) = True"
| "is_object (JInstance _ _) = True"
| "is_object _ = False"

text \<open>\<open>isPlainObject\<close>: an object whose prototype is \<open>Object.prototype\<close> or null.\<close>

definition isPlainObject :: "jsval \<Rightarrow> bool" where
  "isPlainObject v \<longleftrightarrow> is_object v \<and> (case v of JObject _ \<Rightarrow> True | _ \<Rightarrow> False)"

definition coerceHeaderValue :: "jsval \<Rightarrow> string" where
  "coerceHeaderValue v = js_string v"

lemma isPlainObject_simps [simp]:
  "isPlainObject (JObject ps)" "\<not> isPlainObject JUndefined" "\<not> isPlainObject JNull"
  "\<not> isPlainObject (JArray vs)" "\<not> isPlainObject (JString s)" "\<not> isPlainObject (JHeaders st)"
  by (auto simp: isPlainObject_def)

lemma isPlainObject_iff: "isPlainObject v \<longleftrightarrow> (\<exists>ps. v = JObject ps)"
  by (cases v) (auto simp: isPlainObject_def)

lemma nullish_simps [simp]: "nullish JUndefined" "nullish JNull" "\<not> nullish (JString s)"
  "\<not> nullish (JBool b)" "\<not> nullish (JNumber n)" "\<not> nullish (JArray vs)" "\<not> nullish (JObject ps)"
  by (auto simp: nullish_def)

section \<open>Errors and results\<close>

text \<open>
  The errors the program throws or passes on: its own \<open>RequestError\<close> (src/src/types.ts), the
  built-in \<open>TypeError\<close> and \<open>Error\<close>, and an error named \<open>AbortError\<close>.
\<close>

datatype js_error =
    RequestError string
  | TypeError string
  | PlainError string
  | AbortError string

fun error_message :: "js_error \<Rightarrow> string" where
  "error_message (RequestError m) = m"
| "error_message (TypeError m) = m"
| "error_message (PlainError m) = m"
| "error_message (AbortError m) = m"

fun error_name :: "js_error \<Rightarrow> string" where
  "error_name (RequestError m) = ''RequestError''"
| "error_name (TypeError m) = ''TypeError''"
| "error_name (PlainError m) = ''Error''"
| "error_name (AbortError m) = ''AbortError''"

text \<open>\<open>String(error)\<close>.\<close>

definition error_string :: "js_error \<Rightarrow> string" where
  "error_string e =
     (if error_message e = [] then error_name e else error_name e @ '': '' @ error_message e)"

type_synonym 'a res = "js_error + 'a"

definition res_bind :: "'a res \<Rightarrow> ('a \<Rightarrow> 'b res) \<Rightarrow> 'b res" where
  "res_bind m f = (case m of Inl e \<Rightarrow> Inl e | Inr x \<Rightarrow> f x)"

lemma res_bind_simps [simp, js_simps]:
  "res_bind (Inl e) f = Inl e"
  "res_bind (Inr x) f = f x"
  by (simp_all add: res_bind_def)

lemma res_bind_Inr_id [simp]: "res_bind m Inr = m"
  by (cases m) auto

lemma res_bind_Inr_iff: "res_bind m f = Inr y \<longleftrightarrow> (\<exists>x. m = Inr x \<and> f x = Inr y)"
  by (cases m) auto

lemma res_bind_Inl_iff:
  "res_bind m f = Inl e \<longleftrightarrow> m = Inl e \<or> (\<exists>x. m = Inr x \<and> f x = Inl e)"
  by (cases m) auto

lemma res_bind_InrE [elim!]:
  assumes "res_bind m f = Inr y"
  obtains x where "m = Inr x" "f x = Inr y"
  using assms by (cases m) auto

lemma res_bind_assoc: "res_bind (res_bind m f) g = res_bind m (\<lambda>x. res_bind (f x) g)"
  by (cases m) auto

lemma res_bind_cong [fundef_cong]:
  "m = m' \<Longrightarrow> (\<And>x. m' = Inr x \<Longrightarrow> f x = f' x) \<Longrightarrow> res_bind m f = res_bind m' f'"
  by (cases m') auto

text \<open>A guard that throws, and \<open>catch\<close> that rethrows a changed error.\<close>

definition throw_if :: "bool \<Rightarrow> js_error \<Rightarrow> unit res" where
  "throw_if b e = (if b then Inl e else Inr ())"

lemma throw_if_simps [simp, js_simps]:
  "throw_if True e = Inl e" "throw_if False e = Inr ()"
  "(throw_if b e = Inr u) = (\<not> b)" "(throw_if b e = Inl e') = (b \<and> e' = e)"
  by (auto simp: throw_if_def)

definition rewrap :: "'a res \<Rightarrow> 'a res" where
  "rewrap m = (case m of Inl e \<Rightarrow> Inl (RequestError (error_string e)) | Inr x \<Rightarrow> Inr x)"

lemma rewrap_simps [simp, js_simps]:
  "rewrap (Inl e) = Inl (RequestError (error_string e))"
  "rewrap (Inr x) = Inr x"
  "(rewrap m = Inr y) = (m = Inr y)"
  by (auto simp: rewrap_def split: sum.splits)

text \<open>\<open>for (const x of xs)\<close> whose body may throw and updates an accumulator.\<close>

fun res_foldl :: "('s \<Rightarrow> 'a \<Rightarrow> 's res) \<Rightarrow> 's \<Rightarrow> 'a list \<Rightarrow> 's res" where
  "res_foldl f s [] = Inr s"
| "res_foldl f s (x # xs) = res_bind (f s x) (\<lambda>s'. res_foldl f s' xs)"

lemma res_foldl_append [simp]:
  "res_foldl f s (xs @ ys) = res_bind (res_foldl f s xs) (\<lambda>s'. res_foldl f s' ys)"
  by (induction xs arbitrary: s) (simp_all add: res_bind_assoc)

lemma res_foldl_inv:
  assumes "res_foldl f s xs = Inr s'" "P s"
    and "\<And>s x s'. P s \<Longrightarrow> x \<in> set xs \<Longrightarrow> f s x = Inr s' \<Longrightarrow> P s'"
  shows "P s'"
  using assms
proof (induction xs arbitrary: s)
  case (Cons x xs)
  from Cons.prems(1) obtain t where "f s x = Inr t" "res_foldl f t xs = Inr s'"
    by auto
  with Cons show ?case by (metis list.set_intros)
qed simp

text \<open>A checking loop: the first element that fails throws.\<close>

fun res_all :: "('a \<Rightarrow> unit res) \<Rightarrow> 'a list \<Rightarrow> unit res" where
  "res_all f [] = Inr ()"
| "res_all f (x # xs) = res_bind (f x) (\<lambda>_. res_all f xs)"

lemma res_all_Inr_iff: "res_all f xs = Inr u \<longleftrightarrow> (\<forall>x \<in> set xs. f x = Inr ())"
  by (induction xs) (auto simp: res_bind_Inr_iff)

section \<open>Properties of objects\<close>

definition lookup :: "props \<Rightarrow> string \<Rightarrow> jsval" where
  "lookup ps k = (case map_of ps k of Some v \<Rightarrow> v | None \<Rightarrow> JUndefined)"

text \<open>
  \<open>value.k\<close>: reading a property of undefined or null throws, reading an absent one gives undefined.
  The keys the program reads are not inherited from any built-in prototype.
\<close>

definition get_prop :: "jsval \<Rightarrow> string \<Rightarrow> jsval res" where
  "get_prop v k = (case v of
      JUndefined \<Rightarrow> Inl (TypeError (''Cannot read properties of undefined (reading '' @ k @ '')''))
    | JNull \<Rightarrow> Inl (TypeError (''Cannot read properties of null (reading '' @ k @ '')''))
    | JObject ps \<Rightarrow> Inr (lookup ps k)
    | _ \<Rightarrow> Inr JUndefined)"

lemma get_prop_JObject [simp]: "get_prop (JObject ps) k = Inr (lookup ps k)"
  by (simp add: get_prop_def)

lemma lookup_Nil [simp]: "lookup [] k = JUndefined"
  by (simp add: lookup_def)

lemma lookup_Cons [simp]: "lookup ((k', v) # ps) k = (if k = k' then v else lookup ps k)"
  by (simp add: lookup_def)

lemma lookup_append:
  "lookup (ps @ qs) k = (if k \<in> fst ` set ps then lookup ps k else lookup qs k)"
  by (induction ps) (auto simp: rev_image_eqI)

lemma lookup_notin [simp]: "k \<notin> fst ` set ps \<Longrightarrow> lookup ps k = JUndefined"
  by (induction ps) auto

lemma lookup_in: "distinct (map fst ps) \<Longrightarrow> (k, v) \<in> set ps \<Longrightarrow> lookup ps k = v"
  by (simp add: lookup_def)

text \<open>The optional boolean of a typed option: absent or a boolean.\<close>

definition opt_default :: "'a option \<Rightarrow> 'a \<Rightarrow> 'a" where
  "opt_default x d = (case x of None \<Rightarrow> d | Some y \<Rightarrow> y)"

definition opt_or :: "'a option \<Rightarrow> 'a option \<Rightarrow> 'a option" where
  "opt_or x y = (case x of None \<Rightarrow> y | Some _ \<Rightarrow> x)"

lemma opt_simps [simp]:
  "opt_default None d = d" "opt_default (Some y) d = y"
  "opt_or None z = z" "opt_or (Some y) z = Some y"
  by (simp_all add: opt_default_def opt_or_def)

end
