(* ===== verification/JsMap.thy ===== *)
theory JsMap
  imports JsPrelude
begin

text \<open>
  JavaScript's \<open>Map\<close>: insertion-ordered, with \<open>set\<close> keeping the place of a key that is already
  there. The program keeps its header stores, its event listeners and its cookie records in such
  maps. The laws clients use are the locale \<open>js_map\<close>, stated over a lookup, a key list and an
  invariant; \<open>om\<close> interprets it on association lists.
\<close>

section \<open>The operations\<close>

type_synonym ('k, 'v) omap = "('k \<times> 'v) list"

definition om_get :: "('k, 'v) omap \<Rightarrow> 'k \<Rightarrow> 'v option" where
  "om_get m k = map_of m k"

definition om_has :: "('k, 'v) omap \<Rightarrow> 'k \<Rightarrow> bool" where
  "om_has m k \<longleftrightarrow> om_get m k \<noteq> None"

fun om_set :: "('k, 'v) omap \<Rightarrow> 'k \<Rightarrow> 'v \<Rightarrow> ('k, 'v) omap" where
  "om_set [] k v = [(k, v)]"
| "om_set ((k', v') # m) k v = (if k' = k then (k', v) # m else (k', v') # om_set m k v)"

definition om_delete :: "('k, 'v) omap \<Rightarrow> 'k \<Rightarrow> ('k, 'v) omap" where
  "om_delete m k = filter (\<lambda>e. fst e \<noteq> k) m"

definition om_keys :: "('k, 'v) omap \<Rightarrow> 'k list" where
  "om_keys m = map fst m"

definition om_values :: "('k, 'v) omap \<Rightarrow> 'v list" where
  "om_values m = map snd m"

definition om_ok :: "('k, 'v) omap \<Rightarrow> bool" where
  "om_ok m \<longleftrightarrow> distinct (om_keys m)"

section \<open>The contract\<close>

locale js_map =
  fixes empty :: "'m"
    and get :: "'m \<Rightarrow> 'k \<Rightarrow> 'v option"
    and put :: "'m \<Rightarrow> 'k \<Rightarrow> 'v \<Rightarrow> 'm"
    and remove :: "'m \<Rightarrow> 'k \<Rightarrow> 'm"
    and keys :: "'m \<Rightarrow> 'k list"
    and ok :: "'m \<Rightarrow> bool"
  assumes keys_empty: "keys empty = []"
    and get_put: "get (put m k v) k' = (if k' = k then Some v else get m k')"
    and get_remove: "get (remove m k) k' = (if k' = k then None else get m k')"
    and get_keys: "(get m k = None) = (k \<notin> set (keys m))"
    and keys_put: "keys (put m k v) = (if k \<in> set (keys m) then keys m else keys m @ [k])"
    and keys_remove: "keys (remove m k) = filter (\<lambda>k'. k' \<noteq> k) (keys m)"
    and ok_keys: "ok m = distinct (keys m)"
begin

lemma ok_empty: "ok empty"
  by (simp add: ok_keys keys_empty)

lemma ok_put: "ok m \<Longrightarrow> ok (put m k v)"
  by (simp add: ok_keys keys_put)

lemma ok_remove: "ok m \<Longrightarrow> ok (remove m k)"
  by (simp add: ok_keys keys_remove)

lemma get_empty: "get empty k = None"
  by (simp add: get_keys keys_empty)

lemma keys_put_order: "\<exists>ks. keys (put m k v) = keys m @ ks"
  by (simp add: keys_put)

lemma in_keys_put: "k' \<in> set (keys (put m k v)) \<longleftrightarrow> k' = k \<or> k' \<in> set (keys m)"
  by (auto simp: keys_put)

end

section \<open>Association lists provide it\<close>

lemma om_get_simps [simp]:
  "om_get [] k = None"
  "om_get ((k', v) # m) k = (if k = k' then Some v else om_get m k)"
  by (auto simp: om_get_def)

lemma om_get_None_iff: "om_get m k = None \<longleftrightarrow> k \<notin> set (om_keys m)"
  by (simp add: om_get_def om_keys_def map_of_eq_None_iff)

lemma om_get_set: "om_get (om_set m k v) k' = (if k' = k then Some v else om_get m k')"
  by (induction m k v rule: om_set.induct) auto

lemma om_get_delete: "om_get (om_delete m k) k' = (if k' = k then None else om_get m k')"
  by (induction m) (auto simp: om_delete_def)

lemma om_keys_set:
  "om_keys (om_set m k v) = (if k \<in> set (om_keys m) then om_keys m else om_keys m @ [k])"
  by (induction m k v rule: om_set.induct) (auto simp: om_keys_def)

lemma om_keys_delete: "om_keys (om_delete m k) = filter (\<lambda>k'. k' \<noteq> k) (om_keys m)"
  by (simp add: om_delete_def om_keys_def filter_map comp_def)

interpretation om: js_map "[]" om_get om_set om_delete om_keys om_ok
  by unfold_locales
    (simp_all add: om_get_set om_get_delete om_get_None_iff om_keys_set om_keys_delete om_ok_def
      om_keys_def [of "[]"])

lemmas om_laws = om_get_set om_get_delete om_keys_set om_keys_delete om.ok_put om.ok_remove

lemma om_ok_simps [simp]:
  "om_ok []"
  "om_ok ((k, v) # m) \<longleftrightarrow> k \<notin> set (om_keys m) \<and> om_ok m"
  by (auto simp: om_ok_def om_keys_def)

lemma om_keys_simps [simp]: "om_keys [] = []" "om_keys (e # m) = fst e # om_keys m"
  "om_keys (m @ m') = om_keys m @ om_keys m'"
  by (simp_all add: om_keys_def)

lemma om_set_fresh: "k \<notin> set (om_keys m) \<Longrightarrow> om_set m k v = m @ [(k, v)]"
  by (induction m k v rule: om_set.induct) auto

lemma om_set_in:
  "k \<in> set (om_keys m) \<Longrightarrow> om_ok m \<Longrightarrow> om_set m k v = map (\<lambda>e. if fst e = k then (k, v) else e) m"
proof (induction m k v rule: om_set.induct)
  case (2 k' v' m k v)
  have "k \<notin> set (om_keys m) \<Longrightarrow> map (\<lambda>e. if fst e = k then (k, v) else e) m = m"
    by (induction m) auto
  with 2 show ?case by auto
qed simp

lemma om_get_in: "om_ok m \<Longrightarrow> (k, v) \<in> set m \<Longrightarrow> om_get m k = Some v"
  by (simp add: om_get_def om_ok_def om_keys_def)

lemma om_get_Some_in: "om_get m k = Some v \<Longrightarrow> (k, v) \<in> set m"
  by (simp add: om_get_def map_of_SomeD)

lemma set_om_set: "set (om_set m k v) \<subseteq> insert (k, v) (set m)"
  by (induction m k v rule: om_set.induct) auto

lemma set_om_delete: "set (om_delete m k) \<subseteq> set m"
  by (auto simp: om_delete_def)

lemma om_set_lookup: "lookup (om_set ps k v) k' = (if k' = k then v else lookup ps k')"
  by (induction ps k v rule: om_set.induct) auto

end
