(* ===== verification/Validation.thy ===== *)
theory Validation
  imports JsMap
begin

text \<open>
  The scalar checks of src/src/wreq-js.ts: URLs, methods, timeouts, trust stores, numeric options and
  the resolve map. Every check returns \<open>Inr ()\<close> or the error it throws; the lemmas say exactly which
  values pass, and that the two fast paths (\<open>coerceUrlInput\<close>, \<open>ensureMethod\<close>) agree with the slow ones.
\<close>

section \<open>URLs, redirect modes and methods\<close>

datatype url_input = UrlString string | UrlObject string

text \<open>\<open>charCodeAt(0) > 32\<close> and the same of the last code unit, for a non-empty string.\<close>

definition no_blank_ends :: "string \<Rightarrow> bool" where
  "no_blank_ends s \<longleftrightarrow> s \<noteq> [] \<and> code_unit (hd s) > 32 \<and> code_unit (last s) > 32"

definition coerceUrlInput :: "url_input \<Rightarrow> string res" where
  "coerceUrlInput input = (case input of
      UrlObject href \<Rightarrow> Inr href
    | UrlString s \<Rightarrow>
        (if length s = 0 then Inl (RequestError ''URL is required'')
         else if no_blank_ends s then Inr s
         else (let trimmed = trim s in
               if length trimmed = 0 then Inl (RequestError ''URL is required'')
               else Inr trimmed)))"

definition validateRedirectMode :: "string option \<Rightarrow> unit res" where
  "validateRedirectMode mode = (case mode of
      None \<Rightarrow> Inr ()
    | Some m \<Rightarrow>
        (if m = ''follow'' \<or> m = ''manual'' \<or> m = ''error'' then Inr ()
         else Inl (RequestError (''Redirect mode '' @ squote @ m @ squote @ '' is not supported''))))"

definition ensureMethod :: "string option \<Rightarrow> string" where
  "ensureMethod m = (case m of
      None \<Rightarrow> ''GET''
    | Some s \<Rightarrow>
        (if length s = 0 then ''GET''
         else if s \<in> {''GET'', ''POST'', ''PUT'', ''DELETE'', ''PATCH'', ''HEAD'', ''OPTIONS''} then s
         else (let normalized = to_upper (trim s) in
               if length normalized > 0 then normalized else ''GET'')))"

definition ensureBodyAllowed :: "string \<Rightarrow> nat list option \<Rightarrow> unit res" where
  "ensureBodyAllowed m body =
     (if body = None then Inr ()
      else throw_if (m = ''GET'' \<or> m = ''HEAD'')
             (RequestError (''Request with '' @ m @ '' method cannot have a body'')))"

section \<open>Numbers and enumerations\<close>

definition validateTimeout :: "jsval \<Rightarrow> unit res" where
  "validateTimeout timeout = (case timeout of
      JUndefined \<Rightarrow> Inr ()
    | JNumber n \<Rightarrow>
        (if \<not> is_finite n then Inl (RequestError ''Timeout must be a finite number'')
         else throw_if (num_less n 0)
                (RequestError ''Timeout must be 0 (no timeout) or a positive number''))
    | _ \<Rightarrow> Inl (RequestError ''Timeout must be a finite number''))"

definition validateTrustStore :: "jsval \<Rightarrow> unit res" where
  "validateTrustStore trustStore =
     (if trustStore = JUndefined then Inr ()
      else throw_if (trustStore \<noteq> JString ''combined'' \<and> trustStore \<noteq> JString ''mozilla''
                     \<and> trustStore \<noteq> JString ''defaultPaths'')
             (RequestError ''trustStore must be one of: combined, mozilla, defaultPaths''))"

definition validatePositiveNumber :: "jsval \<Rightarrow> string \<Rightarrow> unit res" where
  "validatePositiveNumber v label = (case v of
      JNumber n \<Rightarrow>
        (if \<not> is_finite n then Inl (RequestError (label @ '' must be a finite number''))
         else throw_if (num_le n 0) (RequestError (label @ '' must be greater than 0'')))
    | _ \<Rightarrow> Inl (RequestError (label @ '' must be a finite number'')))"

definition validateNonNegativeInteger :: "jsval \<Rightarrow> string \<Rightarrow> unit res" where
  "validateNonNegativeInteger v label = (case v of
      JNumber n \<Rightarrow>
        (if \<not> is_finite n \<or> \<not> is_integer n then Inl (RequestError (label @ '' must be an integer''))
         else throw_if (num_less n 0) (RequestError (label @ '' must be greater than or equal to 0'')))
    | _ \<Rightarrow> Inl (RequestError (label @ '' must be an integer'')))"

definition validatePositiveInteger :: "jsval \<Rightarrow> string \<Rightarrow> unit res" where
  "validatePositiveInteger v label = (case v of
      JNumber n \<Rightarrow>
        (if \<not> is_finite n \<or> \<not> is_integer n then Inl (RequestError (label @ '' must be an integer''))
         else throw_if (num_le n 0) (RequestError (label @ '' must be greater than 0'')))
    | _ \<Rightarrow> Inl (RequestError (label @ '' must be an integer'')))"

definition validateIntegerInRange :: "jsval \<Rightarrow> int \<Rightarrow> int \<Rightarrow> string \<Rightarrow> unit res" where
  "validateIntegerInRange v mn mx label =
     res_bind (validateNonNegativeInteger v label) (\<lambda>_. case v of
        JNumber n \<Rightarrow>
          throw_if (num_less n mn \<or> num_greater n mx)
            (RequestError (label @ '' must be between '' @ number_string (NumInt mn) @ '' and ''
               @ number_string (NumInt mx)))
      | _ \<Rightarrow> Inr ())"

section \<open>The resolve map\<close>

text \<open>
  \<open>Object.entries\<close>: a plain object's properties; a \<open>Headers\<close> has the one property its class declares,
  the other objects of the model have none.
\<close>

definition object_entries :: "jsval \<Rightarrow> props" where
  "object_entries v = (case v of
      JObject ps \<Rightarrow> ps
    | JHeaders st \<Rightarrow> [(''store'', JIterable ''[object Map]'' [])]
    | _ \<Rightarrow> [])"

definition check_address :: "string \<Rightarrow> jsval \<Rightarrow> unit res" where
  "check_address host address =
     throw_if (case address of JString s \<Rightarrow> trim s = [] | _ \<Rightarrow> True)
       (RequestError (''resolve['' @ squote @ host @ squote @ ''] addresses must be non-empty strings''))"

definition check_host :: "string \<times> jsval \<Rightarrow> unit res" where
  "check_host e =
     (let (host, v) = e; addresses = (case v of JArray vs \<Rightarrow> vs | _ \<Rightarrow> [v]) in
      if length addresses = 0
      then Inl (RequestError (''resolve['' @ squote @ host @ squote @ ''] must provide at least one address''))
      else res_all (check_address host) addresses)"

definition validateResolve :: "jsval \<Rightarrow> unit res" where
  "validateResolve r =
     (if \<not> is_object r \<or> is_array r
      then Inl (RequestError ''resolve must be an object mapping hosts to addresses'')
      else res_all check_host (object_entries r))"

section \<open>Which values pass\<close>

lemma validateTimeout_iff [js_simps]:
  "validateTimeout v = Inr () \<longleftrightarrow>
     v = JUndefined \<or> (\<exists>n. v = JNumber n \<and> is_finite n \<and> \<not> num_less n 0)"
  by (auto simp: validateTimeout_def split: jsval.splits)

lemma validateTrustStore_iff [js_simps]:
  "validateTrustStore v = Inr () \<longleftrightarrow>
     v \<in> {JUndefined, JString ''combined'', JString ''mozilla'', JString ''defaultPaths''}"
  by (auto simp: validateTrustStore_def throw_if_def split: if_splits)

lemma validatePositiveNumber_iff [js_simps]:
  "validatePositiveNumber v label = Inr () \<longleftrightarrow>
     (\<exists>n. v = JNumber n \<and> is_finite n \<and> num_greater n 0)"
  by (auto simp: validatePositiveNumber_def num_le_def is_finite_def
      split: jsval.splits number.splits)

lemma validateNonNegativeInteger_iff [js_simps]:
  "validateNonNegativeInteger v label = Inr () \<longleftrightarrow> (\<exists>i. v = JNumber (NumInt i) \<and> 0 \<le> i)"
  by (auto simp: validateNonNegativeInteger_def is_finite_def is_integer_def
      split: jsval.splits number.splits)

lemma validatePositiveInteger_iff [js_simps]:
  "validatePositiveInteger v label = Inr () \<longleftrightarrow> (\<exists>i. v = JNumber (NumInt i) \<and> 0 < i)"
  by (auto simp: validatePositiveInteger_def is_finite_def is_integer_def num_le_def
      split: jsval.splits number.splits)

lemma validateIntegerInRange_iff [js_simps]:
  "0 \<le> mn \<Longrightarrow> validateIntegerInRange v mn mx label = Inr () \<longleftrightarrow>
     (\<exists>i. v = JNumber (NumInt i) \<and> mn \<le> i \<and> i \<le> mx)"
  by (auto simp: validateIntegerInRange_def res_bind_Inr_iff validateNonNegativeInteger_iff)

definition address_ok :: "jsval \<Rightarrow> bool" where
  "address_ok a = (case a of JString s \<Rightarrow> trim s \<noteq> [] | _ \<Rightarrow> False)"

lemma check_address_iff [js_simps]: "check_address host a = Inr () \<longleftrightarrow> address_ok a"
  by (simp add: check_address_def address_ok_def split: jsval.splits)

lemma check_host_iff [js_simps]:
  "check_host (host, v) = Inr () \<longleftrightarrow>
     (case v of JArray vs \<Rightarrow> vs \<noteq> [] \<and> list_all address_ok vs | _ \<Rightarrow> address_ok v)"
  by (auto simp: check_host_def res_all_Inr_iff check_address_iff list_all_iff split: jsval.splits)

lemma validateResolve_JObject [js_simps]:
  "validateResolve (JObject ps) = Inr () \<longleftrightarrow> (\<forall>e \<in> set ps. check_host e = Inr ())"
  by (simp add: validateResolve_def is_array_def object_entries_def res_all_Inr_iff)

section \<open>The fast paths\<close>

lemma dropWhile_hd: "xs \<noteq> [] \<Longrightarrow> \<not> P (hd xs) \<Longrightarrow> dropWhile P xs = xs"
  by (cases xs) auto

lemma trim_no_space_ends: "s \<noteq> [] \<Longrightarrow> \<not> is_space (hd s) \<Longrightarrow> \<not> is_space (last s) \<Longrightarrow> trim s = s"
  by (simp add: trim_def dropWhile_hd hd_rev)

lemmas is_space_code = is_space_def

lemma no_blank_ends_trim:
  assumes "no_blank_ends s" "code_unit (hd s) \<noteq> 160" "code_unit (last s) \<noteq> 160"
  shows "trim s = s"
  using assms by (intro trim_no_space_ends) (auto simp: no_blank_ends_def is_space_code)

lemma coerceUrlInput_slow:
  assumes "s \<noteq> []" "code_unit (hd s) \<noteq> 160" "code_unit (last s) \<noteq> 160"
  shows "coerceUrlInput (UrlString s) =
    (if trim s = [] then Inl (RequestError ''URL is required'') else Inr (trim s))"
  using assms no_blank_ends_trim [OF _ assms(2,3)]
  by (auto simp: coerceUrlInput_def Let_def)

lemma upper_char_not_Nil [simp]: "upper_char c \<noteq> []"
  by (simp add: upper_char_def Let_def)

lemma to_upper_Nil [simp]: "to_upper s = [] \<longleftrightarrow> s = []"
  by (cases s) (simp_all add: to_upper_def)

lemma to_upper_empty [simp]: "to_upper [] = []"
  by (simp add: to_upper_def)

lemma to_upper_append: "to_upper (s @ t) = to_upper s @ to_upper t"
  by (simp add: to_upper_def)

lemma upper_char_space: "d \<in> set (upper_char c) \<Longrightarrow> is_space d \<longleftrightarrow> is_space c"
  by (auto simp: upper_char_def is_space_code Let_def split: if_splits)

lemma upper_char_upper: "d \<in> set (upper_char c) \<Longrightarrow> upper_char d = [d]"
  by (auto simp: upper_char_def Let_def split: if_splits)

lemma to_upper_idem [simp]: "to_upper (to_upper s) = to_upper s"
proof -
  have "concat (map upper_char cs) = cs" if "\<forall>d \<in> set cs. upper_char d = [d]" for cs
    using that by (induction cs) auto
  moreover have "\<forall>d \<in> set (to_upper s). upper_char d = [d]"
    by (auto simp: to_upper_def dest: upper_char_upper)
  ultimately show ?thesis by (metis to_upper_def)
qed

lemma trim_to_upper_trim [simp]: "trim (to_upper (trim s)) = to_upper (trim s)"
proof (cases "trim s = []")
  case False
  let ?t = "trim s"
  have hd_t: "\<not> is_space (hd ?t)"
  proof -
    have "dropWhile is_space ?t = ?t"
      unfolding trim_def by (rule dropWhile_rev_dropWhile) simp
    then show ?thesis using False by (metis hd_dropWhile)
  qed
  have last_t: "\<not> is_space (last ?t)"
  proof -
    have "rev ?t = dropWhile is_space (rev (dropWhile is_space s))" by (simp add: trim_def)
    then show ?thesis using False by (metis hd_dropWhile hd_rev rev_is_Nil_conv)
  qed
  from False have up: "to_upper ?t \<noteq> []" by simp
  from False obtain c cs where t1: "?t = c # cs" by (cases ?t) auto
  from False obtain ds d where t2: "?t = ds @ [d]" by (cases ?t rule: rev_cases) auto
  have "hd (to_upper ?t) \<in> set (upper_char c)"
    unfolding t1 by (simp add: to_upper_def hd_append)
  moreover have "last (to_upper ?t) \<in> set (upper_char d)"
    unfolding t2 by (simp add: to_upper_def)
  moreover have "\<not> is_space c" "\<not> is_space d"
    using hd_t last_t t1 t2 by (metis list.sel(1), metis last_snoc)
  ultimately show ?thesis
    using up upper_char_space by (intro trim_no_space_ends) blast+
qed simp

lemma ensureMethod_slow:
  "ensureMethod (Some s) = (if to_upper (trim s) = [] then ''GET'' else to_upper (trim s))"
proof -
  have "list_all (\<lambda>m. to_upper (trim m) = m)
      [''GET'', ''POST'', ''PUT'', ''DELETE'', ''PATCH'', ''HEAD'', ''OPTIONS'']"
    by code_simp
  then show ?thesis
    by (auto simp: ensureMethod_def Let_def)
qed

lemma ensureMethod_not_Nil [simp]: "ensureMethod m \<noteq> []"
  by (cases m) (simp_all add: ensureMethod_slow ensureMethod_def [of None])

lemma ensureMethod_upper: "to_upper (trim (ensureMethod m)) = ensureMethod m"
proof -
  have "to_upper (trim ''GET'') = ''GET''" by code_simp
  then show ?thesis
    by (cases m) (auto simp: ensureMethod_slow ensureMethod_def [of None])
qed

section \<open>Properties\<close>

text \<open>\<open>ensureMethod\<close>'s fast path for the common methods agrees with the general path: the result is
  always the trimmed upper-case method, \<open>GET\<close> when nothing is left, and it is a fixed point.\<close>

lemma ensureMethod_spec:
  "ensureMethod (Some s) = (let m = to_upper (trim s) in if m = [] then ''GET'' else m) \<and>
   ensureMethod (Some (ensureMethod m)) = ensureMethod m"
  using ensureMethod_upper [of m] by (simp add: ensureMethod_slow Let_def)

text \<open>What \<open>coerceUrlInput\<close> returns for a string: trimmed text, or an error when nothing is left,
  except that its fast path, which only looks at the two end characters being above code 32, lets
  a string through untrimmed that begins or ends with a no-break space.\<close>

lemma coerceUrlInput_spec:
  "coerceUrlInput (UrlString s) =
    (if no_blank_ends s \<and> (code_unit (hd s) = 160 \<or> code_unit (last s) = 160) then Inr s
     else if trim s = [] then Inl (RequestError ''URL is required'')
     else Inr (trim s))"
proof (cases "no_blank_ends s \<and> (code_unit (hd s) = (160 :: nat) \<or> code_unit (last s) = (160 :: nat))")
  case True
  then show ?thesis by (auto simp: coerceUrlInput_def no_blank_ends_def)
next
  case False
  then show ?thesis
    using no_blank_ends_trim [of s] by (auto simp: coerceUrlInput_def Let_def no_blank_ends_def)
qed

text \<open>The resolve map accepted by \<open>validateResolve\<close> is exactly an object each of whose hosts has at
  least one address, all of them strings that are not blank.\<close>

lemma validateResolve_spec:
  "validateResolve (JObject ps) = Inr () \<longleftrightarrow>
    (\<forall>(host, v) \<in> set ps. case v of
        JArray vs \<Rightarrow> vs \<noteq> [] \<and> list_all address_ok vs
      | _ \<Rightarrow> address_ok v)"
  by (auto simp: validateResolve_JObject check_host_iff)

lemma validateResolve_spec_witness:
  "validateResolve (JObject [(''a.b'', JArray [JString ''1.2.3.4''])]) = Inr ()"
  using validateResolve_spec [of "[(''a.b'', JArray [JString ''1.2.3.4''])]"]
  by (simp add: address_ok_def trim_def is_space_def)

end
