(* ===== verification/Headers.thy ===== *)
theory Headers
  imports JsMap
begin

text \<open>
  The class \<open>Headers\<close> of src/src/wreq-js.ts: a case-insensitive, insertion-ordered multimap of header
  names, kept as a JavaScript map from the trimmed lower-case name to the name as first written and
  the values in order. \<open>set-cookie\<close> is the one name whose values are iterated one by one.

  The lemmas show the store invariant of every operation, what \<open>get\<close> answers after each of them, and
  that the tuples a store iterates rebuild it.
\<close>

section \<open>The operations\<close>

definition isIterable :: "jsval \<Rightarrow> bool" where
  "isIterable v \<longleftrightarrow> truthy v \<and>
     (case v of JArray _ \<Rightarrow> True | JString _ \<Rightarrow> True | JIterable _ _ \<Rightarrow> True | JHeaders _ \<Rightarrow> True
      | _ \<Rightarrow> False)"

definition normalizeName :: "jsval \<Rightarrow> (string \<times> string) res" where
  "normalizeName name = (case name of
      JString s \<Rightarrow>
        (let trimmed = trim s in
         if trimmed = [] then Inl (TypeError ''Header name must not be empty'')
         else Inr (to_lower trimmed, trimmed))
    | _ \<Rightarrow> Inl (TypeError ''Header name must be a string''))"

definition assertValue :: "jsval \<Rightarrow> string res" where
  "assertValue v =
     (if v = JUndefined \<or> v = JNull
      then Inl (TypeError ''Header value must not be null or undefined'')
      else Inr (coerceHeaderValue v))"

definition headers_append :: "header_store \<Rightarrow> jsval \<Rightarrow> jsval \<Rightarrow> header_store res" where
  "headers_append st name v =
     res_bind (normalizeName name) (\<lambda>(key, display).
     res_bind (assertValue v) (\<lambda>coerced.
     (case om_get st key of
        Some existing \<Rightarrow>
          Inr (om_set st key (existing\<lparr>entry_values := entry_values existing @ [coerced]\<rparr>))
      | None \<Rightarrow>
          Inr (om_set st key \<lparr>entry_name = display, entry_values = [coerced]\<rparr>))))"

definition headers_set :: "header_store \<Rightarrow> jsval \<Rightarrow> jsval \<Rightarrow> header_store res" where
  "headers_set st name v =
     res_bind (normalizeName name) (\<lambda>(key, display).
     res_bind (assertValue v) (\<lambda>coerced.
     Inr (om_set st key \<lparr>entry_name = display, entry_values = [coerced]\<rparr>)))"

definition headers_get :: "header_store \<Rightarrow> jsval \<Rightarrow> string option res" where
  "headers_get st name =
     res_bind (normalizeName name) (\<lambda>(key, display).
     Inr (case om_get st key of
            Some entry \<Rightarrow> Some (join '', '' (entry_values entry))
          | None \<Rightarrow> None))"

definition getSetCookie :: "header_store \<Rightarrow> string list" where
  "getSetCookie st =
     (case om_get st ''set-cookie'' of None \<Rightarrow> [] | Some entry \<Rightarrow> entry_values entry)"

definition headers_has :: "header_store \<Rightarrow> jsval \<Rightarrow> bool res" where
  "headers_has st name =
     res_bind (normalizeName name) (\<lambda>(key, display). Inr (om_has st key))"

definition headers_delete :: "header_store \<Rightarrow> jsval \<Rightarrow> header_store res" where
  "headers_delete st name =
     res_bind (normalizeName name) (\<lambda>(key, display). Inr (om_delete st key))"

definition entry_tuples :: "HeaderStoreEntry \<Rightarrow> HeaderTuple list" where
  "entry_tuples entry =
     (if to_lower (entry_name entry) = ''set-cookie''
      then map (\<lambda>v. (entry_name entry, v)) (entry_values entry)
      else [(entry_name entry, join '', '' (entry_values entry))])"

definition headers_iterator :: "header_store \<Rightarrow> HeaderTuple list" where
  "headers_iterator st = concat (map entry_tuples (om_values st))"

definition headers_keys :: "header_store \<Rightarrow> string list" where
  "headers_keys st = map (\<lambda>(name, v). name) (headers_iterator st)"

definition headers_values :: "header_store \<Rightarrow> string list" where
  "headers_values st = map (\<lambda>(name, v). v) (headers_iterator st)"

text \<open>The arguments \<open>value, name\<close> of the callback's calls, in order.\<close>

definition headers_forEach :: "header_store \<Rightarrow> (string \<times> string) list" where
  "headers_forEach st = map (\<lambda>(name, v). (v, name)) (headers_iterator st)"

text \<open>Assigning a string to \<open>__proto__\<close> of an ordinary object creates no property.\<close>

definition headers_toObject :: "header_store \<Rightarrow> (string, string) omap" where
  "headers_toObject st =
     foldl (\<lambda>result entry.
        if entry_name entry = ''__proto__'' then result
        else om_set result (entry_name entry) (join '', '' (entry_values entry)))
       [] (om_values st)"

definition toTuples :: "header_store \<Rightarrow> HeaderTuple list" where
  "toTuples st = map (\<lambda>(name, v). (name, v)) (headers_iterator st)"

definition tuple_value :: "HeaderTuple \<Rightarrow> jsval" where
  "tuple_value t = JArray [JString (fst t), JString (snd t)]"

definition tuples_value :: "HeaderTuple list \<Rightarrow> jsval" where
  "tuples_value ts = JArray (map tuple_value ts)"

text \<open>The values a \<open>for ... of\<close> loop or a destructuring pattern reads; \<open>None\<close>: not iterable.\<close>

definition js_iterate :: "jsval \<Rightarrow> jsval list option" where
  "js_iterate v = (case v of
      JArray vs \<Rightarrow> Some vs
    | JString s \<Rightarrow> Some (map (\<lambda>c. JString [c]) s)
    | JIterable _ vs \<Rightarrow> Some vs
    | JHeaders st \<Rightarrow> Some (map tuple_value (headers_iterator st))
    | _ \<Rightarrow> None)"

definition nth_or_undefined :: "jsval list \<Rightarrow> nat \<Rightarrow> jsval" where
  "nth_or_undefined vs i = (if i < length vs then vs ! i else JUndefined)"

definition destructure_pair :: "jsval \<Rightarrow> (jsval \<times> jsval) res" where
  "destructure_pair tuple = (case js_iterate tuple of
      None \<Rightarrow> Inl (TypeError ''tuple is not iterable'')
    | Some vs \<Rightarrow> Inr (nth_or_undefined vs 0, nth_or_undefined vs 1))"

definition append_tuple :: "header_store \<Rightarrow> jsval \<Rightarrow> header_store res" where
  "append_tuple st tuple =
     (if \<not> truthy tuple then Inr st
      else res_bind (destructure_pair tuple) (\<lambda>(name, v). headers_append st name v))"

definition set_property :: "header_store \<Rightarrow> string \<times> jsval \<Rightarrow> header_store res" where
  "set_property st e =
     (if nullish (snd e) then Inr st
      else headers_set st (JString (fst e)) (JString (coerceHeaderValue (snd e))))"

definition applyInit :: "header_store \<Rightarrow> jsval \<Rightarrow> header_store res" where
  "applyInit st init = (case init of
      JHeaders other \<Rightarrow>
        res_foldl (\<lambda>s (name, v). headers_append s (JString name) (JString v)) st
          (headers_iterator other)
    | _ \<Rightarrow>
        if is_array init \<or> isIterable init then
          (case js_iterate init of
             Some tuples \<Rightarrow> res_foldl append_tuple st tuples
           | None \<Rightarrow> Inr st)
        else
          (case init of
             JObject ps \<Rightarrow> res_foldl set_property st ps
           | _ \<Rightarrow> Inr st))"

text \<open>\<open>new Headers(init)\<close>.\<close>

definition Headers_new :: "jsval \<Rightarrow> header_store res" where
  "Headers_new init = (if truthy init then applyInit [] init else Inr [])"

section \<open>The store invariant\<close>

definition entry_ok :: "string \<Rightarrow> HeaderStoreEntry \<Rightarrow> bool" where
  "entry_ok k e \<longleftrightarrow>
     k = to_lower (entry_name e) \<and> entry_name e \<noteq> [] \<and> trim (entry_name e) = entry_name e \<and>
     entry_values e \<noteq> []"

definition store_ok :: "header_store \<Rightarrow> bool" where
  "store_ok st \<longleftrightarrow> om_ok st \<and> list_all (\<lambda>(k, e). entry_ok k e) st"

lemma store_ok_Nil [simp]: "store_ok []"
  by (simp add: store_ok_def)

lemma normalizeName_Inr:
  "normalizeName name = Inr (k, d) \<longleftrightarrow>
     (\<exists>s. name = JString s \<and> d = trim s \<and> d \<noteq> [] \<and> k = to_lower d)"
  by (auto simp: normalizeName_def Let_def split: jsval.splits)

lemma normalizeName_JString:
  "normalizeName (JString s) =
     (if trim s = [] then Inl (TypeError ''Header name must not be empty'')
      else Inr (to_lower (trim s), trim s))"
  by (simp add: normalizeName_def Let_def)

lemma store_ok_entry: "store_ok st \<Longrightarrow> om_get st k = Some e \<Longrightarrow> entry_ok k e"
  by (auto simp: store_ok_def list_all_iff dest: om_get_Some_in)

lemma store_ok_om_set: "store_ok st \<Longrightarrow> entry_ok k e \<Longrightarrow> store_ok (om_set st k e)"
  using set_om_set [of st k e] by (fastforce simp: store_ok_def list_all_iff intro: om.ok_put)

lemma store_ok_om_delete: "store_ok st \<Longrightarrow> store_ok (om_delete st k)"
  using set_om_delete [of st k] by (fastforce simp: store_ok_def list_all_iff intro: om.ok_remove)

lemma headers_append_ok:
  assumes "store_ok st" "headers_append st name v = Inr st'"
  shows "store_ok st'"
proof -
  from assms(2) obtain k d c where n: "normalizeName name = Inr (k, d)"
    and st': "st' = (case om_get st k of
        Some e \<Rightarrow> om_set st k (e\<lparr>entry_values := entry_values e @ [c]\<rparr>)
      | None \<Rightarrow> om_set st k \<lparr>entry_name = d, entry_values = [c]\<rparr>)"
    by (auto simp: headers_append_def split: option.splits)
  from n have d: "d \<noteq> []" "trim d = d" "k = to_lower d"
    by (auto simp: normalizeName_Inr)
  show ?thesis
  proof (cases "om_get st k")
    case None
    with st' d assms(1) show ?thesis by (simp add: store_ok_om_set entry_ok_def)
  next
    case (Some e)
    with assms(1) have "entry_ok k e" by (rule store_ok_entry)
    with Some st' assms(1) show ?thesis by (simp add: store_ok_om_set entry_ok_def)
  qed
qed

lemma headers_set_ok:
  assumes "store_ok st" "headers_set st name v = Inr st'"
  shows "store_ok st'"
  using assms by (auto simp: headers_set_def normalizeName_Inr entry_ok_def intro!: store_ok_om_set)

lemma headers_delete_ok:
  "store_ok st \<Longrightarrow> headers_delete st name = Inr st' \<Longrightarrow> store_ok st'"
  by (auto simp: headers_delete_def intro!: store_ok_om_delete)

lemma append_tuple_ok: "store_ok st \<Longrightarrow> append_tuple st t = Inr st' \<Longrightarrow> store_ok st'"
  by (auto simp: append_tuple_def split: if_splits intro: headers_append_ok)

lemma set_property_ok: "store_ok st \<Longrightarrow> set_property st e = Inr st' \<Longrightarrow> store_ok st'"
  by (auto simp: set_property_def split: if_splits intro: headers_set_ok)

lemma applyInit_ok:
  assumes "store_ok st" "applyInit st init = Inr st'"
  shows "store_ok st'"
proof -
  have tuples: "store_ok s'" if "res_foldl append_tuple st ts = Inr s'" for ts s'
    using that assms(1) by (rule res_foldl_inv) (rule append_tuple_ok)
  have props: "store_ok s'" if "res_foldl set_property st ps = Inr s'" for ps s'
    using that assms(1) by (rule res_foldl_inv) (rule set_property_ok)
  have pairs: "store_ok s'"
    if "res_foldl (\<lambda>s (name, v). headers_append s (JString name) (JString v)) st ts = Inr s'"
    for ts s'
    using that assms(1) by (rule res_foldl_inv) (auto intro: headers_append_ok)
  show ?thesis
    using assms tuples props pairs
    by (auto simp: applyInit_def split: jsval.splits if_splits option.splits)
qed

lemma Headers_new_ok: "Headers_new init = Inr st \<Longrightarrow> store_ok st"
  by (auto simp: Headers_new_def split: if_splits dest: applyInit_ok [OF store_ok_Nil])

section \<open>What lookups answer\<close>

lemma headers_get_Inr:
  "trim n \<noteq> [] \<Longrightarrow>
   headers_get st (JString n) =
     Inr (map_option (\<lambda>e. join '', '' (entry_values e)) (om_get st (to_lower (trim n))))"
  by (simp add: headers_get_def normalizeName_JString split: option.splits)

lemma headers_append_Inr:
  "trim n \<noteq> [] \<Longrightarrow>
   headers_append st (JString n) (JString v) =
     Inr (om_set st (to_lower (trim n))
       (case om_get st (to_lower (trim n)) of
          Some e \<Rightarrow> e\<lparr>entry_values := entry_values e @ [v]\<rparr>
        | None \<Rightarrow> \<lparr>entry_name = trim n, entry_values = [v]\<rparr>))"
  by (simp add: headers_append_def normalizeName_JString assertValue_def coerceHeaderValue_def
      split: option.splits)

lemma headers_set_Inr:
  "trim n \<noteq> [] \<Longrightarrow>
   headers_set st (JString n) (JString v) =
     Inr (om_set st (to_lower (trim n)) \<lparr>entry_name = trim n, entry_values = [v]\<rparr>)"
  by (simp add: headers_set_def normalizeName_JString assertValue_def coerceHeaderValue_def)

section \<open>Iteration\<close>

text \<open>
  What is left of a store after a trip through its tuples: the values of every name but
  \<open>set-cookie\<close> joined into one.
\<close>

definition collapse_entry :: "HeaderStoreEntry \<Rightarrow> HeaderStoreEntry" where
  "collapse_entry e =
     (if to_lower (entry_name e) = ''set-cookie'' then e
      else e\<lparr>entry_values := [join '', '' (entry_values e)]\<rparr>)"

definition collapse :: "header_store \<Rightarrow> header_store" where
  "collapse st = map (\<lambda>(k, e). (k, collapse_entry e)) st"

lemma entry_tuples_collapse [simp]: "entry_tuples (collapse_entry e) = entry_tuples e"
  by (simp add: entry_tuples_def collapse_entry_def)

lemma headers_iterator_collapse [simp]: "headers_iterator (collapse st) = headers_iterator st"
  by (simp add: headers_iterator_def collapse_def om_values_def comp_def case_prod_unfold)

lemma toTuples_iterator [simp]: "toTuples st = headers_iterator st"
  by (simp add: toTuples_def)

lemma headers_iterator_simps [simp]:
  "headers_iterator [] = []"
  "headers_iterator ((k, e) # st) = entry_tuples e @ headers_iterator st"
  "headers_iterator (st @ st') = headers_iterator st @ headers_iterator st'"
  by (simp_all add: headers_iterator_def om_values_def)

abbreviation append_pairs :: "header_store \<Rightarrow> HeaderTuple list \<Rightarrow> header_store res" where
  "append_pairs \<equiv> res_foldl (\<lambda>s (name, v). headers_append s (JString name) (JString v))"

lemma append_tuple_value [simp]:
  "append_tuple st (tuple_value (n, v)) = headers_append st (JString n) (JString v)"
  by (simp add: append_tuple_def tuple_value_def destructure_pair_def js_iterate_def
      nth_or_undefined_def)

lemma foldl_tuples_value:
  "res_foldl append_tuple st (map tuple_value ts) = append_pairs st ts"
  by (induction ts arbitrary: st) auto

lemma Headers_new_tuples: "Headers_new (tuples_value ts) = append_pairs [] ts"
  by (simp add: Headers_new_def tuples_value_def applyInit_def is_array_def js_iterate_def
      foldl_tuples_value)

lemma Headers_new_JHeaders: "Headers_new (JHeaders st) = append_pairs [] (headers_iterator st)"
  by (simp add: Headers_new_def applyInit_def)

lemma om_get_snoc_fresh: "k \<notin> set (om_keys st) \<Longrightarrow> om_get (st @ [(k, e)]) k = Some e"
  by (induction st) auto

lemma om_set_snoc: "k \<notin> set (om_keys st) \<Longrightarrow> om_set (st @ [(k, e)]) k e' = st @ [(k, e')]"
  by (induction st) auto

lemma append_same_name:
  assumes "k \<notin> set (om_keys st)" "k = to_lower d" "trim d = d" "d \<noteq> []"
  shows "append_pairs (st @ [(k, \<lparr>entry_name = d, entry_values = vs\<rparr>)]) (map (\<lambda>v. (d, v)) ws)
       = Inr (st @ [(k, \<lparr>entry_name = d, entry_values = vs @ ws\<rparr>)])"
  using assms
  by (induction ws arbitrary: vs) (simp_all add: headers_append_Inr om_get_snoc_fresh om_set_snoc)

lemma append_entry_tuples:
  assumes "k \<notin> set (om_keys st)" "entry_ok k e"
  shows "append_pairs st (entry_tuples e) = Inr (st @ [(k, collapse_entry e)])"
proof -
  from assms(2) obtain d w ws where
    e: "e = \<lparr>entry_name = d, entry_values = w # ws\<rparr>" and d: "k = to_lower d" "trim d = d" "d \<noteq> []"
    by (cases e) (auto simp: entry_ok_def neq_Nil_conv)
  have none: "om_get st (to_lower d) = None"
    using assms(1) d by (simp add: om_get_None_iff)
  show ?thesis
  proof (cases "k = ''set-cookie''")
    case True
    with e d none assms(1) append_same_name [OF assms(1) d, of "[w]" ws]
    show ?thesis
      by (simp add: entry_tuples_def collapse_entry_def headers_append_Inr om_set_fresh)
  next
    case False
    with e d none assms(1) show ?thesis
      by (simp add: entry_tuples_def collapse_entry_def headers_append_Inr om_set_fresh)
  qed
qed

lemma append_iterator:
  assumes "store_ok st" "set (om_keys s0) \<inter> set (om_keys st) = {}"
  shows "append_pairs s0 (headers_iterator st) = Inr (s0 @ collapse st)"
  using assms
proof (induction st arbitrary: s0)
  case Nil
  then show ?case by (simp add: collapse_def)
next
  case (Cons p st)
  obtain k e where p: "p = (k, e)" by (cases p)
  from Cons.prems p have ok: "entry_ok k e" "store_ok st" "k \<notin> set (om_keys s0)"
    "k \<notin> set (om_keys st)"
    by (auto simp: store_ok_def)
  have "append_pairs (s0 @ [(k, collapse_entry e)]) (headers_iterator st)
      = Inr ((s0 @ [(k, collapse_entry e)]) @ collapse st)"
    using ok Cons.prems(2) p by (intro Cons.IH) auto
  with ok p show ?case
    by (simp add: append_entry_tuples collapse_def)
qed

lemma append_pairs_iterator: "store_ok st \<Longrightarrow> append_pairs [] (headers_iterator st) = Inr (collapse st)"
  by (simp add: append_iterator)

section \<open>Sequences of calls, and the multimap they implement\<close>

text \<open>A call on a \<open>Headers\<close> object; one that throws leaves the object as it was.\<close>

datatype header_call = CallAppend jsval jsval | CallSet jsval jsval | CallDelete jsval

definition header_step :: "header_store \<Rightarrow> header_call \<Rightarrow> header_store" where
  "header_step st c =
     (case (case c of
              CallAppend n v \<Rightarrow> headers_append st n v
            | CallSet n v \<Rightarrow> headers_set st n v
            | CallDelete n \<Rightarrow> headers_delete st n) of
        Inl e \<Rightarrow> st | Inr st' \<Rightarrow> st')"

definition header_run :: "header_store \<Rightarrow> header_call list \<Rightarrow> header_store" where
  "header_run = foldl header_step"

text \<open>
  The abstract object: every lower-case name has a list of values. A call whose name or value is
  refused changes nothing.
\<close>

type_synonym multimap = "string \<Rightarrow> string list"

definition store_abs :: "header_store \<Rightarrow> multimap" where
  "store_abs st k = (case om_get st k of None \<Rightarrow> [] | Some e \<Rightarrow> entry_values e)"

fun multimap_step :: "multimap \<Rightarrow> header_call \<Rightarrow> multimap" where
  "multimap_step m (CallAppend (JString n) v) =
     (if trim n = [] \<or> nullish v then m
      else m(to_lower (trim n) := m (to_lower (trim n)) @ [js_string v]))"
| "multimap_step m (CallSet (JString n) v) =
     (if trim n = [] \<or> nullish v then m else m(to_lower (trim n) := [js_string v]))"
| "multimap_step m (CallDelete (JString n)) =
     (if trim n = [] then m else m(to_lower (trim n) := []))"
| "multimap_step m _ = m"

lemma normalizeName_not_string: "(\<And>s. n \<noteq> JString s) \<Longrightarrow> \<exists>e. normalizeName n = Inl e"
  by (cases n) (auto simp: normalizeName_def)

lemma header_step_ok: "store_ok st \<Longrightarrow> store_ok (header_step st c)"
  by (cases c)
    (auto simp: header_step_def intro: headers_append_ok headers_set_ok headers_delete_ok
      split: sum.splits)

lemma header_run_ok: "store_ok st \<Longrightarrow> store_ok (header_run st cs)"
  by (induction cs arbitrary: st) (simp_all add: header_run_def header_step_ok)

lemma store_abs_set:
  "store_abs (om_set st k e) = (store_abs st)(k := entry_values e)"
  by (rule ext) (simp add: store_abs_def om_get_set)

lemma store_abs_delete: "store_abs (om_delete st k) = (store_abs st)(k := [])"
  by (rule ext) (simp add: store_abs_def om_get_delete)

lemma headers_append_empty:
  "trim n = [] \<Longrightarrow> headers_append st (JString n) v = Inl (TypeError ''Header name must not be empty'')"
  by (simp add: headers_append_def normalizeName_JString)

lemma headers_append_abs:
  assumes "trim n \<noteq> []" "v \<noteq> JNull" "v \<noteq> JUndefined"
  shows "(case headers_append st (JString n) v of Inl e \<Rightarrow> st | Inr st' \<Rightarrow> st') =
     om_set st (to_lower (trim n))
       (case om_get st (to_lower (trim n)) of
          Some e \<Rightarrow> e\<lparr>entry_values := entry_values e @ [js_string v]\<rparr>
        | None \<Rightarrow> \<lparr>entry_name = trim n, entry_values = [js_string v]\<rparr>)"
    and "store_abs (case headers_append st (JString n) v of Inl e \<Rightarrow> st | Inr st' \<Rightarrow> st') =
     (store_abs st)(to_lower (trim n) := store_abs st (to_lower (trim n)) @ [js_string v])"
  using assms
  by (auto simp: headers_append_def normalizeName_JString assertValue_def coerceHeaderValue_def
      store_abs_set store_abs_def [of st] split: option.splits)

lemma header_step_abs: "store_abs (header_step st c) = multimap_step (store_abs st) c"
proof (cases "\<exists>s. (case c of CallAppend n v \<Rightarrow> n | CallSet n v \<Rightarrow> n | CallDelete n \<Rightarrow> n) = JString s")
  case True
  then show ?thesis
    by (cases c)
      (auto simp: header_step_def headers_append_abs(2) headers_set_def headers_delete_def
        headers_append_def [of st _ JNull] headers_append_def [of st _ JUndefined]
        headers_append_empty normalizeName_JString assertValue_def nullish_def coerceHeaderValue_def
        store_abs_set store_abs_delete)
next
  case False
  then show ?thesis
  proof (cases c)
    case (CallAppend n v)
    with False normalizeName_not_string [of n] CallAppend show ?thesis
      by (cases n) (auto simp: header_step_def headers_append_def)
  next
    case (CallSet n v)
    with False normalizeName_not_string [of n] CallSet show ?thesis
      by (cases n) (auto simp: header_step_def headers_set_def)
  next
    case (CallDelete n)
    with False normalizeName_not_string [of n] CallDelete show ?thesis
      by (cases n) (auto simp: header_step_def headers_delete_def)
  qed
qed

lemma header_run_abs: "store_abs (header_run st cs) = foldl multimap_step (store_abs st) cs"
  by (induction cs arbitrary: st) (simp_all add: header_run_def header_step_abs)

lemma store_ok_values:
  "store_ok st \<Longrightarrow> om_get st k = None \<longleftrightarrow> store_abs st k = []"
  by (auto simp: store_abs_def entry_ok_def dest: store_ok_entry split: option.splits)

lemma headers_get_abs:
  "store_ok st \<Longrightarrow> trim n \<noteq> [] \<Longrightarrow>
   headers_get st (JString n) =
     Inr (let vs = store_abs st (to_lower (trim n)) in if vs = [] then None else Some (join '', '' vs))"
  using store_ok_values [of st "to_lower (trim n)"]
  by (auto simp: headers_get_Inr Let_def store_abs_def)

section \<open>Properties\<close>

text \<open>Whatever a \<open>Headers\<close> object is built from and whatever sequence of \<open>append\<close>, \<open>set\<close> and
  \<open>delete\<close> calls follows, failing calls included, its store stays well formed: keys are distinct and
  are the lower-case form of a trimmed, non-empty display name, and no entry is without values.\<close>

lemma headers_store_invariant:
  assumes "Headers_new init = Inr st"
  shows "store_ok (header_run st calls)"
  using assms by (intro header_run_ok) (rule Headers_new_ok)

lemma headers_store_invariant_witness:
  "store_ok (header_run [(''a'', \<lparr>entry_name = ''A'', entry_values = [''1'']\<rparr>)]
     [CallAppend (JString '' a '') (JNumber (NumInt 2)), CallSet JNull JNull])"
proof (rule headers_store_invariant)
  show "Headers_new (JObject [(''A'', JString ''1'')]) =
      Inr [(''a'', \<lparr>entry_name = ''A'', entry_values = [''1'']\<rparr>)]"
    by code_simp
qed

text \<open>C15: \<open>Headers\<close> implements a case-insensitive multimap: after any sequence of calls on a new object,
  \<open>get\<close> of a name answers the values that the same sequence leaves for its trimmed lower-case form in
  the abstract multimap, joined by a comma and a space, or null when there are none.\<close>

theorem headers_get_multimap:
  assumes "trim name \<noteq> []"
  shows "headers_get (header_run [] calls) (JString name) =
    (let vs = foldl multimap_step (\<lambda>_. []) calls (to_lower (trim name))
     in Inr (if vs = [] then None else Some (join '', '' vs)))"
proof -
  have "store_abs [] = (\<lambda>_. [])"
    by (rule ext) (simp add: store_abs_def)
  with headers_get_abs [OF header_run_ok [OF store_ok_Nil] assms] header_run_abs [of "[]" calls]
  show ?thesis by (simp add: Let_def)
qed

theorem headers_get_multimap_witness:
  "headers_get (header_run [] [CallAppend (JString ''X-A'') (JString ''1''),
       CallAppend (JString '' x-a'') (JBool True), CallDelete (JString ''Y'')]) (JString ''X-a '') =
     Inr (Some ''1, true'')"
proof -
  have "trim ''X-a '' \<noteq> []" by code_simp
  from headers_get_multimap [OF this] show ?thesis by code_simp
qed

text \<open>C16: Copying survives: an object built from another \<open>Headers\<close>, or from the tuples it iterates,
  iterates exactly the same tuples in the same order, \<open>set-cookie\<close> values one by one.\<close>

theorem headers_copy_roundtrip:
  assumes "Headers_new init = Inr st"
  shows "\<exists>st'. Headers_new (JHeaders st) = Inr st' \<and> Headers_new (tuples_value (toTuples st)) = Inr st' \<and>
     headers_iterator st' = headers_iterator st \<and> om_keys st' = om_keys st"
proof -
  have "om_keys (collapse st) = om_keys st"
    by (simp add: collapse_def om_keys_def comp_def case_prod_unfold)
  with append_pairs_iterator [OF Headers_new_ok [OF assms]] show ?thesis
    by (simp add: Headers_new_JHeaders Headers_new_tuples)
qed

theorem headers_copy_roundtrip_witness:
  "\<exists>st st'. Headers_new (JArray [tuple_value (''Set-Cookie'', ''a''), tuple_value (''set-cookie'', ''b'')]) = Inr st \<and>
     Headers_new (JHeaders st) = Inr st' \<and> headers_iterator st' = [(''Set-Cookie'', ''a''), (''Set-Cookie'', ''b'')]"
proof -
  let ?st = "[(''set-cookie'', \<lparr>entry_name = ''Set-Cookie'', entry_values = [''a'', ''b'']\<rparr>)]"
  have "Headers_new (JArray [tuple_value (''Set-Cookie'', ''a''), tuple_value (''set-cookie'', ''b'')]) = Inr ?st"
    by code_simp
  moreover have "headers_iterator ?st = [(''Set-Cookie'', ''a''), (''Set-Cookie'', ''b'')]"
    by code_simp
  moreover from headers_copy_roundtrip [OF calculation(1)] obtain st' where
    "Headers_new (JHeaders ?st) = Inr st'" "headers_iterator st' = headers_iterator ?st"
    by blast
  ultimately show ?thesis by (intro exI [of _ ?st] exI [of _ st']) simp
qed

end
