(* ===== verification/HeaderTuples.thy ===== *)
theory HeaderTuples
  imports Headers "HOL-Library.Multiset"
begin

text \<open>
  The header-tuple helpers of src/src/wreq-js.ts: conversion of any \<open>HeadersInit\<close> to tuples, their
  comparison, the search for a name and the merge of a session's default headers with the headers of
  one request.

  \<open>mergeHeaderTuples\<close> may return the very array it was given, and \<open>fetch\<close> then pushes onto the array it
  got back. Arrays of tuples therefore live in an explicit store of addresses, \<open>tuple_heap\<close>; the merge
  reads and allocates there, and \<open>merge_tuples\<close> is what it computes as values.
\<close>

section \<open>Arrays of tuples\<close>

record tuple_heap =
  heap_next :: nat
  heap_arr :: "nat \<Rightarrow> HeaderTuple list"

definition heap_empty :: tuple_heap where
  "heap_empty = \<lparr>heap_next = 0, heap_arr = (\<lambda>_. [])\<rparr>"

definition heap_alloc :: "tuple_heap \<Rightarrow> HeaderTuple list \<Rightarrow> nat \<times> tuple_heap" where
  "heap_alloc h ts =
     (heap_next h,
      h\<lparr>heap_next := Suc (heap_next h), heap_arr := (heap_arr h)(heap_next h := ts)\<rparr>)"

definition heap_push :: "tuple_heap \<Rightarrow> nat \<Rightarrow> HeaderTuple \<Rightarrow> tuple_heap" where
  "heap_push h a t = h\<lparr>heap_arr := (heap_arr h)(a := heap_arr h a @ [t])\<rparr>"

definition deref :: "tuple_heap \<Rightarrow> nat option \<Rightarrow> HeaderTuple list option" where
  "deref h r = map_option (heap_arr h) r"

text \<open>\<open>h'\<close> keeps every array that existed in \<open>h\<close>.\<close>

definition heap_extends :: "tuple_heap \<Rightarrow> tuple_heap \<Rightarrow> bool" where
  "heap_extends h h' \<longleftrightarrow>
     heap_next h \<le> heap_next h' \<and> (\<forall>a < heap_next h. heap_arr h' a = heap_arr h a)"

lemma heap_extends_refl [simp]: "heap_extends h h"
  by (simp add: heap_extends_def)

lemma heap_extends_trans: "heap_extends h h' \<Longrightarrow> heap_extends h' h'' \<Longrightarrow> heap_extends h h''"
  by (fastforce simp: heap_extends_def)

lemma heap_extends_alloc [simp]: "heap_extends h (snd (heap_alloc h ts))"
  by (simp add: heap_extends_def heap_alloc_def)

lemma heap_push_fresh: "heap_extends h h' \<Longrightarrow> heap_next h \<le> a \<Longrightarrow> heap_extends h (heap_push h' a t)"
  by (simp add: heap_extends_def heap_push_def)

section \<open>The helpers\<close>

definition headersToTuples :: "jsval \<Rightarrow> HeaderTuple list res" where
  "headersToTuples init = res_bind (Headers_new init) (\<lambda>st. Inr (toTuples st))"

definition normalizeProxyHeaders :: "jsval \<Rightarrow> HeaderTuple list option res" where
  "normalizeProxyHeaders init =
     (if init = JUndefined then Inr None
      else res_bind (headersToTuples init) (\<lambda>tuples.
             Inr (if length tuples > 0 then Some tuples else None)))"

definition tuple_key :: "HeaderTuple \<Rightarrow> string" where
  "tuple_key t = to_lower (fst t) @ [CHR 0x00] @ snd t"

definition normalize_tuples :: "HeaderTuple list \<Rightarrow> string list" where
  "normalize_tuples tuples = sort (map tuple_key tuples)"

definition headerTuplesEqual :: "HeaderTuple list option \<Rightarrow> HeaderTuple list option \<Rightarrow> bool" where
  "headerTuplesEqual a b =
     (if a = b then True
      else if a = None \<or> a = Some [] then b = None \<or> b = Some []
      else if b = None \<or> b = Some [] \<or> length (the a) \<noteq> length (the b) then False
      else (let left = normalize_tuples (the a); right = normalize_tuples (the b) in
            list_all (\<lambda>i. left ! i = right ! i) [0..<length left]))"

definition hasHeaderName :: "HeaderTuple list option \<Rightarrow> string \<Rightarrow> bool" where
  "hasHeaderName tuples name = (case tuples of
      None \<Rightarrow> False
    | Some ts \<Rightarrow> (let target = to_lower name in list_ex (\<lambda>t. to_lower (fst t) = target) ts))"

definition hasWebSocketProtocolHeader :: "jsval \<Rightarrow> bool res" where
  "hasWebSocketProtocolHeader headers =
     (if \<not> truthy headers then Inr False
      else res_bind (headersToTuples headers) (\<lambda>ts.
             Inr (hasHeaderName (Some ts) ''Sec-WebSocket-Protocol'')))"

definition assertNoManualWebSocketProtocolHeader :: "jsval \<Rightarrow> unit res" where
  "assertNoManualWebSocketProtocolHeader headers =
     res_bind (hasWebSocketProtocolHeader headers) (\<lambda>b.
       throw_if b (RequestError ''Do not set `Sec-WebSocket-Protocol` header manually; use the `protocols` option instead.''))"

definition override_tuples :: "HeaderTuple list \<Rightarrow> HeaderTuple list \<Rightarrow> HeaderTuple list" where
  "override_tuples defs over =
     (let overrideKeys = map (\<lambda>t. to_lower (fst t)) over in
      filter (\<lambda>t. to_lower (fst t) \<notin> set overrideKeys) defs @ over)"

definition mergeHeaderTuples ::
  "tuple_heap \<Rightarrow> nat option \<Rightarrow> jsval \<Rightarrow> (nat option \<times> tuple_heap) res" where
  "mergeHeaderTuples h defs overrides = (case defs of
      None \<Rightarrow>
        (if overrides = JUndefined then Inr (None, h)
         else res_bind (headersToTuples overrides) (\<lambda>ts.
                let (a, h') = heap_alloc h ts in Inr (Some a, h')))
    | Some d \<Rightarrow>
        (if overrides = JUndefined then Inr (Some d, h)
         else res_bind (headersToTuples overrides) (\<lambda>overrideTuples.
                if length overrideTuples = 0 then Inr (Some d, h)
                else (let (a, h') = heap_alloc h (override_tuples (heap_arr h d) overrideTuples)
                      in Inr (Some a, h')))))"

text \<open>What the merge computes, as a value: the array the returned reference points at.\<close>

definition merge_tuples :: "HeaderTuple list option \<Rightarrow> jsval \<Rightarrow> HeaderTuple list option res" where
  "merge_tuples defs overrides =
     (if overrides = JUndefined then Inr defs
      else res_bind (headersToTuples overrides) (\<lambda>over.
             Inr (Some (case defs of
                          None \<Rightarrow> over
                        | Some d \<Rightarrow> if over = [] then d else override_tuples d over))))"

section \<open>Their properties\<close>

lemma headersToTuples_Inr: "headersToTuples init = Inr ts \<Longrightarrow> \<exists>st. store_ok st \<and> ts = headers_iterator st"
  by (auto simp: headersToTuples_def dest: Headers_new_ok)

lemma headersToTuples_iterator: "store_ok st \<Longrightarrow> headersToTuples (tuples_value (headers_iterator st)) = Inr (headers_iterator st)"
  by (simp add: headersToTuples_def Headers_new_tuples append_pairs_iterator)

lemma headersToTuples_idem: "headersToTuples init = Inr ts \<Longrightarrow> headersToTuples (tuples_value ts) = Inr ts"
  using headersToTuples_Inr headersToTuples_iterator by blast

lemma hasHeaderName_Some: "hasHeaderName (Some ts) name \<longleftrightarrow> (\<exists>t \<in> set ts. to_lower (fst t) = to_lower name)"
  by (simp add: hasHeaderName_def list_ex_iff)

lemma hasHeaderName_None [simp]: "\<not> hasHeaderName None name"
  by (simp add: hasHeaderName_def)

lemma sort_eq_iff_mset: "sort xs = sort ys \<longleftrightarrow> mset xs = mset ys" for xs ys :: "'a::linorder list"
  by (metis mset_sort properties_for_sort sorted_sort)

lemma list_all_nth_eq: "length xs = length ys \<Longrightarrow> list_all (\<lambda>i. xs ! i = ys ! i) [0..<length xs] \<longleftrightarrow> xs = ys"
  by (auto simp: list_all_iff intro: nth_equalityI)

lemma headerTuplesEqual_mset:
  "headerTuplesEqual a b \<longleftrightarrow>
     mset (map tuple_key (opt_default a [])) = mset (map tuple_key (opt_default b []))"
proof (cases "length (opt_default a []) = length (opt_default b [])")
  case True
  then have "length (normalize_tuples (opt_default a [])) = length (normalize_tuples (opt_default b []))"
    by (simp add: normalize_tuples_def)
  from list_all_nth_eq [OF this] True show ?thesis
    by (cases a; cases b)
      (auto simp: headerTuplesEqual_def Let_def normalize_tuples_def sort_eq_iff_mset)
next
  case False
  then have "mset (map tuple_key (opt_default a [])) \<noteq> mset (map tuple_key (opt_default b []))"
    by (metis length_map size_mset)
  with False show ?thesis
    by (cases a; cases b) (auto simp: headerTuplesEqual_def)
qed

lemma hasHeaderName_image:
  "hasHeaderName (Some ts) n \<longleftrightarrow> to_lower n \<in> (\<lambda>t. to_lower (fst t)) ` set ts"
  by (simp add: hasHeaderName_Some image_iff) metis

lemma hasHeaderName_filter:
  "hasHeaderName (Some ts) n \<longleftrightarrow> [t \<leftarrow> ts. to_lower (fst t) = to_lower n] \<noteq> []"
  by (auto simp: hasHeaderName_Some filter_empty_conv)

lemma override_tuples_values:
  "[t \<leftarrow> override_tuples d over. to_lower (fst t) = to_lower n] =
     (if hasHeaderName (Some over) n then [t \<leftarrow> over. to_lower (fst t) = to_lower n]
      else [t \<leftarrow> d. to_lower (fst t) = to_lower n])"
proof -
  let ?K = "(\<lambda>t. to_lower (fst t)) ` set over"
  have "[t \<leftarrow> d. to_lower (fst t) = to_lower n \<and> to_lower (fst t) \<notin> ?K]
      = (if to_lower n \<in> ?K then [] else [t \<leftarrow> d. to_lower (fst t) = to_lower n])"
    by (cases "to_lower n \<in> ?K") (simp_all add: filter_empty_conv cong: conj_cong)
  then show ?thesis
    using hasHeaderName_filter [of over n]
    by (simp add: override_tuples_def hasHeaderName_image conj_commute)
qed

lemma override_tuples_has:
  "hasHeaderName (Some (override_tuples d over)) n \<longleftrightarrow>
     hasHeaderName (Some d) n \<or> hasHeaderName (Some over) n"
  using hasHeaderName_filter [of over n]
  by (auto simp: hasHeaderName_filter [of "override_tuples d over"] hasHeaderName_filter [of d]
      override_tuples_values)

text \<open>The merge on the heap computes the merge of values, and never touches an existing array.\<close>

lemma mergeHeaderTuples_refines:
  assumes "mergeHeaderTuples h defs overrides = Inr (r, h')"
  shows "merge_tuples (deref h defs) overrides = Inr (deref h' r)" and "heap_extends h h'"
  using assms
  by (auto simp: mergeHeaderTuples_def merge_tuples_def deref_def heap_alloc_def heap_extends_def
      Let_def split: option.splits if_splits)

lemma mergeHeaderTuples_Inl:
  "mergeHeaderTuples h defs overrides = Inl e \<longleftrightarrow> merge_tuples (deref h defs) overrides = Inl e"
  by (auto simp: mergeHeaderTuples_def merge_tuples_def deref_def heap_alloc_def res_bind_Inl_iff
      Let_def split: option.splits)

text \<open>When the result is the session's own array rather than a new one.\<close>

lemma mergeHeaderTuples_alias:
  assumes "mergeHeaderTuples h (Some d) overrides = Inr (r, h')" "d < heap_next h"
  shows "r = Some d \<longleftrightarrow> overrides = JUndefined \<or> headersToTuples overrides = Inr []"
  using assms
  by (auto simp: mergeHeaderTuples_def heap_alloc_def Let_def split: if_splits)

lemma mergeHeaderTuples_fresh:
  assumes "mergeHeaderTuples h defs overrides = Inr (Some a, h')" "Some a \<noteq> defs"
  shows "heap_next h \<le> a"
  using assms
  by (auto simp: mergeHeaderTuples_def heap_alloc_def Let_def split: option.splits if_splits)

lemma to_lower_NUL: "CHR 0x00 \<notin> set s \<Longrightarrow> CHR 0x00 \<notin> set (to_lower s)"
proof
  assume no: "CHR 0x00 \<notin> set s" and "CHR 0x00 \<in> set (to_lower s)"
  then obtain c where "c \<in> set s" "lower_char c = CHR 0x00"
    unfolding to_lower_def by fastforce
  with no have "lower_char c = CHR 0x00" "c \<noteq> CHR 0x00" by auto
  then have "code_unit (lower_char c) = (0 :: nat)" "code_unit c \<noteq> (0 :: nat)"
    using of_char_eq_iff [of c "CHR 0x00", where ?'a = nat] by auto
  then show False by (auto simp: lower_char_def Let_def dest!: dvd_imp_le split: if_splits)
qed

text \<open>The key of a tuple determines its lower-case name and its value when the name has no NUL.\<close>

lemma tuple_key_inj:
  assumes "CHR 0x00 \<notin> set (fst t)" "CHR 0x00 \<notin> set (fst u)" "tuple_key t = tuple_key u"
  shows "to_lower (fst t) = to_lower (fst u) \<and> snd t = snd u"
proof -
  have split_at: "takeWhile (\<lambda>c. c \<noteq> CHR 0x00) (tuple_key t) = to_lower (fst t)"
    if "CHR 0x00 \<notin> set (fst t)" for t :: HeaderTuple
    using to_lower_NUL [OF that] unfolding tuple_key_def by (subst takeWhile_append2) auto
  with assms have "to_lower (fst t) = to_lower (fst u)" by metis
  with assms(3) show ?thesis by (simp add: tuple_key_def)
qed

lemma mset_map_coarser:
  assumes ab: "\<And>x y. x \<in> set xs \<union> set ys \<Longrightarrow> y \<in> set xs \<union> set ys \<Longrightarrow> f x = f y \<Longrightarrow> g x = g y"
    and eq: "mset (map f xs) = mset (map f ys)"
  shows "mset (map g xs) = mset (map g ys)"
proof -
  define c where "c k = g (SOME x. x \<in> set xs \<union> set ys \<and> f x = k)" for k
  have c: "c (f x) = g x" if "x \<in> set xs \<union> set ys" for x
    unfolding c_def using that by (rule_tac someI2 [of _ x]) (auto intro: ab)
  have "image_mset c (mset (map f zs)) = mset (map g zs)" if "set zs \<subseteq> set xs \<union> set ys" for zs
    using that c by (induction zs) auto
  with eq show ?thesis by (metis Un_upper1 Un_upper2)
qed

lemma mset_map_eq_iff:
  assumes "\<And>x y. x \<in> set xs \<union> set ys \<Longrightarrow> y \<in> set xs \<union> set ys \<Longrightarrow> f x = f y \<longleftrightarrow> g x = g y"
  shows "mset (map f xs) = mset (map f ys) \<longleftrightarrow> mset (map g xs) = mset (map g ys)"
proof
  assume "mset (map f xs) = mset (map f ys)"
  then show "mset (map g xs) = mset (map g ys)"
    by (rule mset_map_coarser [rotated]) (use assms in blast)
next
  assume "mset (map g xs) = mset (map g ys)"
  then show "mset (map f xs) = mset (map f ys)"
    by (rule mset_map_coarser [rotated]) (use assms in blast)
qed

definition fold_tuple :: "HeaderTuple \<Rightarrow> string \<times> string" where
  "fold_tuple t = (to_lower (fst t), snd t)"

section \<open>Properties\<close>

text \<open>\<open>headerTuplesEqual\<close> decides equality of header lists up to order and the case of names: for
  names without NUL it holds exactly when the two lists have the same tuples with the same
  multiplicity once names are lower-cased, an absent list counting as empty.\<close>

lemma headerTuplesEqual_spec:
  assumes "\<forall>t \<in> set (opt_default a []) \<union> set (opt_default b []). CHR 0x00 \<notin> set (fst t)"
  shows "headerTuplesEqual a b \<longleftrightarrow>
    mset (map fold_tuple (opt_default a [])) = mset (map fold_tuple (opt_default b []))"
  unfolding headerTuplesEqual_mset
proof (rule mset_map_eq_iff)
  fix t u
  assume "t \<in> set (opt_default a []) \<union> set (opt_default b [])"
    "u \<in> set (opt_default a []) \<union> set (opt_default b [])"
  with assms have "CHR 0x00 \<notin> set (fst t)" "CHR 0x00 \<notin> set (fst u)" by auto
  from tuple_key_inj [OF this] show "tuple_key t = tuple_key u \<longleftrightarrow> fold_tuple t = fold_tuple u"
    by (auto simp: fold_tuple_def tuple_key_def)
qed

lemma headerTuplesEqual_spec_witness:
  "headerTuplesEqual (Some [(''A'', ''1''), (''b'', ''2'')]) (Some [(''B'', ''2''), (''a'', ''1'')])"
proof -
  have "\<forall>t \<in> set (opt_default (Some [(''A'', ''1''), (''b'', ''2'')]) []) \<union>
      set (opt_default (Some [(''B'', ''2''), (''a'', ''1'')]) []). CHR 0x00 \<notin> set (fst t)"
    by code_simp
  from headerTuplesEqual_spec [OF this]
  have "headerTuplesEqual (Some [(''A'', ''1''), (''b'', ''2'')]) (Some [(''B'', ''2''), (''a'', ''1'')]) =
    (mset (map fold_tuple [(''A'', ''1''), (''b'', ''2'')]) =
     mset (map fold_tuple [(''B'', ''2''), (''a'', ''1'')]))" by simp
  moreover have "map fold_tuple [(''A'', ''1''), (''b'', ''2'')] = [(''a'', ''1''), (''b'', ''2'')]"
    by code_simp
  moreover have "map fold_tuple [(''B'', ''2''), (''a'', ''1'')] = [(''b'', ''2''), (''a'', ''1'')]"
    by code_simp
  ultimately show ?thesis by (simp add: add_mset_commute)
qed

text \<open>C17: Merging a session's default headers with the headers of a request: for every name the result
  has the request's values, in order, if the request names it in any case, and the defaults' values
  otherwise; no array that existed before the merge changes.\<close>

theorem mergeHeaderTuples_overrides:
  assumes "mergeHeaderTuples h (Some d) overrides = Inr (r, h')"
    and "headersToTuples overrides = Inr over"
  shows "\<exists>a. r = Some a \<and> heap_extends h h' \<and>
    [t \<leftarrow> heap_arr h' a. to_lower (fst t) = to_lower n] =
      (if hasHeaderName (Some over) n then [t \<leftarrow> over. to_lower (fst t) = to_lower n]
       else [t \<leftarrow> heap_arr h d. to_lower (fst t) = to_lower n])"
proof -
  note R = mergeHeaderTuples_refines [OF assms(1)]
  show ?thesis
  proof (cases "over = []")
    case True
    with assms R show ?thesis
      by (auto simp: mergeHeaderTuples_def hasHeaderName_Some split: if_splits)
  next
    case False
    have "overrides \<noteq> JUndefined"
      using False assms(2) by (auto simp: headersToTuples_def Headers_new_def)
    with False R assms(2) have "Some (override_tuples (heap_arr h d) over) = deref h' r"
      by (simp add: merge_tuples_def deref_def)
    then obtain a where "r = Some a" "heap_arr h' a = override_tuples (heap_arr h d) over"
      by (cases r) (auto simp: deref_def)
    with R show ?thesis by (simp add: override_tuples_values)
  qed
qed

theorem mergeHeaderTuples_overrides_witness:
  "\<exists>r h' a. mergeHeaderTuples (snd (heap_alloc heap_empty [(''A'', ''1''), (''B'', ''2'')])) (Some 0)
        (JObject [(''a'', JString ''3'')]) = Inr (r, h') \<and> r = Some a \<and>
      [t \<leftarrow> heap_arr h' a. to_lower (fst t) = to_lower ''A''] = [(''a'', ''3'')]"
proof -
  let ?h = "snd (heap_alloc heap_empty [(''A'', ''1''), (''B'', ''2'')])"
  have over: "headersToTuples (JObject [(''a'', JString ''3'')]) = Inr [(''a'', ''3'')]"
    by code_simp
  then obtain r h' where m: "mergeHeaderTuples ?h (Some 0) (JObject [(''a'', JString ''3'')]) = Inr (r, h')"
    by (simp add: mergeHeaderTuples_def Let_def case_prod_unfold)
  have "hasHeaderName (Some [(''a'', ''3'')]) ''A''"
    "[t \<leftarrow> [(''a'', ''3'')]. to_lower (fst t) = to_lower ''A''] = [(''a'', ''3'')]"
    by code_simp+
  with mergeHeaderTuples_overrides [OF m over, of "''A''"] m show ?thesis by auto
qed

end
