(* ===== verification/EmulationFields.thy ===== *)
theory EmulationFields
  imports Validation HeaderTuples
begin

text \<open>
  The normalisation of custom emulation options (src/src/wreq-js.ts): \<open>normalizeProtocolList\<close>,
  \<open>normalizeTlsVersion\<close>, \<open>normalizeOrigHeaders\<close>, \<open>normalizeCustomTlsOptions\<close>,
  \<open>normalizeCustomHttp1Options\<close>, \<open>normalizeHttp2StreamDependency\<close>, \<open>normalizeCustomHttp2Options\<close>,
  \<open>normalizeCustomEmulationOptions\<close> and \<open>serializeCustomEmulationOptions\<close>.

  The code reads one option after the other; each block checks the option and, when it is defined,
  stores it in \<open>normalized\<close>. A block is an entry of a table, its key and what is stored
  (\<open>JUndefined\<close>: nothing), and \<open>normalize_fields\<close> runs a table in order, so the first failing block
  decides the error and the stored properties keep the order of the blocks.
\<close>

section \<open>Field tables\<close>

type_synonym field = "string \<times> (jsval \<Rightarrow> jsval res)"

fun normalize_fields :: "field list \<Rightarrow> jsval \<Rightarrow> props res" where
  "normalize_fields [] options = Inr []"
| "normalize_fields ((k, f) # fs) options =
     res_bind (get_prop options k) (\<lambda>x.
     res_bind (f x) (\<lambda>v.
     res_bind (normalize_fields fs options) (\<lambda>rest.
     Inr (if v = JUndefined then rest else (k, v) # rest))))"

text \<open>\<open>if (options.k !== undefined) { check; normalized.k = options.k; }\<close>\<close>

definition checked :: "(jsval \<Rightarrow> unit res) \<Rightarrow> jsval \<Rightarrow> jsval res" where
  "checked c v = (if v = JUndefined then Inr JUndefined else res_bind (c v) (\<lambda>_. Inr v))"

definition copied :: "jsval \<Rightarrow> jsval res" where
  "copied v = Inr v"

text \<open>A loop over an array that checks every element and rejects the second of two equal ones.\<close>

fun unique_loop ::
  "(jsval \<Rightarrow> unit res) \<Rightarrow> (jsval \<Rightarrow> js_error) \<Rightarrow> jsval list \<Rightarrow> jsval list \<Rightarrow> jsval list res" where
  "unique_loop check dup seen [] = Inr []"
| "unique_loop check dup seen (x # xs) =
     res_bind (check x) (\<lambda>_.
       if x \<in> set seen then Inl (dup x)
       else res_bind (unique_loop check dup (x # seen) xs) (\<lambda>ys. Inr (x # ys)))"

definition unique_array ::
  "string \<Rightarrow> (jsval \<Rightarrow> unit res) \<Rightarrow> (jsval \<Rightarrow> js_error) \<Rightarrow> jsval \<Rightarrow> jsval res" where
  "unique_array label check dup v = (case v of
      JUndefined \<Rightarrow> Inr JUndefined
    | JArray xs \<Rightarrow> res_bind (unique_loop check dup [] xs) (\<lambda>ys. Inr (JArray ys))
    | _ \<Rightarrow> Inl (RequestError (label @ '' must be an array'')))"

definition one_of :: "string list \<Rightarrow> string \<Rightarrow> jsval \<Rightarrow> unit res" where
  "one_of allowed msg v =
     throw_if (case v of JString s \<Rightarrow> s \<notin> set allowed | _ \<Rightarrow> True) (RequestError msg)"

section \<open>The constant sets\<close>

definition SUPPORTED_ALPN_PROTOCOLS :: "string list" where
  "SUPPORTED_ALPN_PROTOCOLS = [''HTTP1'', ''HTTP2'', ''HTTP3'']"

definition SUPPORTED_ALPS_PROTOCOLS :: "string list" where
  "SUPPORTED_ALPS_PROTOCOLS = [''HTTP1'', ''HTTP2'', ''HTTP3'']"

definition SUPPORTED_CERTIFICATE_COMPRESSION_ALGORITHMS :: "string list" where
  "SUPPORTED_CERTIFICATE_COMPRESSION_ALGORITHMS = [''zlib'', ''brotli'', ''zstd'']"

definition HTTP2_SETTING_IDS :: "string list" where
  "HTTP2_SETTING_IDS =
    [''HeaderTableSize'', ''EnablePush'', ''MaxConcurrentStreams'', ''InitialWindowSize'',
     ''MaxFrameSize'', ''MaxHeaderListSize'', ''EnableConnectProtocol'', ''NoRfc7540Priorities'']"

definition HTTP2_PSEUDO_HEADER_IDS :: "string list" where
  "HTTP2_PSEUDO_HEADER_IDS = [''Method'', ''Scheme'', ''Authority'', ''Path'', ''Protocol'']"

definition TLS_VERSION_ALIASES :: "(string, string) omap" where
  "TLS_VERSION_ALIASES =
    [(''1.0'', ''1.0''), (''1.1'', ''1.1''), (''1.2'', ''1.2''), (''1.3'', ''1.3''),
     (''tls1.0'', ''1.0''), (''tls1.1'', ''1.1''), (''tls1.2'', ''1.2''), (''tls1.3'', ''1.3'')]"

definition isNonEmpty :: "props \<Rightarrow> bool" where
  "isNonEmpty ps \<longleftrightarrow> ps \<noteq> []"

definition undefined_if_empty :: "props \<Rightarrow> jsval" where
  "undefined_if_empty n = (if isNonEmpty n then JObject n else JUndefined)"

section \<open>The single normalisers\<close>

definition normalizeProtocolList :: "string \<Rightarrow> string list \<Rightarrow> jsval \<Rightarrow> jsval res" where
  "normalizeProtocolList label allowed v = (case v of
      JUndefined \<Rightarrow> Inr JUndefined
    | JArray ps \<Rightarrow>
        res_bind (res_all (one_of allowed (label @ '' values must be one of: HTTP1, HTTP2, HTTP3'')) ps)
          (\<lambda>_. Inr (JArray ps))
    | _ \<Rightarrow> Inl (RequestError (label @ '' must be an array'')))"

definition normalizeTlsVersion :: "string \<Rightarrow> jsval \<Rightarrow> jsval res" where
  "normalizeTlsVersion label v = (case v of
      JUndefined \<Rightarrow> Inr JUndefined
    | JString s \<Rightarrow>
        (case om_get TLS_VERSION_ALIASES (to_lower (trim s)) of
           Some version \<Rightarrow> Inr (JString version)
         | None \<Rightarrow> Inl (RequestError (label @ '' must be one of: 1.0, 1.1, 1.2, 1.3'')))
    | _ \<Rightarrow> Inl (RequestError (label @ '' must be a string'')))"

fun orig_headers_loop :: "string list \<Rightarrow> jsval list \<Rightarrow> string list res" where
  "orig_headers_loop seen [] = Inr []"
| "orig_headers_loop seen (entry # rest) =
     (case entry of
        JString s \<Rightarrow>
          (let trimmed = trim s; duplicateKey = to_lower trimmed in
           if length trimmed = 0
           then Inl (RequestError ''emulation.origHeaders entries must be non-empty strings'')
           else if duplicateKey \<in> set seen
           then Inl (RequestError (''Duplicate emulation.origHeaders entry: '' @ trimmed))
           else res_bind (orig_headers_loop (duplicateKey # seen) rest) (\<lambda>r. Inr (trimmed # r)))
      | _ \<Rightarrow> Inl (RequestError ''emulation.origHeaders entries must be non-empty strings''))"

definition normalizeOrigHeaders :: "jsval \<Rightarrow> jsval res" where
  "normalizeOrigHeaders v = (case v of
      JUndefined \<Rightarrow> Inr JUndefined
    | JArray xs \<Rightarrow>
        res_bind (orig_headers_loop [] xs) (\<lambda>normalized.
          Inr (if length normalized > 0 then JArray (map JString normalized) else JUndefined))
    | _ \<Rightarrow> Inl (RequestError ''emulation.origHeaders must be an array of strings''))"

definition normalizeHttp2StreamDependency :: "string \<Rightarrow> jsval \<Rightarrow> jsval res" where
  "normalizeHttp2StreamDependency label dependency =
     (case dependency of
        JObject ps \<Rightarrow>
          res_bind (validateIntegerInRange (lookup ps ''dependencyId'') 0 0x7fffffff
                      (label @ ''.dependencyId'')) (\<lambda>_.
          res_bind (validateIntegerInRange (lookup ps ''weight'') 0 255 (label @ ''.weight'')) (\<lambda>_.
          Inr (JObject
            ([(''dependencyId'', lookup ps ''dependencyId''), (''weight'', lookup ps ''weight'')] @
             (if lookup ps ''exclusive'' = JUndefined then []
              else [(''exclusive'', lookup ps ''exclusive'')])))))
      | _ \<Rightarrow> Inl (RequestError (label @ '' must be an object'')))"

definition priorities_label :: "nat \<Rightarrow> string" where
  "priorities_label index = ''emulation.http2Options.priorities['' @ nat_str index @ '']''"

fun priorities_loop :: "nat \<Rightarrow> jsval list \<Rightarrow> jsval list \<Rightarrow> jsval list res" where
  "priorities_loop index seenStreamIds [] = Inr []"
| "priorities_loop index seenStreamIds (priority # rest) =
     (case priority of
        JObject ps \<Rightarrow>
          res_bind (validatePositiveInteger (lookup ps ''streamId'')
                      (priorities_label index @ ''.streamId'')) (\<lambda>_.
          if lookup ps ''streamId'' \<in> set seenStreamIds
          then Inl (RequestError (''Duplicate emulation.http2Options.priorities streamId: '' @
                      js_string (lookup ps ''streamId'')))
          else
            res_bind (normalizeHttp2StreamDependency (priorities_label index @ ''.dependency'')
                        (lookup ps ''dependency'')) (\<lambda>dep.
            res_bind (priorities_loop (Suc index) (lookup ps ''streamId'' # seenStreamIds) rest) (\<lambda>r.
            Inr (JObject [(''streamId'', lookup ps ''streamId''), (''dependency'', dep)] # r))))
      | _ \<Rightarrow> Inl (RequestError (priorities_label index @ '' must be an object'')))"

definition normalize_priorities :: "jsval \<Rightarrow> jsval res" where
  "normalize_priorities v = (case v of
      JUndefined \<Rightarrow> Inr JUndefined
    | JArray xs \<Rightarrow> res_bind (priorities_loop 0 [] xs) (\<lambda>ys. Inr (JArray ys))
    | _ \<Rightarrow> Inl (RequestError ''emulation.http2Options.priorities must be an array''))"

section \<open>TLS, HTTP/1 and HTTP/2 options\<close>

definition certificate_algorithms :: "jsval \<Rightarrow> jsval res" where
  "certificate_algorithms =
     unique_array ''emulation.tlsOptions.certificateCompressionAlgorithms''
       (one_of SUPPORTED_CERTIFICATE_COMPRESSION_ALGORITHMS
          ''emulation.tlsOptions.certificateCompressionAlgorithms values must be one of: zlib, brotli, zstd'')
       (\<lambda>a. RequestError
          (''Duplicate emulation.tlsOptions.certificateCompressionAlgorithms entry: '' @ js_string a))"

definition extension_permutation :: "jsval \<Rightarrow> jsval res" where
  "extension_permutation =
     unique_array ''emulation.tlsOptions.extensionPermutation''
       (\<lambda>x. validateIntegerInRange x 0 65535 ''emulation.tlsOptions.extensionPermutation'')
       (\<lambda>x. RequestError
          (''Duplicate emulation.tlsOptions.extensionPermutation entry: '' @ js_string x))"

definition tls_fields :: "field list" where
  "tls_fields =
    [(''alpnProtocols'',
        normalizeProtocolList ''emulation.tlsOptions.alpnProtocols'' SUPPORTED_ALPN_PROTOCOLS),
     (''alpsProtocols'',
        normalizeProtocolList ''emulation.tlsOptions.alpsProtocols'' SUPPORTED_ALPS_PROTOCOLS),
     (''minTlsVersion'', normalizeTlsVersion ''emulation.tlsOptions.minTlsVersion''),
     (''maxTlsVersion'', normalizeTlsVersion ''emulation.tlsOptions.maxTlsVersion''),
     (''alpsUseNewCodepoint'', copied),
     (''sessionTicket'', copied),
     (''preSharedKey'', copied),
     (''enableEchGrease'', copied),
     (''permuteExtensions'', copied),
     (''greaseEnabled'', copied),
     (''enableOcspStapling'', copied),
     (''enableSignedCertTimestamps'', copied),
     (''pskSkipSessionTicket'', copied),
     (''pskDheKe'', copied),
     (''renegotiation'', copied),
     (''aesHwOverride'', copied),
     (''preserveTls13CipherList'', copied),
     (''randomAesHwOverride'', copied),
     (''delegatedCredentials'', copied),
     (''curvesList'', copied),
     (''cipherList'', copied),
     (''sigalgsList'', copied),
     (''recordSizeLimit'',
        checked (\<lambda>v. validateIntegerInRange v 0 65535 ''emulation.tlsOptions.recordSizeLimit'')),
     (''certificateCompressionAlgorithms'', certificate_algorithms),
     (''extensionPermutation'', extension_permutation)]"

definition normalizeCustomTlsOptions :: "jsval \<Rightarrow> jsval res" where
  "normalizeCustomTlsOptions options =
     (if options = JUndefined then Inr JUndefined
      else res_bind (normalize_fields tls_fields options) (\<lambda>n. Inr (undefined_if_empty n)))"

definition max_buf_size :: "jsval \<Rightarrow> unit res" where
  "max_buf_size v =
     res_bind (validateNonNegativeInteger v ''emulation.http1Options.maxBufSize'') (\<lambda>_. case v of
        JNumber n \<Rightarrow> throw_if (num_less n 8192)
          (RequestError ''emulation.http1Options.maxBufSize must be greater than or equal to 8192'')
      | _ \<Rightarrow> Inr ())"

definition http1_fields :: "field list" where
  "http1_fields =
    [(''http09Responses'', copied),
     (''writev'', copied),
     (''ignoreInvalidHeadersInResponses'', copied),
     (''allowSpacesAfterHeaderNameInResponses'', copied),
     (''allowObsoleteMultilineHeadersInResponses'', copied),
     (''maxHeaders'',
        checked (\<lambda>v. validateNonNegativeInteger v ''emulation.http1Options.maxHeaders'')),
     (''readBufExactSize'',
        checked (\<lambda>v. validateNonNegativeInteger v ''emulation.http1Options.readBufExactSize'')),
     (''maxBufSize'', checked max_buf_size)]"

definition normalizeCustomHttp1Options :: "jsval \<Rightarrow> jsval res" where
  "normalizeCustomHttp1Options options =
     (if options = JUndefined then Inr JUndefined
      else res_bind (normalize_fields http1_fields options) (\<lambda>n.
        if lookup n ''readBufExactSize'' \<noteq> JUndefined \<and> lookup n ''maxBufSize'' \<noteq> JUndefined
        then Inl (RequestError
               ''emulation.http1Options.readBufExactSize and maxBufSize cannot both be set'')
        else Inr (undefined_if_empty n)))"

definition http2_size :: "string \<Rightarrow> field" where
  "http2_size k =
     (k, checked (\<lambda>v. validateNonNegativeInteger v (''emulation.http2Options.'' @ k)))"

definition settings_order :: "jsval \<Rightarrow> jsval res" where
  "settings_order =
     unique_array ''emulation.http2Options.settingsOrder''
       (one_of HTTP2_SETTING_IDS
          ''emulation.http2Options.settingsOrder contains an unsupported setting id'')
       (\<lambda>x. RequestError (''Duplicate emulation.http2Options.settingsOrder entry: '' @ js_string x))"

definition headers_pseudo_order :: "jsval \<Rightarrow> jsval res" where
  "headers_pseudo_order =
     unique_array ''emulation.http2Options.headersPseudoOrder''
       (one_of HTTP2_PSEUDO_HEADER_IDS
          ''emulation.http2Options.headersPseudoOrder contains an unsupported pseudo-header id'')
       (\<lambda>x. RequestError
          (''Duplicate emulation.http2Options.headersPseudoOrder entry: '' @ js_string x))"

definition headers_stream_dependency :: "jsval \<Rightarrow> jsval res" where
  "headers_stream_dependency v =
     (if v = JUndefined then Inr JUndefined
      else normalizeHttp2StreamDependency ''emulation.http2Options.headersStreamDependency'' v)"

definition http2_fields :: "field list" where
  "http2_fields =
    [(''adaptiveWindow'', copied),
     (''keepAliveWhileIdle'', copied),
     (''enablePush'', copied),
     (''enableConnectProtocol'', copied),
     (''noRfc7540Priorities'', copied),
     http2_size ''initialStreamId'',
     http2_size ''initialConnectionWindowSize'',
     http2_size ''initialWindowSize'',
     http2_size ''initialMaxSendStreams'',
     http2_size ''maxFrameSize'',
     http2_size ''keepAliveInterval'',
     http2_size ''keepAliveTimeout'',
     http2_size ''maxConcurrentResetStreams'',
     http2_size ''maxSendBufferSize'',
     http2_size ''maxConcurrentStreams'',
     http2_size ''maxHeaderListSize'',
     http2_size ''maxPendingAcceptResetStreams'',
     http2_size ''headerTableSize'',
     (''settingsOrder'', settings_order),
     (''headersPseudoOrder'', headers_pseudo_order),
     (''headersStreamDependency'', headers_stream_dependency),
     (''priorities'', normalize_priorities)]"

definition normalizeCustomHttp2Options :: "jsval \<Rightarrow> jsval res" where
  "normalizeCustomHttp2Options options =
     (if options = JUndefined then Inr JUndefined
      else res_bind (normalize_fields http2_fields options) (\<lambda>n. Inr (undefined_if_empty n)))"

section \<open>The whole emulation object\<close>

definition emulation_headers :: "jsval \<Rightarrow> jsval res" where
  "emulation_headers v =
     (if v = JUndefined then Inr JUndefined
      else res_bind (headersToTuples v) (\<lambda>headers.
             Inr (if length headers > 0 then tuples_value headers else JUndefined)))"

definition emulation_fields :: "field list" where
  "emulation_fields =
    [(''tlsOptions'', normalizeCustomTlsOptions),
     (''http1Options'', normalizeCustomHttp1Options),
     (''http2Options'', normalizeCustomHttp2Options),
     (''headers'', emulation_headers),
     (''origHeaders'', normalizeOrigHeaders)]"

definition standalone_error :: js_error where
  "standalone_error = RequestError
     ''Standalone custom emulation requires at least one of tlsOptions, http1Options, http2Options, headers, or origHeaders''"

definition normalizeCustomEmulationOptions :: "jsval \<Rightarrow> bool \<Rightarrow> jsval res" where
  "normalizeCustomEmulationOptions emulation allowEmpty =
     (if emulation = JUndefined then Inr JUndefined
      else if \<not> isPlainObject emulation then Inl (RequestError ''emulation must be an object'')
      else res_bind (normalize_fields emulation_fields emulation) (\<lambda>n.
        if \<not> allowEmpty \<and> \<not> isNonEmpty n then Inl standalone_error
        else Inr (undefined_if_empty n)))"

section \<open>JSON\<close>

definition json_escape :: "char \<Rightarrow> string" where
  "json_escape c =
     (let n = code_unit c in
      if n = 34 then [CHR 0x5C, CHR 0x22]
      else if n = 92 then [CHR 0x5C, CHR 0x5C]
      else if n = 8 then CHR 0x5C # ''b''
      else if n = 9 then CHR 0x5C # ''t''
      else if n = 10 then CHR 0x5C # ''n''
      else if n = 12 then CHR 0x5C # ''f''
      else if n = 13 then CHR 0x5C # ''r''
      else if n < 32 then
        CHR 0x5C # ''u00'' @ (if n < 16 then ''0'' else ''1'') @
          [if n mod 16 < 10 then digit_char (n mod 16) else char_of (87 + n mod 16)]
      else [c])"

definition json_quote :: "string \<Rightarrow> string" where
  "json_quote s = CHR 0x22 # concat (map json_escape s) @ [CHR 0x22]"

text \<open>
  \<open>JSON.stringify\<close>: \<open>None\<close> for a value that has no JSON form (undefined, a function). An instance is
  taken to have no \<open>toJSON\<close> and no own enumerable properties.
\<close>

fun json_stringify :: "jsval \<Rightarrow> string option" where
  "json_stringify JUndefined = None"
| "json_stringify JNull = Some ''null''"
| "json_stringify (JBool b) = Some (if b then ''true'' else ''false'')"
| "json_stringify (JNumber n) = Some (if is_finite n then number_string n else ''null'')"
| "json_stringify (JString s) = Some (json_quote s)"
| "json_stringify (JArray vs) = Some (''['' @
     join '','' (map (\<lambda>v. case json_stringify v of None \<Rightarrow> ''null'' | Some s \<Rightarrow> s) vs) @ '']'')"
| "json_stringify (JObject ps) = Some (''{'' @
     join '','' (concat (map (\<lambda>p. case json_stringify (snd p) of
                                  None \<Rightarrow> []
                                | Some s \<Rightarrow> [json_quote (fst p) @ '':'' @ s]) ps)) @ ''}'')"
| "json_stringify (JHeaders st) = Some (''{'' @ json_quote ''store'' @ '':{}}'')"
| "json_stringify (JIterable s vs) = Some ''{}''"
| "json_stringify (JInstance c s) = Some ''{}''"
| "json_stringify (JFunction s) = None"

definition serializeCustomEmulationOptions :: "jsval \<Rightarrow> bool \<Rightarrow> string option res" where
  "serializeCustomEmulationOptions emulation allowEmpty =
     res_bind (normalizeCustomEmulationOptions emulation allowEmpty) (\<lambda>normalized.
       Inr (if truthy normalized then json_stringify normalized else None))"

end
