(* ===== verification/Profiles.thy ===== *)
theory Profiles
  imports HeaderTuples
begin

text \<open>
  Browser profiles and operating systems: the generated tables of src/src/generated-types.ts, and in
  src/src/wreq-js.ts the cached queries of the native addon (\<open>getProfiles\<close>, \<open>getProfileSet\<close>,
  \<open>getOperatingSystems\<close>, \<open>getOperatingSystemSet\<close>, \<open>getEmulationHeaders\<close>), the two validators and the
  resolution of aliases.

  What the native addon answers is the parameter \<open>native_profiles\<close>. The queries thread the module's
  caches, \<open>profile_cache\<close>; the validators read the uncached value, which the lemmas on \<open>cache_ok\<close> show
  to be what the cached query returns.
\<close>

section \<open>The generated tables\<close>

definition BrowserProfile_names :: "string list" where
  "BrowserProfile_names = [
    ''chrome_100'', ''chrome_101'', ''chrome_104'', ''chrome_105'', ''chrome_106'', ''chrome_107'',
    ''chrome_108'', ''chrome_109'', ''chrome_110'', ''chrome_114'', ''chrome_116'', ''chrome_117'',
    ''chrome_118'', ''chrome_119'', ''chrome_120'', ''chrome_123'', ''chrome_124'', ''chrome_126'',
    ''chrome_127'', ''chrome_128'', ''chrome_129'', ''chrome_130'', ''chrome_131'', ''chrome_132'',
    ''chrome_133'', ''chrome_134'', ''chrome_135'', ''chrome_136'', ''chrome_137'', ''chrome_138'',
    ''chrome_139'', ''chrome_140'', ''chrome_141'', ''chrome_142'', ''chrome_143'', ''chrome_144'',
    ''chrome_145'', ''chrome_146'', ''chrome_147'', ''chrome_148'', ''chrome_149'', ''edge_101'',
    ''edge_122'', ''edge_127'', ''edge_131'', ''edge_134'', ''edge_135'', ''edge_136'',
    ''edge_137'', ''edge_138'', ''edge_139'', ''edge_140'', ''edge_141'', ''edge_142'',
    ''edge_143'', ''edge_144'', ''edge_145'', ''edge_146'', ''edge_147'', ''edge_148'',
    ''opera_116'', ''opera_117'', ''opera_118'', ''opera_119'', ''opera_120'', ''opera_121'',
    ''opera_122'', ''opera_123'', ''opera_124'', ''opera_125'', ''opera_126'', ''opera_127'',
    ''opera_128'', ''opera_129'', ''opera_130'', ''opera_131'', ''firefox_109'', ''firefox_117'',
    ''firefox_128'', ''firefox_133'', ''firefox_135'', ''firefox_private_135'',
    ''firefox_android_135'', ''firefox_136'', ''firefox_private_136'', ''firefox_139'',
    ''firefox_142'', ''firefox_143'', ''firefox_144'', ''firefox_145'', ''firefox_146'',
    ''firefox_147'', ''firefox_148'', ''firefox_149'', ''firefox_150'', ''firefox_151'',
    ''safari_ios_17.2'', ''safari_ios_17.4.1'', ''safari_ios_16.5'', ''safari_15.3'',
    ''safari_15.5'', ''safari_15.6.1'', ''safari_16'', ''safari_16.5'', ''safari_17.0'',
    ''safari_17.2.1'', ''safari_17.4.1'', ''safari_17.5'', ''safari_17.6'', ''safari_18'',
    ''safari_ipad_18'', ''safari_18.2'', ''safari_ios_18.1.1'', ''safari_18.3'', ''safari_18.3.1'',
    ''safari_18.5'', ''safari_26'', ''safari_26.1'', ''safari_26.2'', ''safari_26.3'',
    ''safari_26.4'', ''safari_ipad_26'', ''safari_ipad_26.2'', ''safari_ios_26'',
    ''safari_ios_26.2'', ''okhttp_3.9'', ''okhttp_3.11'', ''okhttp_3.13'', ''okhttp_3.14'',
    ''okhttp_4.9'', ''okhttp_4.10'', ''okhttp_4.12'', ''okhttp_5'']"

definition EmulationOS_names :: "string list" where
  "EmulationOS_names = [''windows'', ''macos'', ''linux'', ''android'', ''ios'']"

definition BrowserAlias_names :: "string list" where
  "BrowserAlias_names =
    [''chrome'', ''edge'', ''firefox'', ''firefox_android'', ''firefox_private'', ''okhttp'',
     ''opera'', ''safari'', ''safari_ios'', ''safari_ipad'']"

definition BROWSER_ALIASES :: "(string, string) omap" where
  "BROWSER_ALIASES =
    [(''chrome'', ''chrome_149''), (''edge'', ''edge_148''), (''firefox'', ''firefox_151''),
     (''firefox_android'', ''firefox_android_135''), (''firefox_private'', ''firefox_private_136''),
     (''okhttp'', ''okhttp_5''), (''opera'', ''opera_131''), (''safari'', ''safari_26.4''),
     (''safari_ios'', ''safari_ios_26.2''), (''safari_ipad'', ''safari_ipad_26.2'')]"

definition DEFAULT_BROWSER :: string where
  "DEFAULT_BROWSER = ''chrome_149''"

definition DEFAULT_OS :: string where
  "DEFAULT_OS = ''macos''"

definition SUPPORTED_OSES :: "string list" where
  "SUPPORTED_OSES = [''windows'', ''macos'', ''linux'', ''android'', ''ios'']"

section \<open>The native queries and their caches\<close>

text \<open>
  \<open>getOperatingSystems\<close> and \<open>getEmulationHeaders\<close> are absent from some builds of the addon
  (\<open>None\<close>); reading the headers of a profile may throw.
\<close>

record native_profiles =
  native_getProfiles :: "string list"
  native_getOperatingSystems :: "string list option"
  native_getEmulationHeaders :: "(string \<Rightarrow> string \<Rightarrow> HeaderTuple list res) option"

record profile_cache =
  cachedProfiles :: "string list option"
  cachedProfileSet :: "string list option"
  cachedOperatingSystems :: "string list option"
  cachedOperatingSystemSet :: "string list option"
  cachedEmulationHeaders :: "(string, HeaderTuple list) omap"

definition empty_cache :: profile_cache where
  "empty_cache = \<lparr>cachedProfiles = None, cachedProfileSet = None, cachedOperatingSystems = None,
     cachedOperatingSystemSet = None, cachedEmulationHeaders = []\<rparr>"

definition getProfiles :: "native_profiles \<Rightarrow> profile_cache \<Rightarrow> string list \<times> profile_cache" where
  "getProfiles np c = (case cachedProfiles c of
      Some ps \<Rightarrow> (ps, c)
    | None \<Rightarrow> (native_getProfiles np, c\<lparr>cachedProfiles := Some (native_getProfiles np)\<rparr>))"

definition getProfileSet :: "native_profiles \<Rightarrow> profile_cache \<Rightarrow> string list \<times> profile_cache" where
  "getProfileSet np c = (case cachedProfileSet c of
      Some ps \<Rightarrow> (ps, c)
    | None \<Rightarrow>
        (let (ps, c') = getProfiles np c in (remdups ps, c'\<lparr>cachedProfileSet := Some (remdups ps)\<rparr>)))"

definition getOperatingSystems ::
  "native_profiles \<Rightarrow> profile_cache \<Rightarrow> string list \<times> profile_cache" where
  "getOperatingSystems np c = (case cachedOperatingSystems c of
      Some os \<Rightarrow> (os, c)
    | None \<Rightarrow>
        (let os = (case native_getOperatingSystems np of
                     Some fromNative \<Rightarrow> (if length fromNative > 0 then fromNative else SUPPORTED_OSES)
                   | None \<Rightarrow> SUPPORTED_OSES)
         in (os, c\<lparr>cachedOperatingSystems := Some os\<rparr>)))"

definition getOperatingSystemSet ::
  "native_profiles \<Rightarrow> profile_cache \<Rightarrow> string list \<times> profile_cache" where
  "getOperatingSystemSet np c = (case cachedOperatingSystemSet c of
      Some os \<Rightarrow> (os, c)
    | None \<Rightarrow>
        (let (os, c') = getOperatingSystems np c
         in (remdups os, c'\<lparr>cachedOperatingSystemSet := Some (remdups os)\<rparr>)))"

text \<open>The values the queries return whatever the caches hold.\<close>

definition profiles_of :: "native_profiles \<Rightarrow> string list" where
  "profiles_of np = native_getProfiles np"

definition oses_of :: "native_profiles \<Rightarrow> string list" where
  "oses_of np = (case native_getOperatingSystems np of
      Some (o1 # os) \<Rightarrow> o1 # os
    | _ \<Rightarrow> SUPPORTED_OSES)"

section \<open>Validation and aliases\<close>

definition validateBrowserProfile :: "native_profiles \<Rightarrow> jsval \<Rightarrow> unit res" where
  "validateBrowserProfile np browser =
     (if browser = JUndefined then Inr ()
      else case browser of
        JString s \<Rightarrow>
          (if length (trim s) = 0 then Inl (RequestError ''Browser profile must not be empty'')
           else throw_if (s \<notin> set (profiles_of np) \<and> \<not> om_has BROWSER_ALIASES s)
             (RequestError (''Invalid browser profile: '' @ s @ ''. Available aliases: '' @
                join '', '' (om_keys BROWSER_ALIASES) @ ''. Available profiles: '' @
                join '', '' (profiles_of np))))
      | _ \<Rightarrow> Inl (RequestError ''Browser profile must not be empty''))"

definition validateOperatingSystem :: "native_profiles \<Rightarrow> jsval \<Rightarrow> unit res" where
  "validateOperatingSystem np os =
     (if os = JUndefined then Inr ()
      else case os of
        JString s \<Rightarrow>
          (if length (trim s) = 0 then Inl (RequestError ''Operating system must not be empty'')
           else throw_if (s \<notin> set (oses_of np))
             (RequestError (''Invalid operating system: '' @ s @ ''. Available options: '' @
                join '', '' (oses_of np))))
      | _ \<Rightarrow> Inl (RequestError ''Operating system must not be empty''))"

text \<open>For a \<open>browser\<close> that is not undefined, as its type says.\<close>

definition resolveProfile :: "native_profiles \<Rightarrow> jsval \<Rightarrow> string res" where
  "resolveProfile np browser =
     res_bind (validateBrowserProfile np browser) (\<lambda>_.
       Inr (case om_get BROWSER_ALIASES (js_string browser) of
              Some profile \<Rightarrow> profile
            | None \<Rightarrow> js_string browser))"

definition emulation_cache_key :: "string \<Rightarrow> string \<Rightarrow> string" where
  "emulation_cache_key browser os = browser @ '' '' @ os"

definition getEmulationHeaders ::
  "native_profiles \<Rightarrow> profile_cache \<Rightarrow> jsval \<Rightarrow> jsval \<Rightarrow> header_store res \<times> profile_cache" where
  "getEmulationHeaders np c browser os =
     (case res_bind (validateOperatingSystem np os) (\<lambda>_.
             if browser = JUndefined then Inr DEFAULT_BROWSER else resolveProfile np browser) of
        Inl e \<Rightarrow> (Inl e, c)
      | Inr resolvedBrowser \<Rightarrow>
          (let resolvedOs = (if nullish os then DEFAULT_OS else js_string os);
               cacheKey = emulation_cache_key resolvedBrowser resolvedOs in
           case om_get (cachedEmulationHeaders c) cacheKey of
             Some tuples \<Rightarrow> (Headers_new (tuples_value tuples), c)
           | None \<Rightarrow>
               (case native_getEmulationHeaders np of
                  None \<Rightarrow> (Inl (RequestError
                    ''getEmulationHeaders is not available in this build of the native addon''), c)
                | Some readEmulationHeaders \<Rightarrow>
                    (case readEmulationHeaders resolvedBrowser resolvedOs of
                       Inl e \<Rightarrow> (Inl e, c)
                     | Inr tuples \<Rightarrow>
                         (Headers_new (tuples_value tuples),
                          c\<lparr>cachedEmulationHeaders :=
                              om_set (cachedEmulationHeaders c) cacheKey tuples\<rparr>)))))"

text \<open>The same without a cache.\<close>

definition emulation_headers_of ::
  "native_profiles \<Rightarrow> jsval \<Rightarrow> jsval \<Rightarrow> header_store res" where
  "emulation_headers_of np browser os =
     res_bind (validateOperatingSystem np os) (\<lambda>_.
     res_bind (if browser = JUndefined then Inr DEFAULT_BROWSER else resolveProfile np browser)
       (\<lambda>resolvedBrowser.
     res_bind (case native_getEmulationHeaders np of
                 None \<Rightarrow> Inl (RequestError
                   ''getEmulationHeaders is not available in this build of the native addon'')
               | Some rd \<Rightarrow> rd resolvedBrowser (if nullish os then DEFAULT_OS else js_string os))
       (\<lambda>tuples. Headers_new (tuples_value tuples))))"

section \<open>Caches are transparent\<close>

definition headers_cached :: "native_profiles \<Rightarrow> (string, HeaderTuple list) omap \<Rightarrow> bool" where
  "headers_cached np m \<longleftrightarrow>
     (\<forall>b os ts. os \<in> set (DEFAULT_OS # oses_of np) \<longrightarrow>
        om_get m (emulation_cache_key b os) = Some ts \<longrightarrow>
        (\<exists>rd. native_getEmulationHeaders np = Some rd \<and> rd b os = Inr ts))"

definition cache_ok :: "native_profiles \<Rightarrow> profile_cache \<Rightarrow> bool" where
  "cache_ok np c \<longleftrightarrow>
     cachedProfiles c \<in> {None, Some (profiles_of np)} \<and>
     cachedProfileSet c \<in> {None, Some (remdups (profiles_of np))} \<and>
     cachedOperatingSystems c \<in> {None, Some (oses_of np)} \<and>
     cachedOperatingSystemSet c \<in> {None, Some (remdups (oses_of np))} \<and>
     headers_cached np (cachedEmulationHeaders c)"

lemma cache_ok_empty: "cache_ok np empty_cache"
  by (simp add: cache_ok_def empty_cache_def headers_cached_def)

lemma getProfiles_transparent:
  "cache_ok np c \<Longrightarrow> fst (getProfiles np c) = profiles_of np \<and> cache_ok np (snd (getProfiles np c))"
  by (auto simp: getProfiles_def cache_ok_def profiles_of_def)

lemma getProfileSet_transparent:
  assumes "cache_ok np c"
  shows "set (fst (getProfileSet np c)) = set (profiles_of np) \<and> cache_ok np (snd (getProfileSet np c))"
proof (cases "cachedProfileSet c")
  case None
  obtain ps c' where g: "getProfiles np c = (ps, c')" by fastforce
  with getProfiles_transparent [OF assms] have "ps = profiles_of np" "cache_ok np c'" by auto
  with None g show ?thesis by (simp add: getProfileSet_def cache_ok_def)
next
  case (Some ps)
  with assms show ?thesis by (auto simp: getProfileSet_def cache_ok_def)
qed

lemma oses_of_native: "oses_of np = (case native_getOperatingSystems np of
    Some fromNative \<Rightarrow> (if length fromNative > 0 then fromNative else SUPPORTED_OSES)
  | None \<Rightarrow> SUPPORTED_OSES)"
  by (auto simp: oses_of_def split: option.splits list.splits)

lemma getOperatingSystems_transparent:
  "cache_ok np c \<Longrightarrow>
     fst (getOperatingSystems np c) = oses_of np \<and> cache_ok np (snd (getOperatingSystems np c))"
  by (auto simp: getOperatingSystems_def cache_ok_def Let_def oses_of_native [symmetric])

lemma getOperatingSystemSet_transparent:
  assumes "cache_ok np c"
  shows "set (fst (getOperatingSystemSet np c)) = set (oses_of np) \<and>
     cache_ok np (snd (getOperatingSystemSet np c))"
proof (cases "cachedOperatingSystemSet c")
  case None
  obtain os c' where g: "getOperatingSystems np c = (os, c')" by fastforce
  with getOperatingSystems_transparent [OF assms] have "os = oses_of np" "cache_ok np c'" by auto
  with None g show ?thesis by (simp add: getOperatingSystemSet_def cache_ok_def)
next
  case (Some os)
  with assms show ?thesis by (auto simp: getOperatingSystemSet_def cache_ok_def)
qed

text \<open>The cache key is unambiguous when no operating system has a space in its name.\<close>

lemma emulation_cache_key_inj:
  assumes "CHR '' '' \<notin> set os" "CHR '' '' \<notin> set os'"
    and "emulation_cache_key b os = emulation_cache_key b' os'"
  shows "b = b' \<and> os = os'"
proof -
  have split_last: "rev (takeWhile (\<lambda>c. c \<noteq> CHR '' '') (rev (b @ '' '' @ os))) = os"
    if "CHR '' '' \<notin> set os" for b os
  proof -
    have "takeWhile (\<lambda>c. c \<noteq> CHR '' '') (rev os @ '' '' @ rev b) = rev os"
      using that by (subst takeWhile_append2) auto
    then show ?thesis by simp
  qed
  from assms(3) have eq: "b @ '' '' @ os = b' @ '' '' @ os'"
    by (simp add: emulation_cache_key_def)
  with split_last [OF assms(1), of b] split_last [OF assms(2), of b'] have "os = os'"
    by metis
  with eq show ?thesis by simp
qed

lemma validateOperatingSystem_Inr:
  "validateOperatingSystem np os = Inr () \<longleftrightarrow>
     os = JUndefined \<or> (\<exists>s. os = JString s \<and> trim s \<noteq> [] \<and> s \<in> set (oses_of np))"
  by (auto simp: validateOperatingSystem_def split: jsval.splits)

lemma validateBrowserProfile_Inr:
  "validateBrowserProfile np b = Inr () \<longleftrightarrow>
     b = JUndefined \<or>
     (\<exists>s. b = JString s \<and> trim s \<noteq> [] \<and>
          (s \<in> set (profiles_of np) \<or> s \<in> set (om_keys BROWSER_ALIASES)))"
  by (auto simp: validateBrowserProfile_def om_has_def om_get_None_iff split: jsval.splits)

lemma resolveProfile_JString:
  "resolveProfile np (JString s) = Inr p \<longleftrightarrow>
     validateBrowserProfile np (JString s) = Inr () \<and>
     p = opt_default (om_get BROWSER_ALIASES s) s"
  by (auto simp: resolveProfile_def opt_default_def res_bind_Inr_iff split: option.splits)

lemma resolveProfile_Inr:
  assumes "resolveProfile np b = Inr p" "b \<noteq> JUndefined"
  shows "p \<in> set (om_values BROWSER_ALIASES) \<or> (p \<in> set (profiles_of np) \<and> p \<notin> set (om_keys BROWSER_ALIASES))"
proof -
  from assms obtain s where s: "b = JString s"
    "s \<in> set (profiles_of np) \<or> s \<in> set (om_keys BROWSER_ALIASES)"
    by (auto simp: resolveProfile_def validateBrowserProfile_Inr res_bind_Inr_iff)
  with assms(1) have p: "p = opt_default (om_get BROWSER_ALIASES s) s"
    by (simp add: resolveProfile_JString)
  show ?thesis
  proof (cases "om_get BROWSER_ALIASES s")
    case None
    with p s show ?thesis by (simp add: om_get_None_iff)
  next
    case (Some q)
    then have "(s, q) \<in> set BROWSER_ALIASES" by (rule om_get_Some_in)
    with p Some show ?thesis by (force simp: om_values_def)
  qed
qed

lemma aliases_point_at_profiles:
  "set (om_values BROWSER_ALIASES) \<subseteq> set BrowserProfile_names"
  by (simp add: om_values_def BROWSER_ALIASES_def BrowserProfile_names_def)

lemma aliases_are_not_profiles:
  "set (om_keys BROWSER_ALIASES) \<inter> set (om_values BROWSER_ALIASES) = {}"
  by (simp add: om_keys_def om_values_def BROWSER_ALIASES_def)

lemma cache_lookup_sound:
  assumes "cache_ok np c" "validateOperatingSystem np os = Inr ()"
    and "om_get (cachedEmulationHeaders c)
           (emulation_cache_key b (if nullish os then DEFAULT_OS else js_string os)) = Some ts"
  shows "\<exists>rd. native_getEmulationHeaders np = Some rd \<and>
           rd b (if nullish os then DEFAULT_OS else js_string os) = Inr ts"
proof -
  from assms(2) have "(if nullish os then DEFAULT_OS else js_string os) \<in> set (DEFAULT_OS # oses_of np)"
    by (auto simp: validateOperatingSystem_Inr)
  with assms(1,3) show ?thesis unfolding cache_ok_def headers_cached_def by blast
qed

lemma cache_ok_insert:
  assumes ok: "cache_ok np c" and rd: "native_getEmulationHeaders np = Some rd" "rd b os = Inr ts"
    and os: "os \<in> set (DEFAULT_OS # oses_of np)"
    and nosp: "\<forall>os \<in> set (DEFAULT_OS # oses_of np). CHR '' '' \<notin> set os"
  shows "cache_ok np (c\<lparr>cachedEmulationHeaders :=
           om_set (cachedEmulationHeaders c) (emulation_cache_key b os) ts\<rparr>)"
proof -
  have "\<exists>rd. native_getEmulationHeaders np = Some rd \<and> rd b' os' = Inr ts'"
    if os': "os' \<in> set (DEFAULT_OS # oses_of np)"
      and get: "om_get (om_set (cachedEmulationHeaders c) (emulation_cache_key b os) ts)
             (emulation_cache_key b' os') = Some ts'"
    for b' os' ts'
  proof (cases "emulation_cache_key b' os' = emulation_cache_key b os")
    case True
    with nosp os os' have "b' = b \<and> os' = os"
      by (intro emulation_cache_key_inj) auto
    with get rd show ?thesis by (simp add: om_get_set)
  next
    case False
    with get have "om_get (cachedEmulationHeaders c) (emulation_cache_key b' os') = Some ts'"
      by (simp add: om_get_set)
    with ok os' show ?thesis unfolding cache_ok_def headers_cached_def by blast
  qed
  with ok show ?thesis unfolding cache_ok_def headers_cached_def by simp
qed

lemma getEmulationHeaders_call:
  assumes ok: "cache_ok np c"
    and nosp: "\<forall>os \<in> set (DEFAULT_OS # oses_of np). CHR '' '' \<notin> set os"
    and run: "getEmulationHeaders np c browser os = (r, c')"
  shows "r = emulation_headers_of np browser os \<and> cache_ok np c'"
proof (cases "validateOperatingSystem np os")
  case (Inl e)
  with run ok show ?thesis by (simp add: getEmulationHeaders_def emulation_headers_of_def)
next
  case V: (Inr u)
  let ?R = "if browser = JUndefined then Inr DEFAULT_BROWSER else resolveProfile np browser"
  let ?os = "if nullish os then DEFAULT_OS else js_string os"
  from V have os: "?os \<in> set (DEFAULT_OS # oses_of np)"
    by (auto simp: validateOperatingSystem_Inr)
  show ?thesis
  proof (cases ?R)
    case (Inl e)
    with V run ok show ?thesis
      by (simp add: getEmulationHeaders_def emulation_headers_of_def split del: if_split)
  next
    case R: (Inr b)
    show ?thesis
    proof (cases "om_get (cachedEmulationHeaders c) (emulation_cache_key b ?os)")
      case (Some ts)
      with cache_lookup_sound [OF ok _ Some] V obtain rd where
        "native_getEmulationHeaders np = Some rd" "rd b ?os = Inr ts" by auto
      with V R run ok Some show ?thesis
        by (simp add: getEmulationHeaders_def emulation_headers_of_def Let_def split del: if_split)
    next
      case none: None
      show ?thesis
      proof (cases "native_getEmulationHeaders np")
        case None
        with V R run ok none show ?thesis
          by (simp add: getEmulationHeaders_def emulation_headers_of_def Let_def split del: if_split)
      next
        case rd: (Some rd)
        show ?thesis
        proof (cases "rd b ?os")
          case (Inl e)
          with V R run ok none rd show ?thesis
            by (simp add: getEmulationHeaders_def emulation_headers_of_def Let_def split del: if_split)
        next
          case (Inr ts)
          with V R run ok none rd cache_ok_insert [OF ok rd Inr os nosp] show ?thesis
            by (auto simp: getEmulationHeaders_def emulation_headers_of_def Let_def split del: if_split)
        qed
      qed
    qed
  qed
qed

text \<open>A sequence of header queries, each seeing the caches its predecessors left.\<close>

fun query_run ::
  "native_profiles \<Rightarrow> profile_cache \<Rightarrow> (jsval \<times> jsval) list \<Rightarrow> header_store res list" where
  "query_run np c [] = []"
| "query_run np c ((b, os) # qs) =
     (let (r, c') = getEmulationHeaders np c b os in r # query_run np c' qs)"

lemma query_run_transparent:
  assumes "cache_ok np c" "\<forall>os \<in> set (DEFAULT_OS # oses_of np). CHR '' '' \<notin> set os"
  shows "query_run np c qs = map (\<lambda>(b, os). emulation_headers_of np b os) qs"
  using assms(1)
proof (induction qs arbitrary: c)
  case (Cons q qs)
  obtain b os where q: "q = (b, os)" by (cases q)
  obtain r c' where g: "getEmulationHeaders np c b os = (r, c')" by (metis prod.exhaust)
  with getEmulationHeaders_call [OF Cons.prems assms(2) g] Cons.IH [of c'] q show ?case by simp
qed simp

section \<open>Properties\<close>

text \<open>The emulation-header cache is transparent: from a cold cache, every query of a sequence of
  \<open>getEmulationHeaders\<close> calls returns, or throws, exactly what a build without the cache would. The
  key \<open>browser os\<close> is unambiguous as long as no operating system has a space in its name.\<close>

lemma emulation_cache_transparent:
  assumes "\<forall>os \<in> set (DEFAULT_OS # oses_of np). CHR '' '' \<notin> set os"
  shows "query_run np empty_cache qs = map (\<lambda>(b, os). emulation_headers_of np b os) qs"
  by (rule query_run_transparent [OF cache_ok_empty assms])

definition sample_profiles :: native_profiles where
  "sample_profiles = \<lparr>native_getProfiles = [''chrome_131''], native_getOperatingSystems = None,
     native_getEmulationHeaders = Some (\<lambda>b os. Inr [(''user-agent'', b @ ''/'' @ os)])\<rparr>"

lemma emulation_cache_transparent_witness:
  "query_run sample_profiles empty_cache
     [(JString ''chrome_131'', JUndefined), (JString ''chrome_131'', JString ''macos''), (JString ''x'', JNull)] =
   map (\<lambda>(b, os). emulation_headers_of sample_profiles b os)
     [(JString ''chrome_131'', JUndefined), (JString ''chrome_131'', JString ''macos''), (JString ''x'', JNull)]"
proof (rule emulation_cache_transparent)
  show "\<forall>os \<in> set (DEFAULT_OS # oses_of sample_profiles). CHR '' '' \<notin> set os"
    by code_simp
qed

text \<open>\<open>resolveProfile\<close> gives a concrete profile and not an alias: the result is the target of an
  alias or a known profile that is no alias, and when it is a known profile, resolving it again
  changes nothing.\<close>

lemma resolveProfile_concrete:
  assumes "resolveProfile np (JString b) = Inr p"
  shows "p \<notin> set (om_keys BROWSER_ALIASES) \<and>
    (p \<in> set (profiles_of np) \<and> trim p \<noteq> [] \<longrightarrow> resolveProfile np (JString p) = Inr p)"
proof -
  from resolveProfile_Inr [OF assms] aliases_are_not_profiles
  have no: "p \<notin> set (om_keys BROWSER_ALIASES)" by blast
  then have "om_get BROWSER_ALIASES p = None" by (simp add: om_get_None_iff)
  with no show ?thesis by (auto simp: resolveProfile_JString validateBrowserProfile_Inr)
qed

lemma resolveProfile_concrete_witness:
  "\<exists>p. resolveProfile sample_profiles (JString ''chrome'') = Inr p \<and> p \<notin> set (om_keys BROWSER_ALIASES)"
proof -
  have "om_get BROWSER_ALIASES ''chrome'' = Some DEFAULT_BROWSER" by code_simp
  moreover have "trim ''chrome'' \<noteq> []" by code_simp
  moreover have "''chrome'' \<in> set (om_keys BROWSER_ALIASES)" by code_simp
  ultimately have "resolveProfile sample_profiles (JString ''chrome'') = Inr DEFAULT_BROWSER"
    by (simp add: resolveProfile_JString validateBrowserProfile_Inr)
  with resolveProfile_concrete [OF this] show ?thesis by blast
qed

end
