(* ===== verification/Emulation.thy ===== *)
theory Emulation
  imports EmulationFields Profiles
begin

text \<open>
  What the normalisation of custom emulation options guarantees, and the emulation mode a request, a
  session, a transport or a web socket resolves to (\<open>resolveEmulationMode\<close>,
  \<open>applyNativeEmulationMode\<close>).

  A field is stable when normalising its own output changes nothing; every table entry is, so the
  normalisation of a whole object is. What reaches the native layer satisfies \<open>wire_ok\<close>.
\<close>

section \<open>Running a table\<close>

definition stable :: "(jsval \<Rightarrow> jsval res) \<Rightarrow> bool" where
  "stable f \<longleftrightarrow> f JUndefined = Inr JUndefined \<and> (\<forall>x v. f x = Inr v \<longrightarrow> f v = Inr v)"

lemma stableI: "f JUndefined = Inr JUndefined \<Longrightarrow> (\<And>x v. f x = Inr v \<Longrightarrow> f v = Inr v) \<Longrightarrow> stable f"
  by (simp add: stable_def)

lemma stableD: "stable f \<Longrightarrow> f x = Inr v \<Longrightarrow> f v = Inr v"
  by (simp add: stable_def)

lemma normalize_fields_keys:
  "normalize_fields fs options = Inr n \<Longrightarrow> set (map fst n) \<subseteq> set (map fst fs)"
proof (induction fs arbitrary: n)
  case (Cons p fs)
  obtain k f where p: "p = (k, f)" by (cases p)
  from Cons.prems p obtain v rest where rest: "normalize_fields fs options = Inr rest"
    and n: "n = (if v = JUndefined then rest else (k, v) # rest)"
    by auto
  from Cons.IH [OF rest] p n show ?case by auto
qed simp

lemma normalize_fields_distinct:
  "distinct (map fst fs) \<Longrightarrow> normalize_fields fs options = Inr n \<Longrightarrow> distinct (map fst n)"
proof (induction fs arbitrary: n)
  case (Cons p fs)
  obtain k f where p: "p = (k, f)" by (cases p)
  from Cons.prems(2) p obtain v rest where rest: "normalize_fields fs options = Inr rest"
    and n: "n = (if v = JUndefined then rest else (k, v) # rest)"
    by auto
  from normalize_fields_keys [OF rest] Cons.prems(1) p have "k \<notin> set (map fst rest)" by auto
  with Cons rest p n show ?case by simp
qed simp

lemma normalize_fields_entry:
  assumes "normalize_fields fs options = Inr n" "(k, v) \<in> set n"
  shows "\<exists>f x. (k, f) \<in> set fs \<and> get_prop options k = Inr x \<and> f x = Inr v \<and> v \<noteq> JUndefined"
  using assms
proof (induction fs arbitrary: n)
  case (Cons p fs)
  obtain k' f where p: "p = (k', f)" by (cases p)
  from Cons.prems(1) p obtain x v' rest where step: "get_prop options k' = Inr x" "f x = Inr v'"
      "normalize_fields fs options = Inr rest"
    and n: "n = (if v' = JUndefined then rest else (k', v') # rest)"
    by auto
  show ?case
  proof (cases "v' \<noteq> JUndefined \<and> (k, v) = (k', v')")
    case True
    with step p show ?thesis by auto
  next
    case False
    with n Cons.prems(2) have "(k, v) \<in> set rest" by (auto split: if_splits)
    with Cons.IH [OF step(3)] p show ?thesis by auto
  qed
qed simp

lemma normalize_fields_stable:
  assumes "normalize_fields fs options = Inr n" "list_all (\<lambda>(k, f). stable f) fs"
    and "distinct (map fst fs)" "\<forall>k \<in> set (map fst fs). lookup ps k = lookup n k"
  shows "normalize_fields fs (JObject ps) = Inr n"
  using assms
proof (induction fs arbitrary: n)
  case (Cons p fs)
  obtain k f where p: "p = (k, f)" by (cases p)
  from Cons.prems(1) p obtain x v rest where step: "f x = Inr v"
      "normalize_fields fs options = Inr rest"
    and n: "n = (if v = JUndefined then rest else (k, v) # rest)"
    by auto
  from normalize_fields_keys [OF step(2)] Cons.prems(3) p have notin: "k \<notin> fst ` set rest" by auto
  from Cons.prems(3) p have k: "k \<notin> fst ` set fs" by auto
  have "lookup ps k = v"
    using Cons.prems(4) p n notin by (cases "v = JUndefined") auto
  moreover have "f v = Inr v"
    using Cons.prems(2) p step(1) by (auto intro: stableD)
  moreover have "normalize_fields fs (JObject ps) = Inr rest"
  proof (rule Cons.IH [OF step(2)])
    show "\<forall>k' \<in> set (map fst fs). lookup ps k' = lookup rest k'"
    proof
      fix k' assume "k' \<in> set (map fst fs)"
      moreover from this k have "k' \<noteq> k" by auto
      ultimately show "lookup ps k' = lookup rest k'"
        using Cons.prems(4) p n by (auto split: if_splits)
    qed
  qed (use Cons.prems p in auto)
  ultimately show ?case using p n by simp
qed simp

lemma normalize_fields_fixed:
  assumes "normalize_fields fs options = Inr n" "list_all (\<lambda>(k, f). stable f) fs"
    "distinct (map fst fs)"
  shows "normalize_fields fs (JObject n) = Inr n"
  using normalize_fields_stable [OF assms] by blast

section \<open>Every field is stable\<close>

lemma stable_copied [simp]: "stable copied"
  by (simp add: stable_def copied_def)

lemma stable_checked [simp]: "stable (checked c)"
  by (auto simp: stable_def checked_def split: if_splits)

lemma unique_loop_Inr:
  "unique_loop check dup seen xs = Inr ys \<longleftrightarrow>
     ys = xs \<and> (\<forall>x \<in> set xs. check x = Inr ()) \<and> distinct xs \<and> set xs \<inter> set seen = {}"
  by (induction xs arbitrary: seen ys) (auto simp: res_bind_Inr_iff)

lemma unique_array_Inr:
  "unique_array label check dup v = Inr w \<longleftrightarrow>
     w = v \<and> (v = JUndefined \<or>
       (\<exists>xs. v = JArray xs \<and> (\<forall>x \<in> set xs. check x = Inr ()) \<and> distinct xs))"
  by (auto simp: unique_array_def unique_loop_Inr res_bind_Inr_iff split: jsval.splits)

lemma stable_unique_array [simp]: "stable (unique_array label check dup)"
  by (auto simp: stable_def unique_array_Inr)

lemma one_of_Inr: "one_of allowed msg v = Inr () \<longleftrightarrow> v \<in> JString ` set allowed"
  by (auto simp: one_of_def split: jsval.splits)

lemma normalizeProtocolList_Inr:
  "normalizeProtocolList label allowed v = Inr w \<longleftrightarrow>
     w = v \<and> (v = JUndefined \<or> (\<exists>ps. v = JArray ps \<and> set ps \<subseteq> JString ` set allowed))"
  by (auto simp: normalizeProtocolList_def res_bind_Inr_iff res_all_Inr_iff one_of_Inr
      split: jsval.splits)

lemma stable_protocolList [simp]: "stable (normalizeProtocolList label allowed)"
  by (auto simp: stable_def normalizeProtocolList_Inr)

lemma tls_versions_fixed:
  "list_all (\<lambda>v. om_get TLS_VERSION_ALIASES (to_lower (trim v)) = Some v)
     [''1.0'', ''1.1'', ''1.2'', ''1.3'']"
  by code_simp

lemma tls_version_values:
  "om_get TLS_VERSION_ALIASES k = Some v \<Longrightarrow> v \<in> {''1.0'', ''1.1'', ''1.2'', ''1.3''}"
  by (auto simp: TLS_VERSION_ALIASES_def split: if_splits)

lemma normalizeTlsVersion_Inr:
  assumes "normalizeTlsVersion label v = Inr w"
  shows "w = JUndefined \<and> v = JUndefined \<or>
    (\<exists>version \<in> {''1.0'', ''1.1'', ''1.2'', ''1.3''}. w = JString version)"
  using assms tls_version_values
  by (fastforce simp: normalizeTlsVersion_def split: jsval.splits option.splits)

lemma stable_tlsVersion [simp]: "stable (normalizeTlsVersion label)"
proof (rule stableI)
  show "normalizeTlsVersion label JUndefined = Inr JUndefined"
    by (simp add: normalizeTlsVersion_def)
  fix x v assume "normalizeTlsVersion label x = Inr v"
  from normalizeTlsVersion_Inr [OF this] tls_versions_fixed
  show "normalizeTlsVersion label v = Inr v"
    by (auto simp: normalizeTlsVersion_def)
qed

lemma orig_headers_loop_Inr:
  "orig_headers_loop seen xs = Inr ys \<Longrightarrow>
     (\<forall>y \<in> set ys. trim y = y \<and> y \<noteq> []) \<and> distinct (map to_lower ys) \<and>
     to_lower ` set ys \<inter> set seen = {}"
proof (induction xs arbitrary: seen ys)
  case (Cons x xs)
  from Cons.prems obtain s r where x: "x = JString s" and t: "trim s \<noteq> []"
    and new: "to_lower (trim s) \<notin> set seen"
    and r: "orig_headers_loop (to_lower (trim s) # seen) xs = Inr r"
    and ys: "ys = trim s # r"
    by (auto simp: Let_def split: jsval.splits if_splits)
  from Cons.IH [OF r] t new show ?case unfolding ys by auto
qed simp

lemma orig_headers_loop_fixed:
  "\<lbrakk>\<forall>y \<in> set ys. trim y = y \<and> y \<noteq> []; distinct (map to_lower ys); to_lower ` set ys \<inter> set seen = {}\<rbrakk>
     \<Longrightarrow> orig_headers_loop seen (map JString ys) = Inr ys"
  by (induction ys arbitrary: seen) (auto simp: Let_def)

lemma normalizeOrigHeaders_Inr:
  assumes "normalizeOrigHeaders v = Inr w"
  shows "w = JUndefined \<or>
    (\<exists>ys. w = JArray (map JString ys) \<and> ys \<noteq> [] \<and> (\<forall>y \<in> set ys. trim y = y \<and> y \<noteq> []) \<and>
          distinct (map to_lower ys))"
  using assms orig_headers_loop_Inr
  by (fastforce simp: normalizeOrigHeaders_def split: jsval.splits if_splits)

lemma stable_origHeaders [simp]: "stable normalizeOrigHeaders"
proof (rule stableI)
  show "normalizeOrigHeaders JUndefined = Inr JUndefined"
    by (simp add: normalizeOrigHeaders_def)
  fix x v assume "normalizeOrigHeaders x = Inr v"
  from normalizeOrigHeaders_Inr [OF this] orig_headers_loop_fixed [where seen = "[]"]
  show "normalizeOrigHeaders v = Inr v"
    by (auto simp: normalizeOrigHeaders_def)
qed

definition dependency_ok :: "jsval \<Rightarrow> bool" where
  "dependency_ok v \<longleftrightarrow>
     (\<exists>i w ps. v = JObject ([(''dependencyId'', JNumber (NumInt i)), (''weight'', JNumber (NumInt w))] @ ps) \<and>
        0 \<le> i \<and> i \<le> 0x7fffffff \<and> 0 \<le> w \<and> w \<le> 255 \<and>
        (ps = [] \<or> (\<exists>e. ps = [(''exclusive'', e)] \<and> e \<noteq> JUndefined)))"

lemma dependency_ok_Inr:
  "normalizeHttp2StreamDependency label v = Inr w \<Longrightarrow> dependency_ok w"
  by (auto simp: normalizeHttp2StreamDependency_def dependency_ok_def validateIntegerInRange_iff
      split: jsval.splits)

lemma dependency_ok_fixed:
  "dependency_ok v \<Longrightarrow> normalizeHttp2StreamDependency label v = Inr v"
  by (auto simp: dependency_ok_def normalizeHttp2StreamDependency_def res_bind_Inr_iff
      validateIntegerInRange_iff)

lemma stable_headers_stream_dependency [simp]: "stable headers_stream_dependency"
  by (rule stableI)
    (auto simp: headers_stream_dependency_def dependency_ok_fixed dest: dependency_ok_Inr
      split: if_splits)

definition priority_ok :: "jsval \<Rightarrow> bool" where
  "priority_ok v \<longleftrightarrow>
     (\<exists>i d. v = JObject [(''streamId'', JNumber (NumInt i)), (''dependency'', d)] \<and>
        0 < i \<and> dependency_ok d)"

definition stream_id :: "jsval \<Rightarrow> jsval" where
  "stream_id v = (case v of JObject ps \<Rightarrow> lookup ps ''streamId'' | _ \<Rightarrow> JUndefined)"

lemma stream_id_JObject [simp]: "stream_id (JObject ps) = lookup ps ''streamId''"
  by (simp add: stream_id_def)

lemma priorities_loop_Inr:
  "priorities_loop index seen xs = Inr ys \<Longrightarrow>
     (\<forall>y \<in> set ys. priority_ok y) \<and> distinct (map stream_id ys) \<and>
     stream_id ` set ys \<inter> set seen = {}"
proof (induction xs arbitrary: index seen ys)
  case (Cons p xs)
  from Cons.prems obtain ps d r where p: "p = JObject ps"
    and id: "validatePositiveInteger (lookup ps ''streamId'') (priorities_label index @ ''.streamId'') = Inr ()"
    and new: "lookup ps ''streamId'' \<notin> set seen"
    and d: "normalizeHttp2StreamDependency (priorities_label index @ ''.dependency'')
              (lookup ps ''dependency'') = Inr d"
    and r: "priorities_loop (Suc index) (lookup ps ''streamId'' # seen) xs = Inr r"
    and ys: "ys = JObject [(''streamId'', lookup ps ''streamId''), (''dependency'', d)] # r"
    by (auto split: jsval.splits if_splits)
  from Cons.IH [OF r] have IH: "\<forall>y \<in> set r. priority_ok y" "distinct (map stream_id r)"
    "stream_id ` set r \<inter> set (lookup ps ''streamId'' # seen) = {}"
    by blast+
  have "priority_ok (JObject [(''streamId'', lookup ps ''streamId''), (''dependency'', d)])"
    using id dependency_ok_Inr [OF d] by (auto simp: priority_ok_def validatePositiveInteger_iff)
  with IH new show ?case
    unfolding ys by auto
qed simp

lemma priorities_loop_fixed:
  "\<lbrakk>\<forall>y \<in> set ys. priority_ok y; distinct (map stream_id ys); stream_id ` set ys \<inter> set seen = {}\<rbrakk>
     \<Longrightarrow> priorities_loop index seen ys = Inr ys"
proof (induction ys arbitrary: index seen)
  case (Cons y ys)
  from Cons.prems obtain i d where y: "y = JObject [(''streamId'', JNumber (NumInt i)), (''dependency'', d)]"
    and i: "0 < i" and d: "dependency_ok d"
    by (auto simp: priority_ok_def)
  have id: "validatePositiveInteger (JNumber (NumInt i)) label = Inr ()" for label
    using i by (simp add: validatePositiveInteger_iff)
  have "priorities_loop (Suc index) (JNumber (NumInt i) # seen) ys = Inr ys"
    using Cons.prems y by (intro Cons.IH) auto
  with Cons.prems y id dependency_ok_fixed [OF d] show ?case
    by simp
qed simp

lemma normalize_priorities_Inr:
  assumes "normalize_priorities v = Inr w"
  shows "w = JUndefined \<or>
    (\<exists>ys. w = JArray ys \<and> (\<forall>y \<in> set ys. priority_ok y) \<and> distinct (map stream_id ys))"
  using assms priorities_loop_Inr
  by (fastforce simp: normalize_priorities_def split: jsval.splits)

lemma stable_priorities [simp]: "stable normalize_priorities"
proof (rule stableI)
  show "normalize_priorities JUndefined = Inr JUndefined"
    by (simp add: normalize_priorities_def)
  fix x v assume "normalize_priorities x = Inr v"
  from normalize_priorities_Inr [OF this] priorities_loop_fixed [where seen = "[]"]
  show "normalize_priorities v = Inr v"
    by (auto simp: normalize_priorities_def)
qed

lemma stable_emulation_headers [simp]: "stable emulation_headers"
proof (rule stableI)
  show "emulation_headers JUndefined = Inr JUndefined"
    by (simp add: emulation_headers_def)
  fix x v assume "emulation_headers x = Inr v"
  then consider "v = JUndefined" | ts where "headersToTuples x = Inr ts" "ts \<noteq> []" "v = tuples_value ts"
    by (auto simp: emulation_headers_def split: if_splits)
  then show "emulation_headers v = Inr v"
  proof cases
    case 2
    moreover have "tuples_value ts \<noteq> JUndefined" by (simp add: tuples_value_def)
    ultimately show ?thesis
      by (simp add: emulation_headers_def headersToTuples_idem)
  qed (simp add: emulation_headers_def)
qed

section \<open>Every object is stable\<close>

lemma table_distinct:
  "distinct (map fst tls_fields)" "distinct (map fst http1_fields)"
  "distinct (map fst http2_fields)" "distinct (map fst emulation_fields)"
  by (simp_all add: tls_fields_def http1_fields_def http2_fields_def http2_size_def
      emulation_fields_def)

lemma table_stable:
  "list_all (\<lambda>(k, f). stable f) tls_fields" "list_all (\<lambda>(k, f). stable f) http1_fields"
  "list_all (\<lambda>(k, f). stable f) http2_fields"
  by (simp_all add: tls_fields_def http1_fields_def http2_fields_def http2_size_def
      certificate_algorithms_def extension_permutation_def settings_order_def
      headers_pseudo_order_def)

lemma undefined_if_empty_simps [simp]:
  "undefined_if_empty [] = JUndefined" "undefined_if_empty (p # ps) = JObject (p # ps)"
  by (simp_all add: undefined_if_empty_def isNonEmpty_def)

lemma undefined_if_empty_cases:
  obtains "n = []" "undefined_if_empty n = JUndefined"
  | "n \<noteq> []" "undefined_if_empty n = JObject n"
  by (cases n) auto

lemma normalizeCustomTlsOptions_Inr:
  assumes "normalizeCustomTlsOptions x = Inr v"
  shows "v = JUndefined \<or> (\<exists>n. normalize_fields tls_fields x = Inr n \<and> n \<noteq> [] \<and> v = JObject n)"
  using assms
  by (auto simp: normalizeCustomTlsOptions_def undefined_if_empty_def isNonEmpty_def split: if_splits)

lemma stable_tlsOptions [simp]: "stable normalizeCustomTlsOptions"
proof (rule stableI)
  show "normalizeCustomTlsOptions JUndefined = Inr JUndefined"
    by (simp add: normalizeCustomTlsOptions_def)
  fix x v assume "normalizeCustomTlsOptions x = Inr v"
  from normalizeCustomTlsOptions_Inr [OF this] show "normalizeCustomTlsOptions v = Inr v"
    using normalize_fields_fixed [OF _ table_stable(1) table_distinct(1)]
    by (auto simp: normalizeCustomTlsOptions_def undefined_if_empty_def isNonEmpty_def)
qed

definition http1_conflict :: "props \<Rightarrow> bool" where
  "http1_conflict n \<longleftrightarrow>
     lookup n ''readBufExactSize'' \<noteq> JUndefined \<and> lookup n ''maxBufSize'' \<noteq> JUndefined"

lemma normalizeCustomHttp1Options_Inr:
  assumes "normalizeCustomHttp1Options x = Inr v"
  shows "v = JUndefined \<or>
    (\<exists>n. normalize_fields http1_fields x = Inr n \<and> n \<noteq> [] \<and> \<not> http1_conflict n \<and> v = JObject n)"
  using assms
  by (auto simp: normalizeCustomHttp1Options_def undefined_if_empty_def isNonEmpty_def
      http1_conflict_def split: if_splits)

lemma stable_http1Options [simp]: "stable normalizeCustomHttp1Options"
proof (rule stableI)
  show "normalizeCustomHttp1Options JUndefined = Inr JUndefined"
    by (simp add: normalizeCustomHttp1Options_def)
  fix x v assume "normalizeCustomHttp1Options x = Inr v"
  from normalizeCustomHttp1Options_Inr [OF this] show "normalizeCustomHttp1Options v = Inr v"
    using normalize_fields_fixed [OF _ table_stable(2) table_distinct(2)]
    by (auto simp: normalizeCustomHttp1Options_def undefined_if_empty_def isNonEmpty_def
        http1_conflict_def)
qed

lemma normalizeCustomHttp2Options_Inr:
  assumes "normalizeCustomHttp2Options x = Inr v"
  shows "v = JUndefined \<or> (\<exists>n. normalize_fields http2_fields x = Inr n \<and> n \<noteq> [] \<and> v = JObject n)"
  using assms
  by (auto simp: normalizeCustomHttp2Options_def undefined_if_empty_def isNonEmpty_def split: if_splits)

lemma stable_http2Options [simp]: "stable normalizeCustomHttp2Options"
proof (rule stableI)
  show "normalizeCustomHttp2Options JUndefined = Inr JUndefined"
    by (simp add: normalizeCustomHttp2Options_def)
  fix x v assume "normalizeCustomHttp2Options x = Inr v"
  from normalizeCustomHttp2Options_Inr [OF this] show "normalizeCustomHttp2Options v = Inr v"
    using normalize_fields_fixed [OF _ table_stable(3) table_distinct(3)]
    by (auto simp: normalizeCustomHttp2Options_def undefined_if_empty_def isNonEmpty_def)
qed

lemma emulation_table_stable: "list_all (\<lambda>(k, f). stable f) emulation_fields"
  by (simp add: emulation_fields_def)

lemma normalizeCustomEmulationOptions_Inr:
  assumes "normalizeCustomEmulationOptions e allowEmpty = Inr v"
  shows "v = JUndefined \<and> (e = JUndefined \<or> allowEmpty) \<or>
    (\<exists>n. normalize_fields emulation_fields e = Inr n \<and> n \<noteq> [] \<and> v = JObject n)"
  using assms
  by (auto simp: normalizeCustomEmulationOptions_def undefined_if_empty_def isNonEmpty_def
      split: if_splits)

lemma normalizeCustomEmulationOptions_fixed:
  assumes "normalizeCustomEmulationOptions e allowEmpty = Inr v"
  shows "normalizeCustomEmulationOptions v allowEmpty' = Inr v"
  using normalizeCustomEmulationOptions_Inr [OF assms]
    normalize_fields_fixed [OF _ emulation_table_stable table_distinct(4)]
  by (auto simp: normalizeCustomEmulationOptions_def undefined_if_empty_def isNonEmpty_def)

section \<open>What reaches the native layer\<close>

definition strings_in :: "string list \<Rightarrow> jsval \<Rightarrow> bool" where
  "strings_in allowed v =
     (case v of JArray xs \<Rightarrow> list_all (\<lambda>x. x \<in> set (map JString allowed)) xs | _ \<Rightarrow> False)"

definition unique_values :: "jsval \<Rightarrow> bool" where
  "unique_values v = (case v of JArray xs \<Rightarrow> distinct xs | _ \<Rightarrow> False)"

definition int_in :: "int \<Rightarrow> int \<Rightarrow> jsval \<Rightarrow> bool" where
  "int_in lo hi v = (case v of JNumber (NumInt i) \<Rightarrow> lo \<le> i \<and> i \<le> hi | _ \<Rightarrow> False)"

definition int_from :: "int \<Rightarrow> jsval \<Rightarrow> bool" where
  "int_from lo v = (case v of JNumber (NumInt i) \<Rightarrow> lo \<le> i | _ \<Rightarrow> False)"

definition tls_value_ok :: "string \<Rightarrow> jsval \<Rightarrow> bool" where
  "tls_value_ok k v =
     (if k = ''alpnProtocols'' \<or> k = ''alpsProtocols'' then strings_in [''HTTP1'', ''HTTP2'', ''HTTP3''] v
      else if k = ''minTlsVersion'' \<or> k = ''maxTlsVersion''
      then v \<in> set (map JString [''1.0'', ''1.1'', ''1.2'', ''1.3''])
      else if k = ''recordSizeLimit'' then int_in 0 65535 v
      else if k = ''certificateCompressionAlgorithms''
      then strings_in [''zlib'', ''brotli'', ''zstd''] v \<and> unique_values v
      else if k = ''extensionPermutation''
      then (case v of JArray xs \<Rightarrow> list_all (int_in 0 65535) xs | _ \<Rightarrow> False) \<and> unique_values v
      else True)"

definition http1_value_ok :: "string \<Rightarrow> jsval \<Rightarrow> bool" where
  "http1_value_ok k v =
     (if k = ''maxHeaders'' \<or> k = ''readBufExactSize'' then int_from 0 v
      else if k = ''maxBufSize'' then int_from 8192 v
      else True)"

definition http2_value_ok :: "string \<Rightarrow> jsval \<Rightarrow> bool" where
  "http2_value_ok k v =
     (if k = ''settingsOrder'' then strings_in HTTP2_SETTING_IDS v \<and> unique_values v
      else if k = ''headersPseudoOrder'' then strings_in HTTP2_PSEUDO_HEADER_IDS v \<and> unique_values v
      else if k = ''headersStreamDependency'' then dependency_ok v
      else if k = ''priorities''
      then (case v of JArray ys \<Rightarrow> list_all priority_ok ys \<and> distinct (map stream_id ys) | _ \<Rightarrow> False)
      else if k \<in> {''adaptiveWindow'', ''keepAliveWhileIdle'', ''enablePush'',
                   ''enableConnectProtocol'', ''noRfc7540Priorities''} then True
      else int_from 0 v)"

definition object_ok :: "string list \<Rightarrow> (string \<Rightarrow> jsval \<Rightarrow> bool) \<Rightarrow> jsval \<Rightarrow> bool" where
  "object_ok allowed value_ok v =
     (case v of
        JObject ps \<Rightarrow> ps \<noteq> [] \<and> distinct (map fst ps) \<and> set (map fst ps) \<subseteq> set allowed \<and>
          list_all (\<lambda>(k, x). x \<noteq> JUndefined \<and> value_ok k x) ps
      | _ \<Rightarrow> False)"

lemma object_okI:
  assumes run: "normalize_fields fs options = Inr n" and "n \<noteq> []" "distinct (map fst fs)"
    and ok: "list_all (\<lambda>(k, f). \<forall>x v. f x = Inr v \<longrightarrow> v \<noteq> JUndefined \<longrightarrow> value_ok k v) fs"
  shows "object_ok (map fst fs) value_ok (JObject n)"
proof -
  have "x \<noteq> JUndefined \<and> value_ok k x" if "(k, x) \<in> set n" for k x
    using normalize_fields_entry [OF run that] ok by (fastforce simp: list_all_iff)
  with normalize_fields_keys [OF run] normalize_fields_distinct [OF assms(3) run] assms(2)
  show ?thesis by (auto simp: object_ok_def list_all_iff)
qed

lemma strings_in_image: "strings_in allowed v \<longleftrightarrow> (\<exists>xs. v = JArray xs \<and> set xs \<subseteq> JString ` set allowed)"
  by (auto simp: strings_in_def list_all_iff split: jsval.splits)

lemma protocolList_ok:
  "normalizeProtocolList label allowed x = Inr v \<Longrightarrow> v \<noteq> JUndefined \<Longrightarrow> strings_in allowed v"
  by (auto simp: normalizeProtocolList_Inr strings_in_image)

lemma tlsVersion_ok:
  "normalizeTlsVersion label x = Inr v \<Longrightarrow> v \<noteq> JUndefined \<Longrightarrow>
     v \<in> set (map JString [''1.0'', ''1.1'', ''1.2'', ''1.3''])"
  by (drule normalizeTlsVersion_Inr) auto

lemma unique_strings_ok:
  "unique_array label (one_of allowed msg) dup x = Inr v \<Longrightarrow> v \<noteq> JUndefined \<Longrightarrow>
     strings_in allowed v \<and> unique_values v"
  by (auto simp: unique_array_Inr one_of_Inr strings_in_image unique_values_def)

lemma checked_Inr: "checked c x = Inr v \<Longrightarrow> v \<noteq> JUndefined \<Longrightarrow> c v = Inr ()"
  by (auto simp: checked_def split: if_splits)

lemma extension_permutation_ok:
  "extension_permutation x = Inr v \<Longrightarrow> v \<noteq> JUndefined \<Longrightarrow>
     (case v of JArray xs \<Rightarrow> list_all (int_in 0 65535) xs | _ \<Rightarrow> False) \<and> unique_values v"
  by (fastforce simp: extension_permutation_def unique_array_Inr validateIntegerInRange_iff
      list_all_iff int_in_def unique_values_def)

lemma checked_range_ok:
  "checked (\<lambda>v. validateIntegerInRange v 0 hi label) x = Inr v \<Longrightarrow> v \<noteq> JUndefined \<Longrightarrow> int_in 0 hi v"
  by (drule (1) checked_Inr) (auto simp: validateIntegerInRange_iff int_in_def)

lemma checked_size_ok:
  "checked (\<lambda>v. validateNonNegativeInteger v label) x = Inr v \<Longrightarrow> v \<noteq> JUndefined \<Longrightarrow> int_from 0 v"
  by (drule (1) checked_Inr) (auto simp: validateNonNegativeInteger_iff int_from_def)

lemma checked_max_buf_ok:
  "checked max_buf_size x = Inr v \<Longrightarrow> v \<noteq> JUndefined \<Longrightarrow> int_from 8192 v"
  by (drule (1) checked_Inr)
    (auto simp: max_buf_size_def validateNonNegativeInteger_iff int_from_def res_bind_Inr_iff)

lemma priorities_ok:
  "normalize_priorities x = Inr v \<Longrightarrow> v \<noteq> JUndefined \<Longrightarrow>
     (case v of JArray ys \<Rightarrow> list_all priority_ok ys \<and> distinct (map stream_id ys) | _ \<Rightarrow> False)"
  by (drule normalize_priorities_Inr) (auto simp: list_all_iff)

lemma stream_dependency_ok:
  "headers_stream_dependency x = Inr v \<Longrightarrow> v \<noteq> JUndefined \<Longrightarrow> dependency_ok v"
  by (auto simp: headers_stream_dependency_def dest: dependency_ok_Inr split: if_splits)

lemmas field_ok = protocolList_ok tlsVersion_ok extension_permutation_ok checked_range_ok
  checked_size_ok checked_max_buf_ok priorities_ok stream_dependency_ok

lemma tls_table_ok:
  "list_all (\<lambda>(k, f). \<forall>x v. f x = Inr v \<longrightarrow> v \<noteq> JUndefined \<longrightarrow> tls_value_ok k v) tls_fields"
  unfolding tls_fields_def list.pred_inject prod.case tls_value_ok_def
  using protocolList_ok tlsVersion_ok extension_permutation_ok checked_range_ok unique_strings_ok
  by (simp add: SUPPORTED_ALPN_PROTOCOLS_def SUPPORTED_ALPS_PROTOCOLS_def certificate_algorithms_def
      SUPPORTED_CERTIFICATE_COMPRESSION_ALGORITHMS_def)

lemma http1_table_ok:
  "list_all (\<lambda>(k, f). \<forall>x v. f x = Inr v \<longrightarrow> v \<noteq> JUndefined \<longrightarrow> http1_value_ok k v) http1_fields"
  unfolding http1_fields_def list.pred_inject prod.case http1_value_ok_def
  using checked_size_ok checked_max_buf_ok by simp

lemma http2_table_ok:
  "list_all (\<lambda>(k, f). \<forall>x v. f x = Inr v \<longrightarrow> v \<noteq> JUndefined \<longrightarrow> http2_value_ok k v) http2_fields"
  unfolding http2_fields_def list.pred_inject prod.case http2_value_ok_def http2_size_def
  using checked_size_ok priorities_ok stream_dependency_ok unique_strings_ok
  by (simp add: settings_order_def headers_pseudo_order_def)

definition tls_object_ok :: "jsval \<Rightarrow> bool" where
  "tls_object_ok v = object_ok (map fst tls_fields) tls_value_ok v"

definition http1_object_ok :: "jsval \<Rightarrow> bool" where
  "http1_object_ok v \<longleftrightarrow> object_ok (map fst http1_fields) http1_value_ok v \<and>
     \<not> (case v of JObject ps \<Rightarrow> http1_conflict ps | _ \<Rightarrow> False)"

definition http2_object_ok :: "jsval \<Rightarrow> bool" where
  "http2_object_ok v = object_ok (map fst http2_fields) http2_value_ok v"

definition header_pair_ok :: "jsval \<Rightarrow> bool" where
  "header_pair_ok v = (case v of
      JArray [JString name, JString x] \<Rightarrow> name \<noteq> [] \<and> trim name = name
    | _ \<Rightarrow> False)"

definition orig_header_ok :: "jsval \<Rightarrow> bool" where
  "orig_header_ok v = (case v of JString s \<Rightarrow> s \<noteq> [] \<and> trim s = s | _ \<Rightarrow> False)"

definition emulation_value_ok :: "string \<Rightarrow> jsval \<Rightarrow> bool" where
  "emulation_value_ok k v =
     (if k = ''tlsOptions'' then tls_object_ok v
      else if k = ''http1Options'' then http1_object_ok v
      else if k = ''http2Options'' then http2_object_ok v
      else if k = ''headers''
      then (case v of JArray xs \<Rightarrow> xs \<noteq> [] \<and> list_all header_pair_ok xs | _ \<Rightarrow> False)
      else (case v of JArray xs \<Rightarrow> xs \<noteq> [] \<and> list_all orig_header_ok xs \<and>
                        distinct (map (\<lambda>x. to_lower (js_string x)) xs)
            | _ \<Rightarrow> False))"

text \<open>Everything \<open>normalizeCustomEmulationOptions\<close> promises of a defined result.\<close>

definition wire_ok :: "jsval \<Rightarrow> bool" where
  "wire_ok v = object_ok (map fst emulation_fields) emulation_value_ok v"

lemma tls_options_ok:
  "normalizeCustomTlsOptions x = Inr v \<Longrightarrow> v \<noteq> JUndefined \<Longrightarrow> tls_object_ok v"
  by (drule normalizeCustomTlsOptions_Inr)
    (auto simp: tls_object_ok_def intro!: object_okI [OF _ _ table_distinct(1) tls_table_ok])

lemma http1_options_ok:
  "normalizeCustomHttp1Options x = Inr v \<Longrightarrow> v \<noteq> JUndefined \<Longrightarrow> http1_object_ok v"
  by (drule normalizeCustomHttp1Options_Inr)
    (auto simp: http1_object_ok_def intro!: object_okI [OF _ _ table_distinct(2) http1_table_ok])

lemma http2_options_ok:
  "normalizeCustomHttp2Options x = Inr v \<Longrightarrow> v \<noteq> JUndefined \<Longrightarrow> http2_object_ok v"
  by (drule normalizeCustomHttp2Options_Inr)
    (auto simp: http2_object_ok_def intro!: object_okI [OF _ _ table_distinct(3) http2_table_ok])

lemma iterator_names_ok:
  "store_ok st \<Longrightarrow> t \<in> set (headers_iterator st) \<Longrightarrow> fst t \<noteq> [] \<and> trim (fst t) = fst t"
  by (force simp: headers_iterator_def om_values_def store_ok_def list_all_iff entry_ok_def
      entry_tuples_def split: if_splits)

lemma emulation_headers_ok:
  assumes "emulation_headers x = Inr v" "v \<noteq> JUndefined"
  shows "case v of JArray xs \<Rightarrow> xs \<noteq> [] \<and> list_all header_pair_ok xs | _ \<Rightarrow> False"
proof -
  from assms obtain ts where "headersToTuples x = Inr ts" "ts \<noteq> []" "v = tuples_value ts"
    by (auto simp: emulation_headers_def split: if_splits)
  with headersToTuples_Inr iterator_names_ok show ?thesis
    by (fastforce simp: tuples_value_def list_all_iff header_pair_ok_def tuple_value_def)
qed

lemma orig_headers_ok:
  assumes "normalizeOrigHeaders x = Inr v" "v \<noteq> JUndefined"
  shows "case v of JArray xs \<Rightarrow> xs \<noteq> [] \<and> list_all orig_header_ok xs \<and>
           distinct (map (\<lambda>x. to_lower (js_string x)) xs) | _ \<Rightarrow> False"
  using normalizeOrigHeaders_Inr [OF assms(1)] assms(2)
  by (auto simp: list_all_iff orig_header_ok_def comp_def)

lemma emulation_table_ok:
  "list_all (\<lambda>(k, f). \<forall>x v. f x = Inr v \<longrightarrow> v \<noteq> JUndefined \<longrightarrow> emulation_value_ok k v)
     emulation_fields"
  unfolding emulation_fields_def list.pred_inject prod.case emulation_value_ok_def
  using tls_options_ok http1_options_ok http2_options_ok emulation_headers_ok orig_headers_ok
  by simp

lemma normalized_wire_ok:
  "normalizeCustomEmulationOptions e allowEmpty = Inr v \<Longrightarrow> v \<noteq> JUndefined \<Longrightarrow> wire_ok v"
  by (drule normalizeCustomEmulationOptions_Inr)
    (auto simp: wire_ok_def intro!: object_okI [OF _ _ table_distinct(4) emulation_table_ok])

section \<open>Emulation modes\<close>

datatype ResolvedEmulationMode =
    PresetMode (preset_browser: string) (preset_os: string) (preset_json: "string option")
  | CustomMode (custom_json: string)

definition resolveEmulationMode ::
  "native_profiles \<Rightarrow> jsval \<Rightarrow> jsval \<Rightarrow> jsval \<Rightarrow> ResolvedEmulationMode res" where
  "resolveEmulationMode np browser os emulation =
     (if browser \<noteq> JUndefined then
        res_bind (resolveProfile np browser) (\<lambda>resolvedBrowser.
        res_bind (if os \<noteq> JUndefined then validateOperatingSystem np os else Inr ()) (\<lambda>_.
        res_bind (serializeCustomEmulationOptions emulation True) (\<lambda>emulationJson.
        Inr (PresetMode resolvedBrowser (if nullish os then DEFAULT_OS else js_string os)
               emulationJson))))
      else if os \<noteq> JUndefined then
        res_bind (validateOperatingSystem np os) (\<lambda>_.
        res_bind (serializeCustomEmulationOptions emulation True) (\<lambda>emulationJson.
        Inr (PresetMode DEFAULT_BROWSER (js_string os) emulationJson)))
      else if emulation \<noteq> JUndefined then
        res_bind (serializeCustomEmulationOptions emulation False) (\<lambda>emulationJson.
        (case emulationJson of
           None \<Rightarrow> Inl standalone_error
         | Some j \<Rightarrow> Inr (CustomMode j)))
      else Inr (PresetMode DEFAULT_BROWSER DEFAULT_OS None))"

text \<open>The fields of the native options that say what to emulate.\<close>

record native_emulation =
  native_browser :: "string option"
  native_os :: "string option"
  native_emulationJson :: "string option"

definition applyNativeEmulationMode ::
  "'a native_emulation_scheme \<Rightarrow> ResolvedEmulationMode \<Rightarrow> 'a native_emulation_scheme" where
  "applyNativeEmulationMode target mode = (case mode of
      CustomMode j \<Rightarrow> target\<lparr>native_emulationJson := Some j\<rparr>
    | PresetMode b os j \<Rightarrow>
        (let target' = target\<lparr>native_browser := Some b, native_os := Some os\<rparr> in
         (case j of None \<Rightarrow> target' | Some j' \<Rightarrow> target'\<lparr>native_emulationJson := Some j'\<rparr>)))"

lemma serializeCustomEmulationOptions_Inr:
  "serializeCustomEmulationOptions e allowEmpty = Inr j \<longleftrightarrow>
     (\<exists>v. normalizeCustomEmulationOptions e allowEmpty = Inr v \<and>
          j = (if v = JUndefined then None else json_stringify v))"
proof -
  have "truthy v \<longleftrightarrow> v \<noteq> JUndefined" if "normalizeCustomEmulationOptions e allowEmpty = Inr v" for v
    using normalizeCustomEmulationOptions_Inr [OF that] by auto
  then show ?thesis
    by (auto simp: serializeCustomEmulationOptions_def res_bind_Inr_iff)
qed

text \<open>A mode is sound when it names a concrete profile and a known system, or carries JSON.\<close>

definition mode_ok :: "native_profiles \<Rightarrow> ResolvedEmulationMode \<Rightarrow> bool" where
  "mode_ok np mode = (case mode of
      PresetMode b os j \<Rightarrow>
        (b \<in> set (om_values BROWSER_ALIASES) \<or>
         b \<in> set (profiles_of np) \<and> b \<notin> set (om_keys BROWSER_ALIASES)) \<and>
        os \<in> set (DEFAULT_OS # oses_of np) \<and>
        (case j of None \<Rightarrow> True | Some t \<Rightarrow> \<exists>v. wire_ok v \<and> json_stringify v = Some t)
    | CustomMode t \<Rightarrow> \<exists>v. wire_ok v \<and> json_stringify v = Some t)"

lemma serialized_ok:
  assumes "serializeCustomEmulationOptions e a = Inr (Some t)"
  shows "\<exists>v. wire_ok v \<and> json_stringify v = Some t"
proof -
  from assms obtain v where v: "normalizeCustomEmulationOptions e a = Inr v" "v \<noteq> JUndefined"
      "json_stringify v = Some t"
    by (auto simp: serializeCustomEmulationOptions_Inr split: if_splits)
  with normalized_wire_ok show ?thesis by blast
qed

lemma default_browser_alias: "DEFAULT_BROWSER \<in> set (om_values BROWSER_ALIASES)"
  by (simp add: DEFAULT_BROWSER_def om_values_def BROWSER_ALIASES_def)

lemma resolveEmulationMode_ok:
  assumes "resolveEmulationMode np browser os emulation = Inr mode"
  shows "mode_ok np mode"
proof (cases "browser = JUndefined")
  case False
  with assms obtain b j where b: "resolveProfile np browser = Inr b"
    and os: "os \<noteq> JUndefined \<longrightarrow> validateOperatingSystem np os = Inr ()"
    and j: "serializeCustomEmulationOptions emulation True = Inr j"
    and mode: "mode = PresetMode b (if nullish os then DEFAULT_OS else js_string os) j"
    by (auto simp: resolveEmulationMode_def split: if_splits)
  have "(if nullish os then DEFAULT_OS else js_string os) \<in> set (DEFAULT_OS # oses_of np)"
    using os by (cases "os = JUndefined") (auto simp: validateOperatingSystem_Inr)
  with resolveProfile_Inr [OF b False] serialized_ok [of emulation True] j mode show ?thesis
    by (auto simp: mode_ok_def split: option.splits)
next
  case True
  show ?thesis
  proof (cases "os = JUndefined")
    case False
    with True assms obtain j where "validateOperatingSystem np os = Inr ()"
      "serializeCustomEmulationOptions emulation True = Inr j"
      "mode = PresetMode DEFAULT_BROWSER (js_string os) j"
      by (auto simp: resolveEmulationMode_def)
    with False default_browser_alias serialized_ok [of emulation True] show ?thesis
      by (auto simp: mode_ok_def validateOperatingSystem_Inr split: option.splits)
  next
    case os: True
    show ?thesis
    proof (cases "emulation = JUndefined")
      case False
      with True os assms obtain t where "serializeCustomEmulationOptions emulation False = Inr (Some t)"
        "mode = CustomMode t"
        by (auto simp: resolveEmulationMode_def split: option.splits)
      with serialized_ok show ?thesis by (auto simp: mode_ok_def)
    next
      case em: True
      with True os assms default_browser_alias show ?thesis
        by (auto simp: resolveEmulationMode_def mode_ok_def)
    qed
  qed
qed

section \<open>Properties\<close>

text \<open>Normalising custom emulation options is idempotent: a normalised object, normalised again
  with or without the permission to be empty, is returned unchanged, whatever TLS, HTTP/1, HTTP/2
  options, headers and original header names it carries.\<close>

lemma emulation_normalisation_idempotent:
  assumes "normalizeCustomEmulationOptions e allowEmpty = Inr v"
  shows "normalizeCustomEmulationOptions v allowEmpty' = Inr v"
  using assms by (rule normalizeCustomEmulationOptions_fixed)

definition sample_emulation :: jsval where
  "sample_emulation = JObject
     [(''origHeaders'', JArray [JString '' X-A '']),
      (''tlsOptions'', JObject [(''maxTlsVersion'', JString ''TLS1.3''), (''recordSizeLimit'', JNumber (NumInt 16385))])]"

definition sample_normalised :: jsval where
  "sample_normalised = JObject
     [(''tlsOptions'', JObject [(''maxTlsVersion'', JString ''1.3''), (''recordSizeLimit'', JNumber (NumInt 16385))]),
      (''origHeaders'', JArray [JString ''X-A''])]"

lemma sample_trims: "trim '' X-A '' = ''X-A''" "to_lower (trim ''TLS1.3'') = ''tls1.3''"
  by code_simp+

lemma sample_normalises: "normalizeCustomEmulationOptions sample_emulation False = Inr sample_normalised"
  by (simp add: normalizeCustomEmulationOptions_def sample_emulation_def sample_normalised_def
      emulation_fields_def normalizeCustomTlsOptions_def tls_fields_def normalizeProtocolList_def
      normalizeTlsVersion_def sample_trims TLS_VERSION_ALIASES_def copied_def checked_def
      validateIntegerInRange_def validateNonNegativeInteger_def is_finite_def is_integer_def
      certificate_algorithms_def extension_permutation_def unique_array_def undefined_if_empty_def
      isNonEmpty_def normalizeCustomHttp1Options_def normalizeCustomHttp2Options_def
      emulation_headers_def normalizeOrigHeaders_def Let_def)

lemma emulation_normalisation_idempotent_witness:
  "normalizeCustomEmulationOptions sample_normalised True = Inr sample_normalised"
  by (rule emulation_normalisation_idempotent [OF sample_normalises])

text \<open>C14: Everything that passes normalisation is well formed: only known keys, each with a value in its
  documented range, lists without duplicates, at least one entry in every object, never both HTTP/1
  buffer sizes, header names trimmed and non-empty.\<close>

theorem emulation_wire_format:
  assumes "normalizeCustomEmulationOptions e allowEmpty = Inr v" "v \<noteq> JUndefined"
  shows "wire_ok v"
  using assms by (rule normalized_wire_ok)

theorem emulation_wire_format_witness: "wire_ok sample_normalised"
  by (rule emulation_wire_format [OF sample_normalises]) (simp add: sample_normalised_def)

text \<open>A resolved emulation mode is sound: a preset mode names a concrete profile (never an alias), an
  operating system the addon knows, or the default one, and JSON made from well-formed options if it
  has any; a custom mode always carries such JSON.\<close>

lemma resolveEmulationMode_sound:
  assumes "resolveEmulationMode np browser os emulation = Inr mode"
  shows "mode_ok np mode"
  using assms by (rule resolveEmulationMode_ok)

lemma resolveEmulationMode_sound_witness:
  "mode_ok sample_profiles (PresetMode DEFAULT_BROWSER ''windows'' None)"
proof (rule resolveEmulationMode_sound)
  show "resolveEmulationMode sample_profiles JUndefined (JString ''windows'') (JObject []) =
      Inr (PresetMode DEFAULT_BROWSER ''windows'' None)"
    by code_simp
qed

end
