(* ===== verification/NativeRegistry.thy ===== *)
theory NativeRegistry
  imports Emulation
begin

text \<open>
  The native addon's registries of transports and sessions. src/src/wreq-js.ts uses them through five
  calls, the first fields of \<open>lifecycle\<close>; the last is what the addon does by itself, forgetting a
  session that is idle. They are a parameter of everything that creates or closes a session or a
  transport. What those clients rely on is the locale \<open>registry\<close>; \<open>rust\<close> interprets it on the model
  of rust/src/client.rs (\<open>TransportManager\<close>, \<open>SessionManager\<close>).

  Identifiers come from \<open>Uuid::new_v4\<close>: the state carries the identifiers still to come, and
  \<open>rust_ok\<close> says that they are non-empty and distinct from each other and from those in use. Building a client is
  the addon's dependency and may fail, \<open>build\<close>.
\<close>

section \<open>The options of a transport\<close>

record NativeTransportOptions = native_emulation +
  nto_proxy :: jsval
  nto_proxyHeaders :: "HeaderTuple list option"
  nto_insecure :: "bool option"
  nto_trustStore :: jsval
  nto_resolve :: jsval
  nto_poolIdleTimeout :: jsval
  nto_poolMaxIdlePerHost :: jsval
  nto_poolMaxSize :: jsval
  nto_connectTimeout :: jsval
  nto_readTimeout :: jsval
  nto_captureDiagnostics :: "bool option"

section \<open>The calls and their contract\<close>

record 'n lifecycle =
  native_createTransport :: "NativeTransportOptions \<Rightarrow> 'n \<Rightarrow> string res \<times> 'n"
  native_dropTransport :: "string \<Rightarrow> 'n \<Rightarrow> unit res \<times> 'n"
  native_createSession :: "string \<Rightarrow> 'n \<Rightarrow> string res \<times> 'n"
  native_dropSession :: "string \<Rightarrow> 'n \<Rightarrow> unit res \<times> 'n"
  native_clearSession :: "string \<Rightarrow> 'n \<Rightarrow> unit res \<times> 'n"
  addon_idle :: "string \<Rightarrow> 'n \<Rightarrow> 'n"

locale registry =
  fixes ops :: "'n lifecycle"
    and transports :: "'n \<Rightarrow> string set"
    and sessions :: "'n \<Rightarrow> string set"
    and ok :: "'n \<Rightarrow> bool"
  assumes createTransport_Inr:
      "ok s \<Longrightarrow> native_createTransport ops opts s = (Inr i, s') \<Longrightarrow>
         i \<noteq> [] \<and> i \<notin> transports s \<and> transports s' = insert i (transports s) \<and> sessions s' = sessions s \<and> ok s'"
    and createTransport_Inl:
      "ok s \<Longrightarrow> native_createTransport ops opts s = (Inl e, s') \<Longrightarrow>
         transports s' = transports s \<and> sessions s' = sessions s \<and> ok s'"
    and dropTransport:
      "ok s \<Longrightarrow> native_dropTransport ops i s = (r, s') \<Longrightarrow>
         transports s' = transports s - {i} \<and> sessions s' = sessions s \<and> ok s'"
    and createSession_Inr:
      "ok s \<Longrightarrow> native_createSession ops i s = (Inr j, s') \<Longrightarrow>
         j = i \<and> sessions s' = insert i (sessions s) \<and> transports s' = transports s \<and> ok s'"
    and createSession_Inl:
      "ok s \<Longrightarrow> native_createSession ops i s = (Inl e, s') \<Longrightarrow>
         sessions s' = sessions s \<and> transports s' = transports s \<and> ok s'"
    and dropSession:
      "ok s \<Longrightarrow> native_dropSession ops i s = (r, s') \<Longrightarrow>
         sessions s' = sessions s - {i} \<and> transports s' = transports s \<and> ok s'"
    and addon_idle_session:
      "ok s \<Longrightarrow> sessions (addon_idle ops i s) = sessions s - {i} \<and>
         transports (addon_idle ops i s) = transports s \<and> ok (addon_idle ops i s)"
begin

lemma createTransport_fresh:
  "ok s \<Longrightarrow> native_createTransport ops opts s = (Inr i, s') \<Longrightarrow> transports s' - {i} = transports s"
  using createTransport_Inr by blast

end

section \<open>The registries of the addon\<close>

record ('c, 'j) rust_state =
  rust_transports :: "string \<rightharpoonup> 'c"
  rust_sessions :: "string \<rightharpoonup> 'j"
  rust_uuids :: "nat \<Rightarrow> string"
  rust_used :: nat

definition create_transport ::
  "(NativeTransportOptions \<Rightarrow> 'c res) \<Rightarrow> NativeTransportOptions \<Rightarrow> ('c, 'j) rust_state \<Rightarrow>
     string res \<times> ('c, 'j) rust_state" where
  "create_transport build opts s = (case build opts of
      Inl e \<Rightarrow> (Inl e, s)
    | Inr client \<Rightarrow>
        (let i = rust_uuids s (rust_used s) in
         (Inr i, s\<lparr>rust_used := Suc (rust_used s),
                   rust_transports := (rust_transports s)(i \<mapsto> client)\<rparr>)))"

definition drop_transport :: "string \<Rightarrow> ('c, 'j) rust_state \<Rightarrow> unit res \<times> ('c, 'j) rust_state" where
  "drop_transport i s = (Inr (), s\<lparr>rust_transports := (rust_transports s)(i := None)\<rparr>)"

definition create_session ::
  "'j \<Rightarrow> string \<Rightarrow> ('c, 'j) rust_state \<Rightarrow> string res \<times> ('c, 'j) rust_state" where
  "create_session empty_jar i s = (Inr i, s\<lparr>rust_sessions := (rust_sessions s)(i \<mapsto> empty_jar)\<rparr>)"

definition clear_session ::
  "'j \<Rightarrow> string \<Rightarrow> ('c, 'j) rust_state \<Rightarrow> unit res \<times> ('c, 'j) rust_state" where
  "clear_session empty_jar i s = (case rust_sessions s i of
      None \<Rightarrow> (Inl (PlainError (''Session '' @ squote @ i @ squote @ '' not found'')), s)
    | Some jar \<Rightarrow> (Inr (), s\<lparr>rust_sessions := (rust_sessions s)(i \<mapsto> empty_jar)\<rparr>))"

definition drop_session :: "string \<Rightarrow> ('c, 'j) rust_state \<Rightarrow> unit res \<times> ('c, 'j) rust_state" where
  "drop_session i s = (Inr (), s\<lparr>rust_sessions := (rust_sessions s)(i := None)\<rparr>)"

text \<open>The table drops a session that nothing has looked up for 300 seconds (\<open>time_to_idle\<close>).\<close>

definition expire_session :: "string \<Rightarrow> ('c, 'j) rust_state \<Rightarrow> ('c, 'j) rust_state" where
  "expire_session i s = s\<lparr>rust_sessions := (rust_sessions s)(i := None)\<rparr>"

definition rust_lifecycle ::
  "(NativeTransportOptions \<Rightarrow> 'c res) \<Rightarrow> 'j \<Rightarrow> ('c, 'j) rust_state lifecycle" where
  "rust_lifecycle build empty_jar =
     \<lparr>native_createTransport = create_transport build, native_dropTransport = drop_transport,
      native_createSession = create_session empty_jar, native_dropSession = drop_session,
      native_clearSession = clear_session empty_jar, addon_idle = expire_session\<rparr>"

definition rust_ok :: "('c, 'j) rust_state \<Rightarrow> bool" where
  "rust_ok s \<longleftrightarrow>
     inj (rust_uuids s) \<and> (\<forall>n. rust_uuids s n \<noteq> []) \<and> (\<forall>n \<ge> rust_used s. rust_uuids s n \<notin> dom (rust_transports s))"

lemma rust_ok_create:
  assumes "rust_ok s" "create_transport build opts s = (Inr i, s')"
  shows "i \<noteq> [] \<and> i \<notin> dom (rust_transports s) \<and> dom (rust_transports s') = insert i (dom (rust_transports s)) \<and>
    rust_sessions s' = rust_sessions s \<and> rust_ok s'"
proof -
  from assms(2) obtain c where i: "i = rust_uuids s (rust_used s)"
    and s': "s' = s\<lparr>rust_used := Suc (rust_used s), rust_transports := (rust_transports s)(i \<mapsto> c)\<rparr>"
    by (auto simp: create_transport_def Let_def split: sum.splits)
  have "rust_uuids s n \<noteq> i" if "n > rust_used s" for n
    using assms(1) i that by (auto simp: rust_ok_def dest: injD)
  with assms(1) i s' show ?thesis
    by (auto simp: rust_ok_def)
qed

interpretation rust: registry "rust_lifecycle build empty_jar"
  "\<lambda>s. dom (rust_transports s)" "\<lambda>s. dom (rust_sessions s)" rust_ok
  for build :: "NativeTransportOptions \<Rightarrow> 'c res" and empty_jar :: 'j
proof unfold_locales
  fix s s' :: "('c, 'j) rust_state" and opts i
  assume "rust_ok s" "native_createTransport (rust_lifecycle build empty_jar) opts s = (Inr i, s')"
  then show "i \<noteq> [] \<and> i \<notin> dom (rust_transports s) \<and> dom (rust_transports s') = insert i (dom (rust_transports s)) \<and>
      dom (rust_sessions s') = dom (rust_sessions s) \<and> rust_ok s'"
    using rust_ok_create [of s build opts i s'] by (simp add: rust_lifecycle_def)
qed (auto simp: rust_lifecycle_def create_transport_def drop_transport_def create_session_def
    drop_session_def expire_session_def rust_ok_def Let_def split: sum.splits if_splits)

end
