(* ===== verification/Sessions.thy ===== *)
theory Sessions
  imports NativeRegistry
begin

text \<open>
  The classes \<open>Transport\<close> and \<open>Session\<close> of src/src/wreq-js.ts and the functions that create, use and
  close them: \<open>createTransport\<close>, \<open>normalizeSessionOptions\<close>, \<open>createSession\<close>, \<open>withSession\<close>, the
  cookie methods and both \<open>close\<close> methods. An object is its record, passed and returned updated; the
  native addon is the parameter \<open>ops\<close> with its state. A method returns its result, thrown error or
  not, together with the state it leaves behind.

  The client lemmas are proved in the locale \<open>registry\<close>: a failed creation leaves nothing behind, a
  close releases what the object owns on every path.
\<close>

section \<open>Options and objects\<close>

record CreateSessionOptions =
  cso_sessionId :: "string option"
  cso_defaultHeaders :: jsval
  cso_browser :: jsval
  cso_os :: jsval
  cso_emulation :: jsval
  cso_proxy :: jsval
  cso_proxyHeaders :: jsval
  cso_timeout :: jsval
  cso_insecure :: "bool option"
  cso_trustStore :: jsval
  cso_captureDiagnostics :: "bool option"

definition no_session_options :: CreateSessionOptions where
  "no_session_options = \<lparr>cso_sessionId = None, cso_defaultHeaders = JUndefined,
     cso_browser = JUndefined, cso_os = JUndefined, cso_emulation = JUndefined,
     cso_proxy = JUndefined, cso_proxyHeaders = JUndefined, cso_timeout = JUndefined,
     cso_insecure = None, cso_trustStore = JUndefined, cso_captureDiagnostics = None\<rparr>"

record CreateTransportOptions =
  cto_proxy :: jsval
  cto_proxyHeaders :: jsval
  cto_browser :: jsval
  cto_os :: jsval
  cto_emulation :: jsval
  cto_insecure :: "bool option"
  cto_trustStore :: jsval
  cto_resolve :: jsval
  cto_poolIdleTimeout :: jsval
  cto_poolMaxIdlePerHost :: jsval
  cto_poolMaxSize :: jsval
  cto_connectTimeout :: jsval
  cto_readTimeout :: jsval
  cto_captureDiagnostics :: "bool option"

definition no_transport_options :: CreateTransportOptions where
  "no_transport_options = \<lparr>cto_proxy = JUndefined, cto_proxyHeaders = JUndefined,
     cto_browser = JUndefined, cto_os = JUndefined, cto_emulation = JUndefined,
     cto_insecure = None, cto_trustStore = JUndefined, cto_resolve = JUndefined,
     cto_poolIdleTimeout = JUndefined, cto_poolMaxIdlePerHost = JUndefined,
     cto_poolMaxSize = JUndefined, cto_connectTimeout = JUndefined,
     cto_readTimeout = JUndefined, cto_captureDiagnostics = None\<rparr>"

text \<open>
  \<open>sd_defaultHeaders\<close> is a reference to an array of tuples; an absent \<open>ownsTransport\<close> is false.
\<close>

record SessionDefaults =
  sd_transportMode :: ResolvedEmulationMode
  sd_proxy :: jsval
  sd_proxyHeaders :: "HeaderTuple list option"
  sd_timeout :: jsval
  sd_insecure :: "bool option"
  sd_trustStore :: jsval
  sd_defaultHeaders :: "nat option"
  sd_captureDiagnostics :: "bool option"
  sd_transportId :: "string option"
  sd_ownsTransport :: bool

record Transport =
  transport_id :: string
  transport_disposed :: bool

record Session =
  session_id :: string
  session_disposed :: bool
  session_defaults :: SessionDefaults

definition DEFAULT_TRUST_STORE :: jsval where
  "DEFAULT_TRUST_STORE = JString ''combined''"

text \<open>Truthiness of an optional string.\<close>

definition present :: "string option \<Rightarrow> bool" where
  "present s \<longleftrightarrow> s \<noteq> None \<and> s \<noteq> Some []"

section \<open>Transports\<close>

definition base_transport_options :: NativeTransportOptions where
  "base_transport_options =
     \<lparr>native_browser = None, native_os = None, native_emulationJson = None,
      nto_proxy = JUndefined, nto_proxyHeaders = None, nto_insecure = None,
      nto_trustStore = JUndefined, nto_resolve = JUndefined, nto_poolIdleTimeout = JUndefined,
      nto_poolMaxIdlePerHost = JUndefined, nto_poolMaxSize = JUndefined,
      nto_connectTimeout = JUndefined, nto_readTimeout = JUndefined,
      nto_captureDiagnostics = None\<rparr>"

text \<open>\<open>if (value !== undefined) check(value)\<close>\<close>

definition when_defined :: "jsval \<Rightarrow> (jsval \<Rightarrow> unit res) \<Rightarrow> unit res" where
  "when_defined v check = (if v = JUndefined then Inr () else check v)"

definition createTransport_options ::
  "native_profiles \<Rightarrow> CreateTransportOptions \<Rightarrow> ResolvedEmulationMode res" where
  "createTransport_options np o1 =
     res_bind (resolveEmulationMode np (cto_browser o1) (cto_os o1) (cto_emulation o1)) (\<lambda>mode.
     res_bind (validateTrustStore (cto_trustStore o1)) (\<lambda>_.
     res_bind (when_defined (cto_resolve o1) validateResolve) (\<lambda>_.
     res_bind (when_defined (cto_poolIdleTimeout o1)
       (\<lambda>v. validatePositiveNumber v ''poolIdleTimeout'')) (\<lambda>_.
     res_bind (when_defined (cto_poolMaxIdlePerHost o1)
       (\<lambda>v. validateNonNegativeInteger v ''poolMaxIdlePerHost'')) (\<lambda>_.
     res_bind (when_defined (cto_poolMaxSize o1)
       (\<lambda>v. validatePositiveInteger v ''poolMaxSize'')) (\<lambda>_.
     res_bind (when_defined (cto_connectTimeout o1)
       (\<lambda>v. validatePositiveNumber v ''connectTimeout'')) (\<lambda>_.
     res_bind (when_defined (cto_readTimeout o1)
       (\<lambda>v. validatePositiveNumber v ''readTimeout'')) (\<lambda>_.
     Inr mode))))))))"

definition transport_options_of ::
  "CreateTransportOptions \<Rightarrow> HeaderTuple list option \<Rightarrow> ResolvedEmulationMode \<Rightarrow> NativeTransportOptions" where
  "transport_options_of o1 proxyHeaders mode =
     applyNativeEmulationMode
       (base_transport_options\<lparr>
          nto_proxy := cto_proxy o1,
          nto_proxyHeaders := proxyHeaders,
          nto_insecure := cto_insecure o1,
          nto_trustStore := (if nullish (cto_trustStore o1) then DEFAULT_TRUST_STORE
                             else cto_trustStore o1),
          nto_resolve := cto_resolve o1,
          nto_poolIdleTimeout := cto_poolIdleTimeout o1,
          nto_poolMaxIdlePerHost := cto_poolMaxIdlePerHost o1,
          nto_poolMaxSize := cto_poolMaxSize o1,
          nto_connectTimeout := cto_connectTimeout o1,
          nto_readTimeout := cto_readTimeout o1,
          nto_captureDiagnostics := cto_captureDiagnostics o1\<rparr>)
       mode"

definition createTransport ::
  "'n lifecycle \<Rightarrow> native_profiles \<Rightarrow> CreateTransportOptions option \<Rightarrow> 'n \<Rightarrow> Transport res \<times> 'n" where
  "createTransport ops np options s =
     (let o1 = opt_default options no_transport_options in
      case createTransport_options np o1 of
        Inl e \<Rightarrow> (Inl e, s)
      | Inr mode \<Rightarrow>
          (case normalizeProxyHeaders (cto_proxyHeaders o1) of
             Inl e \<Rightarrow> (Inl (RequestError (error_string e)), s)
           | Inr proxyHeaders \<Rightarrow>
               (case native_createTransport ops (transport_options_of o1 proxyHeaders mode) s of
                  (Inl e, s') \<Rightarrow> (Inl (RequestError (error_string e)), s')
                | (Inr i, s') \<Rightarrow> (Inr \<lparr>transport_id = i, transport_disposed = False\<rparr>, s'))))"

definition transport_close ::
  "'n lifecycle \<Rightarrow> Transport \<Rightarrow> 'n \<Rightarrow> unit res \<times> Transport \<times> 'n" where
  "transport_close ops t s =
     (if transport_disposed t then (Inr (), t, s)
      else (let t' = t\<lparr>transport_disposed := True\<rparr> in
            case native_dropTransport ops (transport_id t) s of
              (Inl e, s') \<Rightarrow> (Inl (RequestError (error_string e)), t', s')
            | (Inr _, s') \<Rightarrow> (Inr (), t', s')))"

section \<open>Creating sessions\<close>

text \<open>\<open>uuid\<close> is the identifier \<open>randomUUID\<close> returns if it is called.\<close>

definition normalizeSessionOptions ::
  "native_profiles \<Rightarrow> string \<Rightarrow> CreateSessionOptions option \<Rightarrow> tuple_heap \<Rightarrow>
     ((string \<times> SessionDefaults) \<times> tuple_heap) res" where
  "normalizeSessionOptions np uuid options h =
     (let o1 = opt_default options no_session_options;
          sessionId = opt_default (cso_sessionId o1) uuid in
      res_bind (resolveEmulationMode np (cso_browser o1) (cso_os o1) (cso_emulation o1)) (\<lambda>mode.
      let d0 = \<lparr>sd_transportMode = mode, sd_proxy = JUndefined, sd_proxyHeaders = None,
                sd_timeout = JUndefined, sd_insecure = None, sd_trustStore = DEFAULT_TRUST_STORE,
                sd_defaultHeaders = None, sd_captureDiagnostics = None, sd_transportId = None,
                sd_ownsTransport = False\<rparr>;
          d1 = d0\<lparr>sd_proxy := cso_proxy o1\<rparr> in
      res_bind (normalizeProxyHeaders (cso_proxyHeaders o1)) (\<lambda>proxyHeaders.
      let d2 = d1\<lparr>sd_proxyHeaders := proxyHeaders\<rparr> in
      res_bind (when_defined (cso_timeout o1) validateTimeout) (\<lambda>_.
      let d3 = d2\<lparr>sd_timeout := cso_timeout o1, sd_insecure := cso_insecure o1\<rparr> in
      res_bind (when_defined (cso_trustStore o1) validateTrustStore) (\<lambda>_.
      let d4 = (if cso_trustStore o1 = JUndefined then d3
                else d3\<lparr>sd_trustStore := cso_trustStore o1\<rparr>) in
      res_bind (if cso_defaultHeaders o1 = JUndefined then Inr (None, h)
                else res_bind (headersToTuples (cso_defaultHeaders o1)) (\<lambda>ts.
                       let (a, h') = heap_alloc h ts in Inr (Some a, h'))) (\<lambda>(dh, h').
      Inr ((sessionId, d4\<lparr>sd_defaultHeaders := dh,
                          sd_captureDiagnostics := cso_captureDiagnostics o1\<rparr>), h')))))))"

definition session_transport_options :: "SessionDefaults \<Rightarrow> NativeTransportOptions" where
  "session_transport_options d =
     applyNativeEmulationMode
       (base_transport_options\<lparr>
          nto_proxy := sd_proxy d,
          nto_proxyHeaders := sd_proxyHeaders d,
          nto_insecure := sd_insecure d,
          nto_trustStore := (if nullish (sd_trustStore d) then DEFAULT_TRUST_STORE
                             else sd_trustStore d),
          nto_captureDiagnostics := sd_captureDiagnostics d\<rparr>)
       (sd_transportMode d)"

definition createSession ::
  "'n lifecycle \<Rightarrow> native_profiles \<Rightarrow> string \<Rightarrow> CreateSessionOptions option \<Rightarrow> tuple_heap \<Rightarrow> 'n \<Rightarrow>
     (Session \<times> tuple_heap) res \<times> 'n" where
  "createSession ops np uuid options h s =
     (case normalizeSessionOptions np uuid options h of
        Inl e \<Rightarrow> (Inl e, s)
      | Inr ((sessionId, defaults), h') \<Rightarrow>
          (case native_createTransport ops (session_transport_options defaults) s of
             (Inl e, s1) \<Rightarrow> (Inl (RequestError (error_string e)), s1)
           | (Inr transportId, s1) \<Rightarrow>
               (case native_createSession ops sessionId s1 of
                  (Inl e, s2) \<Rightarrow>
                    (let (_, s3) = native_dropTransport ops transportId s2
                     in (Inl (RequestError (error_string e)), s3))
                | (Inr createdId, s2) \<Rightarrow>
                    (Inr (\<lparr>session_id = createdId, session_disposed = False,
                           session_defaults = defaults\<lparr>sd_transportId := Some transportId,
                                                       sd_ownsTransport := True\<rparr>\<rparr>, h'), s2))))"

section \<open>The methods of a session\<close>

definition ensureActive :: "Session \<Rightarrow> unit res" where
  "ensureActive ses = throw_if (session_disposed ses) (RequestError ''Session has been closed'')"

definition getDefaults :: "Session \<Rightarrow> tuple_heap \<Rightarrow> SessionDefaults \<times> tuple_heap" where
  "getDefaults ses h =
     (case sd_defaultHeaders (session_defaults ses) of
        None \<Rightarrow> (session_defaults ses, h)
      | Some a \<Rightarrow>
          (let (b, h') = heap_alloc h (heap_arr h a)
           in ((session_defaults ses)\<lparr>sd_defaultHeaders := Some b\<rparr>, h')))"

text \<open>A native call whose error is rethrown as a \<open>RequestError\<close>, once the session is known to be open.\<close>

definition session_call :: "Session \<Rightarrow> ('n \<Rightarrow> 'a res \<times> 'n) \<Rightarrow> 'n \<Rightarrow> 'a res \<times> 'n" where
  "session_call ses call s =
     (case ensureActive ses of
        Inl e \<Rightarrow> (Inl e, s)
      | Inr _ \<Rightarrow> (let (r, s') = call s in (rewrap r, s')))"

definition clearCookies :: "'n lifecycle \<Rightarrow> Session \<Rightarrow> 'n \<Rightarrow> unit res \<times> 'n" where
  "clearCookies ops ses s = session_call ses (native_clearSession ops (session_id ses)) s"

text \<open>The native calls on a session's cookie jar; a cookie of type \<open>'c\<close> is passed through.\<close>

record ('n, 'c) cookie_calls =
  native_getCookies :: "string \<Rightarrow> string \<Rightarrow> 'n \<Rightarrow> (string, string) omap res \<times> 'n"
  native_getAllCookies :: "string \<Rightarrow> 'n \<Rightarrow> 'c list res \<times> 'n"
  native_setCookie :: "string \<Rightarrow> string \<Rightarrow> string \<Rightarrow> string \<Rightarrow> 'n \<Rightarrow> unit res \<times> 'n"
  native_setCookies :: "string \<Rightarrow> jsval list \<Rightarrow> string option \<Rightarrow> 'n \<Rightarrow> unit res \<times> 'n"

definition getCookies ::
  "('n, 'c) cookie_calls \<Rightarrow> Session \<Rightarrow> jsval \<Rightarrow> 'n \<Rightarrow> (string, string) omap res \<times> 'n" where
  "getCookies jar ses url s = session_call ses (native_getCookies jar (session_id ses) (js_string url)) s"

definition getAllCookies :: "('n, 'c) cookie_calls \<Rightarrow> Session \<Rightarrow> 'n \<Rightarrow> 'c list res \<times> 'n" where
  "getAllCookies jar ses s = session_call ses (native_getAllCookies jar (session_id ses)) s"

definition setCookie ::
  "('n, 'c) cookie_calls \<Rightarrow> Session \<Rightarrow> string \<Rightarrow> string \<Rightarrow> jsval \<Rightarrow> 'n \<Rightarrow> unit res \<times> 'n" where
  "setCookie jar ses name v url s =
     session_call ses (native_setCookie jar (session_id ses) name v (js_string url)) s"

definition setCookies ::
  "('n, 'c) cookie_calls \<Rightarrow> Session \<Rightarrow> jsval \<Rightarrow> jsval \<Rightarrow> 'n \<Rightarrow> unit res \<times> 'n" where
  "setCookies jar ses cookies url s =
     (case ensureActive ses of
        Inl e \<Rightarrow> (Inl e, s)
      | Inr _ \<Rightarrow>
          (case cookies of
             JArray cs \<Rightarrow>
               session_call ses (native_setCookies jar (session_id ses) cs
                 (if url = JUndefined then None else Some (js_string url))) s
           | _ \<Rightarrow> (Inl (RequestError ''setCookies expects an array of cookies''), s)))"

definition session_close ::
  "'n lifecycle \<Rightarrow> Session \<Rightarrow> 'n \<Rightarrow> unit res \<times> Session \<times> 'n" where
  "session_close ops ses s =
     (if session_disposed ses then (Inr (), ses, s)
      else
        (let ses' = ses\<lparr>session_disposed := True\<rparr>;
             transportId = sd_transportId (session_defaults ses);
             ownsTransport = sd_ownsTransport (session_defaults ses) in
         case native_dropSession ops (session_id ses) s of
           (Inl e, s1) \<Rightarrow>
             (if \<not> ownsTransport \<or> \<not> present transportId
              then (Inl (RequestError (error_string e)), ses', s1)
              else (let (_, s2) = native_dropTransport ops (the transportId) s1
                    in (Inl (RequestError (error_string e)), ses', s2)))
         | (Inr _, s1) \<Rightarrow>
             (if ownsTransport \<and> present transportId
              then (case native_dropTransport ops (the transportId) s1 of
                      (Inl e, s2) \<Rightarrow> (Inl (RequestError (error_string e)), ses', s2)
                    | (Inr _, s2) \<Rightarrow> (Inr (), ses', s2))
              else (Inr (), ses', s1))))"

text \<open>
  \<open>try { return await fn(session) } finally { await session.close() }\<close>: the error of \<open>close\<close> wins.
  The callback gets the session and the heap and may close the session itself.
\<close>

definition withSession ::
  "'n lifecycle \<Rightarrow> native_profiles \<Rightarrow> string \<Rightarrow> (Session \<Rightarrow> tuple_heap \<Rightarrow> 'n \<Rightarrow> 'a res \<times> Session \<times> 'n) \<Rightarrow>
     CreateSessionOptions option \<Rightarrow> tuple_heap \<Rightarrow> 'n \<Rightarrow> 'a res \<times> 'n" where
  "withSession ops np uuid fn options h s =
     (case createSession ops np uuid options h s of
        (Inl e, s1) \<Rightarrow> (Inl e, s1)
      | (Inr (ses, h'), s1) \<Rightarrow>
          (let (r, ses2, s2) = fn ses h' s1; (c, ses3, s3) = session_close ops ses2 s2 in
           (case c of Inl e \<Rightarrow> (Inl e, s3) | Inr _ \<Rightarrow> (r, s3))))"

section \<open>Nothing leaks\<close>

text \<open>The transport a session releases when it is closed.\<close>

definition owned_transports :: "Session \<Rightarrow> string set" where
  "owned_transports ses =
     (if sd_ownsTransport (session_defaults ses) \<and> present (sd_transportId (session_defaults ses))
      then {the (sd_transportId (session_defaults ses))} else {})"

lemma present_Some [simp]: "present (Some i) \<longleftrightarrow> i \<noteq> []" "\<not> present None"
  by (simp_all add: present_def)

lemma session_close_disposed: "session_close ops ses s = (r, ses', s') \<Longrightarrow> session_disposed ses'"
  by (auto simp: session_close_def Let_def split: if_splits prod.splits sum.splits)

lemma session_close_again:
  "session_disposed ses \<Longrightarrow> session_close ops ses s = (Inr (), ses, s)"
  by (simp add: session_close_def)

lemma session_close_object:
  "session_close ops ses s = (r, ses', s') \<Longrightarrow>
     session_id ses' = session_id ses \<and> session_defaults ses' = session_defaults ses"
  by (auto simp: session_close_def Let_def split: if_splits prod.splits sum.splits)

lemma session_call_closed:
  "session_disposed ses \<Longrightarrow>
     session_call ses call s = (Inl (RequestError ''Session has been closed''), s)"
  by (simp add: session_call_def ensureActive_def)

text \<open>What a callback may do to the session it is given: use it, or close it itself.\<close>

definition callback_ok ::
  "('n \<Rightarrow> string set) \<Rightarrow> ('n \<Rightarrow> string set) \<Rightarrow> ('n \<Rightarrow> bool) \<Rightarrow> Session \<Rightarrow> 'n \<Rightarrow> Session \<Rightarrow> 'n \<Rightarrow> bool" where
  "callback_ok transports sessions ok ses s ses' s' \<longleftrightarrow> ok s' \<and>
     (ses' = ses \<and> transports s' = transports s \<and> sessions s' = sessions s \<or>
      session_disposed ses' \<and> transports s' = transports s - owned_transports ses \<and>
        sessions s' = sessions s - {session_id ses})"

context registry
begin

lemma createTransport_registers:
  assumes "ok s" "createTransport ops np options s = (r, s')"
  shows "ok s' \<and> sessions s' = sessions s \<and>
    (case r of
       Inl e \<Rightarrow> transports s' = transports s
     | Inr t \<Rightarrow> transport_id t \<noteq> [] \<and> transport_id t \<notin> transports s \<and>
         transports s' = insert (transport_id t) (transports s) \<and> \<not> transport_disposed t)"
  using assms createTransport_Inr [OF assms(1)] createTransport_Inl [OF assms(1)]
  by (auto simp: createTransport_def Let_def split: sum.splits prod.splits)

lemma transport_close_releases:
  assumes "ok s" "transport_close ops t s = (r, t', s')" "\<not> transport_disposed t"
  shows "ok s' \<and> transport_disposed t' \<and> transport_id t' = transport_id t \<and> transports s' = transports s - {transport_id t} \<and>
    sessions s' = sessions s"
  using assms dropTransport [OF assms(1)]
  by (auto simp: transport_close_def Let_def split: sum.splits prod.splits)

lemma createSession_registers:
  assumes ok: "ok s" and run: "createSession ops np uuid options h s = (r, s')"
  shows "ok s' \<and>
    (case r of
       Inl e \<Rightarrow> transports s' = transports s \<and> sessions s' = sessions s
     | Inr (ses, h') \<Rightarrow> \<not> session_disposed ses \<and>
         (\<exists>i. sd_transportId (session_defaults ses) = Some i \<and> sd_ownsTransport (session_defaults ses) \<and>
              i \<noteq> [] \<and> i \<notin> transports s \<and> transports s' = insert i (transports s)) \<and>
         sessions s' = insert (session_id ses) (sessions s))"
proof (cases "normalizeSessionOptions np uuid options h")
  case (Inl e)
  with run ok show ?thesis by (auto simp: createSession_def)
next
  case (Inr v)
  obtain sid d h1 where v: "v = ((sid, d), h1)" by (metis prod.exhaust)
  obtain rt s1 where t: "native_createTransport ops (session_transport_options d) s = (rt, s1)"
    by fastforce
  show ?thesis
  proof (cases rt)
    case (Inl e)
    with t have "native_createTransport ops (session_transport_options d) s = (Inl e, s1)" by simp
    from createTransport_Inl [OF ok this] Inl Inr v t run show ?thesis
      by (auto simp: createSession_def)
  next
    case i: (Inr i)
    with t have "native_createTransport ops (session_transport_options d) s = (Inr i, s1)" by simp
    note T = createTransport_Inr [OF ok this]
    obtain rs s2 where c: "native_createSession ops sid s1 = (rs, s2)" by fastforce
    show ?thesis
    proof (cases rs)
      case e: (Inl e)
      with c have "native_createSession ops sid s1 = (Inl e, s2)" by simp
      with T createSession_Inl have C: "sessions s2 = sessions s1 \<and> transports s2 = transports s1 \<and> ok s2"
        by blast
      obtain u s3 where d: "native_dropTransport ops i s2 = (u, s3)" by fastforce
      with C dropTransport have "transports s3 = transports s2 - {i} \<and> sessions s3 = sessions s2 \<and> ok s3"
        by blast
      with C T e i Inr v t c d run show ?thesis by (auto simp: createSession_def)
    next
      case j: (Inr j)
      with c have "native_createSession ops sid s1 = (Inr j, s2)" by simp
      with T createSession_Inr have "j = sid \<and> sessions s2 = insert sid (sessions s1) \<and>
          transports s2 = transports s1 \<and> ok s2"
        by blast
      with T j i Inr v t c run show ?thesis by (auto simp: createSession_def)
    qed
  qed
qed

text \<open>A close releases the session and its own transport whichever native call fails.\<close>

lemma session_close_releases:
  assumes ok: "ok s" and active: "\<not> session_disposed ses"
    and run: "session_close ops ses s = (r, ses', s')"
  shows "ok s' \<and> sessions s' = sessions s - {session_id ses} \<and>
    transports s' = transports s - owned_transports ses"
proof -
  obtain rd s1 where d: "native_dropSession ops (session_id ses) s = (rd, s1)" by fastforce
  from dropSession [OF ok d]
  have S: "ok s1" "sessions s1 = sessions s - {session_id ses}" "transports s1 = transports s" by auto
  let ?i = "the (sd_transportId (session_defaults ses))"
  obtain rt s2 where t: "native_dropTransport ops ?i s1 = (rt, s2)" by fastforce
  from dropTransport [OF S(1) t]
  have T: "ok s2" "sessions s2 = sessions s1" "transports s2 = transports s1 - {?i}" by auto
  show ?thesis
  proof (cases "sd_ownsTransport (session_defaults ses) \<and> present (sd_transportId (session_defaults ses))")
    case True
    then have "s' = s2"
      using run active d t by (auto simp: session_close_def Let_def split: sum.splits)
    with S T True show ?thesis by (simp add: owned_transports_def)
  next
    case False
    then have "s' = s1"
      using run active d by (auto simp: session_close_def Let_def split: sum.splits if_splits)
    with S False show ?thesis by (auto simp: owned_transports_def)
  qed
qed

lemma withSession_releases:
  assumes ok: "ok s" and run: "withSession ops np uuid fn options h s = (r, s')"
    and fn: "\<And>ses h s r ses' s'. ok s \<Longrightarrow> fn ses h s = (r, ses', s') \<Longrightarrow>
           callback_ok transports sessions ok ses s ses' s'"
  shows "ok s' \<and> transports s' = transports s \<and> (\<exists>i. sessions s' - {i} = sessions s - {i})"
proof (cases "createSession ops np uuid options h s")
  case (Pair c s1)
  show ?thesis
  proof (cases c)
    case (Inl e)
    from createSession_registers [OF ok Pair] Inl Pair run show ?thesis
      by (auto simp: withSession_def)
  next
    case (Inr v)
    obtain ses h' where v: "v = (ses, h')" by (cases v)
    from createSession_registers [OF ok Pair] Inr v obtain i where c:
      "ok s1" "\<not> session_disposed ses" "sd_transportId (session_defaults ses) = Some i"
      "sd_ownsTransport (session_defaults ses)" "i \<noteq> []" "i \<notin> transports s"
      "transports s1 = insert i (transports s)" "sessions s1 = insert (session_id ses) (sessions s)"
      by auto
    obtain rf ses2 s2 where f: "fn ses h' s1 = (rf, ses2, s2)" by (metis prod.exhaust)
    from fn [OF c(1) f] have cb: "callback_ok transports sessions ok ses s1 ses2 s2" .
    obtain rc ses3 s3 where cl: "session_close ops ses2 s2 = (rc, ses3, s3)" by (metis prod.exhaust)
    have s': "s' = s3"
      using run Pair Inr v f cl by (auto simp: withSession_def split: sum.splits)
    have own: "owned_transports ses = {i}"
      using c by (simp add: owned_transports_def)
    have fin: "ok s3 \<and> transports s3 = transports s1 - owned_transports ses \<and>
        sessions s3 = sessions s1 - {session_id ses}"
    proof (cases "session_disposed ses2")
      case True
      with cl have "s3 = s2" by (simp add: session_close_again)
      with cb True c(2) show ?thesis by (auto simp: callback_ok_def)
    next
      case False
      with cb have "ses2 = ses" "ok s2" "transports s2 = transports s1" "sessions s2 = sessions s1"
        by (auto simp: callback_ok_def)
      with session_close_releases [OF _ _ cl] c(2) show ?thesis by simp
    qed
    from fin c own s' show ?thesis by (auto intro: exI [of _ "session_id ses"])
  qed
qed

end

section \<open>A world of transports and sessions\<close>

text \<open>
  A program that uses the library: the objects it has created so far, in order, and the native state.
  Any of the functions above may be called at any time, with any options, on any object, open or
  closed, and may fail; and the addon may forget a session that has been idle.
\<close>

record 'n world =
  w_native :: 'n
  w_heap :: tuple_heap
  w_transports :: "Transport list"
  w_sessions :: "Session list"

inductive world_step :: "'n lifecycle \<Rightarrow> native_profiles \<Rightarrow> 'n world \<Rightarrow> 'n world \<Rightarrow> bool"
  for ops :: "'n lifecycle" and np :: native_profiles where
  new_transport: "createTransport ops np options (w_native w) = (Inr t, s') \<Longrightarrow>
     world_step ops np w (w\<lparr>w_native := s', w_transports := w_transports w @ [t]\<rparr>)"
| no_transport: "createTransport ops np options (w_native w) = (Inl e, s') \<Longrightarrow>
     world_step ops np w (w\<lparr>w_native := s'\<rparr>)"
| close_transport: "k < length (w_transports w) \<Longrightarrow>
     transport_close ops (w_transports w ! k) (w_native w) = (r, t', s') \<Longrightarrow>
     world_step ops np w (w\<lparr>w_native := s', w_transports := (w_transports w)[k := t']\<rparr>)"
| new_session: "createSession ops np uuid options' (w_heap w) (w_native w) = (Inr (ses, h'), s') \<Longrightarrow>
     world_step ops np w (w\<lparr>w_native := s', w_heap := h', w_sessions := w_sessions w @ [ses]\<rparr>)"
| no_session: "createSession ops np uuid options' (w_heap w) (w_native w) = (Inl e, s') \<Longrightarrow>
     world_step ops np w (w\<lparr>w_native := s'\<rparr>)"
| close_session: "k < length (w_sessions w) \<Longrightarrow>
     session_close ops (w_sessions w ! k) (w_native w) = (r', ses', s') \<Longrightarrow>
     world_step ops np w (w\<lparr>w_native := s', w_sessions := (w_sessions w)[k := ses']\<rparr>)"
| idle_session: "world_step ops np w (w\<lparr>w_native := addon_idle ops i (w_native w)\<rparr>)"

definition open_transport :: "Transport \<Rightarrow> string list" where
  "open_transport t = (if transport_disposed t then [] else [transport_id t])"

definition open_owned :: "Session \<Rightarrow> string list" where
  "open_owned ses =
     (if \<not> session_disposed ses \<and> sd_ownsTransport (session_defaults ses) \<and>
         present (sd_transportId (session_defaults ses))
      then [the (sd_transportId (session_defaults ses))] else [])"

definition open_session :: "Session \<Rightarrow> string list" where
  "open_session ses = (if session_disposed ses then [] else [session_id ses])"

text \<open>The transports that open objects hold, and the identifiers of the open sessions.\<close>

definition held_transports :: "'n world \<Rightarrow> string list" where
  "held_transports w =
     concat (map open_transport (w_transports w)) @ concat (map open_owned (w_sessions w))"

definition held_sessions :: "'n world \<Rightarrow> string list" where
  "held_sessions w = concat (map open_session (w_sessions w))"

text \<open>\<open>extra\<close>: sessions the addon may know although none of them is open.\<close>

definition world_ok ::
  "('n \<Rightarrow> string set) \<Rightarrow> ('n \<Rightarrow> string set) \<Rightarrow> ('n \<Rightarrow> bool) \<Rightarrow> string set \<Rightarrow> 'n world \<Rightarrow> bool" where
  "world_ok transports sessions ok extra w \<longleftrightarrow> ok (w_native w) \<and>
     distinct (held_transports w) \<and> set (held_transports w) = transports (w_native w) \<and>
     sessions (w_native w) \<subseteq> set (held_sessions w) \<union> extra \<and>
     (\<forall>t \<in> set (w_transports w). transport_id t \<noteq> [])"

lemma owned_transports_open:
  "\<not> session_disposed ses \<Longrightarrow> set (open_owned ses) = owned_transports ses"
  by (simp add: open_owned_def owned_transports_def)

lemma open_closed [simp]:
  "transport_disposed t \<Longrightarrow> open_transport t = []"
  "session_disposed ses \<Longrightarrow> open_owned ses = []"
  "session_disposed ses \<Longrightarrow> open_session ses = []"
  by (simp_all add: open_transport_def open_owned_def open_session_def)

lemma list_update_split:
  assumes "k < length xs"
  obtains ys zs where "xs = ys @ xs ! k # zs" "\<And>y. xs[k := y] = ys @ y # zs"
  using assms id_take_nth_drop upd_conv_take_nth_drop by metis

context registry
begin

lemma world_step_ok:
  assumes "world_step ops np w w'" "world_ok transports sessions ok extra w"
  shows "world_ok transports sessions ok extra w'"
  using assms
proof (induction rule: world_step.induct)
  case (new_transport options w t s')
  then show ?case
    using createTransport_registers [OF _ new_transport.hyps]
    by (auto simp: world_ok_def held_transports_def held_sessions_def open_transport_def)
next
  case (no_transport options w e s')
  then show ?case
    using createTransport_registers [OF _ no_transport.hyps]
    by (auto simp: world_ok_def held_transports_def held_sessions_def)
next
  case (close_transport k w r t' s')
  let ?t = "w_transports w ! k"
  obtain ys zs where split: "w_transports w = ys @ ?t # zs" "\<And>y. (w_transports w)[k := y] = ys @ y # zs"
    using close_transport.hyps(1) by (rule list_update_split) blast
  show ?case
  proof (cases "transport_disposed ?t")
    case True
    with close_transport show ?thesis by (auto simp: transport_close_def)
  next
    case False
    from close_transport.prems have "ok (w_native w)" by (simp add: world_ok_def)
    note rel = transport_close_releases [OF this close_transport.hyps(2) False]
    have T: "held_transports w = concat (map open_transport ys) @ [transport_id ?t] @
        concat (map open_transport zs) @ concat (map open_owned (w_sessions w))"
      using False by (subst held_transports_def, subst split(1)) (simp add: open_transport_def)
    have "\<forall>t \<in> set (w_transports w). transport_id t \<noteq> []"
      using close_transport.prems by (simp add: world_ok_def)
    then have named: "\<forall>t \<in> set ys \<union> set zs. transport_id t \<noteq> []" "transport_id ?t \<noteq> []"
      using close_transport.hyps(1) arg_cong [OF split(1), of set] by auto
    from close_transport.prems rel named show ?thesis
      unfolding world_ok_def T by (auto simp: held_transports_def held_sessions_def split(2))
  qed
next
  case (new_session uuid options' w ses h' s')
  then have "ok (w_native w)" by (simp add: world_ok_def)
  from createSession_registers [OF this new_session.hyps] obtain i where
    "\<not> session_disposed ses" "sd_transportId (session_defaults ses) = Some i" "ok s'"
    "sd_ownsTransport (session_defaults ses)" "i \<noteq> []" "i \<notin> transports (w_native w)"
    "transports s' = insert i (transports (w_native w))"
    "sessions s' = insert (session_id ses) (sessions (w_native w))"
    by auto
  with new_session.prems show ?case
    by (auto simp: world_ok_def held_transports_def held_sessions_def open_owned_def open_session_def)
next
  case (no_session uuid options' w e s')
  then show ?case
    using createSession_registers [OF _ no_session.hyps]
    by (auto simp: world_ok_def held_transports_def held_sessions_def)
next
  case (close_session k w r' ses' s')
  let ?s = "w_sessions w ! k"
  obtain ys zs where split: "w_sessions w = ys @ ?s # zs" "\<And>y. (w_sessions w)[k := y] = ys @ y # zs"
    using close_session.hyps(1) by (rule list_update_split) blast
  show ?case
  proof (cases "session_disposed ?s")
    case True
    with close_session show ?thesis by (auto simp: session_close_again)
  next
    case False
    from close_session.prems have "ok (w_native w)" by (simp add: world_ok_def)
    note rel = session_close_releases [OF this False close_session.hyps(2)]
    have dis: "session_disposed ses'" using close_session.hyps(2) by (rule session_close_disposed)
    have T: "held_transports w = concat (map open_transport (w_transports w)) @
        concat (map open_owned ys) @ open_owned ?s @ concat (map open_owned zs)"
      by (subst held_transports_def, subst split(1)) simp
    have S: "held_sessions w = concat (map open_session ys) @ [session_id ?s] @ concat (map open_session zs)"
      using False by (subst held_sessions_def, subst split(1)) (simp add: open_session_def)
    from close_session.prems rel dis owned_transports_open [OF False] show ?thesis
      unfolding world_ok_def T S
      by (auto simp: held_transports_def held_sessions_def split(2))
  qed
next
  case (idle_session w i)
  then have "ok (w_native w)" by (simp add: world_ok_def)
  from idle_session.prems addon_idle_session [OF this, of i] show ?case
    by (auto simp: world_ok_def held_transports_def held_sessions_def)
qed

lemma world_reachable_ok:
  assumes "(world_step ops np)\<^sup>*\<^sup>* w w'" "world_ok transports sessions ok extra w"
  shows "world_ok transports sessions ok extra w'"
  using assms by (induction rule: rtranclp_induct) (auto intro: world_step_ok)

end

section \<open>Properties\<close>

text \<open>C1: Nothing leaks in the addon's registries: after any sequence of creating and closing
  transports and sessions, with any options and with any of these calls failing, the addon holds
  exactly the transports of objects that are still open, each held by one object only, and no session
  that is not open.\<close>

theorem registries_never_leak:
  assumes "(world_step (rust_lifecycle build jar) np)\<^sup>*\<^sup>* w w'"
    and "rust_ok (w_native w)" "w_transports w = []" "w_sessions w = []"
    and "rust_transports (w_native w) = Map.empty" "rust_sessions (w_native w) = Map.empty"
  shows "distinct (held_transports w') \<and>
    set (held_transports w') = dom (rust_transports (w_native w')) \<and>
    dom (rust_sessions (w_native w')) \<subseteq> set (held_sessions w')"
proof -
  have "world_ok (\<lambda>s. dom (rust_transports s)) (\<lambda>s. dom (rust_sessions s)) rust_ok {} w"
    using assms by (simp add: world_ok_def held_transports_def held_sessions_def)
  from rust.world_reachable_ok [OF assms(1) this] show ?thesis by (simp add: world_ok_def)
qed

definition first_state :: "(unit, unit) rust_state" where
  "first_state = \<lparr>rust_transports = Map.empty, rust_sessions = Map.empty,
     rust_uuids = (\<lambda>n. replicate (Suc n) (CHR ''u'')), rust_used = 0\<rparr>"

lemma rust_ok_first_state: "rust_ok first_state"
  by (auto simp: rust_ok_def first_state_def inj_def dest: arg_cong [of _ _ length])

definition plain_lifecycle :: "(unit, unit) rust_state lifecycle" where
  "plain_lifecycle = rust_lifecycle (\<lambda>_. Inr ()) ()"

definition first_world :: "(unit, unit) rust_state world" where
  "first_world = \<lparr>w_native = first_state, w_heap = heap_empty, w_transports = [], w_sessions = []\<rparr>"

definition second_world :: "(unit, unit) rust_state world" where
  "second_world = first_world\<lparr>w_native := first_state\<lparr>rust_used := 1,
      rust_transports := [''u'' \<mapsto> ()]\<rparr>,
      w_transports := [\<lparr>transport_id = ''u'', transport_disposed = False\<rparr>]\<rparr>"

lemma first_transport:
  "createTransport plain_lifecycle sample_profiles None first_state =
     (Inr \<lparr>transport_id = ''u'', transport_disposed = False\<rparr>,
      first_state\<lparr>rust_used := 1, rust_transports := [''u'' \<mapsto> ()]\<rparr>)"
  by (simp add: createTransport_def createTransport_options_def no_transport_options_def
      resolveEmulationMode_def validateTrustStore_def when_defined_def normalizeProxyHeaders_def
      plain_lifecycle_def rust_lifecycle_def create_transport_def first_state_def Let_def)

lemma first_world_step: "world_step plain_lifecycle sample_profiles first_world second_world"
  using world_step.new_transport [of plain_lifecycle sample_profiles None first_world]
    first_transport
  by (simp add: first_world_def second_world_def)

theorem registries_never_leak_witness:
  "set (held_transports second_world) = dom (rust_transports (w_native second_world))"
proof -
  have "(world_step (rust_lifecycle (\<lambda>_. Inr ()) ()) sample_profiles)\<^sup>*\<^sup>* first_world second_world"
    using first_world_step by (simp add: plain_lifecycle_def r_into_rtranclp)
  from registries_never_leak [OF this] rust_ok_first_state show ?thesis
    by (simp add: first_world_def first_state_def)
qed


definition failing_callback ::
  "Session \<Rightarrow> tuple_heap \<Rightarrow> (unit, unit) rust_state \<Rightarrow> unit res \<times> Session \<times> (unit, unit) rust_state" where
  "failing_callback ses h s = (Inl (PlainError ''boom''), ses, s)"


text \<open>A failed \<open>createSession\<close> leaves the registries as they were, the transport it had already
  created included; a successful one registers the session and one fresh transport it owns.\<close>

lemma createSession_all_or_nothing:
  assumes "rust_ok s" "createSession (rust_lifecycle build jar) np uuid options h s = (r, s')"
  shows "rust_ok s' \<and>
    (case r of
       Inl e \<Rightarrow> dom (rust_transports s') = dom (rust_transports s) \<and>
         dom (rust_sessions s') = dom (rust_sessions s)
     | Inr (ses, h') \<Rightarrow> \<not> session_disposed ses \<and>
         (\<exists>i. sd_transportId (session_defaults ses) = Some i \<and> sd_ownsTransport (session_defaults ses) \<and>
              i \<noteq> [] \<and> i \<notin> dom (rust_transports s) \<and>
              dom (rust_transports s') = insert i (dom (rust_transports s))) \<and>
         dom (rust_sessions s') = insert (session_id ses) (dom (rust_sessions s)))"
  using assms by (rule rust.createSession_registers)

text \<open>The options a transport accepts: the emulation mode resolves, the trust store is one of the
  three, timeouts are positive finite numbers, the two pool sizes are integers, non-negative and
  positive, and the resolve map is valid; the first option that is not decides the error.\<close>

lemma createTransport_options_spec:
  "createTransport_options np o1 = Inr mode \<longleftrightarrow>
     resolveEmulationMode np (cto_browser o1) (cto_os o1) (cto_emulation o1) = Inr mode \<and>
     cto_trustStore o1 \<in> {JUndefined, JString ''combined'', JString ''mozilla'', JString ''defaultPaths''} \<and>
     (cto_resolve o1 = JUndefined \<or> validateResolve (cto_resolve o1) = Inr ()) \<and>
     (\<forall>v \<in> {cto_poolIdleTimeout o1, cto_connectTimeout o1, cto_readTimeout o1}.
        v = JUndefined \<or> (\<exists>n. v = JNumber n \<and> is_finite n \<and> num_greater n 0)) \<and>
     (cto_poolMaxIdlePerHost o1 = JUndefined \<or>
        (\<exists>i. cto_poolMaxIdlePerHost o1 = JNumber (NumInt i) \<and> 0 \<le> i)) \<and>
     (cto_poolMaxSize o1 = JUndefined \<or> (\<exists>i. cto_poolMaxSize o1 = JNumber (NumInt i) \<and> 0 < i))"
proof -
  have defined: "when_defined v c = Inr () \<longleftrightarrow> v = JUndefined \<or> c v = Inr ()" for v c
    by (simp add: when_defined_def)
  show ?thesis
    unfolding createTransport_options_def res_bind_Inr_iff
    by (simp add: defined validateTrustStore_iff validatePositiveNumber_iff
        validateNonNegativeInteger_iff validatePositiveInteger_iff) blast
qed

lemma createTransport_options_spec_witness:
  "createTransport_options sample_profiles
     (no_transport_options\<lparr>cto_poolMaxSize := JNumber (NumInt 1), cto_readTimeout := JNumber (NumDec 5 1)\<rparr>) =
   Inr (PresetMode DEFAULT_BROWSER DEFAULT_OS None)"
  unfolding createTransport_options_spec
  by (simp add: no_transport_options_def resolveEmulationMode_def is_finite_def)

text \<open>A closed session stays closed and refuses every call before it reaches the addon: each cookie
  operation fails with the same error and leaves the native state alone, and closing again is a
  no-op.\<close>

lemma closed_session_refuses:
  assumes "session_close ops ses s = (r, ses', s')"
  shows "session_close ops ses' s'' = (Inr (), ses', s'') \<and>
    clearCookies ops ses' s'' = (Inl (RequestError ''Session has been closed''), s'') \<and>
    getCookies jar ses' url s'' = (Inl (RequestError ''Session has been closed''), s'') \<and>
    getAllCookies jar ses' s'' = (Inl (RequestError ''Session has been closed''), s'') \<and>
    setCookie jar ses' name v url s'' = (Inl (RequestError ''Session has been closed''), s'') \<and>
    setCookies jar ses' cookies url s'' = (Inl (RequestError ''Session has been closed''), s'')"
proof -
  from assms have "session_disposed ses'" by (rule session_close_disposed)
  then show ?thesis
    by (simp add: session_close_again clearCookies_def getCookies_def getAllCookies_def
        setCookie_def setCookies_def session_call_closed ensureActive_def)
qed

end
