(* ===== verification/WebSocket.thy ===== *)
theory WebSocket
  imports JsMap "HOL-Library.Sublist"
begin

text \<open>
  The class \<open>WebSocket\<close> of src/src/wreq-js.ts as a state machine. A record is the object; its methods
  are the functions of the same name; \<open>ws_step\<close> is everything that can happen to it next: a call of its
  public methods, a settled connection attempt, a microtask of the open event, a message, error or
  close from the addon, the end of a native close or of a queued send.

  The caller's code, its listeners and legacy callbacks, is the parameter \<open>react\<close>: run at some state
  of the socket and of the caller's own memory \<open>ws_env\<close>, it makes calls on the socket and may throw.
  No method dispatches an event before it returns, so the calls of one run are a list. What the
  object does to the outside is recorded in \<open>ws_log\<close>.

  The order of the steps is left open, so every interleaving of native callbacks, microtasks and
  calls is covered. The lemmas are invariants of the reachable states.
\<close>

section \<open>Data\<close>

datatype ready_state = CONNECTING | OPEN | CLOSING | CLOSED

datatype event_type = OpenType | MessageType | CloseType | ErrorType

text \<open>\<open>isWebSocketListenerType\<close>.\<close>

definition listener_type :: "string \<Rightarrow> event_type option" where
  "listener_type type =
     (if type = ''open'' then Some OpenType
      else if type = ''message'' then Some MessageType
      else if type = ''close'' then Some CloseType
      else if type = ''error'' then Some ErrorType
      else None)"

datatype binary_type = Nodebuffer | Arraybuffer | Blob

definition binary_type_of :: "string \<Rightarrow> binary_type option" where
  "binary_type_of s =
     (if s = ''nodebuffer'' then Some Nodebuffer
      else if s = ''arraybuffer'' then Some Arraybuffer
      else if s = ''blob'' then Some Blob
      else None)"

text \<open>What travels over the connection, and what a message event carries.\<close>

datatype ws_data = TextData string | BinaryData "nat list"

datatype message_data = MessageText string | MessageBytes binary_type "nat list"

datatype ws_event =
    OpenEvent
  | MessageEvent message_data
  | CloseEvent int string bool
  | ErrorEvent string

fun event_type_of :: "ws_event \<Rightarrow> event_type" where
  "event_type_of OpenEvent = OpenType"
| "event_type_of (MessageEvent d) = MessageType"
| "event_type_of (CloseEvent c r w) = CloseType"
| "event_type_of (ErrorEvent m) = ErrorType"

text \<open>The argument of \<open>send\<close>: a view stands for the bytes it shows.\<close>

datatype send_data =
    SendText string | SendBuffer "nat list" | SendArrayBuffer "nat list" | SendView "nat list"
  | SendBlob "nat list" | SendOther

definition send_type_error :: js_error where
  "send_type_error =
     TypeError ''WebSocket data must be a string, Buffer, ArrayBuffer, ArrayBufferView, or Blob''"

definition getSendByteLength :: "send_data \<Rightarrow> nat res" where
  "getSendByteLength d = (case d of
      SendText s \<Rightarrow> Inr (utf8_length s)
    | SendBuffer bs \<Rightarrow> Inr (length bs)
    | SendArrayBuffer bs \<Rightarrow> Inr (length bs)
    | SendView bs \<Rightarrow> Inr (length bs)
    | SendBlob bs \<Rightarrow> Inr (length bs)
    | SendOther \<Rightarrow> Inl send_type_error)"

definition normalizeSendPayload :: "send_data \<Rightarrow> ws_data res" where
  "normalizeSendPayload d = (case d of
      SendText s \<Rightarrow> Inr (TextData s)
    | SendBuffer bs \<Rightarrow> Inr (BinaryData bs)
    | SendArrayBuffer bs \<Rightarrow> Inr (BinaryData bs)
    | SendView bs \<Rightarrow> Inr (BinaryData bs)
    | SendBlob bs \<Rightarrow> Inr (BinaryData bs)
    | SendOther \<Rightarrow> Inl send_type_error)"

record NativeWebSocketCloseOptions =
  close_code :: number
  close_reason :: string

definition normalizeWebSocketCloseOptions ::
  "jsval \<Rightarrow> string option \<Rightarrow> NativeWebSocketCloseOptions option res" where
  "normalizeWebSocketCloseOptions code reason =
     (if code = JUndefined \<and> reason = None then Inr None
      else if code = JUndefined
      then Inl (RequestError ''A close code is required when providing a close reason'')
      else case code of
        JNumber n \<Rightarrow>
          (if \<not> is_integer n then Inl (RequestError ''Close code must be an integer'')
           else if \<not> num_eq n 1000 \<and> (num_less n 3000 \<or> num_greater n 4999)
           then Inl (RequestError ''Close code must be 1000 or in range 3000-4999'')
           else (let normalizedReason = opt_default reason [] in
                 if utf8_length normalizedReason > 123
                 then Inl (RequestError ''Close reason must be 123 bytes or fewer'')
                 else Inr (Some \<lparr>close_code = n, close_reason = normalizedReason\<rparr>)))
      | _ \<Rightarrow> Inl (RequestError ''Close code must be an integer''))"

section \<open>The object\<close>

record WebSocketListenerDescriptor =
  desc_order :: int
  desc_once :: bool
  desc_signal :: "nat option"

record LegacyWebSocketCallbacks =
  has_onMessage :: bool
  has_onClose :: bool
  has_onError :: bool

datatype WebSocketOpenDispatchMode = Automatic | Deferred

text \<open>
  A run of the caller's code; listeners and functions are named by numbers. \<open>Received\<close> logs a message
  that the socket has accepted, past its legacy callback.
\<close>

datatype callback =
    Listener nat ws_event
  | OnMessage ws_data
  | OnClose ws_event
  | OnError string

datatype action =
    Received ws_data
  | Dispatched ws_event
  | Ran callback
  | NativeClose nat "NativeWebSocketCloseOptions option"
  | NativeSend nat ws_data

datatype connect_state = ConnectPending | ConnectResolved | ConnectRejected

text \<open>
  The private fields, then what the runtime keeps for the object: the state of the connection promise
  and whether its awaiting continuation has run, the microtask of the open event (how many turns are
  left), whether the native close is settled, the abort signals that have fired and their handlers.
\<close>

record 'e web_socket =
  ws_url :: string
  ws_protocol :: string
  ws_extensions :: string
  ws_readyState :: ready_state
  ws_binaryType :: binary_type
  ws_bufferedAmount :: int
  ws_on :: "event_type \<Rightarrow> nat option"
  ws_onHandlerOrder :: "event_type \<Rightarrow> int"
  ws_listenerOrderCounter :: int
  ws_listeners :: "event_type \<Rightarrow> (nat, WebSocketListenerDescriptor) omap"
  ws_legacyCallbacks :: "LegacyWebSocketCallbacks option"
  ws_openDispatchMode :: WebSocketOpenDispatchMode
  ws_connection :: "nat option"
  ws_closeOptions :: "NativeWebSocketCloseOptions option"
  ws_finalizerToken :: "nat option"
  ws_openEventDispatched :: bool
  ws_openEventQueued :: bool
  ws_closeEventDispatched :: bool
  ws_nativeCloseStarted :: bool
  ws_pendingMessages :: "ws_data list"
  ws_sendChain :: "(nat \<times> send_data \<times> nat) list"
  ws_connectState :: connect_state
  ws_awaited :: bool
  ws_openTask :: "nat option"
  ws_closeSettled :: bool
  ws_aborted :: "nat list"
  ws_abortHandlers :: "(nat \<times> event_type \<times> nat) list"
  ws_env :: 'e
  ws_log :: "action list"

definition log_action :: "action \<Rightarrow> 'e web_socket \<Rightarrow> 'e web_socket" where
  "log_action a s = s\<lparr>ws_log := ws_log s @ [a]\<rparr>"

text \<open>The object right after its constructor, whose \<open>connect\<close> is under way.\<close>

definition WebSocket_new ::
  "string \<Rightarrow> binary_type \<Rightarrow> LegacyWebSocketCallbacks option \<Rightarrow> WebSocketOpenDispatchMode \<Rightarrow> 'e \<Rightarrow>
     'e web_socket" where
  "WebSocket_new url binaryType legacy mode e =
     \<lparr>ws_url = url, ws_protocol = [], ws_extensions = [], ws_readyState = CONNECTING,
      ws_binaryType = binaryType, ws_bufferedAmount = 0, ws_on = (\<lambda>_. None),
      ws_onHandlerOrder = (\<lambda>_. -1), ws_listenerOrderCounter = 0, ws_listeners = (\<lambda>_. []),
      ws_legacyCallbacks = legacy, ws_openDispatchMode = mode, ws_connection = None,
      ws_closeOptions = None, ws_finalizerToken = None, ws_openEventDispatched = False,
      ws_openEventQueued = False, ws_closeEventDispatched = False, ws_nativeCloseStarted = False,
      ws_pendingMessages = [], ws_sendChain = [], ws_connectState = ConnectPending,
      ws_awaited = False, ws_openTask = None, ws_closeSettled = False, ws_aborted = [],
      ws_abortHandlers = [], ws_env = e, ws_log = []\<rparr>"

section \<open>The public methods\<close>

definition set_handler :: "event_type \<Rightarrow> nat option \<Rightarrow> 'e web_socket \<Rightarrow> 'e web_socket" where
  "set_handler t listener s =
     (case listener of
        Some l \<Rightarrow> s\<lparr>ws_on := (ws_on s)(t := Some l),
                    ws_onHandlerOrder := (ws_onHandlerOrder s)(t := ws_listenerOrderCounter s + 1),
                    ws_listenerOrderCounter := ws_listenerOrderCounter s + 1\<rparr>
      | None \<Rightarrow> s\<lparr>ws_on := (ws_on s)(t := None),
                 ws_onHandlerOrder := (ws_onHandlerOrder s)(t := -1)\<rparr>)"

definition set_binaryType :: "string \<Rightarrow> 'e web_socket \<Rightarrow> 'e web_socket" where
  "set_binaryType v s = (case binary_type_of v of
      Some b \<Rightarrow> s\<lparr>ws_binaryType := b\<rparr>
    | None \<Rightarrow> s)"

definition remove_listener :: "event_type \<Rightarrow> nat \<Rightarrow> 'e web_socket \<Rightarrow> 'e web_socket" where
  "remove_listener t l s = (case om_get (ws_listeners s t) l of
      None \<Rightarrow> s
    | Some d \<Rightarrow>
        s\<lparr>ws_abortHandlers := (case desc_signal d of
              None \<Rightarrow> ws_abortHandlers s
            | Some k \<Rightarrow> filter (\<lambda>h. h \<noteq> (k, t, l)) (ws_abortHandlers s)),
          ws_listeners := (ws_listeners s)(t := om_delete (ws_listeners s t) l)\<rparr>)"

text \<open>\<open>None\<close> as listener: null, or anything that is neither a function nor a handler object.\<close>

definition removeEventListener :: "string \<Rightarrow> nat option \<Rightarrow> 'e web_socket \<Rightarrow> 'e web_socket" where
  "removeEventListener type listener s = (case (listener, listener_type type) of
      (Some l, Some t) \<Rightarrow> remove_listener t l s
    | _ \<Rightarrow> s)"

definition addEventListener ::
  "string \<Rightarrow> nat option \<Rightarrow> bool \<Rightarrow> nat option \<Rightarrow> 'e web_socket \<Rightarrow> 'e web_socket" where
  "addEventListener type listener once signal s = (case (listener, listener_type type) of
      (Some l, Some t) \<Rightarrow>
        (if om_has (ws_listeners s t) l then s
         else if (case signal of None \<Rightarrow> False | Some k \<Rightarrow> k \<in> set (ws_aborted s)) then s
         else
           (let order = ws_listenerOrderCounter s + 1;
                descriptor = \<lparr>desc_order = order, desc_once = once, desc_signal = signal\<rparr> in
            s\<lparr>ws_listenerOrderCounter := order,
              ws_abortHandlers := ws_abortHandlers s @
                (case signal of None \<Rightarrow> [] | Some k \<Rightarrow> [(k, t, l)]),
              ws_listeners := (ws_listeners s)(t := om_set (ws_listeners s t) l descriptor)\<rparr>))
    | _ \<Rightarrow> s)"

text \<open>An abort signal fires once and runs its handlers in order.\<close>

definition abort_signal :: "nat \<Rightarrow> 'e web_socket \<Rightarrow> 'e web_socket" where
  "abort_signal k s =
     (if k \<in> set (ws_aborted s) then s
      else foldl (\<lambda>s (k, t, l). remove_listener t l s)
             (s\<lparr>ws_aborted := k # ws_aborted s,
                ws_abortHandlers := filter (\<lambda>h. fst h \<noteq> k) (ws_abortHandlers s)\<rparr>)
             (filter (\<lambda>h. fst h = k) (ws_abortHandlers s)))"

definition startNativeClose :: "'e web_socket \<Rightarrow> 'e web_socket" where
  "startNativeClose s = (case ws_connection s of
      None \<Rightarrow> s
    | Some connection \<Rightarrow>
        (if ws_nativeCloseStarted s then s
         else log_action (NativeClose connection (ws_closeOptions s))
                (s\<lparr>ws_nativeCloseStarted := True\<rparr>)))"

definition ws_close :: "jsval \<Rightarrow> string option \<Rightarrow> 'e web_socket \<Rightarrow> unit res \<times> 'e web_socket" where
  "ws_close code reason s =
     (if ws_readyState s = CLOSING \<or> ws_readyState s = CLOSED then (Inr (), s)
      else case normalizeWebSocketCloseOptions code reason of
        Inl e \<Rightarrow> (Inl e, s)
      | Inr options \<Rightarrow>
          (Inr (), startNativeClose (s\<lparr>ws_closeOptions := options, ws_readyState := CLOSING\<rparr>)))"

definition ws_send :: "send_data \<Rightarrow> 'e web_socket \<Rightarrow> unit res \<times> 'e web_socket" where
  "ws_send data s = (case ws_connection s of
      None \<Rightarrow> (Inl (RequestError ''WebSocket is not open''), s)
    | Some connection \<Rightarrow>
        (if ws_readyState s \<noteq> OPEN then (Inl (RequestError ''WebSocket is not open''), s)
         else case getSendByteLength data of
           Inl e \<Rightarrow> (Inl e, s)
         | Inr queuedBytes \<Rightarrow>
             (Inr (), s\<lparr>ws_bufferedAmount := ws_bufferedAmount s + int queuedBytes,
                        ws_sendChain := ws_sendChain s @ [(connection, data, queuedBytes)]\<rparr>)))"

datatype api_call =
    CallAdd string "nat option" bool "nat option"
  | CallRemove string "nat option"
  | CallHandler event_type "nat option"
  | CallBinaryType string
  | CallSend send_data
  | CallClose jsval "string option"
  | CallAbort nat

definition api :: "api_call \<Rightarrow> 'e web_socket \<Rightarrow> unit res \<times> 'e web_socket" where
  "api c s = (case c of
      CallAdd type listener once signal \<Rightarrow> (Inr (), addEventListener type listener once signal s)
    | CallRemove type listener \<Rightarrow> (Inr (), removeEventListener type listener s)
    | CallHandler t listener \<Rightarrow> (Inr (), set_handler t listener s)
    | CallBinaryType v \<Rightarrow> (Inr (), set_binaryType v s)
    | CallSend data \<Rightarrow> ws_send data s
    | CallClose code reason \<Rightarrow> ws_close code reason s
    | CallAbort k \<Rightarrow> (Inr (), abort_signal k s))"

section \<open>Dispatch\<close>

type_synonym 'e reaction = "callback \<Rightarrow> 'e web_socket \<Rightarrow> api_call list \<times> bool \<times> 'e"

text \<open>Runs the caller's code; the first component says whether it threw.\<close>

definition run_callback ::
  "'e reaction \<Rightarrow> callback \<Rightarrow> 'e web_socket \<Rightarrow> bool \<times> 'e web_socket" where
  "run_callback react cb s =
     (let (calls, throws, e) = react cb s in
      (throws, foldl (\<lambda>s c. snd (api c s)) ((log_action (Ran cb) s)\<lparr>ws_env := e\<rparr>) calls))"

definition invokeListener :: "'e reaction \<Rightarrow> nat \<Rightarrow> ws_event \<Rightarrow> 'e web_socket \<Rightarrow> 'e web_socket" where
  "invokeListener react l event s = snd (run_callback react (Listener l event) s)"

definition ordered_listeners :: "event_type \<Rightarrow> 'e web_socket \<Rightarrow> (int \<times> nat \<times> bool) list" where
  "ordered_listeners t s =
     sort_key fst
       (map (\<lambda>(l, d). (desc_order d, l, desc_once d)) (ws_listeners s t) @
        (case ws_on s t of None \<Rightarrow> [] | Some onHandler \<Rightarrow> [(ws_onHandlerOrder s t, onHandler, False)]))"

definition dispatch_entry ::
  "'e reaction \<Rightarrow> ws_event \<Rightarrow> 'e web_socket \<Rightarrow> int \<times> nat \<times> bool \<Rightarrow> 'e web_socket" where
  "dispatch_entry react event s entry =
     (let (order, l, once) = entry in
      invokeListener react l event
        (if once then remove_listener (event_type_of event) l s else s))"

definition dispatchEvent :: "'e reaction \<Rightarrow> ws_event \<Rightarrow> 'e web_socket \<Rightarrow> 'e web_socket" where
  "dispatchEvent react event s =
     foldl (dispatch_entry react event) (log_action (Dispatched event) s)
       (ordered_listeners (event_type_of event) s)"

definition toMessageEventData :: "binary_type \<Rightarrow> ws_data \<Rightarrow> message_data" where
  "toMessageEventData binaryType data = (case data of
      TextData s \<Rightarrow> MessageText s
    | BinaryData bs \<Rightarrow> MessageBytes binaryType bs)"

definition dispatchMessage :: "'e reaction \<Rightarrow> 'e web_socket \<Rightarrow> ws_data \<Rightarrow> 'e web_socket" where
  "dispatchMessage react s data =
     dispatchEvent react (MessageEvent (toMessageEventData (ws_binaryType s) data)) s"

definition dispatchOpenEvent :: "'e reaction \<Rightarrow> 'e web_socket \<Rightarrow> 'e web_socket" where
  "dispatchOpenEvent react s =
     (let s1 = dispatchEvent react OpenEvent s in
      if \<not> ws_closeEventDispatched s1 \<and> ws_pendingMessages s1 \<noteq> []
      then foldl (dispatchMessage react) (s1\<lparr>ws_pendingMessages := []\<rparr>) (ws_pendingMessages s1)
      else s1)"

text \<open>A legacy callback is called outside any \<open>try\<close>: what it throws ends the handler.\<close>

definition legacy ::
  "'e reaction \<Rightarrow> (LegacyWebSocketCallbacks \<Rightarrow> bool) \<Rightarrow> callback \<Rightarrow> 'e web_socket \<Rightarrow>
     bool \<times> 'e web_socket" where
  "legacy react present cb s = (case ws_legacyCallbacks s of
      Some c \<Rightarrow> (if present c then run_callback react cb s else (False, s))
    | None \<Rightarrow> (False, s))"

definition handleNativeMessage :: "'e reaction \<Rightarrow> ws_data \<Rightarrow> 'e web_socket \<Rightarrow> 'e web_socket" where
  "handleNativeMessage react data s =
     (if ws_closeEventDispatched s then s
      else (let (threw, s1) = legacy react has_onMessage (OnMessage data) s in
            if threw then s1
            else (let s2 = log_action (Received data) s1 in
                  if \<not> ws_openEventDispatched s2 \<and> ws_readyState s2 = OPEN
                  then s2\<lparr>ws_pendingMessages := ws_pendingMessages s2 @ [data]\<rparr>
                  else dispatchMessage react s2 data)))"

definition handleNativeError :: "'e reaction \<Rightarrow> string \<Rightarrow> 'e web_socket \<Rightarrow> bool \<times> 'e web_socket" where
  "handleNativeError react message s =
     (let (threw, s1) = legacy react has_onError (OnError message) s in
      if threw then (True, s1) else (False, dispatchEvent react (ErrorEvent message) s1))"

definition finalizeClosed ::
  "'e reaction \<Rightarrow> int \<Rightarrow> string \<Rightarrow> bool \<Rightarrow> 'e web_socket \<Rightarrow> 'e web_socket" where
  "finalizeClosed react code reason wasClean s =
     (if ws_closeEventDispatched s then s
      else
        (let s1 = s\<lparr>ws_readyState := CLOSED, ws_closeEventDispatched := True,
                    ws_pendingMessages := [], ws_finalizerToken := None\<rparr>;
             closeEvent = CloseEvent code reason wasClean;
             (threw, s2) = legacy react has_onClose (OnClose closeEvent) s1 in
         if threw then s2 else dispatchEvent react closeEvent s2))"

definition handleNativeClose :: "'e reaction \<Rightarrow> int \<Rightarrow> string \<Rightarrow> 'e web_socket \<Rightarrow> 'e web_socket" where
  "handleNativeClose react code reason s =
     finalizeClosed react code reason (ws_readyState s = CLOSING \<or> code = 1000) s"

text \<open>The two calls of every \<open>catch\<close>: report the error, then close abnormally.\<close>

definition fail_closed :: "'e reaction \<Rightarrow> string \<Rightarrow> 'e web_socket \<Rightarrow> 'e web_socket" where
  "fail_closed react message s =
     (let (threw, s1) = handleNativeError react message s in
      if threw then s1 else finalizeClosed react 1006 [] False s1)"

section \<open>Connecting\<close>

definition scheduleOpenEventWithDepth :: "nat \<Rightarrow> 'e web_socket \<Rightarrow> 'e web_socket" where
  "scheduleOpenEventWithDepth depth s =
     (if ws_openEventDispatched s \<or> ws_openEventQueued s \<or> ws_readyState s \<noteq> OPEN then s
      else s\<lparr>ws_openEventQueued := True, ws_openTask := Some depth\<rparr>)"

text \<open>One microtask, with \<open>Suc remaining\<close> turns left when it starts.\<close>

definition open_microtask :: "'e reaction \<Rightarrow> nat \<Rightarrow> 'e web_socket \<Rightarrow> 'e web_socket" where
  "open_microtask react remaining s =
     (if remaining = 0 then
        (let s1 = s\<lparr>ws_openTask := None, ws_openEventQueued := False\<rparr> in
         if ws_openEventDispatched s1 \<or> ws_readyState s1 \<noteq> OPEN then s1
         else dispatchOpenEvent react (s1\<lparr>ws_openEventDispatched := True\<rparr>))
      else s\<lparr>ws_openTask := Some remaining\<rparr>)"

definition connected :: "nat \<Rightarrow> string option \<Rightarrow> string option \<Rightarrow> 'e web_socket \<Rightarrow> 'e web_socket" where
  "connected connection protocol extensions s =
     (let s1 = s\<lparr>ws_connection := Some connection, ws_protocol := opt_default protocol [],
                 ws_extensions := opt_default extensions [], ws_finalizerToken := Some connection,
                 ws_connectState := ConnectResolved\<rparr> in
      if ws_readyState s1 = CLOSING then startNativeClose s1
      else (let s2 = s1\<lparr>ws_readyState := OPEN\<rparr> in
            if ws_openDispatchMode s2 = Automatic then scheduleOpenEventWithDepth 2 s2 else s2))"

definition connect_failed :: "'e reaction \<Rightarrow> string \<Rightarrow> 'e web_socket \<Rightarrow> 'e web_socket" where
  "connect_failed react message s = fail_closed react message (s\<lparr>ws_connectState := ConnectRejected\<rparr>)"

text \<open>The continuation of \<open>_connectWithInit\<close>.\<close>

definition connect_awaited :: "'e web_socket \<Rightarrow> 'e web_socket" where
  "connect_awaited s = scheduleOpenEventWithDepth 3 (s\<lparr>ws_awaited := True\<rparr>)"

section \<open>Sending\<close>

definition dequeue_send :: "nat \<Rightarrow> 'e web_socket \<Rightarrow> 'e web_socket" where
  "dequeue_send queuedBytes s =
     s\<lparr>ws_bufferedAmount := max 0 (ws_bufferedAmount s - int queuedBytes),
       ws_sendChain := tl (ws_sendChain s)\<rparr>"

definition send_done :: "nat \<Rightarrow> ws_data \<Rightarrow> nat \<Rightarrow> 'e web_socket \<Rightarrow> 'e web_socket" where
  "send_done connection payload queuedBytes s =
     dequeue_send queuedBytes (log_action (NativeSend connection payload) s)"

definition send_failed :: "'e reaction \<Rightarrow> string \<Rightarrow> nat \<Rightarrow> 'e web_socket \<Rightarrow> 'e web_socket" where
  "send_failed react message queuedBytes s = dequeue_send queuedBytes (fail_closed react message s)"

section \<open>Everything that can happen\<close>

inductive ws_step :: "'e reaction \<Rightarrow> 'e web_socket \<Rightarrow> 'e web_socket \<Rightarrow> bool" for react where
  step_call: "ws_step react s (snd (api c s))"
| step_connected: "ws_connectState s = ConnectPending \<Longrightarrow> ws_step react s (connected i p x s)"
| step_connect_failed: "ws_connectState s = ConnectPending \<Longrightarrow> ws_step react s (connect_failed react m s)"
| step_awaited: "ws_connectState s = ConnectResolved \<Longrightarrow> ws_openDispatchMode s = Deferred \<Longrightarrow>
     \<not> ws_awaited s \<Longrightarrow> ws_step react s (connect_awaited s)"
| step_microtask: "ws_openTask s = Some (Suc n) \<Longrightarrow> ws_step react s (open_microtask react n s)"
| step_message: "ws_step react s (handleNativeMessage react data s)"
| step_error: "ws_step react s (snd (handleNativeError react m s))"
| step_close: "ws_step react s (handleNativeClose react code reason s)"
| step_close_done: "ws_nativeCloseStarted s \<Longrightarrow> \<not> ws_closeSettled s \<Longrightarrow>
     ws_step react s (s\<lparr>ws_closeSettled := True\<rparr>)"
| step_close_failed: "ws_nativeCloseStarted s \<Longrightarrow> \<not> ws_closeSettled s \<Longrightarrow>
     ws_step react s (fail_closed react m (s\<lparr>ws_closeSettled := True\<rparr>))"
| step_send_done: "ws_sendChain s = (i, data, n) # rest \<Longrightarrow> normalizeSendPayload data = Inr payload \<Longrightarrow>
     ws_step react s (send_done i payload n s)"
| step_send_failed: "ws_sendChain s = (i, data, n) # rest \<Longrightarrow>
     ws_step react s (send_failed react m n s)"

definition ws_reachable :: "'e reaction \<Rightarrow> 'e web_socket \<Rightarrow> bool" where
  "ws_reachable react s \<longleftrightarrow>
     (\<exists>url b l mode e. (ws_step react)\<^sup>*\<^sup>* (WebSocket_new url b l mode e) s)"

end
