(* ===== verification/WebSocketInvariants.thy ===== *)
theory WebSocketInvariants
  imports WebSocket
begin

text \<open>
  Invariants of the reachable states of a \<open>WebSocket\<close>. The caller's code can do no more than call the
  public methods; the locale \<open>caller_safe\<close> says what a predicate needs so that running any such code,
  and so dispatching any event, keeps it. Every invariant below is an interpretation of it.
\<close>

section \<open>Running the caller's code\<close>

locale caller_safe =
  fixes P :: "'e web_socket \<Rightarrow> bool"
  assumes keep_api: "P s \<Longrightarrow> P (snd (api c s))"
    and keep_ran: "P s \<Longrightarrow> P ((log_action (Ran cb) s)\<lparr>ws_env := e\<rparr>)"
begin

lemma keep_calls: "P s \<Longrightarrow> P (foldl (\<lambda>s c. snd (api c s)) s calls)"
  by (induction calls arbitrary: s) (simp_all add: keep_api)

lemma keep_run: "P s \<Longrightarrow> P (snd (run_callback react cb s))"
  by (simp add: run_callback_def keep_calls keep_ran split: prod.split)

lemma keep_remove: "P s \<Longrightarrow> P (remove_listener t l s)"
proof -
  assume "P s"
  obtain type where "listener_type type = Some t"
    by (cases t) (auto simp: listener_type_def intro: that [of "''open''"] that [of "''message''"]
        that [of "''close''"] that [of "''error''"])
  with keep_api [OF \<open>P s\<close>, of "CallRemove type (Some l)"] show ?thesis
    by (simp add: api_def removeEventListener_def)
qed

lemma keep_entries: "P s \<Longrightarrow> P (foldl (dispatch_entry react event) s entries)"
proof (induction entries arbitrary: s)
  case (Cons x xs)
  obtain order l once where "x = (order, l, once)" by (cases x)
  with Cons show ?case
    by (simp add: dispatch_entry_def invokeListener_def keep_run keep_remove)
qed simp

lemma keep_dispatch: "P (log_action (Dispatched event) s) \<Longrightarrow> P (dispatchEvent react event s)"
  by (simp add: dispatchEvent_def keep_entries)

lemma keep_legacy: "P s \<Longrightarrow> P (snd (legacy react p cb s))"
  by (simp add: legacy_def keep_run split: option.split)

end

section \<open>What the public methods leave alone\<close>

text \<open>The fields no public method writes.\<close>

definition untouched :: "'e web_socket \<Rightarrow> 'e web_socket \<Rightarrow> bool" where
  "untouched s s' \<longleftrightarrow>
     ws_connection s' = ws_connection s \<and> ws_openDispatchMode s' = ws_openDispatchMode s \<and>
     ws_openEventDispatched s' = ws_openEventDispatched s \<and> ws_openEventQueued s' = ws_openEventQueued s \<and>
     ws_closeEventDispatched s' = ws_closeEventDispatched s \<and>
     ws_pendingMessages s' = ws_pendingMessages s \<and> ws_connectState s' = ws_connectState s \<and>
     ws_openTask s' = ws_openTask s \<and> ws_finalizerToken s' = ws_finalizerToken s \<and>
     ws_legacyCallbacks s' = ws_legacyCallbacks s"

lemma untouched_refl [simp]: "untouched s s"
  by (simp add: untouched_def)

lemma untouched_trans: "untouched s s' \<Longrightarrow> untouched s' s'' \<Longrightarrow> untouched s s''"
  by (simp add: untouched_def)

text \<open>What a listener operation changes: listeners, their counter and the abort handlers only.\<close>

definition listeners_only :: "'e web_socket \<Rightarrow> 'e web_socket \<Rightarrow> bool" where
  "listeners_only s s' \<longleftrightarrow>
     s' = s\<lparr>ws_on := ws_on s', ws_onHandlerOrder := ws_onHandlerOrder s',
            ws_listenerOrderCounter := ws_listenerOrderCounter s', ws_listeners := ws_listeners s',
            ws_aborted := ws_aborted s', ws_abortHandlers := ws_abortHandlers s'\<rparr>"

lemma listeners_only_refl [simp]: "listeners_only s s"
  by (simp add: listeners_only_def)

lemma listeners_only_trans: "listeners_only s s' \<Longrightarrow> listeners_only s' s'' \<Longrightarrow> listeners_only s s''"
  unfolding listeners_only_def by (cases s; cases s'; cases s'') simp

lemma listeners_onlyE:
  assumes "listeners_only s s'"
  obtains on ord c ls ab hs where "s' = s\<lparr>ws_on := on, ws_onHandlerOrder := ord,
    ws_listenerOrderCounter := c, ws_listeners := ls, ws_aborted := ab, ws_abortHandlers := hs\<rparr>"
  using assms unfolding listeners_only_def by blast

lemma listeners_only_remove: "listeners_only s (remove_listener t l s)"
  by (simp add: remove_listener_def listeners_only_def split: option.split)

lemma listeners_only_foldl:
  "(\<And>s x. listeners_only s (f s x)) \<Longrightarrow> listeners_only s (foldl f s xs)"
  by (induction xs arbitrary: s) (auto intro: listeners_only_trans)

lemma listeners_only_abort: "listeners_only s (abort_signal k s)"
proof (cases "k \<in> set (ws_aborted s)")
  case False
  let ?s = "s\<lparr>ws_aborted := k # ws_aborted s,
      ws_abortHandlers := filter (\<lambda>h. fst h \<noteq> k) (ws_abortHandlers s)\<rparr>"
  have "listeners_only s ?s" by (simp add: listeners_only_def)
  moreover have "listeners_only ?s (foldl (\<lambda>s (k, t, l). remove_listener t l s) ?s hs)" for hs
    by (rule listeners_only_foldl) (auto intro: listeners_only_remove)
  ultimately show ?thesis
    using False by (auto simp: abort_signal_def intro: listeners_only_trans)
qed (simp add: abort_signal_def)

text \<open>Every public call is a listener operation, a change of binary type, a queued send or a close.\<close>

lemma api_cases:
  obtains
    (listeners) "listeners_only s (snd (api c s))"
  | (binary) b where "snd (api c s) = s\<lparr>ws_binaryType := b\<rparr>"
  | (send) i data n where "ws_connection s = Some i" "ws_readyState s = OPEN"
      "getSendByteLength data = Inr n"
      "snd (api c s) = s\<lparr>ws_bufferedAmount := ws_bufferedAmount s + int n,
                          ws_sendChain := ws_sendChain s @ [(i, data, n)]\<rparr>"
  | (close) options where "ws_readyState s \<in> {CONNECTING, OPEN}"
      "snd (api c s) = startNativeClose (s\<lparr>ws_closeOptions := options, ws_readyState := CLOSING\<rparr>)"
proof (cases c)
  case (CallAdd type listener once signal)
  then have "listeners_only s (snd (api c s))"
    by (auto simp: api_def addEventListener_def Let_def listeners_only_def split: option.split)
  then show ?thesis by (rule listeners)
next
  case (CallRemove type listener)
  then have "listeners_only s (snd (api c s))"
    by (auto simp: api_def removeEventListener_def listeners_only_remove split: option.split)
  then show ?thesis by (rule listeners)
next
  case (CallHandler t listener)
  then have "listeners_only s (snd (api c s))"
    by (auto simp: api_def set_handler_def listeners_only_def split: option.split)
  then show ?thesis by (rule listeners)
next
  case (CallBinaryType v)
  then show ?thesis
    using binary listeners
    by (cases "binary_type_of v") (auto simp: api_def set_binaryType_def)
next
  case (CallSend data)
  show ?thesis
  proof (cases "\<exists>i n. ws_connection s = Some i \<and> ws_readyState s = OPEN \<and> getSendByteLength data = Inr n")
    case True
    then obtain i n where "ws_connection s = Some i" "ws_readyState s = OPEN" "getSendByteLength data = Inr n"
      by blast
    with CallSend show ?thesis by (intro send [of i data n]) (simp_all add: api_def ws_send_def)
  next
    case False
    then have "snd (api c s) = s"
      by (cases "getSendByteLength data") (auto simp: CallSend api_def ws_send_def split: option.split)
    then show ?thesis by (intro listeners) simp
  qed
next
  case (CallClose code reason)
  have "ws_readyState s \<in> {CONNECTING, OPEN}" if "ws_readyState s \<noteq> CLOSING" "ws_readyState s \<noteq> CLOSED"
    using that by (cases "ws_readyState s") auto
  note moving = this
  show ?thesis
  proof (cases "ws_readyState s = CLOSING \<or> ws_readyState s = CLOSED \<or>
      (\<exists>e. normalizeWebSocketCloseOptions code reason = Inl e)")
    case True
    then have "snd (api c s) = s" by (auto simp: CallClose api_def ws_close_def)
    then show ?thesis by (intro listeners) simp
  next
    case False
    then obtain options where "normalizeWebSocketCloseOptions code reason = Inr options"
      by (cases "normalizeWebSocketCloseOptions code reason") auto
    with False moving CallClose show ?thesis
      by (intro close [of options]) (simp_all add: api_def ws_close_def)
  qed
next
  case (CallAbort k)
  then have "listeners_only s (snd (api c s))"
    by (simp add: api_def listeners_only_abort)
  then show ?thesis by (rule listeners)
qed

lemma startNativeClose_cases:
  obtains
    (same) "startNativeClose s = s" "ws_connection s = None \<or> ws_nativeCloseStarted s"
  | (started) i where "ws_connection s = Some i" "\<not> ws_nativeCloseStarted s"
      "startNativeClose s = log_action (NativeClose i (ws_closeOptions s)) (s\<lparr>ws_nativeCloseStarted := True\<rparr>)"
  by (cases "ws_connection s"; cases "ws_nativeCloseStarted s") (auto simp: startNativeClose_def)

lemma untouched_api: "untouched s (snd (api c s))"
proof (cases rule: api_cases [of s c])
  case listeners
  then show ?thesis by (rule listeners_onlyE) (simp add: untouched_def)
next
  case (close options)
  let ?t = "s\<lparr>ws_closeOptions := options, ws_readyState := CLOSING\<rparr>"
  show ?thesis
    by (cases rule: startNativeClose_cases [of ?t]) (simp_all add: close untouched_def log_action_def)
qed (simp_all add: untouched_def)

section \<open>What dispatching does\<close>

text \<open>
  The public trace: the messages accepted and the events fired. What the caller's code does on the
  side, and the native calls this causes, are left out.
\<close>

fun on_trace :: "action \<Rightarrow> bool" where
  "on_trace (Received d) = True"
| "on_trace (Dispatched e) = True"
| "on_trace _ = False"

definition ws_trace :: "'e web_socket \<Rightarrow> action list" where
  "ws_trace s = filter on_trace (ws_log s)"

text \<open>The states the caller's code can move a socket to.\<close>

definition ready_moves :: "ready_state \<Rightarrow> ready_state \<Rightarrow> bool" where
  "ready_moves r r' \<longleftrightarrow> r' = r \<or> r \<in> {CONNECTING, OPEN} \<and> r' = CLOSING"

lemma ready_moves_trans: "ready_moves r r' \<Longrightarrow> ready_moves r' r'' \<Longrightarrow> ready_moves r r''"
  by (auto simp: ready_moves_def)

lemma ws_trace_simps [simp]:
  "ws_trace (log_action a s) = ws_trace s @ (if on_trace a then [a] else [])"
  by (simp add: ws_trace_def log_action_def)

lemma log_action_simps [simp]:
  "ws_readyState (log_action a s) = ws_readyState s" "ws_log (log_action a s) = ws_log s @ [a]"
  "ws_openEventDispatched (log_action a s) = ws_openEventDispatched s"
  "ws_closeEventDispatched (log_action a s) = ws_closeEventDispatched s"
  "ws_pendingMessages (log_action a s) = ws_pendingMessages s"
  "ws_connection (log_action a s) = ws_connection s"
  "ws_nativeCloseStarted (log_action a s) = ws_nativeCloseStarted s"
  "ws_connectState (log_action a s) = ws_connectState s"
  "ws_bufferedAmount (log_action a s) = ws_bufferedAmount s"
  "ws_sendChain (log_action a s) = ws_sendChain s"
  "ws_listeners (log_action a s) = ws_listeners s"
  "ws_listenerOrderCounter (log_action a s) = ws_listenerOrderCounter s"
  "ws_on (log_action a s) = ws_on s" "ws_onHandlerOrder (log_action a s) = ws_onHandlerOrder s"
  "ws_aborted (log_action a s) = ws_aborted s" "ws_abortHandlers (log_action a s) = ws_abortHandlers s"
  by (simp_all add: log_action_def)

lemma ready_moves_api: "ready_moves (ws_readyState s) (ws_readyState (snd (api c s)))"
proof (cases rule: api_cases [of s c])
  case listeners
  then show ?thesis by (rule listeners_onlyE) (simp add: ready_moves_def)
next
  case (close options)
  let ?t = "s\<lparr>ws_closeOptions := options, ws_readyState := CLOSING\<rparr>"
  show ?thesis
    by (cases rule: startNativeClose_cases [of ?t]) (use close in \<open>auto simp: ready_moves_def\<close>)
qed (simp_all add: ready_moves_def)

lemma trace_api: "ws_trace (snd (api c s)) = ws_trace s"
proof (cases rule: api_cases [of s c])
  case listeners
  then show ?thesis by (rule listeners_onlyE) (simp add: ws_trace_def)
next
  case (close options)
  let ?t = "s\<lparr>ws_closeOptions := options, ws_readyState := CLOSING\<rparr>"
  show ?thesis
    by (cases rule: startNativeClose_cases [of ?t]) (simp_all add: close ws_trace_def log_action_def)
qed (simp_all add: ws_trace_def)

text \<open>The caller's code keeps the trace and all private fields, and at most starts a close.\<close>

definition side_effects :: "'e web_socket \<Rightarrow> 'e web_socket \<Rightarrow> bool" where
  "side_effects s s' \<longleftrightarrow>
     untouched s s' \<and> ws_trace s' = ws_trace s \<and> ready_moves (ws_readyState s) (ws_readyState s')"

interpretation side: caller_safe "side_effects s0" for s0 :: "'e web_socket"
proof unfold_locales
  fix s :: "'e web_socket" and c
  assume "side_effects s0 s"
  then show "side_effects s0 (snd (api c s))"
    using untouched_api [of s c] trace_api [of c s] ready_moves_api [of s c]
    unfolding side_effects_def by (metis ready_moves_trans untouched_trans)
next
  fix s :: "'e web_socket" and cb e
  assume "side_effects s0 s"
  then show "side_effects s0 ((log_action (Ran cb) s)\<lparr>ws_env := e\<rparr>)"
    by (simp add: side_effects_def untouched_def log_action_def ws_trace_def)
qed

lemma side_effects_refl [simp]: "side_effects s s"
  by (simp add: side_effects_def ready_moves_def)

lemma dispatch_effects:
  "untouched s (dispatchEvent react event s)"
  "ws_trace (dispatchEvent react event s) = ws_trace s @ [Dispatched event]"
  "ready_moves (ws_readyState s) (ws_readyState (dispatchEvent react event s))"
  using side.keep_dispatch [of "log_action (Dispatched event) s" event s react]
  by (simp_all add: side_effects_def untouched_def log_action_def ws_trace_def)

lemma legacy_effects:
  "legacy react p cb s = (threw, s') \<Longrightarrow> side_effects s s'"
  using side.keep_legacy [of s s react p cb] by simp

lemma payload_dispatch:
  "untouched s (dispatchMessage react s d)"
  "ready_moves (ws_readyState s) (ws_readyState (dispatchMessage react s d))"
  by (simp_all add: dispatchMessage_def dispatch_effects)

section \<open>The events a caller sees\<close>

definition is_open :: "action \<Rightarrow> bool" where
  "is_open a \<longleftrightarrow> a = Dispatched OpenEvent"

definition is_close :: "action \<Rightarrow> bool" where
  "is_close a = (case a of Dispatched (CloseEvent c r w) \<Rightarrow> True | _ \<Rightarrow> False)"

fun payload_of :: "message_data \<Rightarrow> ws_data" where
  "payload_of (MessageText s) = TextData s"
| "payload_of (MessageBytes b bs) = BinaryData bs"

definition delivery :: "action \<Rightarrow> ws_data list" where
  "delivery a = (case a of Dispatched (MessageEvent m) \<Rightarrow> [payload_of m] | _ \<Rightarrow> [])"

definition acceptance :: "action \<Rightarrow> ws_data list" where
  "acceptance a = (case a of Received d \<Rightarrow> [d] | _ \<Rightarrow> [])"

definition delivered :: "action list \<Rightarrow> ws_data list" where
  "delivered l = concat (map delivery l)"

definition received :: "action list \<Rightarrow> ws_data list" where
  "received l = concat (map acceptance l)"

text \<open>No message event after a close event.\<close>

fun quiet_after_close :: "action list \<Rightarrow> bool" where
  "quiet_after_close [] = True"
| "quiet_after_close (a # l) = (if is_close a then delivered l = [] else quiet_after_close l)"

lemma payload_toMessageEventData [simp]: "payload_of (toMessageEventData b d) = d"
  by (simp add: toMessageEventData_def split: ws_data.split)

lemma event_simps [simp]:
  "is_open (Dispatched e) \<longleftrightarrow> e = OpenEvent" "\<not> is_open (Received d)"
  "is_close (Dispatched (CloseEvent c r w))" "\<not> is_close (Dispatched OpenEvent)"
  "\<not> is_close (Dispatched (MessageEvent m))" "\<not> is_close (Dispatched (ErrorEvent x))"
  "\<not> is_close (Received d)"
  "delivery (Dispatched (MessageEvent m)) = [payload_of m]" "delivery (Dispatched OpenEvent) = []"
  "delivery (Dispatched (CloseEvent c r w)) = []" "delivery (Dispatched (ErrorEvent x)) = []"
  "delivery (Received d) = []"
  "acceptance (Received d) = [d]" "acceptance (Dispatched e) = []"
  by (simp_all add: is_open_def is_close_def delivery_def acceptance_def)

lemma list_simps [simp]:
  "delivered [] = []" "delivered (a # l) = delivery a @ delivered l"
  "delivered (l @ l') = delivered l @ delivered l'"
  "received [] = []" "received (a # l) = acceptance a @ received l"
  "received (l @ l') = received l @ received l'"
  by (simp_all add: delivered_def received_def)

lemma quiet_snoc:
  "quiet_after_close (l @ [a]) \<longleftrightarrow>
     quiet_after_close l \<and> (delivery a = [] \<or> filter is_close l = [])"
  by (induction l) (auto simp: filter_empty_conv)

lemma dispatchMessage_trace:
  "\<exists>m. ws_trace (dispatchMessage react s d) = ws_trace s @ [Dispatched (MessageEvent m)] \<and> payload_of m = d"
  by (auto simp: dispatchMessage_def dispatch_effects)

section \<open>The invariant of the events\<close>

definition events_ok :: "'e web_socket \<Rightarrow> bool" where
  "events_ok s \<longleftrightarrow>
     length (filter is_close (ws_trace s)) \<le> of_bool (ws_closeEventDispatched s) \<and>
     length (filter is_open (ws_trace s)) = of_bool (ws_openEventDispatched s) \<and>
     quiet_after_close (ws_trace s) \<and> (ws_readyState s = CLOSED \<longrightarrow> ws_closeEventDispatched s)"

text \<open>
  While a socket is connecting or open, the messages delivered and those still pending are together
  the messages accepted, in order.
\<close>

definition order_ok :: "'e web_socket \<Rightarrow> bool" where
  "order_ok s \<longleftrightarrow>
     subseq (delivered (ws_trace s)) (received (ws_trace s)) \<and>
     (ws_readyState s \<in> {CONNECTING, OPEN} \<and> \<not> ws_closeEventDispatched s \<longrightarrow>
        delivered (ws_trace s) @ ws_pendingMessages s = received (ws_trace s)) \<and>
     (ws_openEventDispatched s \<or> ws_closeEventDispatched s \<or> ws_readyState s = CONNECTING \<longrightarrow>
        ws_pendingMessages s = [])"

definition seen_ok :: "'e web_socket \<Rightarrow> bool" where
  "seen_ok s \<longleftrightarrow> events_ok s \<and> order_ok s"

lemma seen_ok_side:
  assumes "side_effects s s'" "seen_ok s"
  shows "seen_ok s'"
proof -
  from assms(1) have eq: "ws_closeEventDispatched s' = ws_closeEventDispatched s"
    "ws_openEventDispatched s' = ws_openEventDispatched s" "ws_trace s' = ws_trace s"
    "ws_pendingMessages s' = ws_pendingMessages s"
    and r: "ready_moves (ws_readyState s) (ws_readyState s')"
    by (auto simp: side_effects_def untouched_def)
  from r have "ws_readyState s' = ws_readyState s \<or> ws_readyState s' = CLOSING"
    by (auto simp: ready_moves_def)
  with assms(2) eq show ?thesis
    by (elim disjE) (simp_all add: seen_ok_def events_ok_def order_ok_def)
qed

lemma seen_ok_error:
  assumes "seen_ok s"
  shows "seen_ok (dispatchEvent react (ErrorEvent m) s)"
proof -
  let ?s = "dispatchEvent react (ErrorEvent m) s"
  note eff = dispatch_effects [where event = "ErrorEvent m" and react = react and s = s]
  from eff(1) have eq: "ws_closeEventDispatched ?s = ws_closeEventDispatched s"
    "ws_openEventDispatched ?s = ws_openEventDispatched s"
    "ws_pendingMessages ?s = ws_pendingMessages s"
    by (auto simp: untouched_def)
  from eff(3) have "ws_readyState ?s = ws_readyState s \<or> ws_readyState ?s = CLOSING"
    by (auto simp: ready_moves_def)
  with assms eq eff(2) show ?thesis
    by (elim disjE) (simp_all add: seen_ok_def events_ok_def order_ok_def quiet_snoc)
qed

lemma handleNativeError_seen: "seen_ok s \<Longrightarrow> seen_ok (snd (handleNativeError react m s))"
proof -
  assume ok: "seen_ok s"
  obtain threw s1 where l: "legacy react has_onError (OnError m) s = (threw, s1)" by fastforce
  from legacy_effects [OF this] ok have "seen_ok s1" by (rule seen_ok_side)
  with l show ?thesis by (simp add: handleNativeError_def seen_ok_error)
qed

text \<open>Everything \<open>finalizeClosed\<close> does to a socket that has not fired its close event.\<close>

lemma finalizeClosed_effects:
  assumes "\<not> ws_closeEventDispatched s"
  shows "ws_closeEventDispatched (finalizeClosed react code reason clean s)"
    and "ws_readyState (finalizeClosed react code reason clean s) = CLOSED"
    and "ws_pendingMessages (finalizeClosed react code reason clean s) = []"
    and "ws_openEventDispatched (finalizeClosed react code reason clean s) = ws_openEventDispatched s"
    and "ws_trace (finalizeClosed react code reason clean s) = ws_trace s \<or>
         ws_trace (finalizeClosed react code reason clean s) =
           ws_trace s @ [Dispatched (CloseEvent code reason clean)]"
proof -
  let ?e = "CloseEvent code reason clean"
  let ?s1 = "s\<lparr>ws_readyState := CLOSED, ws_closeEventDispatched := True, ws_pendingMessages := [],
      ws_finalizerToken := None\<rparr>"
  obtain threw s2 where l: "legacy react has_onClose (OnClose ?e) ?s1 = (threw, s2)" by fastforce
  from legacy_effects [OF this] have s2: "ws_closeEventDispatched s2" "ws_readyState s2 = CLOSED"
    "ws_pendingMessages s2 = []" "ws_openEventDispatched s2 = ws_openEventDispatched s"
    "ws_trace s2 = ws_trace s"
    by (auto simp: side_effects_def untouched_def ready_moves_def ws_trace_def)
  have res: "finalizeClosed react code reason clean s = (if threw then s2 else dispatchEvent react ?e s2)"
    using assms l by (simp add: finalizeClosed_def)
  note eff = dispatch_effects [where event = "?e" and react = react and s = s2]
  from res s2 eff show "ws_closeEventDispatched (finalizeClosed react code reason clean s)"
    "ws_readyState (finalizeClosed react code reason clean s) = CLOSED"
    "ws_pendingMessages (finalizeClosed react code reason clean s) = []"
    "ws_openEventDispatched (finalizeClosed react code reason clean s) = ws_openEventDispatched s"
    "ws_trace (finalizeClosed react code reason clean s) = ws_trace s \<or>
     ws_trace (finalizeClosed react code reason clean s) = ws_trace s @ [Dispatched ?e]"
    by (auto simp: untouched_def ready_moves_def)
qed

lemma finalizeClosed_seen:
  assumes "seen_ok s"
  shows "seen_ok (finalizeClosed react code reason clean s)"
proof (cases "ws_closeEventDispatched s")
  case False
  from assms False have "filter is_close (ws_trace s) = []"
    by (simp add: seen_ok_def events_ok_def)
  with assms finalizeClosed_effects [OF False, of react code reason clean] show ?thesis
    by (elim disjE) (simp_all add: seen_ok_def events_ok_def order_ok_def quiet_snoc)
qed (use assms in \<open>simp add: finalizeClosed_def\<close>)

lemma fail_closed_seen: "seen_ok s \<Longrightarrow> seen_ok (fail_closed react m s)"
  using handleNativeError_seen [of s react m]
  by (auto simp: fail_closed_def intro: finalizeClosed_seen split: prod.splits)

lemma handleNativeClose_seen: "seen_ok s \<Longrightarrow> seen_ok (handleNativeClose react code reason s)"
  by (simp add: handleNativeClose_def finalizeClosed_seen)

text \<open>A message delivered at once.\<close>

lemma dispatchMessage_seen:
  assumes "\<not> ws_closeEventDispatched s" "filter is_close (ws_trace s) = []"
    and "length (filter is_open (ws_trace s)) = of_bool (ws_openEventDispatched s)"
    and "quiet_after_close (ws_trace s)" "ws_readyState s \<noteq> CLOSED"
    and "ws_openEventDispatched s \<or> ws_readyState s = CONNECTING \<longrightarrow> ws_pendingMessages s = []"
    and "ws_readyState s = OPEN \<longrightarrow> ws_openEventDispatched s"
    and "subseq (delivered (ws_trace s) @ [d]) (received (ws_trace s))"
    and "ws_readyState s \<in> {CONNECTING, OPEN} \<longrightarrow> delivered (ws_trace s) @ [d] = received (ws_trace s)"
  shows "seen_ok (dispatchMessage react s d)"
proof -
  let ?s = "dispatchMessage react s d"
  obtain m where tr: "ws_trace ?s = ws_trace s @ [Dispatched (MessageEvent m)]" "payload_of m = d"
    using dispatchMessage_trace by blast
  from payload_dispatch(1) [of s react d] have eq: "ws_closeEventDispatched ?s = ws_closeEventDispatched s"
    "ws_openEventDispatched ?s = ws_openEventDispatched s" "ws_pendingMessages ?s = ws_pendingMessages s"
    by (auto simp: untouched_def)
  from payload_dispatch(2) [of s react d]
  have "ws_readyState ?s = ws_readyState s \<or> ws_readyState ?s = CLOSING"
    by (auto simp: ready_moves_def)
  with assms eq tr show ?thesis
    by (elim disjE) (auto simp: seen_ok_def events_ok_def order_ok_def quiet_snoc)
qed

lemma handleNativeMessage_seen:
  assumes "seen_ok s"
  shows "seen_ok (handleNativeMessage react d s)"
proof (cases "ws_closeEventDispatched s")
  case False
  obtain threw s1 where l: "legacy react has_onMessage (OnMessage d) s = (threw, s1)" by fastforce
  from legacy_effects [OF this] have side: "side_effects s s1" .
  then have ok: "seen_ok s1" using assms by (rule seen_ok_side)
  have nc: "\<not> ws_closeEventDispatched s1" using side False by (simp add: side_effects_def untouched_def)
  let ?s2 = "log_action (Received d) s1"
  show ?thesis
  proof (cases threw)
    case True
    with ok l False show ?thesis by (simp add: handleNativeMessage_def)
  next
    case threw: False
    show ?thesis
    proof (cases "\<not> ws_openEventDispatched s1 \<and> ws_readyState s1 = OPEN")
      case True
      have "seen_ok (?s2\<lparr>ws_pendingMessages := ws_pendingMessages ?s2 @ [d]\<rparr>)"
        using ok nc True by (auto simp: seen_ok_def events_ok_def order_ok_def quiet_snoc ws_trace_def)
      with True threw l False show ?thesis by (simp add: handleNativeMessage_def)
    next
      case direct: False
      have "seen_ok (dispatchMessage react ?s2 d)"
        by (rule dispatchMessage_seen)
          (use ok nc direct in \<open>auto simp: seen_ok_def events_ok_def order_ok_def quiet_snoc
             intro: list_emb_append_mono\<close>)
      with direct threw l False show ?thesis by (auto simp: handleNativeMessage_def Let_def)
    qed
  qed
qed (use assms in \<open>simp add: handleNativeMessage_def\<close>)

text \<open>The pending messages, delivered in order after the open event.\<close>

lemma flush_effects:
  fixes s :: "'e web_socket" and react :: "'e reaction"
  defines "f \<equiv> foldl (dispatchMessage react)"
  shows "untouched s (f s ds)" "ready_moves (ws_readyState s) (ws_readyState (f s ds))"
    "delivered (ws_trace (f s ds)) = delivered (ws_trace s) @ ds"
    "received (ws_trace (f s ds)) = received (ws_trace s)"
    "filter is_open (ws_trace (f s ds)) = filter is_open (ws_trace s)"
    "filter is_close (ws_trace (f s ds)) = filter is_close (ws_trace s)"
proof -
  have "untouched s (f s ds) \<and> ready_moves (ws_readyState s) (ws_readyState (f s ds)) \<and>
    delivered (ws_trace (f s ds)) = delivered (ws_trace s) @ ds \<and>
    received (ws_trace (f s ds)) = received (ws_trace s) \<and>
    filter is_open (ws_trace (f s ds)) = filter is_open (ws_trace s) \<and>
    filter is_close (ws_trace (f s ds)) = filter is_close (ws_trace s)"
    unfolding f_def
  proof (induction ds arbitrary: s)
    case Nil
    then show ?case by (simp add: ready_moves_def)
  next
    case (Cons d ds)
    let ?s = "dispatchMessage react s d"
    obtain m where tr: "ws_trace ?s = ws_trace s @ [Dispatched (MessageEvent m)]" "payload_of m = d"
      using dispatchMessage_trace by blast
    from Cons.IH [of ?s] tr payload_dispatch [of s react d] show ?case
      by (auto intro: untouched_trans ready_moves_trans)
  qed
  then show "untouched s (f s ds)" "ready_moves (ws_readyState s) (ws_readyState (f s ds))"
    "delivered (ws_trace (f s ds)) = delivered (ws_trace s) @ ds"
    "received (ws_trace (f s ds)) = received (ws_trace s)"
    "filter is_open (ws_trace (f s ds)) = filter is_open (ws_trace s)"
    "filter is_close (ws_trace (f s ds)) = filter is_close (ws_trace s)"
    by auto
qed

lemma quiet_no_close: "filter is_close l = [] \<Longrightarrow> quiet_after_close l"
  by (induction l) (auto split: if_splits)

lemma dispatchOpenEvent_seen:
  assumes ok: "seen_ok s" and new: "\<not> ws_openEventDispatched s" "ws_readyState s = OPEN"
  shows "seen_ok (dispatchOpenEvent react (s\<lparr>ws_openEventDispatched := True\<rparr>))"
proof -
  let ?s0 = "s\<lparr>ws_openEventDispatched := True\<rparr>"
  let ?s1 = "dispatchEvent react OpenEvent ?s0"
  note eff = dispatch_effects [where event = OpenEvent and react = react and s = "?s0"]
  have tr: "ws_trace ?s1 = ws_trace s @ [Dispatched OpenEvent]"
    using eff(2) by (simp add: ws_trace_def)
  from eff(1) have eq: "ws_closeEventDispatched ?s1 = ws_closeEventDispatched s"
    "ws_openEventDispatched ?s1" "ws_pendingMessages ?s1 = ws_pendingMessages s"
    by (auto simp: untouched_def)
  from eff(3) new have r: "ws_readyState ?s1 \<in> {OPEN, CLOSING}" by (auto simp: ready_moves_def)
  show ?thesis
  proof (cases "\<not> ws_closeEventDispatched s \<and> ws_pendingMessages s \<noteq> []")
    case False
    then have "dispatchOpenEvent react ?s0 = ?s1" using eq by (auto simp: dispatchOpenEvent_def Let_def)
    with ok new tr eq r False show ?thesis
      by (auto simp: seen_ok_def events_ok_def order_ok_def quiet_snoc)
  next
    case True
    let ?s2 = "foldl (dispatchMessage react) (?s1\<lparr>ws_pendingMessages := []\<rparr>) (ws_pendingMessages s)"
    have res: "dispatchOpenEvent react ?s0 = ?s2"
      using True eq by (simp add: dispatchOpenEvent_def Let_def)
    note fl = flush_effects [where react = react and s = "?s1\<lparr>ws_pendingMessages := []\<rparr>"
        and ds = "ws_pendingMessages s"]
    have tr1: "ws_trace (?s1\<lparr>ws_pendingMessages := []\<rparr>) = ws_trace s @ [Dispatched OpenEvent]"
      using tr by (simp add: ws_trace_def)
    from ok True new have all: "delivered (ws_trace s) @ ws_pendingMessages s = received (ws_trace s)"
      "filter is_close (ws_trace s) = []" "filter is_open (ws_trace s) = []"
      by (auto simp: seen_ok_def events_ok_def order_ok_def)
    have "ws_closeEventDispatched ?s2 = ws_closeEventDispatched s" "ws_openEventDispatched ?s2"
      "ws_pendingMessages ?s2 = []"
      using fl(1) eq by (auto simp: untouched_def)
    moreover have "ws_readyState ?s2 \<in> {OPEN, CLOSING}"
      using fl(2) r by (auto simp: ready_moves_def)
    moreover have "delivered (ws_trace ?s2) = received (ws_trace ?s2)" "filter is_close (ws_trace ?s2) = []"
      "length (filter is_open (ws_trace ?s2)) = 1"
      using fl(3-6) tr1 all by simp_all
    ultimately show ?thesis
      unfolding res by (auto simp: seen_ok_def events_ok_def order_ok_def intro: quiet_no_close)
  qed
qed

lemma seen_ok_fields:
  "ws_trace s' = ws_trace s \<Longrightarrow> ws_readyState s' = ws_readyState s \<Longrightarrow>
   ws_closeEventDispatched s' = ws_closeEventDispatched s \<Longrightarrow>
   ws_openEventDispatched s' = ws_openEventDispatched s \<Longrightarrow>
   ws_pendingMessages s' = ws_pendingMessages s \<Longrightarrow> seen_ok s \<Longrightarrow> seen_ok s'"
  by (simp add: seen_ok_def events_ok_def order_ok_def)

lemma schedule_seen: "seen_ok s \<Longrightarrow> seen_ok (scheduleOpenEventWithDepth n s)"
  by (rule seen_ok_fields [of _ s]) (simp_all add: scheduleOpenEventWithDepth_def ws_trace_def)

lemma startNativeClose_seen: "seen_ok s \<Longrightarrow> seen_ok (startNativeClose s)"
  by (cases rule: startNativeClose_cases [of s])
    (auto intro!: seen_ok_fields [of _ s] simp: ws_trace_def log_action_def)

lemma connected_seen:
  assumes "seen_ok s" "ws_readyState s \<noteq> OPEN"
  shows "seen_ok (connected i p x s)"
proof -
  let ?s1 = "s\<lparr>ws_connection := Some i, ws_protocol := opt_default p [], ws_extensions := opt_default x [],
      ws_finalizerToken := Some i, ws_connectState := ConnectResolved\<rparr>"
  have ok: "seen_ok ?s1" by (rule seen_ok_fields [of _ s]) (simp_all add: assms ws_trace_def)
  show ?thesis
  proof (cases "ws_readyState s = CLOSING")
    case True
    with ok show ?thesis by (simp add: connected_def Let_def startNativeClose_seen)
  next
    case False
    with assms(2) have "ws_readyState s = CONNECTING \<or> ws_readyState s = CLOSED"
      by (cases "ws_readyState s") auto
    with ok have "seen_ok (?s1\<lparr>ws_readyState := OPEN\<rparr>)"
      by (auto simp: seen_ok_def events_ok_def order_ok_def ws_trace_def)
    with False show ?thesis by (simp add: connected_def Let_def schedule_seen)
  qed
qed

section \<open>The invariant of the connection\<close>

text \<open>
  An open socket has its connection; a socket that is closing and has one has started the native
  close; the addon is asked to close at most once.
\<close>

definition is_native_close :: "action \<Rightarrow> bool" where
  "is_native_close a = (case a of NativeClose i opts \<Rightarrow> True | _ \<Rightarrow> False)"

definition connection_ok :: "'e web_socket \<Rightarrow> bool" where
  "connection_ok s \<longleftrightarrow>
     length (filter is_native_close (ws_log s)) = of_bool (ws_nativeCloseStarted s) \<and>
     (ws_connectState s = ConnectResolved \<longleftrightarrow> ws_connection s \<noteq> None) \<and>
     (ws_nativeCloseStarted s \<longrightarrow> ws_connection s \<noteq> None) \<and>
     (ws_readyState s = OPEN \<longrightarrow> ws_connection s \<noteq> None) \<and>
     (ws_readyState s = CLOSING \<and> ws_connection s \<noteq> None \<longrightarrow> ws_nativeCloseStarted s)"

lemma is_native_close_simps [simp]:
  "is_native_close (NativeClose i opts)" "\<not> is_native_close (Ran cb)"
  "\<not> is_native_close (Dispatched e)" "\<not> is_native_close (Received d)" "\<not> is_native_close (NativeSend i d)"
  by (simp_all add: is_native_close_def)

interpretation connection: caller_safe connection_ok
proof unfold_locales
  fix s :: "'e web_socket" and c
  assume ok: "connection_ok s"
  show "connection_ok (snd (api c s))"
  proof (cases rule: api_cases [of s c])
    case listeners
    then show ?thesis using ok by (elim listeners_onlyE) (simp add: connection_ok_def)
  next
    case (close options)
    let ?t = "s\<lparr>ws_closeOptions := options, ws_readyState := CLOSING\<rparr>"
    show ?thesis
      by (cases rule: startNativeClose_cases [of ?t])
        (use close ok in \<open>auto simp: connection_ok_def\<close>)
  qed (use ok in \<open>simp_all add: connection_ok_def\<close>)
next
  fix s :: "'e web_socket" and cb e
  assume "connection_ok s"
  then show "connection_ok ((log_action (Ran cb) s)\<lparr>ws_env := e\<rparr>)"
    by (simp add: connection_ok_def)
qed

lemma connection_log: "\<not> is_native_close a \<Longrightarrow> connection_ok (log_action a s) = connection_ok s"
  by (simp add: connection_ok_def)

lemma connection_dispatch: "connection_ok s \<Longrightarrow> connection_ok (dispatchEvent react e s)"
  by (rule connection.keep_dispatch) (simp add: connection_log)

lemma connection_fields:
  "ws_log s' = ws_log s \<Longrightarrow> ws_readyState s' = ws_readyState s \<or> ws_readyState s' = CLOSED \<Longrightarrow>
   ws_connection s' = ws_connection s \<Longrightarrow> ws_connectState s' = ws_connectState s \<Longrightarrow>
   ws_nativeCloseStarted s' = ws_nativeCloseStarted s \<Longrightarrow> connection_ok s \<Longrightarrow> connection_ok s'"
  by (auto simp: connection_ok_def)

lemma connection_dispatchMessages:
  "connection_ok s \<Longrightarrow> connection_ok (foldl (dispatchMessage react) s ds)"
  by (induction ds arbitrary: s) (simp_all add: dispatchMessage_def connection_dispatch)

lemma connection_legacy: "connection_ok s \<Longrightarrow> legacy react p cb s = (threw, s') \<Longrightarrow> connection_ok s'"
  using connection.keep_legacy [of s react p cb] by simp

lemma connection_error: "connection_ok s \<Longrightarrow> connection_ok (snd (handleNativeError react m s))"
  by (auto simp: handleNativeError_def connection_dispatch connection_legacy split: prod.split)

lemma connection_finalize: "connection_ok s \<Longrightarrow> connection_ok (finalizeClosed react code reason clean s)"
proof -
  assume ok: "connection_ok s"
  let ?s1 = "s\<lparr>ws_readyState := CLOSED, ws_closeEventDispatched := True, ws_pendingMessages := [],
      ws_finalizerToken := None\<rparr>"
  have "connection_ok ?s1" by (rule connection_fields [of _ s]) (simp_all add: ok)
  with ok show ?thesis
    by (auto simp: finalizeClosed_def connection_dispatch connection_legacy Let_def split: prod.split)
qed

lemma connection_fail: "connection_ok s \<Longrightarrow> connection_ok (fail_closed react m s)"
  using connection_error [of s react m]
  by (auto simp: fail_closed_def connection_finalize split: prod.splits)

lemma connection_message: "connection_ok s \<Longrightarrow> connection_ok (handleNativeMessage react d s)"
proof -
  assume ok: "connection_ok s"
  obtain threw s1 where l: "legacy react has_onMessage (OnMessage d) s = (threw, s1)" by fastforce
  with ok have "connection_ok s1" by (rule connection_legacy)
  then have s2: "connection_ok (log_action (Received d) s1)" by (simp add: connection_log)
  then have "connection_ok (log_action (Received d) s1\<lparr>ws_pendingMessages := ps\<rparr>)" for ps
    by (rule connection_fields [rotated 5]) simp_all
  with \<open>connection_ok s1\<close> ok s2 l show ?thesis
    by (simp add: handleNativeMessage_def Let_def dispatchMessage_def connection_dispatch)
qed

lemma connection_open: "connection_ok s \<Longrightarrow> connection_ok (dispatchOpenEvent react s)"
proof -
  assume "connection_ok s"
  then have s1: "connection_ok (dispatchEvent react OpenEvent s)" by (rule connection_dispatch)
  then have "connection_ok (dispatchEvent react OpenEvent s\<lparr>ws_pendingMessages := []\<rparr>)"
    by (rule connection_fields [rotated 5]) simp_all
  with s1 show ?thesis by (simp add: dispatchOpenEvent_def Let_def connection_dispatchMessages)
qed

lemma connection_schedule: "connection_ok s \<Longrightarrow> connection_ok (scheduleOpenEventWithDepth n s)"
  by (rule connection_fields [of _ s]) (simp_all add: scheduleOpenEventWithDepth_def)

lemma connection_microtask: "connection_ok s \<Longrightarrow> connection_ok (open_microtask react n s)"
proof -
  assume ok: "connection_ok s"
  have "connection_ok (s\<lparr>ws_openTask := t, ws_openEventQueued := q\<rparr>)"
    "connection_ok (s\<lparr>ws_openTask := t, ws_openEventQueued := q, ws_openEventDispatched := d\<rparr>)" for t q d
    using ok by (auto intro: connection_fields [of _ s])
  moreover have "connection_ok (s\<lparr>ws_openTask := t\<rparr>)" for t
    using ok by (auto intro: connection_fields [of _ s])
  ultimately show ?thesis by (simp add: open_microtask_def Let_def connection_open)
qed

lemma connection_connected:
  assumes "connection_ok s" "ws_connectState s = ConnectPending"
  shows "connection_ok (connected i p x s)"
proof -
  let ?s1 = "s\<lparr>ws_connection := Some i, ws_protocol := opt_default p [], ws_extensions := opt_default x [],
      ws_finalizerToken := Some i, ws_connectState := ConnectResolved\<rparr>"
  show ?thesis
  proof (cases "ws_readyState s = CLOSING")
    case True
    have "connection_ok (startNativeClose ?s1)"
      by (cases rule: startNativeClose_cases [of ?s1]) (use assms in \<open>auto simp: connection_ok_def\<close>)
    with True show ?thesis by (simp add: connected_def Let_def)
  next
    case False
    have "connection_ok (?s1\<lparr>ws_readyState := OPEN\<rparr>)"
      using assms by (auto simp: connection_ok_def)
    with False show ?thesis by (simp add: connected_def Let_def connection_schedule)
  qed
qed

lemma connection_dequeue: "connection_ok s \<Longrightarrow> connection_ok (dequeue_send n s)"
  by (rule connection_fields [of _ s]) (simp_all add: dequeue_send_def)

section \<open>Reachable states\<close>

definition ws_inv :: "'e web_socket \<Rightarrow> bool" where
  "ws_inv s \<longleftrightarrow> seen_ok s \<and> connection_ok s"

lemma ws_inv_new: "ws_inv (WebSocket_new url b l mode e)"
  by (simp add: ws_inv_def seen_ok_def events_ok_def order_ok_def connection_ok_def WebSocket_new_def
      ws_trace_def)

lemma api_seen: "seen_ok s \<Longrightarrow> seen_ok (snd (api c s))"
  by (rule seen_ok_side) (simp_all add: side.keep_api)

lemma microtask_seen: "seen_ok s \<Longrightarrow> seen_ok (open_microtask react n s)"
proof -
  assume ok: "seen_ok s"
  have "seen_ok (s\<lparr>ws_openTask := t, ws_openEventQueued := q\<rparr>)" "seen_ok (s\<lparr>ws_openTask := t\<rparr>)" for t q
    using ok by (auto intro: seen_ok_fields [of _ s] simp: ws_trace_def)
  then show ?thesis
    using dispatchOpenEvent_seen [of "s\<lparr>ws_openTask := None, ws_openEventQueued := False\<rparr>" react]
    by (simp add: open_microtask_def Let_def)
qed

lemma dequeue_seen: "seen_ok s \<Longrightarrow> seen_ok (dequeue_send n s)"
  by (rule seen_ok_fields [of _ s]) (simp_all add: dequeue_send_def ws_trace_def)

lemma ws_inv_step:
  assumes "ws_step react s s'" "ws_inv s"
  shows "ws_inv s'"
  using assms
proof (induction rule: ws_step.induct)
  case (step_call s c)
  then show ?case by (simp add: ws_inv_def api_seen connection.keep_api)
next
  case (step_connected s i p x)
  then have "ws_readyState s \<noteq> OPEN" by (auto simp: ws_inv_def connection_ok_def)
  with step_connected show ?case by (simp add: ws_inv_def connected_seen connection_connected)
next
  case (step_connect_failed s m)
  let ?s = "s\<lparr>ws_connectState := ConnectRejected\<rparr>"
  have "seen_ok ?s" using step_connect_failed.prems
    by (auto intro: seen_ok_fields [of _ s] simp: ws_trace_def ws_inv_def)
  moreover have "connection_ok ?s" using step_connect_failed by (auto simp: ws_inv_def connection_ok_def)
  ultimately show ?case by (simp add: ws_inv_def connect_failed_def fail_closed_seen connection_fail)
next
  case (step_awaited s)
  let ?s = "s\<lparr>ws_awaited := True\<rparr>"
  have "seen_ok ?s" "connection_ok ?s" using step_awaited.prems
    by (auto intro: seen_ok_fields [of _ s] connection_fields [of _ s] simp: ws_trace_def ws_inv_def)
  then show ?case by (simp add: ws_inv_def connect_awaited_def schedule_seen connection_schedule)
next
  case (step_microtask s n)
  then show ?case by (simp add: ws_inv_def microtask_seen connection_microtask)
next
  case (step_message s data)
  then show ?case by (simp add: ws_inv_def handleNativeMessage_seen connection_message)
next
  case (step_error s m)
  then show ?case by (simp add: ws_inv_def handleNativeError_seen connection_error)
next
  case (step_close s code reason)
  then show ?case by (simp add: ws_inv_def handleNativeClose_def finalizeClosed_seen connection_finalize)
next
  case (step_close_done s)
  then show ?case
    by (auto intro: seen_ok_fields [of _ s] connection_fields [of _ s] simp: ws_trace_def ws_inv_def)
next
  case (step_close_failed s m)
  let ?s = "s\<lparr>ws_closeSettled := True\<rparr>"
  have "seen_ok ?s" "connection_ok ?s" using step_close_failed.prems
    by (auto intro: seen_ok_fields [of _ s] connection_fields [of _ s] simp: ws_trace_def ws_inv_def)
  then show ?case by (simp add: ws_inv_def fail_closed_seen connection_fail)
next
  case (step_send_done s i data n rest payload)
  have "seen_ok (log_action (NativeSend i payload) s)"
    using step_send_done.prems by (auto intro: seen_ok_fields [of _ s] simp: ws_inv_def)
  with step_send_done.prems show ?case
    by (simp add: ws_inv_def send_done_def dequeue_seen connection_dequeue connection_log)
next
  case (step_send_failed s i data n rest m)
  then show ?case
    by (simp add: ws_inv_def send_failed_def dequeue_seen connection_dequeue fail_closed_seen connection_fail)
qed

lemma ws_inv_steps:
  assumes "(ws_step react)\<^sup>*\<^sup>* s t" "ws_inv s"
  shows "ws_inv t"
  using assms
proof (induction rule: rtranclp_induct)
  case (step y z)
  then have "ws_inv y" by simp
  with step.hyps(2) show ?case by (rule ws_inv_step)
qed

lemma ws_reachable_inv:
  assumes "ws_reachable react s"
  shows "ws_inv s"
proof -
  from assms obtain url b l mode e where "(ws_step react)\<^sup>*\<^sup>* (WebSocket_new url b l mode e) s"
    by (auto simp: ws_reachable_def)
  then show ?thesis by (rule ws_inv_steps) (rule ws_inv_new)
qed

lemma ws_reachable_step: "ws_reachable react s \<Longrightarrow> ws_step react s s' \<Longrightarrow> ws_reachable react s'"
  unfolding ws_reachable_def by (blast intro: rtranclp.rtrancl_into_rtrancl)

lemma ws_reachable_new: "ws_reachable react (WebSocket_new url b l mode e)"
  unfolding ws_reachable_def by (blast intro: rtranclp.rtrancl_refl)

end
