(* ===== verification/WebSocketListeners.thy ===== *)
theory WebSocketListeners
  imports WebSocketInvariants "HOL-Library.Multiset"
begin

text \<open>
  The parts of a \<open>WebSocket\<close> that only its public methods manage: the queue of sends with its byte
  count, the listeners with their order, the abort signals. The locale \<open>managed_safe\<close> carries a
  predicate on them through every handler (\<open>outer_safe\<close> one on the requests to the addon besides); its
  interpretations are the byte count, the listener order and the abort signals. The properties of the component are stated at the end.
\<close>

section \<open>Predicates on the managed fields\<close>

definition managed :: "'e web_socket \<Rightarrow> _" where
  "managed s = (ws_bufferedAmount s, ws_sendChain s, ws_listeners s, ws_on s, ws_onHandlerOrder s,
     ws_listenerOrderCounter s, ws_aborted s, ws_abortHandlers s)"

text \<open>
  Beyond these, what a socket has asked of the addon: no handler of the addon's callbacks and no
  microtask changes it, except through the caller's code.
\<close>

fun asks_addon :: "action \<Rightarrow> bool" where
  "asks_addon (NativeClose i options) = True"
| "asks_addon (NativeSend i d) = True"
| "asks_addon a = False"

definition outer :: "'e web_socket \<Rightarrow> _" where
  "outer s = (managed s, ws_connection s, ws_closeOptions s, ws_nativeCloseStarted s, filter asks_addon (ws_log s))"

locale outer_safe = caller_safe +
  assumes keep_outer: "outer s' = outer s \<Longrightarrow> P s \<Longrightarrow> P s'"
begin

lemma keep_quiet_log: "\<not> asks_addon a \<Longrightarrow> P s \<Longrightarrow> P (log_action a s)"
  by (rule keep_outer [of _ s]) (simp_all add: outer_def managed_def log_action_def)

lemma keep_event: "P s \<Longrightarrow> P (dispatchEvent react e s)"
  by (simp add: keep_dispatch keep_quiet_log)

lemma keep_legacy_run: "P s \<Longrightarrow> legacy react p cb s = (threw, s') \<Longrightarrow> P s'"
  using keep_legacy [of s react p cb] by simp

lemma keep_error: "P s \<Longrightarrow> P (snd (handleNativeError react m s))"
  by (auto simp: handleNativeError_def keep_event keep_legacy_run split: prod.split)

lemma keep_finalize: "P s \<Longrightarrow> P (finalizeClosed react code reason clean s)"
proof -
  assume P: "P s"
  then have "P (s\<lparr>ws_readyState := CLOSED, ws_closeEventDispatched := True, ws_pendingMessages := [],
      ws_finalizerToken := None\<rparr>)"
    by (rule keep_outer [rotated]) (simp add: outer_def managed_def)
  with P show ?thesis
    by (auto simp: finalizeClosed_def keep_event keep_legacy_run Let_def split: prod.split)
qed

lemma keep_fail: "P s \<Longrightarrow> P (fail_closed react m s)"
  using keep_error [of s react m] by (auto simp: fail_closed_def keep_finalize split: prod.splits)

lemma keep_messages: "P s \<Longrightarrow> P (foldl (dispatchMessage react) s ds)"
  by (induction ds arbitrary: s) (simp_all add: dispatchMessage_def keep_event)

lemma keep_message: "P s \<Longrightarrow> P (handleNativeMessage react d s)"
proof -
  assume P: "P s"
  obtain threw s1 where l: "legacy react has_onMessage (OnMessage d) s = (threw, s1)" by fastforce
  with P have s1: "P s1" by (rule keep_legacy_run)
  then have s2: "P (log_action (Received d) s1)" by (simp add: keep_quiet_log)
  then have "P (log_action (Received d) s1\<lparr>ws_pendingMessages := ps\<rparr>)" for ps
    by (rule keep_outer [rotated]) (simp add: outer_def managed_def)
  with s1 s2 P l show ?thesis
    by (simp add: handleNativeMessage_def Let_def dispatchMessage_def keep_event)
qed

lemma keep_open: "P s \<Longrightarrow> P (dispatchOpenEvent react s)"
proof -
  assume "P s"
  then have s1: "P (dispatchEvent react OpenEvent s)" by (rule keep_event)
  then have "P (dispatchEvent react OpenEvent s\<lparr>ws_pendingMessages := []\<rparr>)"
    by (rule keep_outer [rotated]) (simp add: outer_def managed_def)
  with s1 show ?thesis by (simp add: dispatchOpenEvent_def Let_def keep_messages)
qed

lemma keep_schedule: "P s \<Longrightarrow> P (scheduleOpenEventWithDepth n s)"
  by (rule keep_outer [of _ s]) (simp_all add: scheduleOpenEventWithDepth_def outer_def managed_def)

lemma keep_microtask: "P s \<Longrightarrow> P (open_microtask react n s)"
proof -
  assume P: "P s"
  have "P (s\<lparr>ws_openTask := None, ws_openEventQueued := False\<rparr>)" "P (s\<lparr>ws_openTask := Some n\<rparr>)"
    "P (s\<lparr>ws_openTask := None, ws_openEventQueued := False, ws_openEventDispatched := True\<rparr>)"
    by (rule keep_outer [of _ s], simp_all add: outer_def managed_def P)+
  then show ?thesis by (simp add: open_microtask_def Let_def keep_open)
qed

text \<open>Every step but a settled connection and the end of a send.\<close>

lemma keep_outer_step:
  assumes "ws_step react s s'" "P s"
    and connected: "\<And>i p x. ws_connectState s = ConnectPending \<Longrightarrow> P (connected i p x s)"
    and sent: "\<And>i data n rest payload. ws_sendChain s = (i, data, n) # rest \<Longrightarrow>
           P (send_done i payload n s)"
    and failed: "\<And>i data n rest m. ws_sendChain s = (i, data, n) # rest \<Longrightarrow> P (send_failed react m n s)"
  shows "P s'"
  using assms(1)
proof (cases rule: ws_step.cases)
  case (step_connect_failed m)
  have "P (s\<lparr>ws_connectState := ConnectRejected\<rparr>)"
    by (rule keep_outer [of _ s]) (simp_all add: outer_def managed_def assms(2))
  with step_connect_failed show ?thesis by (simp add: connect_failed_def keep_fail)
next
  case step_awaited
  have "P (s\<lparr>ws_awaited := True\<rparr>)"
    by (rule keep_outer [of _ s]) (simp_all add: outer_def managed_def assms(2))
  with step_awaited show ?thesis by (simp add: connect_awaited_def keep_schedule)
next
  case step_close_done
  then show ?thesis by (intro keep_outer [of s' s]) (simp_all add: outer_def managed_def assms(2))
next
  case (step_close_failed m)
  have "P (s\<lparr>ws_closeSettled := True\<rparr>)"
    by (rule keep_outer [of _ s]) (simp_all add: outer_def managed_def assms(2))
  with step_close_failed show ?thesis by (simp add: keep_fail)
qed (use assms(2) connected sent failed in \<open>simp_all add: keep_api keep_microtask keep_message
       keep_error handleNativeClose_def keep_finalize\<close>)

end

text \<open>Predicates on the managed fields alone survive a settled connection too.\<close>

locale managed_safe = caller_safe +
  assumes keep_managed: "managed s' = managed s \<Longrightarrow> P s \<Longrightarrow> P s'"

sublocale managed_safe \<subseteq> outer_safe
  by unfold_locales (rule keep_managed, simp_all add: outer_def)

context managed_safe
begin

lemma keep_log: "P s \<Longrightarrow> P (log_action a s)"
  by (rule keep_managed [of _ s]) (simp_all add: managed_def)

lemma keep_start: "P s \<Longrightarrow> P (startNativeClose s)"
  by (cases rule: startNativeClose_cases [of s])
    (auto intro!: keep_managed [of _ s] simp: managed_def log_action_def)

lemma keep_connected: "P s \<Longrightarrow> P (connected i p x s)"
proof -
  assume P: "P s"
  let ?s1 = "s\<lparr>ws_connection := Some i, ws_protocol := opt_default p [], ws_extensions := opt_default x [],
      ws_finalizerToken := Some i, ws_connectState := ConnectResolved\<rparr>"
  have "P ?s1" "P (?s1\<lparr>ws_readyState := OPEN\<rparr>)"
    by (rule keep_managed [of _ s], simp_all add: managed_def P)+
  then show ?thesis by (simp add: connected_def Let_def keep_start keep_schedule)
qed

text \<open>Every step but the end of a send.\<close>

lemma keep_step:
  assumes "ws_step react s s'" "P s"
    and "\<And>i data n rest payload. ws_sendChain s = (i, data, n) # rest \<Longrightarrow> P (send_done i payload n s)"
    and "\<And>i data n rest m. ws_sendChain s = (i, data, n) # rest \<Longrightarrow> P (send_failed react m n s)"
  shows "P s'"
  by (rule keep_outer_step [OF assms(1,2) keep_connected [OF assms(2)] assms(3,4)])

end

section \<open>The queue of sends\<close>

text \<open>\<open>bufferedAmount\<close> is the size of what is queued, every piece with a payload of that size.\<close>

definition payload_size :: "ws_data \<Rightarrow> nat" where
  "payload_size d = (case d of TextData s \<Rightarrow> utf8_length s | BinaryData bs \<Rightarrow> length bs)"

definition queued_bytes :: "(nat \<times> send_data \<times> nat) list \<Rightarrow> nat" where
  "queued_bytes chain = sum_list (map (\<lambda>(i, d, n). n) chain)"

definition sends_ok :: "'e web_socket \<Rightarrow> bool" where
  "sends_ok s \<longleftrightarrow> ws_bufferedAmount s = int (queued_bytes (ws_sendChain s)) \<and>
     (\<forall>(i, d, n) \<in> set (ws_sendChain s). \<exists>p. normalizeSendPayload d = Inr p \<and> payload_size p = n)"

lemma getSendByteLength_payload:
  "getSendByteLength d = Inr n \<longleftrightarrow> (\<exists>p. normalizeSendPayload d = Inr p \<and> payload_size p = n)"
  by (auto simp: getSendByteLength_def normalizeSendPayload_def payload_size_def split: send_data.splits)

interpretation sends: managed_safe sends_ok
proof unfold_locales
  fix s :: "'e web_socket" and c
  assume ok: "sends_ok s"
  show "sends_ok (snd (api c s))"
  proof (cases rule: api_cases [of s c])
    case listeners
    then show ?thesis using ok by (elim listeners_onlyE) (simp add: sends_ok_def)
  next
    case (send i data n)
    then show ?thesis
      using ok by (auto simp: sends_ok_def queued_bytes_def getSendByteLength_payload)
  next
    case (close options)
    let ?t = "s\<lparr>ws_closeOptions := options, ws_readyState := CLOSING\<rparr>"
    show ?thesis
      by (cases rule: startNativeClose_cases [of ?t]) (use close ok in \<open>simp_all add: sends_ok_def\<close>)
  qed (use ok in \<open>simp_all add: sends_ok_def\<close>)
next
  fix s :: "'e web_socket" and cb e
  assume "sends_ok s"
  then show "sends_ok ((log_action (Ran cb) s)\<lparr>ws_env := e\<rparr>)" by (simp add: sends_ok_def)
next
  fix s s' :: "'e web_socket"
  assume "managed s' = managed s" "sends_ok s"
  then show "sends_ok s'" by (simp add: sends_ok_def managed_def)
qed

text \<open>The caller's code only ever appends to the queue.\<close>

definition queue_grows :: "(nat \<times> send_data \<times> nat) list \<Rightarrow> 'e web_socket \<Rightarrow> bool" where
  "queue_grows chain s \<longleftrightarrow> (\<exists>more. ws_sendChain s = chain @ more)"

interpretation queue: managed_safe "queue_grows chain" for chain
proof unfold_locales
  fix s :: "'e web_socket" and c
  assume ok: "queue_grows chain s"
  show "queue_grows chain (snd (api c s))"
  proof (cases rule: api_cases [of s c])
    case listeners
    then show ?thesis using ok by (elim listeners_onlyE) (simp add: queue_grows_def)
  next
    case (close options)
    let ?t = "s\<lparr>ws_closeOptions := options, ws_readyState := CLOSING\<rparr>"
    show ?thesis
      by (cases rule: startNativeClose_cases [of ?t]) (use close ok in \<open>simp_all add: queue_grows_def\<close>)
  qed (use ok in \<open>auto simp: queue_grows_def\<close>)
next
  fix s :: "'e web_socket" and cb e
  assume "queue_grows chain s"
  then show "queue_grows chain ((log_action (Ran cb) s)\<lparr>ws_env := e\<rparr>)" by (simp add: queue_grows_def)
next
  fix s s' :: "'e web_socket"
  assume "managed s' = managed s" "queue_grows chain s"
  then show "queue_grows chain s'" by (simp add: queue_grows_def managed_def)
qed

lemma sends_ok_dequeue:
  assumes "sends_ok s" "ws_sendChain s = (i, d, n) # rest"
  shows "sends_ok (dequeue_send n s)"
  using assms by (simp add: sends_ok_def dequeue_send_def queued_bytes_def)

lemma fail_closed_head:
  assumes "ws_sendChain s = x # rest"
  shows "\<exists>rest'. ws_sendChain (fail_closed react m s) = x # rest'"
  using queue.keep_fail [of "[x]" s react m] assms by (auto simp: queue_grows_def)

lemma sends_ok_step:
  assumes "ws_step react s s'" "sends_ok s"
  shows "sends_ok s'"
  using assms
proof (rule sends.keep_step)
  fix i data n rest payload
  assume c: "ws_sendChain s = (i, data, n) # rest"
  have "sends_ok (log_action (NativeSend i payload) s)" using assms(2) by (rule sends.keep_log)
  then show "sends_ok (send_done i payload n s)"
    unfolding send_done_def by (rule sends_ok_dequeue) (simp add: c)
next
  fix i data n rest m
  assume "ws_sendChain s = (i, data, n) # rest"
  then obtain rest' where "ws_sendChain (fail_closed react m s) = (i, data, n) # rest'"
    using fail_closed_head by blast
  with sends.keep_fail [OF assms(2)] show "sends_ok (send_failed react m n s)"
    unfolding send_failed_def by (rule sends_ok_dequeue)
qed

section \<open>The order of listeners\<close>

definition orders_of ::
  "(nat, WebSocketListenerDescriptor) omap \<Rightarrow> nat option \<Rightarrow> int \<Rightarrow> int list" where
  "orders_of ls onHandler order =
     map (\<lambda>(l, d). desc_order d) ls @ (case onHandler of None \<Rightarrow> [] | Some h \<Rightarrow> [order])"

definition listener_orders :: "event_type \<Rightarrow> 'e web_socket \<Rightarrow> int list" where
  "listener_orders t s = orders_of (ws_listeners s t) (ws_on s t) (ws_onHandlerOrder s t)"

lemma orders_of_simps:
  "orders_of ls None x = map (\<lambda>(l, d). desc_order d) ls"
  "orders_of ls (Some h) x = map (\<lambda>(l, d). desc_order d) ls @ [x]"
  by (simp_all add: orders_of_def)

lemma orders_of_delete_set: "set (orders_of (om_delete ls l) h x) \<subseteq> set (orders_of ls h x)"
  using set_om_delete [of ls l] by (cases h) (simp_all only: orders_of_simps set_append set_map, blast+)

lemma orders_of_delete:
  assumes "distinct (orders_of ls h x)"
  shows "distinct (orders_of (om_delete ls l) h x)"
proof -
  have "distinct (map (\<lambda>(l, d). desc_order d) ls)"
    using assms by (cases h) (simp_all add: orders_of_simps)
  then have d: "distinct (map (\<lambda>(l, d). desc_order d) (om_delete ls l))"
    unfolding om_delete_def by (rule distinct_map_filter)
  show ?thesis
  proof (cases h)
    case None
    with d show ?thesis by (simp add: orders_of_simps)
  next
    case (Some y)
    with assms have "x \<notin> (\<lambda>(l, d). desc_order d) ` set ls" by (simp add: orders_of_simps)
    with set_om_delete [of ls l] have "x \<notin> (\<lambda>(l, d). desc_order d) ` set (om_delete ls l)" by blast
    with d Some show ?thesis by (simp add: orders_of_simps)
  qed
qed

lemma orders_of_None: "distinct (orders_of ls h x) \<Longrightarrow> distinct (orders_of ls None y)"
  by (cases h) (simp_all add: orders_of_simps)

lemma orders_of_None_set: "set (orders_of ls None y) \<subseteq> set (orders_of ls h x)"
  by (cases h) (simp_all add: orders_of_simps subset_insertI)

lemma orders_of_snoc:
  "mset (orders_of (ls @ [(l, d)]) h x) = add_mset (desc_order d) (mset (orders_of ls h x))"
  by (simp add: orders_of_def)

lemma orders_of_handler:
  assumes "distinct (orders_of ls h x)" "c \<notin> set (orders_of ls h x)"
  shows "distinct (orders_of ls (Some l) c)"
  using assms by (cases h) (simp_all add: orders_of_simps)

lemma orders_of_handler_set:
  "set (orders_of ls (Some l) c) \<subseteq> insert c (set (orders_of ls h x))"
  by (cases h) (simp_all add: orders_of_simps, blast+)

text \<open>Per event type every listener is there once and every order number is its own.\<close>

definition orders_ok :: "'e web_socket \<Rightarrow> bool" where
  "orders_ok s \<longleftrightarrow>
     (\<forall>t. om_ok (ws_listeners s t) \<and> distinct (listener_orders t s) \<and>
          (\<forall>x \<in> set (listener_orders t s). x \<le> ws_listenerOrderCounter s))"

lemma orders_ok_remove:
  assumes "orders_ok s"
  shows "orders_ok (remove_listener t l s)"
proof (cases "om_get (ws_listeners s t) l")
  case (Some d)
  let ?s = "remove_listener t l s"
  have ls: "ws_listeners ?s = (ws_listeners s)(t := om_delete (ws_listeners s t) l)"
    and rest: "ws_on ?s = ws_on s" "ws_onHandlerOrder ?s = ws_onHandlerOrder s"
      "ws_listenerOrderCounter ?s = ws_listenerOrderCounter s"
    using Some by (simp_all add: remove_listener_def)
  have sub: "set (listener_orders u ?s) \<subseteq> set (listener_orders u s)" for u
    using orders_of_delete_set by (auto simp: listener_orders_def ls rest)
  have "distinct (listener_orders u ?s)" for u
    using assms by (simp add: orders_ok_def listener_orders_def ls rest orders_of_delete)
  moreover have "om_ok (ws_listeners ?s u)" for u
    using assms by (simp add: ls orders_ok_def om.ok_remove)
  moreover have "\<forall>x \<in> set (listener_orders u ?s). x \<le> ws_listenerOrderCounter ?s" for u
    using assms sub by (fastforce simp: orders_ok_def rest)
  ultimately show ?thesis by (simp add: orders_ok_def)
qed (use assms in \<open>simp add: remove_listener_def\<close>)

lemma orders_ok_managed: "managed s' = managed s \<Longrightarrow> orders_ok s \<Longrightarrow> orders_ok s'"
  by (simp add: orders_ok_def listener_orders_def managed_def)

lemma orders_ok_add:
  assumes "orders_ok s"
  shows "orders_ok (addEventListener type listener once signal s)"
proof (cases "addEventListener type listener once signal s = s")
  case False
  then obtain l t where lt: "listener = Some l" "listener_type type = Some t"
    "\<not> om_has (ws_listeners s t) l"
    by (auto simp: addEventListener_def split: option.splits if_splits)
  let ?s = "addEventListener type listener once signal s"
  let ?c = "ws_listenerOrderCounter s + 1"
  let ?d = "\<lparr>desc_order = ?c, desc_once = once, desc_signal = signal\<rparr>"
  have eq: "ws_listeners ?s = (ws_listeners s)(t := ws_listeners s t @ [(l, ?d)])"
    "ws_on ?s = ws_on s" "ws_onHandlerOrder ?s = ws_onHandlerOrder s" "ws_listenerOrderCounter ?s = ?c"
    using lt False
    by (auto simp: addEventListener_def Let_def om_has_def om_get_None_iff om_set_fresh
        split: option.splits if_splits)
  have "om_ok (ws_listeners ?s u)" for u
    unfolding eq using assms lt(3) by (simp add: orders_ok_def om_ok_def om_keys_def om_has_def om_get_None_iff)
  moreover have "distinct (listener_orders u ?s) \<and> (\<forall>x \<in> set (listener_orders u ?s). x \<le> ?c)" for u
  proof -
    from assms have u: "distinct (listener_orders u s)"
      "\<And>x. x \<in> set (listener_orders u s) \<Longrightarrow> x \<le> ws_listenerOrderCounter s"
      by (auto simp: orders_ok_def)
    then have c: "?c \<notin> set (listener_orders u s)" by fastforce
    have m: "mset (listener_orders u ?s) = mset (listener_orders u s @ (if u = t then [?c] else []))"
      by (simp add: listener_orders_def eq orders_of_snoc)
    from mset_eq_imp_distinct_iff [OF m] have d: "distinct (listener_orders u ?s)"
      using u(1) c by (auto split: if_splits)
    from mset_eq_setD [OF m] have "set (listener_orders u ?s) \<subseteq> insert ?c (set (listener_orders u s))"
      by auto
    with u(2) have "x \<le> ?c" if "x \<in> set (listener_orders u ?s)" for x
      using that by fastforce
    with d show ?thesis by blast
  qed
  ultimately show ?thesis by (simp add: orders_ok_def eq)
qed (use assms in simp)

lemma orders_ok_handler:
  assumes "orders_ok s"
  shows "orders_ok (set_handler t h s)"
proof -
  let ?s = "set_handler t h s"
  have ls: "ws_listeners ?s = ws_listeners s" by (simp add: set_handler_def split: option.split)
  have c: "ws_listenerOrderCounter s \<le> ws_listenerOrderCounter ?s"
    by (simp add: set_handler_def split: option.split)
  have "distinct (listener_orders u ?s) \<and>
      (\<forall>x \<in> set (listener_orders u ?s). x \<le> ws_listenerOrderCounter ?s)" for u
  proof -
    from assms have u: "distinct (listener_orders u s)"
      "\<And>x. x \<in> set (listener_orders u s) \<Longrightarrow> x \<le> ws_listenerOrderCounter s"
      by (auto simp: orders_ok_def)
    show ?thesis
    proof (cases "u = t")
      case True
      have new: "ws_listenerOrderCounter s + 1 \<notin> set (listener_orders u s)"
        using u(2) by fastforce
      show ?thesis
      proof (cases h)
        case None
        with True have "listener_orders u ?s = orders_of (ws_listeners s u) None (-1)"
          by (simp add: listener_orders_def set_handler_def)
        moreover have "distinct (orders_of (ws_listeners s u) None (-1))"
          using u(1) unfolding listener_orders_def by (rule orders_of_None)
        moreover have "set (orders_of (ws_listeners s u) None (-1)) \<subseteq> set (listener_orders u s)"
          unfolding listener_orders_def by (rule orders_of_None_set)
        ultimately show ?thesis using u(2) c by fastforce
      next
        case (Some l)
        with True have eq: "listener_orders u ?s =
            orders_of (ws_listeners s u) (Some l) (ws_listenerOrderCounter s + 1)"
          "ws_listenerOrderCounter ?s = ws_listenerOrderCounter s + 1"
          by (simp_all add: listener_orders_def set_handler_def)
        have "set (listener_orders u ?s) \<subseteq> insert (ws_listenerOrderCounter s + 1) (set (listener_orders u s))"
          unfolding eq(1) unfolding listener_orders_def by (rule orders_of_handler_set)
        moreover have "distinct (listener_orders u ?s)"
          unfolding eq(1) using u(1) new unfolding listener_orders_def by (rule orders_of_handler)
        ultimately show ?thesis using u(2) unfolding eq(2) by fastforce
      qed
    next
      case False
      then have "listener_orders u ?s = listener_orders u s"
        by (simp add: listener_orders_def set_handler_def split: option.split)
      with u c show ?thesis by fastforce
    qed
  qed
  with assms show ?thesis by (simp add: orders_ok_def ls)
qed

lemma orders_ok_abort:
  fixes s :: "'e web_socket"
  assumes "orders_ok s"
  shows "orders_ok (abort_signal k s)"
proof -
  have "orders_ok (foldl (\<lambda>s (k, t, l). remove_listener t l s) s' hs)" if "orders_ok s'"
    for s' :: "'e web_socket" and hs :: "(nat \<times> event_type \<times> nat) list"
    using that by (induction hs arbitrary: s') (auto simp: orders_ok_remove)
  moreover have "orders_ok (s\<lparr>ws_aborted := a, ws_abortHandlers := h\<rparr>)" for a h
    using assms by (simp add: orders_ok_def listener_orders_def)
  ultimately show ?thesis using assms by (simp add: abort_signal_def)
qed

interpretation orders: managed_safe orders_ok
proof unfold_locales
  fix s :: "'e web_socket" and c
  assume ok: "orders_ok s"
  show "orders_ok (snd (api c s))"
  proof (cases c)
    case (CallSend data)
    have "ws_listeners (snd (ws_send data s)) = ws_listeners s" "ws_on (snd (ws_send data s)) = ws_on s"
      "ws_onHandlerOrder (snd (ws_send data s)) = ws_onHandlerOrder s"
      "ws_listenerOrderCounter (snd (ws_send data s)) = ws_listenerOrderCounter s"
      by (simp_all add: ws_send_def split: option.split sum.split)
    with ok CallSend show ?thesis by (simp add: api_def orders_ok_def listener_orders_def)
  next
    case (CallClose code reason)
    have "managed (startNativeClose t) = managed t" for t :: "'e web_socket"
      by (simp add: managed_def startNativeClose_def split: option.split)
    then have "managed (snd (ws_close code reason s)) = managed s"
      by (simp add: ws_close_def managed_def split: sum.split)
    with ok CallClose show ?thesis by (auto simp: api_def intro: orders_ok_managed)
  next
    case (CallBinaryType v)
    have "managed (set_binaryType v s) = managed s"
      by (simp add: managed_def set_binaryType_def split: option.split)
    with ok CallBinaryType show ?thesis by (auto simp: api_def intro: orders_ok_managed)
  qed (use ok in \<open>auto simp: api_def orders_ok_add orders_ok_handler orders_ok_abort
         removeEventListener_def orders_ok_remove split: option.split\<close>)
next
  fix s :: "'e web_socket" and cb e
  assume "orders_ok s"
  then show "orders_ok ((log_action (Ran cb) s)\<lparr>ws_env := e\<rparr>)"
    by (rule orders_ok_managed [rotated]) (simp add: managed_def)
qed (rule orders_ok_managed)

lemma orders_ok_dequeue: "orders_ok s \<Longrightarrow> orders_ok (dequeue_send n s)"
  by (simp add: orders_ok_def listener_orders_def dequeue_send_def)

lemma orders_ok_step: "ws_step react s s' \<Longrightarrow> orders_ok s \<Longrightarrow> orders_ok s'"
  by (erule orders.keep_step)
    (simp_all add: send_done_def send_failed_def orders_ok_dequeue orders.keep_fail orders.keep_log)

section \<open>Abort signals\<close>

text \<open>
  The handlers on the abort signals are those of the registered listeners, each there once, and no
  listener is registered with a signal that has fired. \<open>H\<close>: handlers a firing signal has yet to run.
\<close>

definition signal_of :: "'e web_socket \<Rightarrow> event_type \<Rightarrow> nat \<Rightarrow> nat option" where
  "signal_of s t l = (case om_get (ws_listeners s t) l of None \<Rightarrow> None | Some d \<Rightarrow> desc_signal d)"

definition aborts_with :: "(nat \<times> event_type \<times> nat) list \<Rightarrow> 'e web_socket \<Rightarrow> bool" where
  "aborts_with H s \<longleftrightarrow> distinct (ws_abortHandlers s @ H) \<and>
     (\<forall>k t l. (k, t, l) \<in> set (ws_abortHandlers s @ H) \<longleftrightarrow> signal_of s t l = Some k)"

definition aborts_ok :: "'e web_socket \<Rightarrow> bool" where
  "aborts_ok s \<longleftrightarrow> aborts_with [] s \<and>
     (\<forall>t l k. signal_of s t l = Some k \<longrightarrow> k \<notin> set (ws_aborted s))"

lemma aborts_with_iff:
  "aborts_with H s \<Longrightarrow> signal_of s t l = Some k \<longleftrightarrow> (k, t, l) \<in> set (ws_abortHandlers s) \<or> (k, t, l) \<in> set H"
  by (simp add: aborts_with_def)

lemma aborts_with_distinct:
  "aborts_with (h # H) s \<Longrightarrow> h \<notin> set (ws_abortHandlers s) \<and> h \<notin> set H \<and> distinct (ws_abortHandlers s @ H)"
  by (auto simp: aborts_with_def)

lemma signal_of_remove:
  "signal_of (remove_listener t l s) u m = (if u = t \<and> m = l then None else signal_of s u m)"
  by (auto simp: signal_of_def remove_listener_def om_get_delete split: option.splits)

lemma handlers_remove:
  "ws_abortHandlers (remove_listener t l s) =
     (case signal_of s t l of None \<Rightarrow> ws_abortHandlers s
      | Some k \<Rightarrow> filter (\<lambda>h. h \<noteq> (k, t, l)) (ws_abortHandlers s))"
  by (simp add: remove_listener_def signal_of_def split: option.split)

lemma aborted_remove [simp]: "ws_aborted (remove_listener t l s) = ws_aborted s"
  by (simp add: remove_listener_def split: option.split)

lemma aborts_with_remove:
  assumes "aborts_with [] s"
  shows "aborts_with [] (remove_listener t l s)"
proof (cases "signal_of s t l")
  case None
  then have "signal_of (remove_listener t l s) u m = signal_of s u m" for u m
    by (simp add: signal_of_remove)
  with assms None show ?thesis by (simp add: aborts_with_def handlers_remove)
next
  case (Some k)
  with assms show ?thesis by (auto simp: aborts_with_def handlers_remove signal_of_remove)
qed

lemma aborts_with_run:
  assumes "aborts_with ((k, t, l) # H) s"
  shows "aborts_with H (remove_listener t l s)"
proof -
  note iff = aborts_with_iff [OF assms]
  have sig: "signal_of s t l = Some k" by (simp add: iff)
  from aborts_with_distinct [OF assms] have new: "(k, t, l) \<notin> set (ws_abortHandlers s)"
    "(k, t, l) \<notin> set H" and dist: "distinct (ws_abortHandlers s @ H)"
    by simp_all
  then have "filter (\<lambda>h. h \<noteq> (k, t, l)) (ws_abortHandlers s) = ws_abortHandlers s"
    by (intro filter_True) auto
  with sig have hs: "ws_abortHandlers (remove_listener t l s) = ws_abortHandlers s"
    by (simp add: handlers_remove)
  have "(j, u, m) \<in> set (ws_abortHandlers s @ H) \<longleftrightarrow> signal_of (remove_listener t l s) u m = Some j"
    for j u m
  proof (cases "u = t \<and> m = l")
    case True
    have "(j, t, l) \<notin> set (ws_abortHandlers s @ H)" if "j \<noteq> k"
      using iff [of t l j] sig that by auto
    with True new show ?thesis by (cases "j = k") (auto simp: signal_of_remove)
  next
    case False
    then show ?thesis using iff [of u m j] by (auto simp: signal_of_remove)
  qed
  with dist hs show ?thesis by (simp add: aborts_with_def)
qed

lemma aborts_with_all:
  assumes "aborts_with H s" "\<forall>h \<in> set H. fst h = k"
  shows "aborts_with [] (foldl (\<lambda>s (k, t, l). remove_listener t l s) s H) \<and>
    ws_aborted (foldl (\<lambda>s (k, t, l). remove_listener t l s) s H) = ws_aborted s \<and>
    ws_abortHandlers (foldl (\<lambda>s (k, t, l). remove_listener t l s) s H) = ws_abortHandlers s"
  using assms
proof (induction H arbitrary: s)
  case (Cons h H)
  obtain t l where h: "h = (k, t, l)" using Cons.prems(2) by (cases h) auto
  with aborts_with_iff [OF Cons.prems(1), of t l k] aborts_with_distinct [OF Cons.prems(1)]
  have sig: "signal_of s t l = Some k" "(k, t, l) \<notin> set (ws_abortHandlers s)"
    by simp_all
  then have "filter (\<lambda>h. h \<noteq> (k, t, l)) (ws_abortHandlers s) = ws_abortHandlers s"
    by (intro filter_True) auto
  with sig have hs: "ws_abortHandlers (remove_listener t l s) = ws_abortHandlers s"
    by (simp add: handlers_remove)
  have "aborts_with H (remove_listener t l s)" using Cons.prems(1) h by (simp add: aborts_with_run)
  from Cons.IH [OF this] Cons.prems(2) h hs show ?case by simp
qed simp

lemma aborts_ok_remove: "aborts_ok s \<Longrightarrow> aborts_ok (remove_listener t l s)"
  by (auto simp: aborts_ok_def aborts_with_remove signal_of_remove split: if_splits)

lemma aborts_ok_abort:
  assumes "aborts_ok s"
  shows "aborts_ok (abort_signal k s)" "signal_of (abort_signal k s) t l \<noteq> Some k"
proof -
  have both: "aborts_ok (abort_signal k s) \<and> k \<in> set (ws_aborted (abort_signal k s))"
  proof (cases "k \<in> set (ws_aborted s)")
    case True
    with assms show ?thesis by (simp add: abort_signal_def)
  next
    case False
    let ?H = "filter (\<lambda>h. fst h = k) (ws_abortHandlers s)"
    let ?s = "s\<lparr>ws_aborted := k # ws_aborted s,
        ws_abortHandlers := filter (\<lambda>h. fst h \<noteq> k) (ws_abortHandlers s)\<rparr>"
    have sig: "signal_of ?s = signal_of s" by (intro ext) (simp add: signal_of_def)
    from assms have d: "distinct (ws_abortHandlers s)"
      "\<And>k t l. (k, t, l) \<in> set (ws_abortHandlers s) \<longleftrightarrow> signal_of s t l = Some k"
      by (simp_all add: aborts_ok_def aborts_with_def)
    then have "aborts_with ?H ?s" by (auto simp: aborts_with_def sig)
    from aborts_with_all [OF this, of k] have w:
      "aborts_with [] (abort_signal k s)" "ws_aborted (abort_signal k s) = k # ws_aborted s"
      "ws_abortHandlers (abort_signal k s) = filter (\<lambda>h. fst h \<noteq> k) (ws_abortHandlers s)"
      using False by (auto simp: abort_signal_def)
    have "j \<notin> set (ws_aborted (abort_signal k s))" if "signal_of (abort_signal k s) t l = Some j" for t l j
    proof -
      from that aborts_with_iff [OF w(1), of t l j] w(3)
      have "(j, t, l) \<in> set (ws_abortHandlers s)" "j \<noteq> k" by simp_all
      with d assms w(2) show ?thesis by (auto simp: aborts_ok_def)
    qed
    with w show ?thesis by (auto simp: aborts_ok_def)
  qed
  then show "aborts_ok (abort_signal k s)" "signal_of (abort_signal k s) t l \<noteq> Some k"
    by (auto simp: aborts_ok_def)
qed

lemma aborts_ok_managed:
  assumes "managed s' = managed s" "aborts_ok s"
  shows "aborts_ok s'"
proof -
  from assms(1) have "signal_of s' = signal_of s"
    by (intro ext) (simp add: signal_of_def managed_def)
  with assms show ?thesis by (simp add: aborts_ok_def aborts_with_def managed_def)
qed

lemma aborts_ok_add:
  assumes "aborts_ok s"
  shows "aborts_ok (addEventListener type listener once signal s)"
proof (cases "addEventListener type listener once signal s = s")
  case False
  then obtain l t where lt: "listener = Some l" "listener_type type = Some t"
    "om_get (ws_listeners s t) l = None" "\<forall>k. signal = Some k \<longrightarrow> k \<notin> set (ws_aborted s)"
    by (auto simp: addEventListener_def om_has_def split: option.splits if_splits)
  let ?s = "addEventListener type listener once signal s"
  have sig: "signal_of ?s u m = (if u = t \<and> m = l then signal else signal_of s u m)" for u m
    using lt by (auto simp: addEventListener_def signal_of_def om_has_def om_get_set Let_def
        split: option.splits)
  have hs: "ws_abortHandlers ?s = ws_abortHandlers s @ (case signal of None \<Rightarrow> [] | Some k \<Rightarrow> [(k, t, l)])"
    and ab: "ws_aborted ?s = ws_aborted s"
    using lt by (auto simp: addEventListener_def om_has_def Let_def split: option.splits)
  have none: "signal_of s t l = None" using lt(3) by (simp add: signal_of_def)
  with assms have "(k, t, l) \<notin> set (ws_abortHandlers s)" for k
    by (auto simp: aborts_ok_def aborts_with_def)
  with assms none lt(4) show ?thesis
    unfolding aborts_ok_def aborts_with_def hs ab sig
    by (cases signal) auto
qed (use assms in simp)

interpretation aborts: managed_safe aborts_ok
proof unfold_locales
  fix s :: "'e web_socket" and c
  assume ok: "aborts_ok s"
  have frame: "aborts_ok s'" if "ws_listeners s' = ws_listeners s" "ws_aborted s' = ws_aborted s"
    "ws_abortHandlers s' = ws_abortHandlers s" for s' :: "'e web_socket"
  proof -
    have "signal_of s' = signal_of s" using that by (intro ext) (simp add: signal_of_def)
    with ok that show ?thesis by (simp add: aborts_ok_def aborts_with_def)
  qed
  show "aborts_ok (snd (api c s))"
  proof (cases c)
    case (CallSend data)
    then show ?thesis
      by (intro frame) (simp_all add: api_def ws_send_def split: option.split sum.split)
  next
    case (CallClose code reason)
    have "managed (startNativeClose t) = managed t" for t :: "'e web_socket"
      by (simp add: managed_def startNativeClose_def split: option.split)
    then have "managed (snd (ws_close code reason s)) = managed s"
      by (simp add: ws_close_def managed_def split: sum.split)
    with ok CallClose show ?thesis by (auto simp: api_def intro: aborts_ok_managed)
  next
    case (CallBinaryType v)
    then show ?thesis by (intro frame) (simp_all add: api_def set_binaryType_def split: option.split)
  next
    case (CallHandler t h)
    then show ?thesis by (intro frame) (simp_all add: api_def set_handler_def split: option.split)
  qed (use ok in \<open>auto simp: api_def aborts_ok_add aborts_ok_abort
         removeEventListener_def aborts_ok_remove split: option.split\<close>)
next
  fix s :: "'e web_socket" and cb e
  assume "aborts_ok s"
  then show "aborts_ok ((log_action (Ran cb) s)\<lparr>ws_env := e\<rparr>)"
    by (rule aborts_ok_managed [rotated]) (simp add: managed_def)
qed (rule aborts_ok_managed)

lemma aborts_ok_dequeue: "aborts_ok s \<Longrightarrow> aborts_ok (dequeue_send n s)"
proof -
  have "signal_of (dequeue_send n s) = signal_of s" by (intro ext) (simp add: signal_of_def dequeue_send_def)
  then show "aborts_ok s \<Longrightarrow> aborts_ok (dequeue_send n s)"
    by (simp add: aborts_ok_def aborts_with_def dequeue_send_def)
qed

lemma aborts_ok_step: "ws_step react s s' \<Longrightarrow> aborts_ok s \<Longrightarrow> aborts_ok s'"
  by (erule aborts.keep_step)
    (simp_all add: send_done_def send_failed_def aborts_ok_dequeue aborts.keep_fail aborts.keep_log)

section \<open>Reachable states\<close>

definition managed_ok :: "'e web_socket \<Rightarrow> bool" where
  "managed_ok s \<longleftrightarrow> sends_ok s \<and> orders_ok s \<and> aborts_ok s"

lemma managed_ok_new: "managed_ok (WebSocket_new url b l mode e)"
  by (simp add: managed_ok_def sends_ok_def queued_bytes_def orders_ok_def listener_orders_def
      orders_of_simps aborts_ok_def aborts_with_def signal_of_def WebSocket_new_def)

lemma managed_ok_steps:
  assumes "(ws_step react)\<^sup>*\<^sup>* s t" "managed_ok s"
  shows "managed_ok t"
  using assms
proof (induction rule: rtranclp_induct)
  case (step y z)
  then have "managed_ok y" by simp
  with sends_ok_step [OF step.hyps(2)] orders_ok_step [OF step.hyps(2)] aborts_ok_step [OF step.hyps(2)]
  show ?case by (simp add: managed_ok_def)
qed

lemma ws_reachable_managed:
  assumes "ws_reachable react s"
  shows "managed_ok s"
proof -
  from assms obtain url b l mode e where "(ws_step react)\<^sup>*\<^sup>* (WebSocket_new url b l mode e) s"
    by (auto simp: ws_reachable_def)
  then show ?thesis by (rule managed_ok_steps) (rule managed_ok_new)
qed

end
