(* ===== verification/WebSocketProperties.thy ===== *)
theory WebSocketProperties
  imports WebSocketListeners
begin

text \<open>
  The properties of the \<open>WebSocket\<close> class that its invariants give, for every reachable state and any
  caller's code, with witnesses on concrete runs. Two of them are about what the class gets wrong: a
  connection that settles after the native close, and a legacy error callback that throws.
\<close>

section \<open>The microtask of the open event\<close>

definition open_fields :: "'e web_socket \<Rightarrow> bool \<times> nat option \<times> connect_state \<times> bool" where
  "open_fields s = (ws_openEventQueued s, ws_openTask s, ws_connectState s, ws_openEventDispatched s)"

definition task_ok :: "'e web_socket \<Rightarrow> bool" where
  "task_ok s \<longleftrightarrow> (ws_openEventQueued s \<longleftrightarrow> ws_openTask s \<noteq> None) \<and> ws_openTask s \<noteq> Some 0 \<and>
     (ws_connectState s \<noteq> ConnectResolved \<longrightarrow> \<not> ws_openEventQueued s \<and> \<not> ws_openEventDispatched s)"

lemma task_ok_fields: "open_fields s' = open_fields s \<Longrightarrow> task_ok s' = task_ok s"
  by (simp add: open_fields_def task_ok_def)

lemma open_fields_untouched: "untouched s s' \<Longrightarrow> open_fields s' = open_fields s"
  by (simp add: untouched_def open_fields_def)

lemma open_fields_dispatch [simp]: "open_fields (dispatchEvent react e s) = open_fields s"
  by (rule open_fields_untouched) (rule dispatch_effects(1))

lemma open_fields_legacy: "legacy react p cb s = (threw, s') \<Longrightarrow> open_fields s' = open_fields s"
  using legacy_effects by (fastforce simp: side_effects_def intro: open_fields_untouched)

lemma open_fields_log [simp]: "open_fields (log_action a s) = open_fields s"
  by (simp add: open_fields_def log_action_def)

lemma open_fields_error [simp]: "open_fields (snd (handleNativeError react m s)) = open_fields s"
  by (auto simp: handleNativeError_def open_fields_legacy split: prod.split)

lemma open_fields_finalize [simp]: "open_fields (finalizeClosed react c r w s) = open_fields s"
  by (auto simp: finalizeClosed_def Let_def open_fields_def [of "_\<lparr>ws_readyState := _\<rparr>"]
      dest!: open_fields_legacy split: prod.split) (simp_all add: open_fields_def)

lemma open_fields_fail [simp]: "open_fields (fail_closed react m s) = open_fields s"
proof -
  obtain threw s1 where h: "handleNativeError react m s = (threw, s1)" by fastforce
  with open_fields_error [of react m s] have "open_fields s1 = open_fields s" by simp
  with h show ?thesis by (simp add: fail_closed_def)
qed

lemma open_fields_message [simp]: "open_fields (handleNativeMessage react d s) = open_fields s"
proof -
  obtain threw s1 where l: "legacy react has_onMessage (OnMessage d) s = (threw, s1)" by fastforce
  have "open_fields (s1\<lparr>ws_pendingMessages := ps\<rparr>) = open_fields s1" for ps s1 and t :: "'a web_socket"
    by (simp add: open_fields_def)
  then show ?thesis
    using open_fields_legacy [OF l] l
    by (simp add: handleNativeMessage_def Let_def dispatchMessage_def) (simp add: open_fields_def log_action_def)
qed

lemma open_fields_messages: "open_fields (foldl (dispatchMessage react) s ds) = open_fields s"
  by (induction ds arbitrary: s) (simp_all add: dispatchMessage_def)

lemma open_fields_open: "open_fields (dispatchOpenEvent react s) = open_fields s"
proof -
  have "open_fields (dispatchEvent react OpenEvent s\<lparr>ws_pendingMessages := []\<rparr>) = open_fields s"
    using open_fields_dispatch [of react OpenEvent s] by (simp add: open_fields_def)
  then show ?thesis by (simp add: dispatchOpenEvent_def Let_def open_fields_messages)
qed

lemma open_fields_start [simp]: "open_fields (startNativeClose s) = open_fields s"
  by (simp add: open_fields_def startNativeClose_def log_action_def split: option.split)

lemma task_ok_schedule: "task_ok s \<Longrightarrow> ws_connectState s = ConnectResolved \<Longrightarrow> 0 < n \<Longrightarrow>
    task_ok (scheduleOpenEventWithDepth n s)"
  by (simp add: task_ok_def scheduleOpenEventWithDepth_def)

lemma task_ok_step:
  assumes "ws_step react s s'" "task_ok s"
  shows "task_ok s'"
  using assms(1)
proof (cases rule: ws_step.cases)
  case (step_call c)
  have "open_fields (snd (api c s)) = open_fields s"
    by (rule open_fields_untouched) (rule untouched_api)
  from task_ok_fields [OF this] step_call assms(2) show ?thesis by simp
next
  case (step_connected i p x)
  with assms(2) have "task_ok (s\<lparr>ws_connection := c, ws_protocol := u, ws_extensions := v,
      ws_finalizerToken := w, ws_connectState := ConnectResolved, ws_readyState := r\<rparr>)"
    "task_ok (s\<lparr>ws_connection := c, ws_protocol := u, ws_extensions := v,
      ws_finalizerToken := w, ws_connectState := ConnectResolved\<rparr>)" for c u v w r
    by (simp_all add: task_ok_def)
  with step_connected show ?thesis
    by (simp add: connected_def Let_def task_ok_schedule task_ok_fields [OF open_fields_start])
next
  case (step_connect_failed m)
  with assms(2) have "task_ok (s\<lparr>ws_connectState := ConnectRejected\<rparr>)" by (auto simp: task_ok_def)
  with step_connect_failed show ?thesis
    by (simp add: connect_failed_def task_ok_fields [OF open_fields_fail])
next
  case step_awaited
  with assms(2) have "task_ok (s\<lparr>ws_awaited := True\<rparr>)" by (auto simp: task_ok_def)
  with step_awaited show ?thesis by (simp add: connect_awaited_def task_ok_schedule)
next
  case (step_microtask n)
  with assms(2) have res: "ws_connectState s = ConnectResolved" by (auto simp: task_ok_def)
  have "task_ok (dispatchOpenEvent react
      (s\<lparr>ws_openTask := None, ws_openEventQueued := False, ws_openEventDispatched := True\<rparr>))"
    using res by (simp add: task_ok_fields [OF open_fields_open]) (simp add: task_ok_def)
  moreover have "task_ok (s\<lparr>ws_openTask := None, ws_openEventQueued := False\<rparr>)"
    using res by (simp add: task_ok_def)
  moreover have "task_ok (s\<lparr>ws_openTask := Some n\<rparr>)" if "n \<noteq> 0"
    using res that assms(2) step_microtask by (simp add: task_ok_def)
  ultimately show ?thesis
    using step_microtask by (simp add: open_microtask_def Let_def)
next
  case step_close_done
  with assms(2) show ?thesis by (auto simp: task_ok_def)
next
  case (step_close_failed m)
  with assms(2) have "task_ok (s\<lparr>ws_closeSettled := True\<rparr>)" by (auto simp: task_ok_def)
  with step_close_failed show ?thesis by (simp add: task_ok_fields [OF open_fields_fail])
next
  case (step_send_done i data n rest payload)
  with assms(2) show ?thesis by (auto simp: task_ok_def send_done_def dequeue_send_def log_action_def)
next
  case (step_send_failed i data n rest m)
  have "open_fields (send_failed react m n s) = open_fields s"
    using open_fields_fail [of react m s] by (simp add: send_failed_def dequeue_send_def open_fields_def)
  from task_ok_fields [OF this] assms(2) step_send_failed show ?thesis by simp
qed (use assms(2) in \<open>simp_all add: handleNativeClose_def task_ok_fields [OF open_fields_message]
       task_ok_fields [OF open_fields_error] task_ok_fields [OF open_fields_finalize]\<close>)

lemma ws_reachable_task:
  assumes "ws_reachable react s"
  shows "task_ok s"
proof -
  have steps: "task_ok t" if "(ws_step react)\<^sup>*\<^sup>* s t" "task_ok s" for s t
    using that
  proof (induction rule: rtranclp_induct)
    case (step y z)
    then show ?case using task_ok_step by blast
  qed
  from assms obtain url b l mode e where "(ws_step react)\<^sup>*\<^sup>* (WebSocket_new url b l mode e) s"
    by (auto simp: ws_reachable_def)
  then show ?thesis by (rule steps) (simp add: task_ok_def WebSocket_new_def)
qed

section \<open>The runs of listeners\<close>

definition listener_runs :: "action list \<Rightarrow> (nat \<times> ws_event) list" where
  "listener_runs l = concat (map (\<lambda>a. case a of Ran (Listener i e) \<Rightarrow> [(i, e)] | _ \<Rightarrow> []) l)"

lemma listener_runs_simps [simp]:
  "listener_runs (l @ l') = listener_runs l @ listener_runs l'"
  "listener_runs [Ran (Listener i e)] = [(i, e)]"
  "listener_runs [Dispatched e] = []" "listener_runs [NativeClose j opts] = []"
  by (simp_all add: listener_runs_def)

lemma listener_runs_api: "listener_runs (ws_log (snd (api c s))) = listener_runs (ws_log s)"
proof (cases rule: api_cases [of s c])
  case listeners
  then show ?thesis by (rule listeners_onlyE) simp
next
  case (close options)
  let ?t = "s\<lparr>ws_closeOptions := options, ws_readyState := CLOSING\<rparr>"
  show ?thesis by (cases rule: startNativeClose_cases [of ?t]) (simp_all add: close)
qed simp_all

lemma listener_runs_calls:
  "listener_runs (ws_log (foldl (\<lambda>s c. snd (api c s)) s calls)) = listener_runs (ws_log s)"
  by (induction calls arbitrary: s) (simp_all add: listener_runs_api)

lemma listener_runs_invoke:
  "listener_runs (ws_log (invokeListener react l e s)) = listener_runs (ws_log s) @ [(l, e)]"
  by (simp add: invokeListener_def run_callback_def listener_runs_calls split: prod.split)

lemma log_remove [simp]: "ws_log (remove_listener t l s) = ws_log s"
  by (simp add: remove_listener_def split: option.split)

lemma listener_runs_entries:
  "listener_runs (ws_log (foldl (dispatch_entry react e) s entries)) =
     listener_runs (ws_log s) @ map (\<lambda>(order, l, once). (l, e)) entries"
proof (induction entries arbitrary: s)
  case (Cons x xs)
  obtain order l once where "x = (order, l, once)" by (cases x)
  with Cons show ?case by (simp add: dispatch_entry_def listener_runs_invoke)
qed simp

lemma ordered_orders:
  "mset (map fst (ordered_listeners t s)) = mset (listener_orders t s)"
  by (simp add: ordered_listeners_def listener_orders_def orders_of_def case_prod_unfold comp_def
      multiset.map_comp split: option.split)

lemma ordered_names:
  "mset (map (\<lambda>(order, l, once). l) (ordered_listeners t s)) =
     mset (om_keys (ws_listeners s t) @ (case ws_on s t of None \<Rightarrow> [] | Some h \<Rightarrow> [h]))"
  by (simp add: ordered_listeners_def om_keys_def case_prod_unfold comp_def
      multiset.map_comp split: option.split)

lemma ordered_strict:
  assumes "orders_ok s"
  shows "sorted_wrt (<) (map fst (ordered_listeners t s))"
proof -
  have "sorted (map fst (ordered_listeners t s))"
    by (simp add: ordered_listeners_def)
  moreover have "mset (map fst (ordered_listeners t s)) = mset (listener_orders t s)"
    by (rule ordered_orders)
  then have "distinct (map fst (ordered_listeners t s))"
    using mset_eq_imp_distinct_iff assms unfolding orders_ok_def by blast
  ultimately show ?thesis by (simp add: strict_sorted_iff)
qed

section \<open>Sample runs\<close>

definition silent :: "unit reaction" where
  "silent cb s = ([], False, ())"

definition fresh :: "unit web_socket" where
  "fresh = WebSocket_new ''ws://a/'' Nodebuffer None Automatic ()"

lemma fresh_reachable: "ws_reachable react fresh"
  by (simp add: fresh_def ws_reachable_new)

section \<open>Properties\<close>




definition waiting :: "unit web_socket" where
  "waiting = handleNativeMessage silent (TextData ''one'') (connected 7 None None fresh)"

lemma waiting_reachable: "ws_reachable silent waiting"
proof -
  have "ws_connectState fresh = ConnectPending" by (simp add: fresh_def WebSocket_new_def)
  with fresh_reachable show ?thesis
    unfolding waiting_def by (blast intro: ws_reachable_step step_message step_connected)
qed


text \<open>The native connection is closed properly: the addon is asked to close at most once, only when
  there is a connection, and a socket whose caller has called \<open>close\<close> has asked for it as soon as a
  connection exists, even one that was made after the call; an open socket always has its connection.\<close>

lemma ws_native_close_once:
  assumes "ws_reachable react s"
  shows "length (filter is_native_close (ws_log s)) \<le> 1 \<and>
    (ws_nativeCloseStarted s \<longrightarrow> ws_connection s \<noteq> None) \<and>
    (ws_readyState s = CLOSING \<and> ws_connection s \<noteq> None \<longrightarrow> ws_nativeCloseStarted s) \<and>
    (ws_readyState s = OPEN \<longrightarrow> ws_connection s \<noteq> None)"
  using ws_reachable_inv [OF assms] by (auto simp: ws_inv_def connection_ok_def)

lemma ws_native_close_once_witness:
  "ws_nativeCloseStarted (connected 7 None None (snd (api (CallClose JUndefined None) fresh)))"
proof -
  let ?s = "snd (api (CallClose JUndefined None) fresh)"
  have pending: "ws_connectState ?s = ConnectPending" "ws_readyState ?s = CLOSING"
    "ws_connection ?s = None"
    by (simp_all add: api_def ws_close_def fresh_def WebSocket_new_def startNativeClose_def
        normalizeWebSocketCloseOptions_def)
  then have "ws_reachable silent (connected 7 None None ?s)"
    using fresh_reachable by (blast intro: ws_reachable_step step_call step_connected)
  from ws_native_close_once [OF this] pending show ?thesis
    by (auto simp: connected_def Let_def startNativeClose_def split: option.splits)
qed

text \<open>\<open>bufferedAmount\<close> is always exactly the number of payload bytes accepted by \<open>send\<close> whose native
  send has not ended, so it is never negative and returns to zero when the queue is empty.\<close>

lemma ws_buffered_amount:
  assumes "ws_reachable react s"
  shows "ws_bufferedAmount s = int (queued_bytes (ws_sendChain s)) \<and>
    (\<forall>i d n. (i, d, n) \<in> set (ws_sendChain s) \<longrightarrow>
       (\<exists>p. normalizeSendPayload d = Inr p \<and> payload_size p = n))"
  using ws_reachable_managed [OF assms] by (auto simp: managed_ok_def sends_ok_def)

lemma ws_buffered_amount_witness:
  "ws_bufferedAmount (snd (api (CallSend (SendBuffer [1, 2, 3])) waiting)) = 3"
proof -
  let ?s = "snd (api (CallSend (SendBuffer [1, 2, 3])) waiting)"
  have "ws_reachable silent ?s"
    using waiting_reachable by (blast intro: ws_reachable_step step_call)
  moreover have "ws_sendChain ?s = [(7, SendBuffer [1, 2, 3], 3)]"
    by (simp add: api_def ws_send_def getSendByteLength_def waiting_def handleNativeMessage_def
        connected_def fresh_def WebSocket_new_def scheduleOpenEventWithDepth_def legacy_def Let_def
        log_action_def)
  ultimately show ?thesis
    using ws_buffered_amount [of silent ?s] by (simp add: queued_bytes_def)
qed

text \<open>Firing an event runs every listener that is registered for its type when it fires, and the
  \<open>on\<close> handler, exactly once and in the order of registration, even if listeners add, remove or
  replace each other, close the socket or throw while it runs.\<close>

lemma ws_listeners_in_order:
  assumes "ws_reachable react s"
  shows "listener_runs (ws_log (dispatchEvent react' e s)) =
      listener_runs (ws_log s) @
        map (\<lambda>(order, l, once). (l, e)) (ordered_listeners (event_type_of e) s) \<and>
    sorted_wrt (<) (map fst (ordered_listeners t s)) \<and>
    distinct (om_keys (ws_listeners s t)) \<and>
    mset (map (\<lambda>(order, l, once). l) (ordered_listeners t s)) =
      mset (om_keys (ws_listeners s t) @ (case ws_on s t of None \<Rightarrow> [] | Some h \<Rightarrow> [h]))"
proof -
  from ws_reachable_managed [OF assms] have ok: "orders_ok s" by (simp add: managed_ok_def)
  then have "distinct (om_keys (ws_listeners s t))" by (simp add: orders_ok_def om_ok_def)
  with ok ordered_strict ordered_names show ?thesis
    by (auto simp: dispatchEvent_def listener_runs_entries)
qed

definition listening :: "unit web_socket" where
  "listening = snd (api (CallHandler MessageType (Some 2))
     (snd (api (CallAdd ''message'' (Some 5) True None) fresh)))"

lemma ws_listeners_in_order_witness:
  "listener_runs (ws_log (dispatchEvent silent (MessageEvent (MessageText ''x'')) listening)) =
     [(5, MessageEvent (MessageText ''x'')), (2, MessageEvent (MessageText ''x''))]"
proof -
  have "ws_reachable silent listening"
    unfolding listening_def using fresh_reachable by (blast intro: ws_reachable_step step_call)
  moreover have "ordered_listeners MessageType listening = [(1, 5, True), (2, 2, False)]"
    "ws_log listening = []"
    by (simp_all add: listening_def api_def addEventListener_def listener_type_def set_handler_def
        fresh_def WebSocket_new_def om_has_def Let_def ordered_listeners_def)
  ultimately show ?thesis
    using ws_listeners_in_order [of silent listening silent "MessageEvent (MessageText ''x'')"]
    by (simp add: listener_runs_def)
qed

text \<open>An abort signal that fires takes with it exactly the listeners registered under it, on every
  event type; no listener is ever registered under a signal that has fired, and the handlers left on
  the signals are those of registered listeners, one each.\<close>

lemma ws_abort_removes:
  assumes "ws_reachable react s"
  shows "signal_of (abort_signal k s) t l \<noteq> Some k \<and>
    (signal_of s t l = Some j \<longrightarrow> j \<notin> set (ws_aborted s)) \<and> distinct (ws_abortHandlers s) \<and>
    ((j, t, l) \<in> set (ws_abortHandlers s) \<longleftrightarrow> signal_of s t l = Some j)"
proof -
  from ws_reachable_managed [OF assms] have ok: "aborts_ok s" by (simp add: managed_ok_def)
  with aborts_ok_abort(2) [OF ok, of k t l] show ?thesis
    by (auto simp: aborts_ok_def aborts_with_def)
qed

lemma ws_abort_removes_witness:
  "signal_of (abort_signal 9 (snd (api (CallAdd ''close'' (Some 5) False (Some 9)) fresh))) CloseType 5 = None"
proof -
  let ?s = "snd (api (CallAdd ''close'' (Some 5) False (Some 9)) fresh)"
  have "ws_reachable silent ?s" using fresh_reachable by (blast intro: ws_reachable_step step_call)
  from ws_abort_removes [OF this, of 9 CloseType 5] show ?thesis
    by (simp add: abort_signal_def signal_of_def api_def addEventListener_def listener_type_def
        fresh_def WebSocket_new_def om_has_def Let_def remove_listener_def om_delete_def)
qed



text \<open>A connection attempt that fails is reported: without legacy callbacks the socket fires an
  error event with the message, then a close event with code 1006 that is not clean, and is closed.\<close>

lemma ws_connect_failure_reported:
  assumes "ws_legacyCallbacks s = None" "\<not> ws_closeEventDispatched s"
  shows "ws_trace (connect_failed react m s) =
      ws_trace s @ [Dispatched (ErrorEvent m), Dispatched (CloseEvent 1006 [] False)] \<and>
    ws_readyState (connect_failed react m s) = CLOSED \<and>
    ws_connectState (connect_failed react m s) = ConnectRejected"
proof -
  let ?s0 = "s\<lparr>ws_connectState := ConnectRejected\<rparr>"
  let ?s1 = "dispatchEvent react (ErrorEvent m) ?s0"
  let ?s2 = "?s1\<lparr>ws_readyState := CLOSED, ws_closeEventDispatched := True, ws_pendingMessages := [],
      ws_finalizerToken := None\<rparr>"
  note e1 = dispatch_effects [where event = "ErrorEvent m" and react = react and s = "?s0"]
  note e2 = dispatch_effects [where event = "CloseEvent 1006 [] False" and react = react and s = "?s2"]
  from e1(1) assms have "ws_legacyCallbacks ?s1 = None" "\<not> ws_closeEventDispatched ?s1"
    "ws_connectState ?s1 = ConnectRejected"
    by (simp_all add: untouched_def)
  then have run: "connect_failed react m s = dispatchEvent react (CloseEvent 1006 [] False) ?s2"
    "ws_connectState ?s2 = ConnectRejected"
    using assms(1) by (simp_all add: connect_failed_def fail_closed_def handleNativeError_def legacy_def
        finalizeClosed_def Let_def)
  have "ws_trace ?s2 = ws_trace ?s1" "ws_trace ?s0 = ws_trace s" by (simp_all add: ws_trace_def)
  with e1(2) e2 run show ?thesis by (simp add: ready_moves_def untouched_def)
qed

lemma ws_connect_failure_reported_witness:
  "ws_trace (connect_failed silent ''refused'' fresh) =
     [Dispatched (ErrorEvent ''refused''), Dispatched (CloseEvent 1006 [] False)]"
proof -
  have "ws_legacyCallbacks fresh = None" "\<not> ws_closeEventDispatched fresh" "ws_trace fresh = []"
    by (simp_all add: fresh_def WebSocket_new_def ws_trace_def)
  with ws_connect_failure_reported [of fresh silent "''refused''"] show ?thesis by simp
qed

text \<open>A flaw: if the addon reports the close of a connection before the connection attempt settles,
  the socket fires its close event, and the settled attempt then puts it back into the state \<open>OPEN\<close>
  and fires an open event after the close event.\<close>

lemma ws_reopens_after_close:
  "\<exists>s. ws_reachable silent s \<and> ws_readyState s = OPEN \<and> ws_closeEventDispatched s \<and>
     ws_trace s = [Dispatched (CloseEvent 1000 [] True), Dispatched OpenEvent]"
proof -
  let ?c = "connected 7 None None (handleNativeClose silent 1000 [] fresh)"
  let ?s = "open_microtask silent 0 (open_microtask silent 1 ?c)"
  have steps: "ws_connectState (handleNativeClose silent 1000 [] fresh) = ConnectPending"
    "ws_openTask ?c = Some (Suc 1)" "ws_openTask (open_microtask silent 1 ?c) = Some (Suc 0)"
    by (simp_all add: handleNativeClose_def finalizeClosed_def legacy_def dispatchEvent_def
        ordered_listeners_def fresh_def WebSocket_new_def connected_def scheduleOpenEventWithDepth_def
        open_microtask_def log_action_def Let_def)
  have "ws_reachable silent ?c"
    by (rule ws_reachable_step [OF ws_reachable_step [OF fresh_reachable step_close] step_connected])
      (rule steps(1))
  from ws_reachable_step [OF ws_reachable_step [OF this step_microtask [OF steps(2)]]
      step_microtask [OF steps(3)]]
  have "ws_reachable silent ?s" .
  moreover have "ws_readyState ?s = OPEN \<and> ws_closeEventDispatched ?s \<and>
      ws_trace ?s = [Dispatched (CloseEvent 1000 [] True), Dispatched OpenEvent]"
    by (simp add: handleNativeClose_def finalizeClosed_def legacy_def dispatchEvent_def
        ordered_listeners_def fresh_def WebSocket_new_def connected_def scheduleOpenEventWithDepth_def
        open_microtask_def dispatchOpenEvent_def log_action_def ws_trace_def Let_def)
  ultimately show ?thesis by blast
qed

definition throwing :: "unit reaction" where
  "throwing cb s = ([], case cb of OnError m \<Rightarrow> True | _ \<Rightarrow> False, ())"

text \<open>A flaw: a legacy \<open>onError\<close> callback that throws when the connection attempt fails leaves the
  socket connecting for good: neither the error event nor the close event is fired.\<close>

lemma ws_throwing_onError_strands:
  "\<exists>s. ws_reachable throwing s \<and> ws_connectState s = ConnectRejected \<and> ws_readyState s = CONNECTING \<and>
     \<not> ws_closeEventDispatched s \<and> ws_trace s = []"
proof -
  let ?f = "WebSocket_new ''ws://a/'' Nodebuffer
      (Some \<lparr>has_onMessage = False, has_onClose = False, has_onError = True\<rparr>) Automatic ()"
  let ?s = "connect_failed throwing ''refused'' ?f"
  have "ws_connectState ?f = ConnectPending" by (simp add: WebSocket_new_def)
  then have "ws_reachable throwing ?s"
    by (rule ws_reachable_step [OF ws_reachable_new step_connect_failed])
  moreover have "ws_connectState ?s = ConnectRejected \<and> ws_readyState ?s = CONNECTING \<and>
      \<not> ws_closeEventDispatched ?s \<and> ws_trace ?s = []"
    by (simp add: connect_failed_def fail_closed_def handleNativeError_def legacy_def run_callback_def
        throwing_def WebSocket_new_def log_action_def ws_trace_def)
  ultimately show ?thesis by blast
qed

text \<open>The close options that are accepted: none at all, or an integer code that is 1000 or in
  3000-4999 with a reason of at most 123 bytes in UTF-8; a call of \<open>close\<close> with any others throws and
  leaves the socket as it was.\<close>

lemma ws_close_options:
  "normalizeWebSocketCloseOptions code reason = Inr r \<longleftrightarrow>
     code = JUndefined \<and> reason = None \<and> r = None \<or>
     (\<exists>i. code = JNumber (NumInt i) \<and> (i = 1000 \<or> 3000 \<le> i \<and> i \<le> 4999) \<and>
          utf8_length (opt_default reason []) \<le> 123 \<and>
          r = Some \<lparr>close_code = NumInt i, close_reason = opt_default reason []\<rparr>)"
  by (auto simp: normalizeWebSocketCloseOptions_def is_integer_def Let_def
      split: jsval.splits number.splits if_splits)

end
