(* ===== verification/WebSocketOptions.thy ===== *)
theory WebSocketOptions
  imports Sessions WebSocketProperties
begin

text \<open>
  What happens before a \<open>WebSocket\<close> object exists: the URL, protocol and option checks of
  src/src/wreq-js.ts, and the three entry points, \<open>new WebSocket(...)\<close> (\<open>buildStandaloneInit\<close>),
  \<open>websocket\<close> and \<open>Session.websocket\<close>. Each returns an \<open>InternalWebSocketInit\<close>: what the object starts
  with and the options of the native connect call, \<open>Inl\<close> when building them throws inside it.

  The WHATWG parser behind \<open>new URL\<close> is the parameter \<open>parse\<close>: the text of the error it throws, or the
  parts of the URL that the code reads and writes.
\<close>

section \<open>URLs and protocols\<close>

record parsed_url =
  url_protocol :: string
  url_hash :: string
  url_tail :: string

type_synonym url_parser = "string \<Rightarrow> string + parsed_url"

definition url_toString :: "parsed_url \<Rightarrow> string" where
  "url_toString u = url_protocol u @ url_tail u"

definition ws_protocol_of :: "string \<Rightarrow> string" where
  "ws_protocol_of p = (if p = ''http:'' then ''ws:'' else if p = ''https:'' then ''wss:'' else p)"

definition normalizeWebSocketUrl :: "url_parser \<Rightarrow> jsval \<Rightarrow> string res" where
  "normalizeWebSocketUrl parse url =
     (let normalized = trim (js_string url) in
      if normalized = [] then Inl (RequestError ''URL is required'')
      else case parse normalized of
        Inl message \<Rightarrow> Inl (RequestError message)
      | Inr parsed \<Rightarrow>
          (if url_hash parsed \<noteq> []
           then Inl (RequestError ''WebSocket URL must not include a hash fragment'')
           else (let parsed' = parsed\<lparr>url_protocol := ws_protocol_of (url_protocol parsed)\<rparr> in
                 if url_protocol parsed' \<noteq> ''ws:'' \<and> url_protocol parsed' \<noteq> ''wss:''
                 then Inl (RequestError ''expected a ws: or wss: url'')
                 else Inr (url_toString parsed'))))"

definition token_char :: "char \<Rightarrow> bool" where
  "token_char c \<longleftrightarrow>
     c \<in> set ''!#$%&*+-.^_`|~'' \<or> c = CHR 0x27 \<or>
     (let n = code_unit c in (48 \<le> n \<and> n \<le> 57) \<or> (65 \<le> n \<and> n \<le> 90) \<or> (97 \<le> n \<and> n \<le> (122 :: nat)))"

definition check_protocol :: "jsval \<Rightarrow> unit res" where
  "check_protocol protocol = (case protocol of
      JString s \<Rightarrow>
        (if length s = 0
         then Inl (RequestError ''WebSocket protocol values must be non-empty strings'')
         else throw_if (\<not> list_all token_char s)
                (RequestError (''Invalid WebSocket protocol value: '' @ s)))
    | _ \<Rightarrow> Inl (RequestError ''WebSocket protocol values must be non-empty strings''))"

definition validateWebSocketProtocols :: "jsval \<Rightarrow> unit res" where
  "validateWebSocketProtocols protocols =
     (if protocols = JUndefined then Inr ()
      else res_bind (case protocols of
                       JString s \<Rightarrow> Inr [protocols]
                     | _ \<Rightarrow> (case js_iterate protocols of
                               None \<Rightarrow> Inl (TypeError ''protocolList is not iterable'')
                             | Some vs \<Rightarrow> Inr vs))
             (\<lambda>protocolList. res_bind (unique_loop check_protocol
                (\<lambda>p. RequestError (''Duplicate WebSocket protocol: '' @ js_string p)) [] protocolList)
                (\<lambda>_. Inr ())))"

definition normalizeWebSocketProtocolList :: "jsval \<Rightarrow> jsval list option res" where
  "normalizeWebSocketProtocolList protocols = (case protocols of
      JUndefined \<Rightarrow> Inr None
    | JString s \<Rightarrow> Inr (Some [protocols])
    | _ \<Rightarrow> (case js_iterate protocols of
              None \<Rightarrow> Inl (TypeError ''protocols is not iterable'')
            | Some vs \<Rightarrow> Inr (Some vs)))"

section \<open>Options\<close>

definition normalizeWebSocketSizeOption :: "string \<Rightarrow> jsval \<Rightarrow> jsval res" where
  "normalizeWebSocketSizeOption label v = (case v of
      JUndefined \<Rightarrow> Inr JUndefined
    | JNumber n \<Rightarrow>
        (if \<not> is_safe_integer n \<or> num_le n 0
         then Inl (RequestError (label @ '' must be a positive safe integer'')) else Inr v)
    | _ \<Rightarrow> Inl (RequestError (label @ '' must be a positive safe integer'')))"

definition binaryType_option :: "jsval \<Rightarrow> jsval res" where
  "binaryType_option v =
     (if v = JUndefined then Inr JUndefined
      else if v \<noteq> JString ''nodebuffer'' \<and> v \<noteq> JString ''arraybuffer'' \<and> v \<noteq> JString ''blob''
      then Inl (RequestError (''binaryType must be one of: '' @ squote @ ''nodebuffer'' @ squote @ '', '' @
                  squote @ ''arraybuffer'' @ squote @ '', '' @ squote @ ''blob'' @ squote))
      else Inr v)"

definition common_fields :: "field list" where
  "common_fields =
     [(''maxFrameSize'', normalizeWebSocketSizeOption ''maxFrameSize''),
      (''maxMessageSize'', normalizeWebSocketSizeOption ''maxMessageSize''),
      (''binaryType'', binaryType_option)]"

definition standalone_fields :: "field list" where
  "standalone_fields =
     [(''browser'', copied), (''os'', copied), (''emulation'', copied), (''headers'', copied),
      (''proxy'', copied), (''proxyHeaders'', copied), (''protocols'', copied)] @ common_fields"

definition normalizeStandaloneWebSocketOptions :: "jsval \<Rightarrow> props res" where
  "normalizeStandaloneWebSocketOptions options =
     (if \<not> truthy options then Inr [] else normalize_fields standalone_fields options)"

text \<open>The options a session decides, each with what its rejection says.\<close>

definition session_overrides :: "(string \<times> string) list" where
  "session_overrides =
     [(''browser'', ''`browser` is not supported in session.websocket(); the session controls browser emulation.''),
      (''os'', ''`os` is not supported in session.websocket(); the session controls OS emulation.''),
      (''emulation'', ''`emulation` is not supported in session.websocket(); the session transport controls emulation.''),
      (''proxy'', ''`proxy` is not supported in session.websocket(); the session transport controls proxying.''),
      (''proxyHeaders'', ''`proxyHeaders` is not supported in session.websocket(); the session transport controls proxying.'')]"

definition session_fields :: "field list" where
  "session_fields = [(''headers'', copied), (''protocols'', copied)] @ common_fields"

definition normalizeSessionWebSocketOptions :: "jsval \<Rightarrow> props res" where
  "normalizeSessionWebSocketOptions options =
     (if \<not> truthy options then Inr []
      else res_bind (res_all (\<lambda>(k, message). res_bind (get_prop options k) (\<lambda>v.
                       throw_if (v \<noteq> JUndefined) (RequestError message))) session_overrides)
             (\<lambda>_. normalize_fields session_fields options))"

definition is_function :: "jsval \<Rightarrow> bool" where
  "is_function v = (case v of JFunction _ \<Rightarrow> True | _ \<Rightarrow> False)"

definition extractLegacyWebSocketCallbacks :: "jsval \<Rightarrow> LegacyWebSocketCallbacks option" where
  "extractLegacyWebSocketCallbacks options = (case options of
      JObject ps \<Rightarrow>
        (let callbacks = \<lparr>has_onMessage = is_function (lookup ps ''onMessage''),
                          has_onClose = is_function (lookup ps ''onClose''),
                          has_onError = is_function (lookup ps ''onError'')\<rparr> in
         if has_onMessage callbacks \<or> has_onClose callbacks \<or> has_onError callbacks
         then Some callbacks else None)
    | _ \<Rightarrow> None)"

text \<open>A string or a \<open>URL\<close> object, rather than a legacy options object.\<close>

definition is_url_argument :: "jsval \<Rightarrow> bool" where
  "is_url_argument v = (case v of JString _ \<Rightarrow> True | JInstance c _ \<Rightarrow> c = ''URL'' | _ \<Rightarrow> False)"

record ws_arguments =
  arg_url :: string
  arg_options :: props
  arg_legacyCallbacks :: "LegacyWebSocketCallbacks option"

definition normalize_ws_arguments ::
  "url_parser \<Rightarrow> (jsval \<Rightarrow> props res) \<Rightarrow> jsval \<Rightarrow> jsval \<Rightarrow> ws_arguments res" where
  "normalize_ws_arguments parse normalizeOptions urlOrOptions options =
     (if is_url_argument urlOrOptions then
        res_bind (normalizeOptions options) (\<lambda>normalizedOptions.
        res_bind (normalizeWebSocketUrl parse urlOrOptions) (\<lambda>url.
        Inr \<lparr>arg_url = url, arg_options = normalizedOptions,
             arg_legacyCallbacks = extractLegacyWebSocketCallbacks options\<rparr>))
      else
        res_bind (normalizeOptions urlOrOptions) (\<lambda>normalizedOptions.
        res_bind (get_prop urlOrOptions ''url'') (\<lambda>u.
        res_bind (normalizeWebSocketUrl parse u) (\<lambda>url.
        Inr \<lparr>arg_url = url, arg_options = normalizedOptions,
             arg_legacyCallbacks = extractLegacyWebSocketCallbacks urlOrOptions\<rparr>))))"

definition normalizeStandaloneWebSocketArgs ::
  "url_parser \<Rightarrow> jsval \<Rightarrow> jsval \<Rightarrow> ws_arguments res" where
  "normalizeStandaloneWebSocketArgs parse = normalize_ws_arguments parse normalizeStandaloneWebSocketOptions"

definition normalizeSessionWebSocketArgs ::
  "url_parser \<Rightarrow> jsval \<Rightarrow> jsval \<Rightarrow> ws_arguments res" where
  "normalizeSessionWebSocketArgs parse = normalize_ws_arguments parse normalizeSessionWebSocketOptions"

section \<open>The native options and the entry points\<close>

record NativeWebSocketOptions = native_emulation +
  nwo_url :: string
  nwo_headers :: "HeaderTuple list"
  nwo_protocols :: "jsval list option"
  nwo_proxy :: jsval
  nwo_proxyHeaders :: "HeaderTuple list option"
  nwo_maxFrameSize :: jsval
  nwo_maxMessageSize :: jsval

record NativeWebSocketSessionOptions =
  nws_url :: string
  nws_sessionId :: string
  nws_transportId :: string
  nws_headers :: "HeaderTuple list"
  nws_protocols :: "jsval list option"
  nws_maxFrameSize :: jsval
  nws_maxMessageSize :: jsval

datatype native_ws_request =
    WebsocketConnect NativeWebSocketOptions
  | WebsocketConnectSession NativeWebSocketSessionOptions

record InternalWebSocketInit =
  init_url :: string
  init_binaryType :: jsval
  init_openDispatchMode :: WebSocketOpenDispatchMode
  init_connect :: "native_ws_request res"
  init_legacyCallbacks :: "LegacyWebSocketCallbacks option"

text \<open>\<open>protocols && protocols.length > 0\<close>, and \<open>headers ?? {}\<close>.\<close>

definition sent_protocols :: "jsval list option \<Rightarrow> jsval list option" where
  "sent_protocols ps = (if ps = Some [] then None else ps)"

definition or_empty :: "jsval \<Rightarrow> jsval" where
  "or_empty v = (if nullish v then JObject [] else v)"

definition standalone_connect ::
  "string \<Rightarrow> props \<Rightarrow> jsval list option \<Rightarrow> HeaderTuple list option \<Rightarrow> ResolvedEmulationMode \<Rightarrow>
     native_ws_request res" where
  "standalone_connect url options protocols proxyHeaders mode =
     res_bind (headersToTuples (or_empty (lookup options ''headers''))) (\<lambda>headers.
     Inr (WebsocketConnect (applyNativeEmulationMode
       \<lparr>native_browser = None, native_os = None, native_emulationJson = None, nwo_url = url,
        nwo_headers = headers, nwo_protocols = sent_protocols protocols,
        nwo_proxy = lookup options ''proxy'', nwo_proxyHeaders = proxyHeaders,
        nwo_maxFrameSize = lookup options ''maxFrameSize'',
        nwo_maxMessageSize = lookup options ''maxMessageSize''\<rparr> mode)))"

definition websocket :: "url_parser \<Rightarrow> native_profiles \<Rightarrow> jsval \<Rightarrow> jsval \<Rightarrow> InternalWebSocketInit res" where
  "websocket parse np urlOrOptions options =
     res_bind (normalizeStandaloneWebSocketArgs parse urlOrOptions options) (\<lambda>normalized.
     let opts = arg_options normalized in
     res_bind (validateWebSocketProtocols (lookup opts ''protocols'')) (\<lambda>_.
     res_bind (assertNoManualWebSocketProtocolHeader (lookup opts ''headers'')) (\<lambda>_.
     res_bind (resolveEmulationMode np (lookup opts ''browser'') (lookup opts ''os'')
                 (lookup opts ''emulation'')) (\<lambda>emulationMode.
     res_bind (normalizeWebSocketProtocolList (lookup opts ''protocols'')) (\<lambda>protocols.
     res_bind (normalizeProxyHeaders (lookup opts ''proxyHeaders'')) (\<lambda>proxyHeaders.
     Inr \<lparr>init_url = arg_url normalized, init_binaryType = lookup opts ''binaryType'',
          init_openDispatchMode = Deferred,
          init_connect = standalone_connect (arg_url normalized) opts protocols proxyHeaders emulationMode,
          init_legacyCallbacks = arg_legacyCallbacks normalized\<rparr>))))))"

text \<open>The arguments of the constructor: \<open>(url, protocols, options)\<close> or \<open>(url, options)\<close>.\<close>

definition buildStandaloneInit ::
  "url_parser \<Rightarrow> native_profiles \<Rightarrow> jsval \<Rightarrow> jsval \<Rightarrow> jsval \<Rightarrow> InternalWebSocketInit res" where
  "buildStandaloneInit parse np url protocolsOrOptions maybeOptions =
     (let separate = is_string protocolsOrOptions \<or> is_array protocolsOrOptions;
          optionsCandidate =
            (if separate then maybeOptions
             else if nullish protocolsOrOptions then maybeOptions else protocolsOrOptions) in
      res_bind (normalizeStandaloneWebSocketOptions optionsCandidate) (\<lambda>opts.
      let protocolsOption = (if separate then protocolsOrOptions else lookup opts ''protocols'') in
      res_bind (validateWebSocketProtocols protocolsOption) (\<lambda>_.
      res_bind (assertNoManualWebSocketProtocolHeader (lookup opts ''headers'')) (\<lambda>_.
      res_bind (resolveEmulationMode np (lookup opts ''browser'') (lookup opts ''os'')
                  (lookup opts ''emulation'')) (\<lambda>emulationMode.
      res_bind (normalizeWebSocketProtocolList protocolsOption) (\<lambda>protocols.
      res_bind (normalizeProxyHeaders (lookup opts ''proxyHeaders'')) (\<lambda>proxyHeaders.
      res_bind (normalizeWebSocketUrl parse url) (\<lambda>normalizedUrl.
      Inr \<lparr>init_url = normalizedUrl, init_binaryType = lookup opts ''binaryType'',
           init_openDispatchMode = Automatic,
           init_connect = standalone_connect normalizedUrl opts protocols proxyHeaders emulationMode,
           init_legacyCallbacks = extractLegacyWebSocketCallbacks optionsCandidate\<rparr>))))))))"

definition session_connect ::
  "string \<Rightarrow> Session \<Rightarrow> props \<Rightarrow> jsval list option \<Rightarrow> native_ws_request res" where
  "session_connect url ses options protocols =
     res_bind (headersToTuples (or_empty (lookup options ''headers''))) (\<lambda>headers.
     Inr (WebsocketConnectSession
       \<lparr>nws_url = url, nws_sessionId = session_id ses,
        nws_transportId = the (sd_transportId (session_defaults ses)), nws_headers = headers,
        nws_protocols = sent_protocols protocols,
        nws_maxFrameSize = lookup options ''maxFrameSize'',
        nws_maxMessageSize = lookup options ''maxMessageSize''\<rparr>))"

definition session_websocket ::
  "url_parser \<Rightarrow> Session \<Rightarrow> jsval \<Rightarrow> jsval \<Rightarrow> InternalWebSocketInit res" where
  "session_websocket parse ses urlOrOptions options =
     res_bind (ensureActive ses) (\<lambda>_.
     res_bind (normalizeSessionWebSocketArgs parse urlOrOptions options) (\<lambda>normalized.
     let opts = arg_options normalized in
     res_bind (validateWebSocketProtocols (lookup opts ''protocols'')) (\<lambda>_.
     res_bind (assertNoManualWebSocketProtocolHeader (lookup opts ''headers'')) (\<lambda>_.
     res_bind (normalizeWebSocketProtocolList (lookup opts ''protocols'')) (\<lambda>protocols.
     let transportId = sd_transportId (session_defaults ses) in
     if \<not> present transportId
     then Inl (RequestError ''Session has no transport. Create the session with browser/os options or pass a transport to use session.websocket().'')
     else
       Inr \<lparr>init_url = arg_url normalized, init_binaryType = lookup opts ''binaryType'',
            init_openDispatchMode = Deferred,
            init_connect = session_connect (arg_url normalized) ses opts protocols,
            init_legacyCallbacks = arg_legacyCallbacks normalized\<rparr>)))))"

text \<open>The object the constructor makes of it.\<close>

definition construct_WebSocket :: "InternalWebSocketInit \<Rightarrow> 'e \<Rightarrow> 'e web_socket" where
  "construct_WebSocket i e =
     WebSocket_new (init_url i)
       (case binary_type_of (if nullish (init_binaryType i) then ''nodebuffer''
                             else js_string (init_binaryType i)) of
          Some b \<Rightarrow> b | None \<Rightarrow> Nodebuffer)
       (init_legacyCallbacks i) (init_openDispatchMode i) e"

section \<open>What they let through\<close>

definition protocol_ok :: "string \<Rightarrow> bool" where
  "protocol_ok s \<longleftrightarrow> s \<noteq> [] \<and> list_all token_char s"

definition ws_url_ok :: "string \<Rightarrow> bool" where
  "ws_url_ok u \<longleftrightarrow> take 3 u = ''ws:'' \<or> take 4 u = ''wss:''"

lemma check_protocol_iff: "check_protocol v = Inr () \<longleftrightarrow> (\<exists>s. v = JString s \<and> protocol_ok s)"
  by (auto simp: check_protocol_def protocol_ok_def split: jsval.splits)

lemma protocols_of_strings:
  "(\<forall>v \<in> set vs. check_protocol v = Inr ()) \<and> distinct vs \<longleftrightarrow>
     (\<exists>ss. vs = map JString ss \<and> distinct ss \<and> list_all protocol_ok ss)"
proof
  assume "(\<forall>v \<in> set vs. check_protocol v = Inr ()) \<and> distinct vs"
  then have "\<forall>v \<in> set vs. \<exists>s. v = JString s \<and> protocol_ok s" and d: "distinct vs"
    by (auto simp: check_protocol_iff)
  then have vs: "vs = map JString (map js_string vs)" "list_all protocol_ok (map js_string vs)"
    by (induction vs) auto
  from d have "distinct (map JString (map js_string vs))" unfolding vs(1) [symmetric] .
  then have "distinct (map js_string vs)"
    using distinct_map [of JString "map js_string vs"] by blast
  with vs show "\<exists>ss. vs = map JString ss \<and> distinct ss \<and> list_all protocol_ok ss" by blast
next
  assume "\<exists>ss. vs = map JString ss \<and> distinct ss \<and> list_all protocol_ok ss"
  then show "(\<forall>v \<in> set vs. check_protocol v = Inr ()) \<and> distinct vs"
    by (auto simp: check_protocol_iff list_all_iff distinct_map inj_on_def)
qed

lemma normalizeWebSocketUrl_ok: "normalizeWebSocketUrl parse url = Inr u \<Longrightarrow> ws_url_ok u"
  by (auto simp: normalizeWebSocketUrl_def ws_url_ok_def url_toString_def Let_def
      split: if_splits sum.splits)

lemma manual_protocol_header:
  assumes "assertNoManualWebSocketProtocolHeader v = Inr ()" "headersToTuples (or_empty v) = Inr ts"
  shows "\<not> hasHeaderName (Some ts) ''Sec-WebSocket-Protocol''"
proof (cases "truthy v")
  case True
  then have "or_empty v = v" by (cases v) (simp_all add: or_empty_def nullish_def)
  with assms True show ?thesis
    by (auto simp: assertNoManualWebSocketProtocolHeader_def hasWebSocketProtocolHeader_def)
next
  case False
  have "Headers_new (or_empty v) = Inr []"
  proof (cases "nullish v")
    case True
    then show ?thesis
      by (simp add: or_empty_def Headers_new_def applyInit_def is_array_def isIterable_def)
  next
    case nonnull: False
    with False show ?thesis by (simp add: or_empty_def Headers_new_def)
  qed
  with assms(2) show ?thesis by (auto simp: headersToTuples_def hasHeaderName_def)
qed

lemma normalize_ws_arguments_url:
  "normalize_ws_arguments parse f u os = Inr a \<Longrightarrow> ws_url_ok (arg_url a)"
  by (auto simp: normalize_ws_arguments_def normalizeWebSocketUrl_ok split: if_splits)

lemma native_headers_mode [simp]:
  "nwo_headers (applyNativeEmulationMode t mode) = nwo_headers (t :: NativeWebSocketOptions)"
  "nwo_url (applyNativeEmulationMode t mode) = nwo_url (t :: NativeWebSocketOptions)"
  by (simp_all add: applyNativeEmulationMode_def Let_def split: ResolvedEmulationMode.split option.split)

text \<open>What is promised of a request to the addon, whichever entry point made it.\<close>

definition ws_request_ok :: "native_ws_request \<Rightarrow> bool" where
  "ws_request_ok r = (case r of
      WebsocketConnect o1 \<Rightarrow> ws_url_ok (nwo_url o1) \<and>
        \<not> hasHeaderName (Some (nwo_headers o1)) ''Sec-WebSocket-Protocol''
    | WebsocketConnectSession o1 \<Rightarrow> ws_url_ok (nws_url o1) \<and>
        \<not> hasHeaderName (Some (nws_headers o1)) ''Sec-WebSocket-Protocol'')"

lemma standalone_connect_ok:
  assumes "standalone_connect url opts protocols ph mode = Inr r" "ws_url_ok url"
    and "assertNoManualWebSocketProtocolHeader (lookup opts ''headers'') = Inr ()"
  shows "ws_request_ok r"
  using assms manual_protocol_header by (auto simp: standalone_connect_def ws_request_ok_def)

lemma websocket_ok:
  assumes "websocket parse np u os = Inr i" "init_connect i = Inr r"
  shows "ws_request_ok r"
proof -
  from assms(1) obtain a protocols ph mode where a: "normalizeStandaloneWebSocketArgs parse u os = Inr a"
    "assertNoManualWebSocketProtocolHeader (lookup (arg_options a) ''headers'') = Inr ()"
    "init_connect i = standalone_connect (arg_url a) (arg_options a) protocols ph mode"
    by (auto simp: websocket_def Let_def)
  from a(1) have "ws_url_ok (arg_url a)"
    unfolding normalizeStandaloneWebSocketArgs_def by (rule normalize_ws_arguments_url)
  with a assms(2) show ?thesis by (metis standalone_connect_ok)
qed

lemma buildStandaloneInit_ok:
  assumes "buildStandaloneInit parse np u ps os = Inr i" "init_connect i = Inr r"
  shows "ws_request_ok r"
proof -
  from assms(1) obtain opts url protocols ph mode where a:
    "assertNoManualWebSocketProtocolHeader (lookup opts ''headers'') = Inr ()"
    "normalizeWebSocketUrl parse u = Inr url"
    "init_connect i = standalone_connect url opts protocols ph mode"
    by (auto simp: buildStandaloneInit_def Let_def)
  from a assms(2) normalizeWebSocketUrl_ok show ?thesis by (metis standalone_connect_ok)
qed

lemma session_websocket_ok:
  assumes "session_websocket parse ses u os = Inr i" "init_connect i = Inr r"
  shows "ws_request_ok r \<and> \<not> session_disposed ses \<and>
    (\<exists>o1. r = WebsocketConnectSession o1 \<and> nws_sessionId o1 = session_id ses \<and>
          sd_transportId (session_defaults ses) = Some (nws_transportId o1))"
proof -
  let ?t = "sd_transportId (session_defaults ses)"
  from assms(1) obtain a protocols where a: "normalizeSessionWebSocketArgs parse u os = Inr a"
    "assertNoManualWebSocketProtocolHeader (lookup (arg_options a) ''headers'') = Inr ()"
    "ensureActive ses = Inr ()" "present ?t"
    "init_connect i = session_connect (arg_url a) ses (arg_options a) protocols"
    by (auto simp: session_websocket_def Let_def split: if_splits)
  from a(1) have "ws_url_ok (arg_url a)"
    unfolding normalizeSessionWebSocketArgs_def by (rule normalize_ws_arguments_url)
  moreover from a(5) assms(2) have "session_connect (arg_url a) ses (arg_options a) protocols = Inr r"
    by simp
  then obtain ts where
    ts: "headersToTuples (or_empty (lookup (arg_options a) ''headers'')) = Inr ts"
    and r: "r = WebsocketConnectSession
         \<lparr>nws_url = arg_url a, nws_sessionId = session_id ses, nws_transportId = the ?t,
          nws_headers = ts, nws_protocols = sent_protocols protocols,
          nws_maxFrameSize = lookup (arg_options a) ''maxFrameSize'',
          nws_maxMessageSize = lookup (arg_options a) ''maxMessageSize''\<rparr>"
    by (auto simp: session_connect_def)
  moreover have "?t = Some (the ?t)" using a(4) by (cases ?t) auto
  moreover have "\<not> session_disposed ses" using a(3) by (simp add: ensureActive_def)
  ultimately show ?thesis
    using manual_protocol_header [OF a(2) ts] by (simp add: ws_request_ok_def)
qed

section \<open>Properties\<close>

text \<open>Which protocol lists are accepted: arrays of distinct, non-empty strings of token characters.\<close>

lemma validateWebSocketProtocols_spec:
  "validateWebSocketProtocols (JArray vs) = Inr () \<longleftrightarrow>
     (\<exists>ss. vs = map JString ss \<and> distinct ss \<and> list_all protocol_ok ss)"
  using protocols_of_strings [of vs]
  by (simp add: validateWebSocketProtocols_def js_iterate_def res_bind_Inr_iff unique_loop_Inr)


definition sample_parse :: url_parser where
  "sample_parse s = Inr \<lparr>url_protocol = ''https:'', url_hash = [], url_tail = ''//a/''\<rparr>"

lemma sample_websocket:
  "\<exists>i r. websocket sample_parse sample_profiles (JString ''https://a/'') JUndefined = Inr i \<and>
     init_connect i = Inr r \<and> init_url i = ''wss://a/''"
proof -
  have "trim ''https://a/'' = ''https://a/''" by code_simp
  then have "normalizeWebSocketUrl sample_parse (JString ''https://a/'') = Inr ''wss://a/''"
    by (simp add: normalizeWebSocketUrl_def sample_parse_def ws_protocol_of_def url_toString_def)
  then show ?thesis
    by (simp add: websocket_def normalizeStandaloneWebSocketArgs_def normalize_ws_arguments_def
        is_url_argument_def normalizeStandaloneWebSocketOptions_def validateWebSocketProtocols_def
        assertNoManualWebSocketProtocolHeader_def hasWebSocketProtocolHeader_def resolveEmulationMode_def
        normalizeWebSocketProtocolList_def normalizeProxyHeaders_def standalone_connect_def or_empty_def
        headersToTuples_def Headers_new_def applyInit_def is_array_def isIterable_def)
qed


text \<open>A session's WebSocket options cannot override what the session decides: any of browser, os,
  emulation, proxy and proxyHeaders is refused, and what is accepted has only the keys a session's
  connection uses, with frame and message sizes that are positive safe integers.\<close>

lemma session_options_no_overrides:
  assumes "normalizeSessionWebSocketOptions (JObject ps) = Inr n"
  shows "(\<forall>k \<in> set (map fst session_overrides). lookup ps k = JUndefined) \<and>
    set (map fst n) \<subseteq> {''headers'', ''protocols'', ''maxFrameSize'', ''maxMessageSize'', ''binaryType''} \<and>
    (\<forall>k v. (k, v) \<in> set n \<longrightarrow> k = ''maxFrameSize'' \<or> k = ''maxMessageSize'' \<longrightarrow>
       (\<exists>i. v = JNumber (NumInt i) \<and> 0 < i \<and> i \<le> 9007199254740991))"
proof -
  from assms have overrides: "res_all (\<lambda>(k, message). res_bind (get_prop (JObject ps) k) (\<lambda>v.
        throw_if (v \<noteq> JUndefined) (RequestError message))) session_overrides = Inr ()"
    and n: "normalize_fields session_fields (JObject ps) = Inr n"
    by (auto simp: normalizeSessionWebSocketOptions_def)
  have size: "\<exists>i. v = JNumber (NumInt i) \<and> 0 < i \<and> i \<le> 9007199254740991"
    if "normalizeWebSocketSizeOption l x = Inr v" "v \<noteq> JUndefined" for l x v
    using that by (auto simp: normalizeWebSocketSizeOption_def is_safe_integer_def num_le_def
        split: jsval.splits if_splits number.splits)
  have "\<exists>i. v = JNumber (NumInt i) \<and> 0 < i \<and> i \<le> 9007199254740991"
    if "(k, v) \<in> set n" "k = ''maxFrameSize'' \<or> k = ''maxMessageSize''" for k v
    using normalize_fields_entry [OF n that(1)] that(2) size
    by (auto simp: session_fields_def common_fields_def)
  moreover have "set (map fst n) \<subseteq> {''headers'', ''protocols'', ''maxFrameSize'', ''maxMessageSize'', ''binaryType''}"
    using normalize_fields_keys [OF n] by (auto simp: session_fields_def common_fields_def)
  moreover from overrides have "\<forall>k \<in> set (map fst session_overrides). lookup ps k = JUndefined"
    by (auto simp: res_all_Inr_iff)
  ultimately show ?thesis by blast
qed

lemma session_options_no_overrides_witness:
  "normalizeSessionWebSocketOptions (JObject [(''maxFrameSize'', JNumber (NumInt 5))]) =
     Inr [(''maxFrameSize'', JNumber (NumInt 5))] \<and>
   lookup [(''maxFrameSize'', JNumber (NumInt 5))] ''proxy'' = JUndefined"
proof -
  let ?ps = "[(''maxFrameSize'', JNumber (NumInt 5))]"
  have n: "normalizeSessionWebSocketOptions (JObject ?ps) = Inr ?ps"
    by (simp add: normalizeSessionWebSocketOptions_def session_overrides_def session_fields_def
        common_fields_def copied_def normalizeWebSocketSizeOption_def is_safe_integer_def num_le_def
        binaryType_option_def)
  moreover have "''proxy'' \<in> set (map fst session_overrides)" by (simp add: session_overrides_def)
  ultimately show ?thesis using session_options_no_overrides [OF n] by blast
qed

end
