(* ===== verification/FetchContext.thy ===== *)
theory FetchContext
  imports Sessions
begin

text \<open>
  The first half of \<open>fetch\<close> in src/src/wreq-js.ts: which session and transport a request runs on, and
  the bytes of its body. \<open>RequestInit\<close> is the options object of one call; an absent option is
  \<open>None\<close>, \<open>JUndefined\<close> or the constructor for undefined.
\<close>

section \<open>Options\<close>

text \<open>
  A body, as far as \<open>serializeBody\<close> can tell bodies apart. A view stands for the bytes it shows, a form
  for what the runtime's own \<open>Response\<close> encodes it to; a stream or an iterable is the list of chunks
  it yields and the error it ends with, if any (\<open>None\<close> in an iterable: a chunk that is no view).
\<close>

datatype BodyInit =
    BodyNull
  | BodyString string
  | BodyBuffer "nat list"
  | BodySearchParams string
  | BodyArrayBuffer "nat list"
  | BodyView "nat list"
  | BodyBlob "nat list" string
  | BodyFormData "nat list" "string option"
  | BodyStream "nat list list" "js_error option"
  | BodyIterable "nat list option list" "js_error option"
  | BodyUnsupported

datatype session_argument = SessionFalsy | SessionForeign | SessionObject Session

datatype transport_argument = TransportUndefined | TransportForeign | TransportObject Transport

datatype signal_argument = SignalUndefined | SignalNull | SignalObject nat

record RequestInit =
  ri_method :: "string option"
  ri_headers :: jsval
  ri_body :: "BodyInit option"
  ri_signal :: signal_argument
  ri_redirect :: "string option"
  ri_transport :: transport_argument
  ri_browser :: jsval
  ri_os :: jsval
  ri_emulation :: jsval
  ri_proxy :: jsval
  ri_proxyHeaders :: jsval
  ri_timeout :: jsval
  ri_cookieMode :: "string option"
  ri_session :: session_argument
  ri_sessionId :: jsval
  ri_disableDefaultHeaders :: "bool option"
  ri_insecure :: "bool option"
  ri_trustStore :: jsval
  ri_compress :: "bool option"
  ri_onRequestEvent :: jsval
  ri_captureDiagnostics :: "bool option"

definition empty_init :: RequestInit where
  "empty_init = \<lparr>ri_method = None, ri_headers = JUndefined, ri_body = None, ri_signal = SignalUndefined,
     ri_redirect = None, ri_transport = TransportUndefined, ri_browser = JUndefined, ri_os = JUndefined,
     ri_emulation = JUndefined, ri_proxy = JUndefined, ri_proxyHeaders = JUndefined,
     ri_timeout = JUndefined, ri_cookieMode = None, ri_session = SessionFalsy, ri_sessionId = JUndefined,
     ri_disableDefaultHeaders = None, ri_insecure = None, ri_trustStore = JUndefined, ri_compress = None,
     ri_onRequestEvent = JUndefined, ri_captureDiagnostics = None\<rparr>"

section \<open>The session\<close>

record SessionResolution =
  sr_sessionId :: string
  sr_cookieMode :: string
  sr_dropAfterRequest :: bool
  sr_defaults :: "SessionDefaults option"

text \<open>The counter is the module's \<open>ephemeralIdCounter\<close>.\<close>

definition generateEphemeralSessionId :: "nat \<Rightarrow> string \<times> nat" where
  "generateEphemeralSessionId counter = (''_e'' @ nat_str (counter + 1), counter + 1)"

definition resolveSessionContext :: "RequestInit \<Rightarrow> nat \<Rightarrow> SessionResolution res \<times> nat" where
  "resolveSessionContext config counter =
     (let requestedMode = opt_default (ri_cookieMode config) ''ephemeral'';
          providedSessionId = (case ri_sessionId config of JString s \<Rightarrow> Some (trim s) | _ \<Rightarrow> None) in
      if ri_session config \<noteq> SessionFalsy \<and> present providedSessionId
      then (Inl (RequestError ''Provide either `session` or `sessionId`, not both.''), counter)
      else case ri_session config of
        SessionForeign \<Rightarrow>
          (Inl (RequestError ''`session` must be created via createSession()''), counter)
      | SessionObject ses \<Rightarrow>
          (if session_disposed ses then (Inl (RequestError ''Session has been closed''), counter)
           else (Inr \<lparr>sr_sessionId = session_id ses, sr_cookieMode = ''session'',
                      sr_dropAfterRequest = False, sr_defaults = Some (session_defaults ses)\<rparr>, counter))
      | SessionFalsy \<Rightarrow>
          (if present providedSessionId then
             (if requestedMode = ''ephemeral''
              then (Inl (RequestError (''cookieMode '' @ squote @ ''ephemeral'' @ squote @
                          '' cannot be combined with sessionId'')), counter)
              else (Inr \<lparr>sr_sessionId = the providedSessionId, sr_cookieMode = ''session'',
                         sr_dropAfterRequest = False, sr_defaults = None\<rparr>, counter))
           else if requestedMode = ''session''
           then (Inl (RequestError (''cookieMode '' @ squote @ ''session'' @ squote @
                       '' requires a session or sessionId'')), counter)
           else (let (i, counter') = generateEphemeralSessionId counter in
                 (Inr \<lparr>sr_sessionId = i, sr_cookieMode = ''ephemeral'', sr_dropAfterRequest = True,
                       sr_defaults = None\<rparr>, counter'))))"

section \<open>The transport\<close>

record TransportResolution =
  tr_transportId :: "string option"
  tr_mode :: "ResolvedEmulationMode option"
  tr_proxy :: jsval
  tr_proxyHeaders :: "HeaderTuple list option"
  tr_insecure :: "bool option"
  tr_trustStore :: jsval
  tr_captureDiagnostics :: "bool option"

definition fixed_transport :: "string \<Rightarrow> bool option \<Rightarrow> TransportResolution" where
  "fixed_transport i captureDiagnostics =
     \<lparr>tr_transportId = Some i, tr_mode = None, tr_proxy = JUndefined, tr_proxyHeaders = None,
      tr_insecure = None, tr_trustStore = JUndefined, tr_captureDiagnostics = captureDiagnostics\<rparr>"

definition locked_browser :: "ResolvedEmulationMode \<Rightarrow> string option" where
  "locked_browser mode = (case mode of CustomMode j \<Rightarrow> None | PresetMode b os j \<Rightarrow> Some b)"

definition locked_os :: "ResolvedEmulationMode \<Rightarrow> jsval" where
  "locked_os mode = (case mode of CustomMode j \<Rightarrow> JUndefined | PresetMode b os j \<Rightarrow> JString os)"

definition or_null :: "jsval \<Rightarrow> jsval" where
  "or_null v = (if nullish v then JNull else v)"

definition or_default_trust :: "jsval \<Rightarrow> jsval" where
  "or_default_trust v = (if nullish v then DEFAULT_TRUST_STORE else v)"

text \<open>With a transport of its own, a request may set none of the options a transport decides.\<close>

definition own_transport :: "RequestInit \<Rightarrow> Transport \<Rightarrow> TransportResolution res" where
  "own_transport config t =
     (if transport_disposed t then Inl (RequestError ''Transport has been closed'')
      else if ri_browser config \<noteq> JUndefined \<or> ri_os config \<noteq> JUndefined \<or>
              ri_emulation config \<noteq> JUndefined \<or> ri_proxy config \<noteq> JUndefined \<or>
              ri_proxyHeaders config \<noteq> JUndefined \<or> ri_insecure config \<noteq> None \<or>
              ri_trustStore config \<noteq> JUndefined
      then Inl (RequestError ''`transport` cannot be combined with browser/os/emulation/proxy/proxyHeaders/insecure/trustStore options'')
      else Inr (fixed_transport (transport_id t) (ri_captureDiagnostics config)))"

text \<open>On a session's transport, a request may only repeat what the session was created with.\<close>

definition session_transport ::
  "native_profiles \<Rightarrow> RequestInit \<Rightarrow> SessionDefaults \<Rightarrow> string \<Rightarrow> TransportResolution res" where
  "session_transport np config d transportId =
     res_bind (throw_if (ri_emulation config \<noteq> JUndefined)
       (RequestError ''Session emulation cannot be changed after creation'')) (\<lambda>_.
     res_bind (if ri_browser config = JUndefined then Inr ()
               else res_bind (resolveProfile np (ri_browser config)) (\<lambda>requestedBrowser.
                 throw_if (Some requestedBrowser \<noteq> locked_browser (sd_transportMode d))
                   (RequestError ''Session browser cannot be changed after creation''))) (\<lambda>_.
     res_bind (if ri_os config = JUndefined then Inr ()
               else res_bind (validateOperatingSystem np (ri_os config)) (\<lambda>_.
                 throw_if (ri_os config \<noteq> locked_os (sd_transportMode d))
                   (RequestError ''Session operating system cannot be changed after creation''))) (\<lambda>_.
     res_bind (throw_if (ri_proxy config \<noteq> JUndefined \<and> or_null (sd_proxy d) \<noteq> or_null (ri_proxy config))
       (RequestError ''Session proxy cannot be changed after creation'')) (\<lambda>_.
     res_bind (normalizeProxyHeaders (ri_proxyHeaders config)) (\<lambda>requestedProxyHeaders.
     res_bind (throw_if (requestedProxyHeaders \<noteq> None \<and>
                 \<not> headerTuplesEqual (sd_proxyHeaders d) requestedProxyHeaders)
       (RequestError ''Session proxyHeaders cannot be changed after creation'')) (\<lambda>_.
     res_bind (throw_if (ri_insecure config \<noteq> None \<and>
                 the (ri_insecure config) \<noteq> opt_default (sd_insecure d) False)
       (RequestError ''Session insecure setting cannot be changed after creation'')) (\<lambda>_.
     res_bind (throw_if (ri_trustStore config \<noteq> JUndefined \<and>
                 ri_trustStore config \<noteq> or_default_trust (sd_trustStore d))
       (RequestError ''Session trustStore setting cannot be changed after creation'')) (\<lambda>_.
     Inr (fixed_transport transportId
       (opt_or (ri_captureDiagnostics config) (sd_captureDiagnostics d)))))))))))"

definition fresh_transport :: "native_profiles \<Rightarrow> RequestInit \<Rightarrow> TransportResolution res" where
  "fresh_transport np config =
     res_bind (resolveEmulationMode np (ri_browser config) (ri_os config) (ri_emulation config)) (\<lambda>mode.
     res_bind (normalizeProxyHeaders (ri_proxyHeaders config)) (\<lambda>proxyHeaders.
     Inr \<lparr>tr_transportId = None, tr_mode = Some mode, tr_proxy = ri_proxy config,
          tr_proxyHeaders = proxyHeaders, tr_insecure = ri_insecure config,
          tr_trustStore = or_default_trust (ri_trustStore config),
          tr_captureDiagnostics = ri_captureDiagnostics config\<rparr>))"

definition resolveTransportContext ::
  "native_profiles \<Rightarrow> RequestInit \<Rightarrow> SessionDefaults option \<Rightarrow> TransportResolution res" where
  "resolveTransportContext np config sessionDefaults = (case ri_transport config of
      TransportForeign \<Rightarrow> Inl (RequestError ''`transport` must be created via createTransport()'')
    | TransportObject t \<Rightarrow> own_transport config t
    | TransportUndefined \<Rightarrow>
        (case sessionDefaults of
           Some d \<Rightarrow>
             (if present (sd_transportId d)
              then session_transport np config d (the (sd_transportId d))
              else fresh_transport np config)
         | None \<Rightarrow> fresh_transport np config))"

section \<open>The body\<close>

record SerializedBody =
  sb_body :: "nat list option"
  sb_contentType :: "string option"

definition no_body :: SerializedBody where
  "no_body = \<lparr>sb_body = None, sb_contentType = None\<rparr>"

definition body_of :: "nat list \<Rightarrow> SerializedBody" where
  "body_of bs = \<lparr>sb_body = Some bs, sb_contentType = None\<rparr>"

definition typed_body :: "nat list \<Rightarrow> string \<Rightarrow> SerializedBody" where
  "typed_body bs contentType =
     \<lparr>sb_body = Some bs, sb_contentType = (if contentType = [] then None else Some contentType)\<rparr>"

definition chunk_error :: js_error where
  "chunk_error = TypeError ''Iterable request bodies must yield Uint8Array chunks''"

fun iterable_chunks :: "nat list option list \<Rightarrow> js_error option \<Rightarrow> nat list list res" where
  "iterable_chunks [] None = Inr []"
| "iterable_chunks [] (Some e) = Inl e"
| "iterable_chunks (None # rest) e = Inl chunk_error"
| "iterable_chunks (Some chunk # rest) e =
     res_bind (iterable_chunks rest e) (\<lambda>chunks. Inr (chunk # chunks))"

definition serializeBody :: "BodyInit \<Rightarrow> SerializedBody res" where
  "serializeBody body = (case body of
      BodyNull \<Rightarrow> Inr no_body
    | BodyString s \<Rightarrow> Inr (body_of (utf8_bytes s))
    | BodyBuffer bs \<Rightarrow> Inr (body_of bs)
    | BodySearchParams s \<Rightarrow>
        Inr (typed_body (utf8_bytes s) ''application/x-www-form-urlencoded;charset=UTF-8'')
    | BodyArrayBuffer bs \<Rightarrow> Inr (body_of bs)
    | BodyView bs \<Rightarrow> Inr (body_of bs)
    | BodyBlob bs type \<Rightarrow> Inr (typed_body bs type)
    | BodyFormData bs type \<Rightarrow> Inr (typed_body bs (opt_default type []))
    | BodyStream chunks e \<Rightarrow> (case e of Some err \<Rightarrow> Inl err | None \<Rightarrow> Inr (body_of (concat chunks)))
    | BodyIterable chunks e \<Rightarrow>
        res_bind (iterable_chunks chunks e) (\<lambda>cs. Inr (body_of (concat cs)))
    | BodyUnsupported \<Rightarrow> Inl (TypeError ''Unsupported body type; expected string, Buffer, ArrayBuffer, ArrayBufferView, URLSearchParams, Blob, FormData, ReadableStream, or an iterable of Uint8Array''))"

section \<open>What the contexts guarantee\<close>

lemma ephemeral_digits: "digit_char d = digit_char d' \<Longrightarrow> d < 10 \<Longrightarrow> d' < 10 \<Longrightarrow> d = d'"
proof -
  assume eq: "digit_char d = digit_char d'" and d: "d < 10" "d' < 10"
  have "(of_char (digit_char n) :: nat) = 48 + n" if "n < 10" for n
    using that by (simp add: digit_char_def)
  with eq d show "d = d'" by (metis add_left_cancel)
qed

lemma nat_str_not_Nil [simp]: "nat_str n \<noteq> []" "[] \<noteq> nat_str n"
  by (subst nat_str.simps, simp)+

lemma nat_str_inj: "nat_str m = nat_str n \<Longrightarrow> m = n"
proof (induction m arbitrary: n rule: nat_str.induct)
  case (1 m)
  have m: "nat_str m = (if m < 10 then [digit_char m] else nat_str (m div 10) @ [digit_char (m mod 10)])"
    and n: "nat_str n = (if n < 10 then [digit_char n] else nat_str (n div 10) @ [digit_char (n mod 10)])"
    by (rule nat_str.simps)+
  show ?case
  proof (cases "m < 10 \<or> n < 10")
    case True
    with 1(2) m n have "m < 10 \<and> n < 10 \<and> digit_char m = digit_char n"
      by (auto split: if_splits)
    then show ?thesis using ephemeral_digits by blast
  next
    case False
    with 1(2) m n have "nat_str (m div 10) = nat_str (n div 10)"
      "digit_char (m mod 10) = digit_char (n mod 10)" by auto
    with 1(1) False ephemeral_digits have "m div 10 = n div 10" "m mod 10 = n mod 10" by auto
    then show ?thesis by (metis div_mult_mod_eq)
  qed
qed

lemma iterable_chunks_Inr:
  "iterable_chunks cs e = Inr bs \<longleftrightarrow> e = None \<and> cs = map Some bs"
  by (induction cs e arbitrary: bs rule: iterable_chunks.induct) (auto simp: res_bind_Inr_iff Cons_eq_map_conv)

text \<open>What a request on a session's transport may say.\<close>

lemma session_transport_Inr:
  "session_transport np config d i = Inr r \<longleftrightarrow>
     r = fixed_transport i (opt_or (ri_captureDiagnostics config) (sd_captureDiagnostics d)) \<and>
     ri_emulation config = JUndefined \<and>
     (ri_browser config = JUndefined \<or>
        (\<exists>b. resolveProfile np (ri_browser config) = Inr b \<and> locked_browser (sd_transportMode d) = Some b)) \<and>
     (ri_os config = JUndefined \<or>
        validateOperatingSystem np (ri_os config) = Inr () \<and> ri_os config = locked_os (sd_transportMode d)) \<and>
     (ri_proxy config = JUndefined \<or> or_null (sd_proxy d) = or_null (ri_proxy config)) \<and>
     (\<exists>ph. normalizeProxyHeaders (ri_proxyHeaders config) = Inr ph \<and>
        (ph = None \<or> headerTuplesEqual (sd_proxyHeaders d) ph)) \<and>
     (ri_insecure config = None \<or> ri_insecure config = Some (opt_default (sd_insecure d) False)) \<and>
     (ri_trustStore config = JUndefined \<or> ri_trustStore config = or_default_trust (sd_trustStore d))"
  unfolding session_transport_def res_bind_Inr_iff
  by (cases "ri_insecure config") (auto simp: res_bind_Inr_iff)

end
