(* ===== verification/Fetch.thy ===== *)
theory Fetch
  imports FetchContext
begin

text \<open>
  The rest of \<open>fetch\<close> in src/src/wreq-js.ts: the resolution of its arguments, the options of the native
  request, and \<open>dispatchRequest\<close> with its abort signal; then \<open>request\<close>, \<open>get\<close>, \<open>post\<close> and
  \<open>Session.fetch\<close> on top of it.

  The module's mutable state is \<open>fetch_state\<close>: the store of header arrays, the counter of ephemeral
  sessions and the counter of request identifiers. \<open>prepare_fetch\<close> is everything before
  \<open>dispatchRequest\<close>. What the signal and the addon do during one request is a parameter of
  \<open>dispatchRequest\<close>: whether and when the signal fires, and how the native promise ends.
\<close>

section \<open>Arguments\<close>

text \<open>A \<open>Request\<close> object; \<open>rl_body\<close> is absent when its body is null, else what \<open>arrayBuffer\<close> gives.\<close>

record RequestLike =
  rl_url :: string
  rl_method :: string
  rl_headers :: jsval
  rl_signal :: signal_argument
  rl_redirect :: string
  rl_bodyUsed :: bool
  rl_body :: "nat list res option"

datatype fetch_input = PlainInput url_input | RequestInput RequestLike

definition redirect_mode :: "string \<Rightarrow> bool" where
  "redirect_mode m \<longleftrightarrow> m = ''follow'' \<or> m = ''manual'' \<or> m = ''error''"

definition request_body :: "RequestInit \<Rightarrow> RequestLike \<Rightarrow> BodyInit option res" where
  "request_body i r = (case (ri_body i, rl_body r) of
      (None, Some content) \<Rightarrow>
        (if rl_bodyUsed r then Inl (TypeError ''Request body is already used'')
         else res_bind content (\<lambda>bs. Inr (Some (BodyBuffer bs))))
    | _ \<Rightarrow> Inr (ri_body i))"

definition resolveFetchArgs :: "fetch_input \<Rightarrow> RequestInit option \<Rightarrow> (string \<times> RequestInit) res" where
  "resolveFetchArgs input init = (case input of
      PlainInput u \<Rightarrow> res_bind (coerceUrlInput u) (\<lambda>url. Inr (url, opt_default init empty_init))
    | RequestInput r \<Rightarrow>
        (let i = opt_default init empty_init;
             merged = i\<lparr>ri_method := opt_or (ri_method i) (Some (rl_method r)),
                        ri_headers := (if ri_headers i = JUndefined then rl_headers r else ri_headers i),
                        ri_redirect := (if ri_redirect i = None \<and> redirect_mode (rl_redirect r)
                                        then Some (rl_redirect r) else ri_redirect i),
                        ri_signal := (if ri_signal i = SignalUndefined then rl_signal r else ri_signal i)\<rparr> in
         res_bind (request_body i r) (\<lambda>body.
         res_bind (coerceUrlInput (UrlString (rl_url r))) (\<lambda>url.
         Inr (url, merged\<lparr>ri_body := body\<rparr>)))))"

section \<open>The native request\<close>

record NativeRequestOptions = native_emulation +
  nro_url :: string
  nro_method :: string
  nro_headers :: "HeaderTuple list option"
  nro_body :: "nat list option"
  nro_proxy :: jsval
  nro_proxyHeaders :: "HeaderTuple list option"
  nro_timeout :: jsval
  nro_redirect :: "string option"
  nro_sessionId :: string
  nro_ephemeral :: bool
  nro_disableDefaultHeaders :: "bool option"
  nro_insecure :: "bool option"
  nro_trustStore :: jsval
  nro_transportId :: "string option"
  nro_compress :: "bool option"
  nro_captureDiagnostics :: "bool option"
  nro_onRequestEvent :: jsval

record fetch_state =
  fs_heap :: tuple_heap
  fs_ephemeral :: nat
  fs_requestId :: nat

definition DEFAULT_REQUEST_TIMEOUT_MS :: jsval where
  "DEFAULT_REQUEST_TIMEOUT_MS = JNumber (NumInt 300000)"

definition coalesce :: "jsval \<Rightarrow> jsval \<Rightarrow> jsval" where
  "coalesce v w = (if nullish v then w else v)"

text \<open>
  \<open>headerTuples.push\<close> on the array that \<open>mergeHeaderTuples\<close> returned, or on a new one.
\<close>

definition add_content_type ::
  "SerializedBody \<Rightarrow> nat option \<Rightarrow> tuple_heap \<Rightarrow> nat option \<times> tuple_heap" where
  "add_content_type serializedBody headerTuples h = (case sb_contentType serializedBody of
      None \<Rightarrow> (headerTuples, h)
    | Some contentType \<Rightarrow>
        (if hasHeaderName (deref h headerTuples) ''content-type'' then (headerTuples, h)
         else case headerTuples of
           None \<Rightarrow> (let (a, h') = heap_alloc h [(''Content-Type'', contentType)] in (Some a, h'))
         | Some a \<Rightarrow> (Some a, heap_push h a (''Content-Type'', contentType))))"

definition request_options ::
  "string \<Rightarrow> RequestInit \<Rightarrow> SessionResolution \<Rightarrow> nat list option \<Rightarrow> HeaderTuple list option \<Rightarrow>
     TransportResolution \<Rightarrow> NativeRequestOptions" where
  "request_options url config ctx body headerTuples transport =
     (let base =
        \<lparr>native_browser = None, native_os = None, native_emulationJson = None,
         nro_url = url, nro_method = ensureMethod (ri_method config),
         nro_headers = (if headerTuples = Some [] then None else headerTuples),
         nro_body = body, nro_proxy = JUndefined, nro_proxyHeaders = None,
         nro_timeout = coalesce (ri_timeout config)
           (coalesce (case sr_defaults ctx of None \<Rightarrow> JUndefined | Some d \<Rightarrow> sd_timeout d)
              DEFAULT_REQUEST_TIMEOUT_MS),
         nro_redirect = ri_redirect config, nro_sessionId = sr_sessionId ctx,
         nro_ephemeral = sr_dropAfterRequest ctx,
         nro_disableDefaultHeaders = ri_disableDefaultHeaders config, nro_insecure = None,
         nro_trustStore = JUndefined, nro_transportId = None, nro_compress = ri_compress config,
         nro_captureDiagnostics = tr_captureDiagnostics transport,
         nro_onRequestEvent = ri_onRequestEvent config\<rparr> in
      if present (tr_transportId transport) then base\<lparr>nro_transportId := tr_transportId transport\<rparr>
      else
        (let base' = (case tr_mode transport of None \<Rightarrow> base | Some mode \<Rightarrow> applyNativeEmulationMode base mode) in
         base'\<lparr>nro_proxy := tr_proxy transport, nro_proxyHeaders := tr_proxyHeaders transport,
               nro_insecure := tr_insecure transport, nro_trustStore := tr_trustStore transport\<rparr>))"

text \<open>The checks between the session context and the headers, with the serialised body.\<close>

definition check_request :: "RequestInit \<Rightarrow> SerializedBody res" where
  "check_request config =
     res_bind (validateRedirectMode (ri_redirect config)) (\<lambda>_.
     res_bind (when_defined (ri_timeout config) validateTimeout) (\<lambda>_.
     res_bind (validateTrustStore (ri_trustStore config)) (\<lambda>_.
     res_bind (serializeBody (opt_default (ri_body config) BodyNull)) (\<lambda>serializedBody.
     res_bind (ensureBodyAllowed (ensureMethod (ri_method config)) (sb_body serializedBody)) (\<lambda>_.
     Inr serializedBody)))))"

definition default_headers :: "SessionResolution \<Rightarrow> nat option" where
  "default_headers ctx = (case sr_defaults ctx of None \<Rightarrow> None | Some d \<Rightarrow> sd_defaultHeaders d)"

text \<open>
  \<open>fetch\<close> waits for \<open>serializeBody\<close>, so it runs in two turns with anything in between: the session is
  resolved in the first, the headers and the transport in the second.
\<close>

definition begin_request ::
  "RequestInit \<Rightarrow> nat \<Rightarrow> (SessionResolution \<times> SerializedBody) res \<times> nat" where
  "begin_request config counter =
     (let (resolved, counter') = resolveSessionContext config counter in
      (res_bind resolved (\<lambda>ctx. res_bind (check_request config) (\<lambda>serializedBody.
         Inr (ctx, serializedBody))), counter'))"

definition finish_request ::
  "native_profiles \<Rightarrow> string \<Rightarrow> RequestInit \<Rightarrow> SessionResolution \<Rightarrow> SerializedBody \<Rightarrow> tuple_heap \<Rightarrow>
     NativeRequestOptions res \<times> tuple_heap" where
  "finish_request np url config ctx serializedBody h =
     (case mergeHeaderTuples h (default_headers ctx) (ri_headers config) of
        Inl e \<Rightarrow> (Inl e, h)
      | Inr (merged, h1) \<Rightarrow>
          (let (headerTuples, h2) = add_content_type serializedBody merged h1 in
           case resolveTransportContext np config (sr_defaults ctx) of
             Inl e \<Rightarrow> (Inl e, h2)
           | Inr transport \<Rightarrow>
               (Inr (request_options url config ctx (sb_body serializedBody)
                       (deref h2 headerTuples) transport), h2)))"

definition prepare_request ::
  "native_profiles \<Rightarrow> string \<Rightarrow> RequestInit \<Rightarrow> fetch_state \<Rightarrow> NativeRequestOptions res \<times> fetch_state" where
  "prepare_request np url config st =
     (let (r, counter) = begin_request config (fs_ephemeral st);
          st1 = st\<lparr>fs_ephemeral := counter\<rparr> in
      case r of
        Inl e \<Rightarrow> (Inl e, st1)
      | Inr (ctx, serializedBody) \<Rightarrow>
          (let (o1, h) = finish_request np url config ctx serializedBody (fs_heap st1) in
           (o1, st1\<lparr>fs_heap := h\<rparr>)))"

definition prepare_fetch ::
  "native_profiles \<Rightarrow> fetch_input \<Rightarrow> RequestInit option \<Rightarrow> fetch_state \<Rightarrow>
     (NativeRequestOptions \<times> signal_argument) res \<times> fetch_state" where
  "prepare_fetch np input init st =
     (case resolveFetchArgs input init of
        Inl e \<Rightarrow> (Inl e, st)
      | Inr (url, config) \<Rightarrow>
          (let (r, st') = prepare_request np url config st in
           (res_bind r (\<lambda>o1. Inr (o1, ri_signal config)), st')))"

section \<open>Request identifiers\<close>

definition REQUEST_ID_MAX :: nat where
  "REQUEST_ID_MAX = 2 ^ 48"

text \<open>The seed, from the value of \<open>process.hrtime.bigint()\<close>.\<close>

definition seed_request_id :: "nat \<Rightarrow> nat" where
  "seed_request_id hrtime = hrtime mod (REQUEST_ID_MAX - 1) + 1"

definition generateRequestId :: "nat \<Rightarrow> nat" where
  "generateRequestId counter = (if counter + 1 \<ge> REQUEST_ID_MAX then 1 else counter + 1)"

section \<open>Dispatching\<close>

datatype abort_reason =
    ReasonString string
  | ReasonDOMException string string
  | ReasonError string
  | ReasonOther

definition aborted_message :: string where
  "aborted_message = ''The operation was aborted''"

text \<open>The runtime has \<open>DOMException\<close>.\<close>

definition createAbortError :: "abort_reason \<Rightarrow> js_error" where
  "createAbortError reason = (case reason of
      ReasonDOMException name message \<Rightarrow>
        (if name = ''AbortError'' then AbortError message
         else AbortError (if message = [] then aborted_message else message))
    | ReasonError message \<Rightarrow> AbortError message
    | ReasonString s \<Rightarrow> AbortError s
    | ReasonOther \<Rightarrow> AbortError aborted_message)"

definition isAbortError :: "js_error \<Rightarrow> bool" where
  "isAbortError e \<longleftrightarrow> error_name e = ''AbortError''"

definition as_request_error :: "js_error \<Rightarrow> js_error" where
  "as_request_error e = (case e of RequestError m \<Rightarrow> e | _ \<Rightarrow> RequestError (error_string e))"

text \<open>
  How one request goes: the call of the addon throws at once, or its promise settles; the signal, if
  there is one, has fired before the call, fires before the promise settles, or does not.
\<close>

datatype 'p native_outcome = ThrowsAtOnce js_error | Settles "'p res"

datatype signal_fate = FiredBefore abort_reason | FiresFirst abort_reason | NeverFires

datatype native_call = CallRequest nat bool | CallCancel nat

record 'p dispatch_result =
  dr_result :: "'p res"
  dr_calls :: "native_call list"
  dr_listening :: bool

definition dispatchRequest ::
  "bool \<Rightarrow> signal_fate \<Rightarrow> 'p native_outcome \<Rightarrow> nat \<Rightarrow> 'p dispatch_result" where
  "dispatchRequest has_signal fate outcome requestId =
     (if \<not> has_signal then
        (case outcome of
           ThrowsAtOnce e \<Rightarrow> \<lparr>dr_result = Inl (as_request_error e),
             dr_calls = [CallRequest requestId False], dr_listening = False\<rparr>
         | Settles r \<Rightarrow> \<lparr>dr_result = (case r of Inl e \<Rightarrow> Inl (as_request_error e) | Inr p \<Rightarrow> Inr p),
             dr_calls = [CallRequest requestId False], dr_listening = False\<rparr>)
      else
        (case fate of
           FiredBefore reason \<Rightarrow> \<lparr>dr_result = Inl (createAbortError reason),
             dr_calls = [CallCancel requestId], dr_listening = False\<rparr>
         | _ \<Rightarrow>
             (case outcome of
                ThrowsAtOnce e \<Rightarrow> \<lparr>dr_result = Inl e, dr_calls = [CallRequest requestId True],
                  dr_listening = True\<rparr>
              | Settles r \<Rightarrow>
                  (case fate of
                     FiresFirst reason \<Rightarrow> \<lparr>dr_result = Inl (createAbortError reason),
                       dr_calls = [CallRequest requestId True, CallCancel requestId],
                       dr_listening = False\<rparr>
                   | _ \<Rightarrow> \<lparr>dr_result = (case r of
                            Inl e \<Rightarrow> Inl (if isAbortError e then e else as_request_error e)
                          | Inr p \<Rightarrow> Inr p),
                       dr_calls = [CallRequest requestId True], dr_listening = False\<rparr>))))"

text \<open>
  \<open>fetch\<close>: \<open>fate\<close> says what becomes of each signal, \<open>send\<close> how the addon answers. A successful
  result is the payload and the request URL, which the new \<open>Response\<close> keeps.
\<close>

definition fetch ::
  "native_profiles \<Rightarrow> (nat \<Rightarrow> signal_fate) \<Rightarrow> (NativeRequestOptions \<Rightarrow> 'p native_outcome) \<Rightarrow> fetch_input \<Rightarrow>
     RequestInit option \<Rightarrow> fetch_state \<Rightarrow> ('p \<times> string) res \<times> native_call list \<times> fetch_state" where
  "fetch np fate send input init st =
     (case prepare_fetch np input init st of
        (Inl e, st') \<Rightarrow> (Inl e, [], st')
      | (Inr (o1, signal), st') \<Rightarrow>
          (let requestId = generateRequestId (fs_requestId st');
               d = (case signal of
                      SignalObject k \<Rightarrow> dispatchRequest True (fate k) (send o1) requestId
                    | _ \<Rightarrow> dispatchRequest False NeverFires (send o1) requestId) in
           (res_bind (dr_result d) (\<lambda>p. Inr (p, nro_url o1)), dr_calls d,
            st'\<lparr>fs_requestId := requestId\<rparr>)))"

section \<open>The functions on top\<close>

definition session_fetch_init :: "Session \<Rightarrow> RequestInit option \<Rightarrow> RequestInit option res" where
  "session_fetch_init ses init =
     res_bind (ensureActive ses) (\<lambda>_.
       Inr (Some ((opt_default init empty_init)\<lparr>ri_session := SessionObject ses\<rparr>)))"

definition get_init :: "RequestInit option \<Rightarrow> RequestInit" where
  "get_init init = (opt_default init empty_init)\<lparr>ri_method := Some ''GET''\<rparr>"

definition post_init :: "BodyInit option \<Rightarrow> RequestInit option \<Rightarrow> RequestInit" where
  "post_init body init =
     (let config = (opt_default init empty_init)\<lparr>ri_method := Some ''POST''\<rparr> in
      case body of None \<Rightarrow> config | Some b \<Rightarrow> config\<lparr>ri_body := Some b\<rparr>)"

text \<open>The options of the deprecated \<open>request\<close>: a URL, \<open>ephemeral\<close>, and options named as \<open>fetch\<close>'s.\<close>

record RequestOptions =
  ro_url :: string
  ro_init :: RequestInit
  ro_ephemeral :: bool

definition request_init :: "RequestOptions \<Rightarrow> RequestInit res" where
  "request_init options =
     (let rest = ro_init options in
      if ro_url options = [] then Inl (RequestError ''URL is required'')
      else Inr (empty_init\<lparr>
        ri_method := ri_method rest, ri_headers := ri_headers rest, ri_body := ri_body rest,
        ri_browser := ri_browser rest, ri_os := ri_os rest, ri_emulation := ri_emulation rest,
        ri_proxy := ri_proxy rest, ri_proxyHeaders := ri_proxyHeaders rest,
        ri_timeout := ri_timeout rest, ri_sessionId := ri_sessionId rest,
        ri_transport := ri_transport rest, ri_insecure := ri_insecure rest,
        ri_trustStore := ri_trustStore rest, ri_disableDefaultHeaders := ri_disableDefaultHeaders rest,
        ri_redirect := ri_redirect rest, ri_signal := ri_signal rest, ri_session := ri_session rest,
        ri_cookieMode := (case ri_cookieMode rest of
            Some m \<Rightarrow> Some m
          | None \<Rightarrow> (if ro_ephemeral options then Some ''ephemeral'' else None)),
        ri_onRequestEvent := ri_onRequestEvent rest,
        ri_captureDiagnostics := ri_captureDiagnostics rest\<rparr>))"

end
