(* ===== verification/FetchProperties.thy ===== *)
theory FetchProperties
  imports Fetch
begin

text \<open>
  What holds of the requests that \<open>fetch\<close> hands to the addon: their identifiers, the session and
  transport they run on, their headers and bodies, how they end; and the two flaws the model shows, a
  session whose default headers are changed by a request, and a signal left with its listener.
\<close>

section \<open>Request identifiers\<close>

lemma generateRequestId_step:
  assumes "c < REQUEST_ID_MAX - 1"
  shows "generateRequestId (c + 1) = (c + 1) mod (REQUEST_ID_MAX - 1) + 1"
proof (cases "c + 1 = REQUEST_ID_MAX - 1")
  case True
  then show ?thesis by (simp add: generateRequestId_def)
next
  case False
  with assms have "c + 1 < REQUEST_ID_MAX - 1" by simp
  then show ?thesis by (simp add: generateRequestId_def)
qed

lemma generateRequestId_power:
  "(generateRequestId ^^ k) (c mod (REQUEST_ID_MAX - 1) + 1) = (c + k) mod (REQUEST_ID_MAX - 1) + 1"
proof (induction k)
  case (Suc k)
  have pos: "0 < REQUEST_ID_MAX - 1" by (simp add: REQUEST_ID_MAX_def)
  then have "(c + k) mod (REQUEST_ID_MAX - 1) < REQUEST_ID_MAX - 1" by simp
  from generateRequestId_step [OF this] Suc show ?case by (simp add: mod_Suc_eq)
qed simp

lemma mod_distinct:
  fixes i j m :: nat
  assumes "i < j" "j < i + m"
  shows "(c + i) mod m \<noteq> (c + j) mod m"
proof
  assume "(c + i) mod m = (c + j) mod m"
  moreover have "c + i \<le> c + j" using assms by simp
  ultimately have "m dvd (c + j) - (c + i)" by (metis mod_eq_dvd_iff_nat)
  with assms show False by (auto dest: dvd_imp_le)
qed

section \<open>Headers and the store of arrays\<close>

definition with_content_type :: "SerializedBody \<Rightarrow> HeaderTuple list option \<Rightarrow> HeaderTuple list option" where
  "with_content_type sb merged = (case sb_contentType sb of
      None \<Rightarrow> merged
    | Some ct \<Rightarrow> (if hasHeaderName merged ''content-type'' then merged
                 else Some (opt_default merged [] @ [(''Content-Type'', ct)])))"

lemma add_content_type_value:
  "add_content_type sb r h = (r', h') \<Longrightarrow> deref h' r' = with_content_type sb (deref h r)"
  by (auto simp: add_content_type_def with_content_type_def deref_def heap_alloc_def heap_push_def Let_def
      split: option.splits if_splits)

lemma add_content_type_heap:
  assumes "add_content_type sb r h' = (r', h'')" "heap_extends h h'" "\<forall>a. r = Some a \<longrightarrow> heap_next h \<le> a"
  shows "heap_extends h h''"
  using assms heap_extends_trans [OF assms(2) heap_extends_alloc]
  by (auto simp: add_content_type_def Let_def case_prod_unfold heap_push_fresh split: option.splits if_splits)

lemmas prepare_request_parts = prepare_request_def begin_request_def finish_request_def

text \<open>A successful preparation, taken apart.\<close>

lemma prepare_request_Inr:
  assumes "prepare_request np url config st = (Inr o1, st')"
  obtains ctx counter sb merged h1 r' h2 transport where
    "resolveSessionContext config (fs_ephemeral st) = (Inr ctx, counter)"
    "check_request config = Inr sb"
    "mergeHeaderTuples (fs_heap st) (default_headers ctx) (ri_headers config) = Inr (merged, h1)"
    "add_content_type sb merged h1 = (r', h2)"
    "resolveTransportContext np config (sr_defaults ctx) = Inr transport"
    "o1 = request_options url config ctx (sb_body sb) (deref h2 r') transport"
    "st' = st\<lparr>fs_ephemeral := counter, fs_heap := h2\<rparr>"
proof -
  obtain resolved counter where s: "resolveSessionContext config (fs_ephemeral st) = (resolved, counter)"
    by fastforce
  with assms obtain ctx where ctx: "resolved = Inr ctx"
    by (cases resolved) (auto simp: prepare_request_parts Let_def)
  with assms s obtain sb where sb: "check_request config = Inr sb"
    by (cases "check_request config") (auto simp: prepare_request_parts Let_def)
  with assms s ctx obtain merged h1 where
    m: "mergeHeaderTuples (fs_heap st) (default_headers ctx) (ri_headers config) = Inr (merged, h1)"
    by (cases "mergeHeaderTuples (fs_heap st) (default_headers ctx) (ri_headers config)")
      (auto simp: prepare_request_parts Let_def)
  obtain r' h2 where c: "add_content_type sb merged h1 = (r', h2)" by fastforce
  with assms s ctx sb m obtain transport where
    t: "resolveTransportContext np config (sr_defaults ctx) = Inr transport"
    by (cases "resolveTransportContext np config (sr_defaults ctx)")
      (auto simp: prepare_request_parts Let_def)
  show ?thesis
    by (rule that [OF _ sb m c t]) (use assms s ctx sb m c t in \<open>auto simp: prepare_request_parts Let_def\<close>)
qed

lemma prepare_request_heap:
  assumes "prepare_request np url config st = (r, st')"
    and "\<And>ctx. fst (resolveSessionContext config (fs_ephemeral st)) = Inr ctx \<Longrightarrow>
      \<forall>a h1. mergeHeaderTuples (fs_heap st) (default_headers ctx) (ri_headers config) = Inr (Some a, h1) \<longrightarrow>
        heap_next (fs_heap st) \<le> a"
  shows "heap_extends (fs_heap st) (fs_heap st')"
proof -
  obtain resolved counter where s: "resolveSessionContext config (fs_ephemeral st) = (resolved, counter)"
    by fastforce
  show ?thesis
  proof (cases "\<exists>ctx sb merged h1. resolved = Inr ctx \<and> check_request config = Inr sb \<and>
      mergeHeaderTuples (fs_heap st) (default_headers ctx) (ri_headers config) = Inr (merged, h1)")
    case False
    then have "fs_heap st' = fs_heap st"
      using assms(1) s by (auto simp: prepare_request_parts Let_def split: sum.splits prod.splits)
    then show ?thesis by simp
  next
    case True
    then obtain ctx sb merged h1 where ok: "resolved = Inr ctx" "check_request config = Inr sb"
      "mergeHeaderTuples (fs_heap st) (default_headers ctx) (ri_headers config) = Inr (merged, h1)"
      by blast
    obtain r' h2 where c: "add_content_type sb merged h1 = (r', h2)" by fastforce
    have "fs_heap st' = h2"
      using assms(1) s ok c by (auto simp: prepare_request_parts Let_def split: sum.splits)
    moreover have "heap_extends (fs_heap st) h2"
    proof (rule add_content_type_heap [OF c])
      show "heap_extends (fs_heap st) h1" by (rule mergeHeaderTuples_refines(2) [OF ok(3)])
      show "\<forall>a. merged = Some a \<longrightarrow> heap_next (fs_heap st) \<le> a"
        using assms(2) [of ctx] s ok by auto
    qed
    ultimately show ?thesis by simp
  qed
qed

lemma check_request_Inr:
  "check_request config = Inr sb \<Longrightarrow>
     (ri_redirect config = None \<or> redirect_mode (the (ri_redirect config))) \<and>
     validateTrustStore (ri_trustStore config) = Inr () \<and>
     serializeBody (opt_default (ri_body config) BodyNull) = Inr sb \<and>
     (ensureMethod (ri_method config) = ''GET'' \<or> ensureMethod (ri_method config) = ''HEAD'' \<longrightarrow>
        sb_body sb = None)"
  by (auto simp: check_request_def validateRedirectMode_def redirect_mode_def ensureBodyAllowed_def
      split: option.splits if_splits)

text \<open>A transport context either names a transport or carries a sound emulation mode.\<close>

lemma resolveTransportContext_cases:
  assumes "resolveTransportContext np config d = Inr t"
  obtains (fixed) i c where "t = fixed_transport i c"
      "(\<exists>own. ri_transport config = TransportObject own \<and> i = transport_id own) \<or> i \<noteq> []"
  | (fresh) mode where "tr_transportId t = None" "tr_mode t = Some mode" "mode_ok np mode"
proof -
  have new: "fresh_transport np config = Inr t \<Longrightarrow>
      tr_transportId t = None \<and> (\<exists>mode. tr_mode t = Some mode \<and> mode_ok np mode)"
    by (auto simp: fresh_transport_def res_bind_Inr_iff dest: resolveEmulationMode_ok)
  show ?thesis
  proof (cases "ri_transport config")
    case TransportUndefined
    show ?thesis
    proof (cases "\<exists>dd. d = Some dd \<and> present (sd_transportId dd)")
      case True
      with assms TransportUndefined show ?thesis
        by (auto simp: resolveTransportContext_def session_transport_Inr present_def intro: fixed)
    next
      case False
      with assms TransportUndefined have "fresh_transport np config = Inr t"
        by (auto simp: resolveTransportContext_def split: option.splits)
      with new fresh show ?thesis by blast
    qed
  next
    case TransportForeign
    with assms show ?thesis by (simp add: resolveTransportContext_def)
  next
    case (TransportObject own)
    with assms have "t = fixed_transport (transport_id own) (ri_captureDiagnostics config)"
      by (simp add: resolveTransportContext_def own_transport_def split: if_splits)
    with TransportObject show ?thesis by (auto intro: fixed)
  qed
qed

lemma request_options_plain [simp]:
  "nro_method (request_options url config ctx b hs t) = ensureMethod (ri_method config)"
  "nro_body (request_options url config ctx b hs t) = b"
  "nro_redirect (request_options url config ctx b hs t) = ri_redirect config"
  "nro_headers (request_options url config ctx b hs t) = (if hs = Some [] then None else hs)"
  "nro_sessionId (request_options url config ctx b hs t) = sr_sessionId ctx"
  "nro_ephemeral (request_options url config ctx b hs t) = sr_dropAfterRequest ctx"
  "nro_url (request_options url config ctx b hs t) = url"
  "nro_transportId (request_options url config ctx b hs t) =
     (if present (tr_transportId t) then tr_transportId t else None)"
  by (simp_all add: request_options_def applyNativeEmulationMode_def Let_def
      split: option.split ResolvedEmulationMode.split)

section \<open>Properties\<close>

text \<open>C23: Request identifiers stay below 2^48 and are never 0, and no two of any 2^48 - 1 consecutive
  requests share one, whatever clock value seeds the counter.\<close>

theorem request_ids_distinct:
  assumes "i < j" "j < i + (REQUEST_ID_MAX - 1)"
  shows "(generateRequestId ^^ i) (seed_request_id hrtime) \<noteq> (generateRequestId ^^ j) (seed_request_id hrtime) \<and>
    0 < (generateRequestId ^^ i) (seed_request_id hrtime) \<and>
    (generateRequestId ^^ i) (seed_request_id hrtime) < REQUEST_ID_MAX"
proof -
  have "0 < REQUEST_ID_MAX - 1" by (simp add: REQUEST_ID_MAX_def)
  then have "(hrtime + i) mod (REQUEST_ID_MAX - 1) < REQUEST_ID_MAX - 1" by simp
  with mod_distinct [OF assms] show ?thesis
    unfolding seed_request_id_def generateRequestId_power by simp
qed

theorem request_ids_distinct_witness:
  "(generateRequestId ^^ 0) (seed_request_id 5) \<noteq> (generateRequestId ^^ 3) (seed_request_id 5)"
proof -
  have "(0 :: nat) < 3" "(3 :: nat) < 0 + (REQUEST_ID_MAX - 1)" by (simp_all add: REQUEST_ID_MAX_def)
  from request_ids_distinct [OF this] show ?thesis by blast
qed


text \<open>A native request that makes sense: \<open>GET\<close> and \<open>HEAD\<close> have no body, the redirect mode is a known one,
  the header list is not empty, and either it runs on an existing transport and says nothing of what a
  transport decides, or it has none and carries a sound emulation mode.\<close>

definition consistent :: "native_profiles \<Rightarrow> NativeRequestOptions \<Rightarrow> bool" where
  "consistent np o1 \<longleftrightarrow>
     (nro_method o1 = ''GET'' \<or> nro_method o1 = ''HEAD'' \<longrightarrow> nro_body o1 = None) \<and>
     (nro_redirect o1 = None \<or> redirect_mode (the (nro_redirect o1))) \<and>
     nro_headers o1 \<noteq> Some [] \<and>
     (if present (nro_transportId o1)
      then native_browser o1 = None \<and> native_os o1 = None \<and> native_emulationJson o1 = None \<and>
        nro_proxy o1 = JUndefined \<and> nro_proxyHeaders o1 = None \<and> nro_insecure o1 = None \<and>
        nro_trustStore o1 = JUndefined
      else \<exists>mode. mode_ok np mode \<and>
        (case mode of
           CustomMode j \<Rightarrow> native_emulationJson o1 = Some j \<and> native_browser o1 = None
         | PresetMode b os j \<Rightarrow> native_browser o1 = Some b \<and> native_os o1 = Some os \<and>
             native_emulationJson o1 = j))"

lemma finish_request_Inr:
  assumes "finish_request np url config ctx sb h = (Inr o1, h')"
  obtains merged h1 r' transport where
    "mergeHeaderTuples h (default_headers ctx) (ri_headers config) = Inr (merged, h1)"
    "add_content_type sb merged h1 = (r', h')"
    "resolveTransportContext np config (sr_defaults ctx) = Inr transport"
    "o1 = request_options url config ctx (sb_body sb) (deref h' r') transport"
  using assms by (auto simp: finish_request_def Let_def split: sum.splits prod.splits)

lemma finish_request_consistent:
  assumes "finish_request np url config ctx sb h = (Inr o1, h')" "check_request config = Inr sb"
    and "\<And>t. ri_transport config = TransportObject t \<Longrightarrow> transport_id t \<noteq> []"
  shows "consistent np o1"
proof -
  from assms(1) obtain headers transport where
    t: "resolveTransportContext np config (sr_defaults ctx) = Inr transport"
    and o1: "o1 = request_options url config ctx (sb_body sb) headers transport"
    by (elim finish_request_Inr)
  note plain = check_request_Inr [OF assms(2)]
  from t show ?thesis
  proof (cases rule: resolveTransportContext_cases)
    case (fixed i c)
    with assms(3) have "i \<noteq> []" by auto
    with fixed(1) plain show ?thesis
      by (simp add: consistent_def o1 request_options_def Let_def fixed_transport_def)
  next
    case (fresh mode)
    with plain show ?thesis
      by (cases mode)
        (auto simp: consistent_def o1 request_options_def Let_def applyNativeEmulationMode_def
          split: option.split intro!: exI [of _ mode])
  qed
qed

definition start_state :: fetch_state where
  "start_state = \<lparr>fs_heap = snd (heap_alloc heap_empty [(''X-Default'', ''1'')]), fs_ephemeral = 0,
     fs_requestId = seed_request_id 5\<rparr>"

definition sample_defaults :: SessionDefaults where
  "sample_defaults = \<lparr>sd_transportMode = PresetMode DEFAULT_BROWSER ''windows'' None,
     sd_proxy = JUndefined, sd_proxyHeaders = None, sd_timeout = JUndefined, sd_insecure = None,
     sd_trustStore = DEFAULT_TRUST_STORE, sd_defaultHeaders = Some 0, sd_captureDiagnostics = None,
     sd_transportId = Some ''t'', sd_ownsTransport = True\<rparr>"

definition sample_session :: Session where
  "sample_session = \<lparr>session_id = ''s'', session_disposed = False, session_defaults = sample_defaults\<rparr>"

definition form_post :: RequestInit where
  "form_post = (post_init (Some (BodySearchParams ''a=1'')) None)\<lparr>ri_session := SessionObject sample_session\<rparr>"

definition text_post :: RequestInit where
  "text_post = (post_init (Some (BodyString ''b'')) None)\<lparr>ri_session := SessionObject sample_session\<rparr>"

text \<open>A request on an open session that sets nothing the session's transport decides.\<close>

lemma prepare_session_request:
  assumes "ri_session config = SessionObject ses" "\<not> session_disposed ses" "ri_sessionId config = JUndefined"
    and "ri_transport config = TransportUndefined" "sd_transportId (session_defaults ses) = Some i" "i \<noteq> []"
    and "ri_emulation config = JUndefined" "ri_browser config = JUndefined" "ri_os config = JUndefined"
    and "ri_proxy config = JUndefined" "ri_proxyHeaders config = JUndefined" "ri_insecure config = None"
    and "ri_trustStore config = JUndefined" "check_request config = Inr sb"
    and "mergeHeaderTuples (fs_heap st) (sd_defaultHeaders (session_defaults ses)) (ri_headers config) = Inr (m, h1)"
    and "add_content_type sb m h1 = (r', h2)"
  shows "\<exists>o1. prepare_request np url config st = (Inr o1, st\<lparr>fs_heap := h2\<rparr>) \<and>
    nro_headers o1 = (if deref h2 r' = Some [] then None else deref h2 r') \<and> nro_body o1 = sb_body sb \<and>
    nro_method o1 = ensureMethod (ri_method config)"
proof -
  have "session_transport np config (session_defaults ses) i =
      Inr (fixed_transport i (opt_or (ri_captureDiagnostics config)
        (sd_captureDiagnostics (session_defaults ses))))"
    using assms by (simp add: session_transport_Inr normalizeProxyHeaders_def)
  with assms have t: "resolveTransportContext np config (Some (session_defaults ses)) =
      Inr (fixed_transport i (opt_or (ri_captureDiagnostics config)
        (sd_captureDiagnostics (session_defaults ses))))"
    by (simp add: resolveTransportContext_def)
  from assms have "resolveSessionContext config (fs_ephemeral st) =
      (Inr \<lparr>sr_sessionId = session_id ses, sr_cookieMode = ''session'', sr_dropAfterRequest = False,
            sr_defaults = Some (session_defaults ses)\<rparr>, fs_ephemeral st)"
    by (simp add: resolveSessionContext_def)
  with t assms show ?thesis by (simp add: prepare_request_parts default_headers_def Let_def)
qed

lemmas sample_simps = sample_session_def sample_defaults_def form_post_def text_post_def post_init_def
  empty_init_def start_state_def heap_alloc_def heap_empty_def

lemma check_form_post:
  "check_request form_post =
     Inr (typed_body (utf8_bytes ''a=1'') ''application/x-www-form-urlencoded;charset=UTF-8'')"
  by (simp add: check_request_def form_post_def post_init_def empty_init_def validateRedirectMode_def
      when_defined_def validateTrustStore_def serializeBody_def ensureBodyAllowed_def ensureMethod_def)

lemma check_text_post: "check_request text_post = Inr (body_of (utf8_bytes ''b''))"
  by (simp add: check_request_def text_post_def post_init_def empty_init_def validateRedirectMode_def
      when_defined_def validateTrustStore_def serializeBody_def ensureBodyAllowed_def ensureMethod_def)

definition after_form :: fetch_state where
  "after_form = start_state\<lparr>fs_heap := heap_push (fs_heap start_state) 0
     (''Content-Type'', ''application/x-www-form-urlencoded;charset=UTF-8'')\<rparr>"

lemma not_content_type: "\<not> hasHeaderName (Some [(''X-Default'', ''1'')]) ''content-type''"
  by code_simp

lemma form_post_prepared:
  "\<exists>o1. prepare_request np url form_post start_state = (Inr o1, after_form) \<and> nro_method o1 = ''POST''"
proof -
  have add: "add_content_type (typed_body (utf8_bytes ''a=1'') ''application/x-www-form-urlencoded;charset=UTF-8'')
      (Some 0) (fs_heap start_state) = (Some 0, fs_heap after_form)"
    using not_content_type
    by (simp add: add_content_type_def typed_body_def deref_def after_form_def sample_simps)
  have merge: "mergeHeaderTuples (fs_heap start_state) (Some 0) JUndefined =
      Inr (Some 0, fs_heap start_state)"
    by (simp add: mergeHeaderTuples_def)
  have st: "start_state\<lparr>fs_heap := fs_heap after_form\<rparr> = after_form"
    by (simp add: after_form_def)
  have "\<exists>o1. prepare_request np url form_post start_state = (Inr o1, start_state\<lparr>fs_heap := fs_heap after_form\<rparr>) \<and>
      nro_headers o1 = (if deref (fs_heap after_form) (Some 0) = Some [] then None else deref (fs_heap after_form) (Some 0)) \<and>
      nro_body o1 = sb_body (typed_body (utf8_bytes ''a=1'') ''application/x-www-form-urlencoded;charset=UTF-8'') \<and>
      nro_method o1 = ensureMethod (ri_method form_post)"
    by (rule prepare_session_request [where ses = sample_session and i = "''t''", OF _ _ _ _ _ _ _ _ _ _ _ _ _ check_form_post _ add])
      (simp_all add: merge form_post_def post_init_def empty_init_def sample_session_def sample_defaults_def)
  then show ?thesis by (auto simp: st form_post_def post_init_def ensureMethod_def)
qed

text \<open>A form body sent on a session with default headers changes the session: the content type is
  appended to the session's own array of default headers, and the next request on the session, with a
  string body and no headers of its own, is sent with the content type of the form.\<close>

lemma form_body_pollutes_session:
  "\<exists>o1 o2. prepare_request np url form_post start_state = (Inr o1, after_form) \<and>
     deref (fs_heap start_state) (sd_defaultHeaders sample_defaults) = Some [(''X-Default'', ''1'')] \<and>
     deref (fs_heap after_form) (sd_defaultHeaders sample_defaults) =
       Some [(''X-Default'', ''1''), (''Content-Type'', ''application/x-www-form-urlencoded;charset=UTF-8'')] \<and>
     prepare_request np url text_post after_form = (Inr o2, after_form) \<and>
     nro_body o2 = Some (utf8_bytes ''b'') \<and>
     nro_headers o2 =
       Some [(''X-Default'', ''1''), (''Content-Type'', ''application/x-www-form-urlencoded;charset=UTF-8'')]"
proof -
  have after: "deref (fs_heap after_form) (Some 0) =
      Some [(''X-Default'', ''1''), (''Content-Type'', ''application/x-www-form-urlencoded;charset=UTF-8'')]"
    by (simp add: deref_def after_form_def heap_push_def sample_simps)
  have add: "add_content_type (body_of (utf8_bytes ''b'')) (Some 0) (fs_heap after_form) =
      (Some 0, fs_heap after_form)"
    by (simp add: add_content_type_def body_of_def)
  have merge: "mergeHeaderTuples (fs_heap after_form) (Some 0) JUndefined =
      Inr (Some 0, fs_heap after_form)"
    by (simp add: mergeHeaderTuples_def)
  have "\<exists>o1. prepare_request np url text_post after_form = (Inr o1, after_form\<lparr>fs_heap := fs_heap after_form\<rparr>) \<and>
      nro_headers o1 = (if deref (fs_heap after_form) (Some 0) = Some [] then None else deref (fs_heap after_form) (Some 0)) \<and>
      nro_body o1 = sb_body (body_of (utf8_bytes ''b'')) \<and> nro_method o1 = ensureMethod (ri_method text_post)"
    by (rule prepare_session_request [where ses = sample_session and i = "''t''", OF _ _ _ _ _ _ _ _ _ _ _ _ _ check_text_post _ add])
      (simp_all add: merge text_post_def post_init_def empty_init_def sample_session_def sample_defaults_def)
  with after form_post_prepared show ?thesis
    by (auto simp: body_of_def sample_defaults_def deref_def start_state_def heap_alloc_def heap_empty_def)
qed

text \<open>Exactly when a request changes its session's default headers: the array grows by the content
  type of the body when the request has no headers of its own, the body has a content type and the
  defaults have none, and is left alone otherwise; no other existing array ever changes.\<close>

lemma default_headers_change:
  assumes "prepare_request np url config st = (Inr o1, st')"
    and "ri_session config = SessionObject ses" "sd_defaultHeaders (session_defaults ses) = Some d"
    and "d < heap_next (fs_heap st)" "a < heap_next (fs_heap st)"
    and "serializeBody (opt_default (ri_body config) BodyNull) = Inr sb"
  shows "heap_arr (fs_heap st') a =
    (if a = d \<and> (ri_headers config = JUndefined \<or> headersToTuples (ri_headers config) = Inr []) \<and>
        sb_contentType sb \<noteq> None \<and> \<not> hasHeaderName (Some (heap_arr (fs_heap st) d)) ''content-type''
     then heap_arr (fs_heap st) d @ [(''Content-Type'', the (sb_contentType sb))]
     else heap_arr (fs_heap st) a)"
proof -
  from assms(1) obtain ctx counter sb' merged h1 r' h2 where
    s: "resolveSessionContext config (fs_ephemeral st) = (Inr ctx, counter)"
    and c: "check_request config = Inr sb'"
    and m: "mergeHeaderTuples (fs_heap st) (default_headers ctx) (ri_headers config) = Inr (merged, h1)"
    and ct: "add_content_type sb' merged h1 = (r', h2)"
    and st': "st' = st\<lparr>fs_ephemeral := counter, fs_heap := h2\<rparr>"
    by (elim prepare_request_Inr)
  from c assms(6) have sb: "sb' = sb" by (auto dest: check_request_Inr)
  from s assms(2,3) have d: "default_headers ctx = Some d"
    by (auto simp: resolveSessionContext_def Let_def default_headers_def split: if_splits)
  note m = m [unfolded d]
  from mergeHeaderTuples_refines(2) [OF m] assms(4,5)
  have keep: "heap_arr h1 a = heap_arr (fs_heap st) a" "heap_arr h1 d = heap_arr (fs_heap st) d"
    by (auto simp: heap_extends_def)
  obtain x where x: "merged = Some x"
    using m by (auto simp: mergeHeaderTuples_def heap_alloc_def Let_def split: if_splits)
  have fresh: "x \<noteq> d \<Longrightarrow> x \<noteq> a"
    using mergeHeaderTuples_fresh [of "fs_heap st" "Some d"] m x assms(5) by fastforce
  have same: "x = d \<longleftrightarrow> ri_headers config = JUndefined \<or> headersToTuples (ri_headers config) = Inr []"
    using mergeHeaderTuples_alias [OF m assms(4)] x by simp
  have "heap_arr h2 a = (if a = x \<and> sb_contentType sb \<noteq> None \<and>
      \<not> hasHeaderName (Some (heap_arr h1 x)) ''content-type''
      then heap_arr h1 x @ [(''Content-Type'', the (sb_contentType sb))] else heap_arr h1 a)"
    using ct unfolding x sb
    by (auto simp: add_content_type_def heap_push_def deref_def split: option.splits if_splits)
  with keep fresh same st' show ?thesis by auto
qed

lemma default_headers_change_witness:
  "\<exists>o1 st'. prepare_request sample_profiles ''https://a/'' form_post start_state = (Inr o1, st') \<and>
     heap_arr (fs_heap st') 0 = [(''X-Default'', ''1''),
       (''Content-Type'', ''application/x-www-form-urlencoded;charset=UTF-8'')]"
proof -
  obtain o1 where r: "prepare_request sample_profiles ''https://a/'' form_post start_state = (Inr o1, after_form)"
    using form_post_prepared by blast
  have h: "ri_session form_post = SessionObject sample_session"
    "sd_defaultHeaders (session_defaults sample_session) = Some 0"
    "0 < heap_next (fs_heap start_state)"
    "serializeBody (opt_default (ri_body form_post) BodyNull) =
       Inr (typed_body (utf8_bytes ''a=1'') ''application/x-www-form-urlencoded;charset=UTF-8'')"
    by (simp_all add: sample_simps serializeBody_def)
  from default_headers_change [OF r h(1-3) h(3) h(4)] not_content_type r show ?thesis
    by (auto simp: sample_simps typed_body_def)
qed

text \<open>A request on a session cannot leave it: if it is prepared, the session is open, the request runs
  under the session's identifier, on the session's transport, with the session's cookies, and any
  browser, system, proxy, certificate or trust option it gives repeats the session's own; a custom
  emulation is refused.\<close>

lemma session_request_locked:
  assumes "prepare_request np url config st = (Inr o1, st')"
    and "ri_session config = SessionObject ses" "ri_transport config = TransportUndefined"
    and "sd_transportId (session_defaults ses) = Some i" "i \<noteq> []"
  shows "\<not> session_disposed ses \<and> nro_sessionId o1 = session_id ses \<and> \<not> nro_ephemeral o1 \<and>
    nro_transportId o1 = Some i \<and> ri_emulation config = JUndefined \<and>
    (ri_browser config = JUndefined \<or> (\<exists>b. resolveProfile np (ri_browser config) = Inr b \<and>
       locked_browser (sd_transportMode (session_defaults ses)) = Some b)) \<and>
    (ri_os config = JUndefined \<or> ri_os config = locked_os (sd_transportMode (session_defaults ses))) \<and>
    (ri_proxy config = JUndefined \<or> or_null (ri_proxy config) = or_null (sd_proxy (session_defaults ses))) \<and>
    (ri_insecure config = None \<or> ri_insecure config = Some (opt_default (sd_insecure (session_defaults ses)) False)) \<and>
    (ri_trustStore config = JUndefined \<or>
       ri_trustStore config = or_default_trust (sd_trustStore (session_defaults ses)))"
proof -
  from assms(1) obtain ctx counter sb headers transport where
    s: "resolveSessionContext config (fs_ephemeral st) = (Inr ctx, counter)"
    and t: "resolveTransportContext np config (sr_defaults ctx) = Inr transport"
    and o1: "o1 = request_options url config ctx (sb_body sb) headers transport"
    and "check_request config = Inr sb"
    by (elim prepare_request_Inr)
  from s assms(2) have ctx: "\<not> session_disposed ses" "sr_sessionId ctx = session_id ses"
    "\<not> sr_dropAfterRequest ctx" "sr_defaults ctx = Some (session_defaults ses)"
    by (auto simp: resolveSessionContext_def Let_def split: if_splits)
  with t assms(3-5) have "session_transport np config (session_defaults ses) i = Inr transport"
    by (simp add: resolveTransportContext_def)
  with ctx assms(5) show ?thesis
    by (simp add: session_transport_Inr o1 fixed_transport_def) metis
qed

lemma session_request_locked_witness:
  "\<exists>o1 st'. prepare_request sample_profiles ''https://a/'' form_post start_state = (Inr o1, st') \<and>
     nro_sessionId o1 = ''s'' \<and> nro_transportId o1 = Some ''t''"
proof -
  obtain o1 where r: "prepare_request sample_profiles ''https://a/'' form_post start_state = (Inr o1, after_form)"
    using form_post_prepared by blast
  have "ri_session form_post = SessionObject sample_session" "ri_transport form_post = TransportUndefined"
    "sd_transportId (session_defaults sample_session) = Some ''t''" "''t'' \<noteq> []"
    by (simp_all add: sample_simps)
  from session_request_locked [OF r this] r show ?thesis by (auto simp: sample_session_def)
qed

text \<open>C30: The headers of a request: the session's defaults overridden by the request's headers, and the
  content type of the body exactly when none of those names one; the body is the serialised one and
  a list that would be empty is left out.\<close>

theorem request_headers_spec:
  assumes "prepare_request np url config st = (Inr o1, st')"
  shows "\<exists>ctx sb m. fst (resolveSessionContext config (fs_ephemeral st)) = Inr ctx \<and>
    serializeBody (opt_default (ri_body config) BodyNull) = Inr sb \<and>
    merge_tuples (deref (fs_heap st) (default_headers ctx)) (ri_headers config) = Inr m \<and>
    nro_body o1 = sb_body sb \<and>
    opt_default (nro_headers o1) [] = opt_default m [] @
      (case sb_contentType sb of
         None \<Rightarrow> []
       | Some ct \<Rightarrow> (if hasHeaderName m ''content-type'' then [] else [(''Content-Type'', ct)])) \<and>
    nro_headers o1 \<noteq> Some []"
proof -
  from assms obtain ctx counter sb merged h1 r' h2 transport where
    s: "resolveSessionContext config (fs_ephemeral st) = (Inr ctx, counter)"
    and c: "check_request config = Inr sb"
    and m: "mergeHeaderTuples (fs_heap st) (default_headers ctx) (ri_headers config) = Inr (merged, h1)"
    and ct: "add_content_type sb merged h1 = (r', h2)"
    and o1: "o1 = request_options url config ctx (sb_body sb) (deref h2 r') transport"
    by (elim prepare_request_Inr)
  have "opt_default (nro_headers o1) [] = opt_default (deref h1 merged) [] @
      (case sb_contentType sb of
         None \<Rightarrow> []
       | Some ct \<Rightarrow> (if hasHeaderName (deref h1 merged) ''content-type'' then [] else [(''Content-Type'', ct)]))"
    using add_content_type_value [OF ct]
    by (cases "deref h2 r'") (auto simp: o1 with_content_type_def split: option.splits if_splits)
  moreover have "nro_headers o1 \<noteq> Some []" by (simp add: o1)
  ultimately show ?thesis
    using s mergeHeaderTuples_refines(1) [OF m] check_request_Inr [OF c] o1
    by (intro exI [of _ ctx] exI [of _ sb] exI [of _ "deref h1 merged"]) simp
qed

theorem request_headers_spec_witness:
  "\<exists>o1 st'. prepare_request sample_profiles ''https://a/'' form_post start_state = (Inr o1, st') \<and>
     nro_body o1 = Some (utf8_bytes ''a=1'')"
proof -
  obtain o1 where r: "prepare_request sample_profiles ''https://a/'' form_post start_state = (Inr o1, after_form)"
    using form_post_prepared by blast
  from request_headers_spec [OF r] r show ?thesis
    by (auto simp: sample_simps serializeBody_def typed_body_def)
qed

section \<open>How a request ends\<close>



text \<open>How a body is cut into chunks does not matter: a stream or an iterable of byte arrays is sent as
  the bytes it yields, in order; a chunk that is no byte array, or an error of the source, fails the
  request; a body serialises to something with a content type only when it is typed.\<close>

lemma serializeBody_chunks:
  "(serializeBody (BodyIterable cs e) = Inr sb \<longleftrightarrow>
      e = None \<and> (\<exists>bs. cs = map Some bs \<and> serializeBody (BodyArrayBuffer (concat bs)) = Inr sb)) \<and>
   (serializeBody (BodyStream bs e) = Inr sb \<longleftrightarrow>
      e = None \<and> serializeBody (BodyIterable (map Some bs) None) = Inr sb)"
proof -
  have all: "iterable_chunks (map Some bs) None = Inr bs" by (simp add: iterable_chunks_Inr)
  show ?thesis
    by (auto simp: serializeBody_def res_bind_Inr_iff iterable_chunks_Inr all split: option.splits)
qed

end
