(* ===== verification/FetchTasks.thy ===== *)
theory FetchTasks
  imports FetchProperties
begin

text \<open>
  Many calls of \<open>fetch\<close> at once. Each is a task that runs in three turns of the event loop: it resolves
  its arguments when it is called, its session and body after the first \<open>await\<close>, and its headers,
  transport and identifier after the second, when it calls the addon. Between any two turns of a task
  the program may do anything else: turns of other tasks, new sessions and transports, closes
  (\<open>world_step\<close>). Sessions and transports are objects: a task refers to them by their place in the
  world and sees their state at the turn in which the code reads it.

  What the addon looks up when it gets a request is the parameter \<open>request\<close>, with its contract in the
  locale \<open>request_registry\<close>, an extension of \<open>registry\<close>; it is interpreted on \<open>make_request\<close> of
  rust/src/client.rs.
\<close>

section \<open>What the addon looks up\<close>

text \<open>
  The beginning of \<open>make_request\<close>: the client, by the identifier of the transport or built for this
  request (\<open>client\<close>: the error of building it, if any), and the cookie jar. \<open>jar_for\<close> makes the entry of
  a session that is not in the table.
\<close>

definition jar_for :: "'j \<Rightarrow> string \<Rightarrow> ('c, 'j) rust_state \<Rightarrow> ('c, 'j) rust_state" where
  "jar_for empty_jar i s = (case rust_sessions s i of
      Some jar \<Rightarrow> s
    | None \<Rightarrow> s\<lparr>rust_sessions := (rust_sessions s)(i \<mapsto> empty_jar)\<rparr>)"

definition make_request ::
  "(NativeRequestOptions \<Rightarrow> string option) \<Rightarrow> 'j \<Rightarrow> NativeRequestOptions \<Rightarrow> ('c, 'j) rust_state \<Rightarrow>
     unit res \<times> ('c, 'j) rust_state" where
  "make_request client empty_jar o1 s =
     (let resolved = (case nro_transportId o1 of
            Some i \<Rightarrow> (if i \<in> dom (rust_transports s) then None
                       else Some (''Transport '' @ squote @ i @ squote @ '' not found''))
          | None \<Rightarrow> client o1) in
      case resolved of
        Some message \<Rightarrow> (Inl (PlainError message), s)
      | None \<Rightarrow> (Inr (), if nro_ephemeral o1 then s else jar_for empty_jar (nro_sessionId o1) s))"

locale request_registry = registry ops transports sessions ok
  for ops :: "'n lifecycle" and transports :: "'n \<Rightarrow> string set" and sessions :: "'n \<Rightarrow> string set"
    and ok :: "'n \<Rightarrow> bool" +
  fixes request :: "NativeRequestOptions \<Rightarrow> 'n \<Rightarrow> unit res \<times> 'n"
  assumes request_Inl:
      "ok s \<Longrightarrow> request o1 s = (Inl e, s') \<Longrightarrow>
         ok s' \<and> transports s' = transports s \<and> sessions s' = sessions s"
    and request_Inr:
      "ok s \<Longrightarrow> request o1 s = (Inr u, s') \<Longrightarrow>
         ok s' \<and> transports s' = transports s \<and>
         sessions s' = sessions s \<union> (if nro_ephemeral o1 then {} else {nro_sessionId o1}) \<and>
         (\<forall>i. nro_transportId o1 = Some i \<longrightarrow> i \<in> transports s)"

interpretation rust_requests: request_registry "rust_lifecycle build empty_jar"
  "\<lambda>s. dom (rust_transports s)" "\<lambda>s. dom (rust_sessions s)" rust_ok "make_request client empty_jar"
  for build :: "NativeTransportOptions \<Rightarrow> 'c res" and empty_jar :: 'j
    and client :: "NativeRequestOptions \<Rightarrow> string option"
  by unfold_locales
    (auto simp: make_request_def jar_for_def rust_ok_def Let_def split: option.splits if_splits)

text \<open>
  A session that has been idle too long is still open, but its next request finds an empty jar, without
  an error; only \<open>clearCookies\<close> would say that the session is not there.
\<close>

lemma idle_session_empty_jar:
  assumes "\<not> nro_ephemeral o1" "nro_sessionId o1 = i" "make_request client empty_jar o1 (expire_session i s) = (Inr (), s')"
  shows "rust_sessions s' i = Some empty_jar \<and>
    fst (clear_session empty_jar i (expire_session i s)) =
      Inl (PlainError (''Session '' @ squote @ i @ squote @ '' not found''))"
  using assms
  by (auto simp: make_request_def jar_for_def expire_session_def clear_session_def Let_def
      split: option.splits if_splits)

section \<open>Tasks\<close>

datatype fetch_task =
    TaskArguments string RequestInit "nat option" "nat option"
  | TaskBody string RequestInit "nat option" SessionResolution SerializedBody
  | TaskDone NativeRequestOptions
  | TaskFailed js_error

record sent_request =
  sent_task :: nat
  sent_id :: nat
  sent_options :: NativeRequestOptions
  sent_calls :: "native_call list"

text \<open>
  \<open>net_log\<close> records what each task that got as far as \<open>dispatchRequest\<close> asked of the addon, in order.
\<close>

record 'n net =
  net_world :: "'n world"
  net_ephemeral :: nat
  net_requestId :: nat
  net_tasks :: "fetch_task list"
  net_log :: "sent_request list"

definition bind_session :: "'n world \<Rightarrow> nat option \<Rightarrow> RequestInit \<Rightarrow> RequestInit" where
  "bind_session w ses config = (case ses of
      None \<Rightarrow> config
    | Some k \<Rightarrow> config\<lparr>ri_session := SessionObject (w_sessions w ! k)\<rparr>)"

definition bind_transport :: "'n world \<Rightarrow> nat option \<Rightarrow> RequestInit \<Rightarrow> RequestInit" where
  "bind_transport w t config = (case t of
      None \<Rightarrow> config
    | Some k \<Rightarrow> config\<lparr>ri_transport := TransportObject (w_transports w ! k)\<rparr>)"

definition start_task ::
  "fetch_input \<Rightarrow> RequestInit option \<Rightarrow> nat option \<Rightarrow> nat option \<Rightarrow> 'n net \<Rightarrow> 'n net" where
  "start_task input init ses t n =
     n\<lparr>net_tasks := net_tasks n @ [case resolveFetchArgs input init of
         Inl e \<Rightarrow> TaskFailed e
       | Inr (url, config) \<Rightarrow> TaskArguments url config ses t]\<rparr>"

text \<open>\<open>Session.fetch\<close> checks that the session is open before it calls \<open>fetch\<close>.\<close>

definition start_session_task ::
  "fetch_input \<Rightarrow> RequestInit option \<Rightarrow> nat \<Rightarrow> nat option \<Rightarrow> 'n net \<Rightarrow> 'n net" where
  "start_session_task input init k t n =
     (case session_fetch_init (w_sessions (net_world n) ! k) init of
        Inl e \<Rightarrow> n\<lparr>net_tasks := net_tasks n @ [TaskFailed e]\<rparr>
      | Inr init' \<Rightarrow> start_task input init (Some k) t n)"

definition begin_task :: "nat \<Rightarrow> 'n net \<Rightarrow> 'n net" where
  "begin_task i n = (case net_tasks n ! i of
      TaskArguments url config ses t \<Rightarrow>
        (let (r, counter) = begin_request (bind_session (net_world n) ses config) (net_ephemeral n) in
         n\<lparr>net_ephemeral := counter,
           net_tasks := (net_tasks n)[i := (case r of
               Inl e \<Rightarrow> TaskFailed e
             | Inr (ctx, body) \<Rightarrow> TaskBody url config t ctx body)]\<rparr>)
    | _ \<Rightarrow> n)"

definition has_signal :: "RequestInit \<Rightarrow> bool" where
  "has_signal config \<longleftrightarrow> (\<exists>k. ri_signal config = SignalObject k)"

text \<open>Nothing is sent if the signal has fired already.\<close>

definition send_request ::
  "(NativeRequestOptions \<Rightarrow> 'n \<Rightarrow> unit res \<times> 'n) \<Rightarrow> bool \<Rightarrow> signal_fate \<Rightarrow> NativeRequestOptions \<Rightarrow> nat \<Rightarrow>
     'n \<Rightarrow> native_call list \<times> 'n" where
  "send_request request signal fate o1 requestId s =
     (let (a, s') = request o1 s;
          d = dispatchRequest signal fate (Settles a) requestId in
      (dr_calls d, if CallRequest requestId signal \<in> set (dr_calls d) then s' else s))"

definition finish_task ::
  "(NativeRequestOptions \<Rightarrow> 'n \<Rightarrow> unit res \<times> 'n) \<Rightarrow> native_profiles \<Rightarrow> signal_fate \<Rightarrow> nat \<Rightarrow> 'n net \<Rightarrow> 'n net" where
  "finish_task request np fate i n = (case net_tasks n ! i of
      TaskBody url config t ctx body \<Rightarrow>
        (let w = net_world n;
             (r, h) = finish_request np url (bind_transport w t config) ctx body (w_heap w);
             w1 = w\<lparr>w_heap := h\<rparr> in
         case r of
           Inl e \<Rightarrow> n\<lparr>net_world := w1, net_tasks := (net_tasks n)[i := TaskFailed e]\<rparr>
         | Inr o1 \<Rightarrow>
             (let requestId = generateRequestId (net_requestId n);
                  (calls, s') = send_request request (has_signal config) fate o1 requestId (w_native w) in
              n\<lparr>net_world := w1\<lparr>w_native := s'\<rparr>, net_requestId := requestId,
                net_tasks := (net_tasks n)[i := TaskDone o1],
                net_log := net_log n @ [\<lparr>sent_task = i, sent_id = requestId, sent_options = o1,
                                         sent_calls = calls\<rparr>]\<rparr>))
    | _ \<Rightarrow> n)"

section \<open>Everything that can happen\<close>

text \<open>The options of a call hold no objects of their own; those it is given are the two references.\<close>

definition by_reference :: "fetch_input \<Rightarrow> RequestInit option \<Rightarrow> bool" where
  "by_reference input init \<longleftrightarrow>
     ri_session (opt_default init empty_init) \<in> {SessionFalsy, SessionForeign} \<and>
     ri_transport (opt_default init empty_init) \<in> {TransportUndefined, TransportForeign}"

definition refers :: "'a list \<Rightarrow> nat option \<Rightarrow> bool" where
  "refers xs r \<longleftrightarrow> (case r of None \<Rightarrow> True | Some k \<Rightarrow> k < length xs)"

inductive net_step ::
  "'n lifecycle \<Rightarrow> (NativeRequestOptions \<Rightarrow> 'n \<Rightarrow> unit res \<times> 'n) \<Rightarrow> native_profiles \<Rightarrow> 'n net \<Rightarrow> 'n net \<Rightarrow> bool"
  for ops :: "'n lifecycle" and request and np where
  net_other: "world_step ops np (net_world n) w' \<Longrightarrow> net_step ops request np n (n\<lparr>net_world := w'\<rparr>)"
| net_start: "by_reference input init \<Longrightarrow> refers (w_sessions (net_world n)) ses \<Longrightarrow>
     refers (w_transports (net_world n)) t \<Longrightarrow>
     net_step ops request np n (start_task input init ses t n)"
| net_start_session: "by_reference input init \<Longrightarrow> k < length (w_sessions (net_world n)) \<Longrightarrow>
     refers (w_transports (net_world n)) t \<Longrightarrow>
     net_step ops request np n (start_session_task input init k t n)"
| net_begin: "i < length (net_tasks n) \<Longrightarrow> net_step ops request np n (begin_task i n)"
| net_finish: "i < length (net_tasks n) \<Longrightarrow> net_step ops request np n (finish_task request np fate i n)"

section \<open>Ephemeral sessions\<close>

text \<open>The identifier of the ephemeral session a task runs on.\<close>

definition task_ephemeral :: "fetch_task \<Rightarrow> string option" where
  "task_ephemeral task = (case task of
      TaskBody url config t ctx body \<Rightarrow> (if sr_dropAfterRequest ctx then Some (sr_sessionId ctx) else None)
    | TaskDone o1 \<Rightarrow> (if nro_ephemeral o1 then Some (nro_sessionId o1) else None)
    | _ \<Rightarrow> None)"

lemma task_ephemeral_simps [simp]:
  "task_ephemeral (TaskArguments url config ses t) = None"
  "task_ephemeral (TaskFailed e) = None"
  "task_ephemeral (TaskBody url config t ctx body) =
     (if sr_dropAfterRequest ctx then Some (sr_sessionId ctx) else None)"
  "task_ephemeral (TaskDone o1) = (if nro_ephemeral o1 then Some (nro_sessionId o1) else None)"
  by (simp_all add: task_ephemeral_def)

definition ephemeral_id :: "nat \<Rightarrow> string" where
  "ephemeral_id j = ''_e'' @ nat_str j"

lemma ephemeral_id_eq [simp]: "ephemeral_id i = ephemeral_id j \<longleftrightarrow> i = j"
  using nat_str_inj by (auto simp: ephemeral_id_def)

definition ephemerals_ok :: "nat \<Rightarrow> fetch_task list \<Rightarrow> bool" where
  "ephemerals_ok counter tasks \<longleftrightarrow>
     (\<forall>i < length tasks. \<forall>a. task_ephemeral (tasks ! i) = Some a \<longrightarrow> (\<exists>j \<le> counter. a = ephemeral_id j)) \<and>
     (\<forall>i < length tasks. \<forall>j < length tasks. i \<noteq> j \<longrightarrow> task_ephemeral (tasks ! i) \<noteq> None \<longrightarrow>
        task_ephemeral (tasks ! i) \<noteq> task_ephemeral (tasks ! j))"

lemma ephemerals_ok_append:
  "ephemerals_ok c tasks \<Longrightarrow> task_ephemeral task = None \<Longrightarrow> ephemerals_ok c (tasks @ [task])"
  by (auto simp: ephemerals_ok_def nth_append less_Suc_eq)

lemma ephemerals_okD:
  assumes "ephemerals_ok c tasks" "i < length tasks" "task_ephemeral (tasks ! i) = Some a"
  shows "\<exists>j \<le> c. a = ephemeral_id j"
    and "j < length tasks \<Longrightarrow> i \<noteq> j \<Longrightarrow> task_ephemeral (tasks ! j) \<noteq> Some a"
proof -
  show "\<exists>j \<le> c. a = ephemeral_id j" using assms by (auto simp: ephemerals_ok_def)
  assume "j < length tasks" "i \<noteq> j"
  with assms have "task_ephemeral (tasks ! i) \<noteq> task_ephemeral (tasks ! j)"
    unfolding ephemerals_ok_def by blast
  with assms(3) show "task_ephemeral (tasks ! j) \<noteq> Some a" by simp
qed

lemma ephemerals_okI:
  assumes "\<And>i a. i < length tasks \<Longrightarrow> task_ephemeral (tasks ! i) = Some a \<Longrightarrow> \<exists>j \<le> c. a = ephemeral_id j"
    and "\<And>i j a. i < length tasks \<Longrightarrow> j < length tasks \<Longrightarrow> i \<noteq> j \<Longrightarrow>
           task_ephemeral (tasks ! i) = Some a \<Longrightarrow> task_ephemeral (tasks ! j) \<noteq> Some a"
  shows "ephemerals_ok c tasks"
  unfolding ephemerals_ok_def
proof (intro conjI allI impI)
  fix i a assume "i < length tasks" "task_ephemeral (tasks ! i) = Some a"
  then show "\<exists>j \<le> c. a = ephemeral_id j" by (rule assms(1))
next
  fix i j assume *: "i < length tasks" "j < length tasks" "i \<noteq> j" "task_ephemeral (tasks ! i) \<noteq> None"
  then obtain a where "task_ephemeral (tasks ! i) = Some a" by blast
  with assms(2) [OF *(1-3) this] show "task_ephemeral (tasks ! i) \<noteq> task_ephemeral (tasks ! j)" by simp
qed

text \<open>A task that is replaced keeps its identifier, loses it, or has one that was never drawn before.\<close>

lemma ephemerals_ok_update:
  assumes ok: "ephemerals_ok c tasks" and le: "c \<le> c'" and i: "i < length tasks"
    and task: "\<And>a. task_ephemeral task = Some a \<Longrightarrow>
      a = ephemeral_id c' \<and> c < c' \<or> task_ephemeral (tasks ! i) = Some a"
  shows "ephemerals_ok c' (tasks[i := task])"
proof (rule ephemerals_okI)
  fix j a assume j: "j < length (tasks[i := task])" "task_ephemeral (tasks[i := task] ! j) = Some a"
  show "\<exists>k \<le> c'. a = ephemeral_id k"
  proof (cases "j = i \<and> task_ephemeral (tasks ! i) \<noteq> Some a")
    case True
    with j i task show ?thesis by auto
  next
    case False
    with j i have "task_ephemeral (tasks ! j) = Some a" by (auto simp: nth_list_update split: if_splits)
    with ephemerals_okD(1) [OF ok _ this] j le show ?thesis by (auto intro: order_trans)
  qed
next
  fix j k a
  assume j: "j < length (tasks[i := task])" "k < length (tasks[i := task])" "j \<noteq> k"
    "task_ephemeral (tasks[i := task] ! j) = Some a"
  have old: "task_ephemeral (tasks ! m) = Some a \<Longrightarrow> m < length tasks \<Longrightarrow> \<not> (a = ephemeral_id c' \<and> c < c')" for m
    using ephemerals_okD(1) [OF ok] by fastforce
  show "task_ephemeral (tasks[i := task] ! k) \<noteq> Some a"
  proof
    assume "task_ephemeral (tasks[i := task] ! k) = Some a"
    with j i task old have "task_ephemeral (tasks ! j) = Some a" "task_ephemeral (tasks ! k) = Some a"
      by (auto simp: nth_list_update split: if_splits)
    with ephemerals_okD(2) [OF ok _ this(1)] j show False by simp
  qed
qed

text \<open>The first turn draws an identifier, or none if the request runs on a session.\<close>

lemma begin_request_cases:
  assumes "begin_request config c = (r, c')"
  obtains "c' = c" "\<And>ctx sb. r = Inr (ctx, sb) \<Longrightarrow> \<not> sr_dropAfterRequest ctx"
    | "c' = Suc c" "\<And>ctx sb. r = Inr (ctx, sb) \<Longrightarrow> sr_dropAfterRequest ctx \<and> sr_sessionId ctx = ephemeral_id c'"
  using assms
  by (auto simp: begin_request_def resolveSessionContext_def generateEphemeralSessionId_def
      ephemeral_id_def res_bind_Inr_iff Let_def split: if_splits session_argument.splits)

lemma begin_request_checked:
  assumes "begin_request config c = (Inr (ctx, sb), c')"
  shows "check_request config = Inr sb"
  using assms by (auto simp: begin_request_def Let_def res_bind_Inr_iff split: prod.splits)

lemma begin_ephemerals:
  assumes "begin_request config c = (r, c')" "ephemerals_ok c tasks" "i < length tasks"
  shows "ephemerals_ok c' (tasks[i := (case r of Inl e \<Rightarrow> TaskFailed e
    | Inr (ctx, body) \<Rightarrow> TaskBody url config' t ctx body)])"
  using assms(1)
  by (cases rule: begin_request_cases; intro ephemerals_ok_update [OF assms(2) _ assms(3)])
    (auto split: sum.splits if_splits)

text \<open>The second turn keeps it.\<close>

lemma finish_request_session:
  assumes "finish_request np url config ctx sb h = (Inr o1, h')"
  shows "nro_sessionId o1 = sr_sessionId ctx \<and> nro_ephemeral o1 = sr_dropAfterRequest ctx"
  using assms by (auto elim: finish_request_Inr)

section \<open>The log\<close>

definition log_ok :: "nat \<Rightarrow> 'n net \<Rightarrow> bool" where
  "log_ok seed n \<longleftrightarrow>
     net_requestId n = (generateRequestId ^^ length (net_log n)) seed \<and>
     (\<forall>j < length (net_log n). sent_id (net_log n ! j) = (generateRequestId ^^ Suc j) seed) \<and>
     distinct (map sent_task (net_log n)) \<and>
     (\<forall>e \<in> set (net_log n). sent_task e < length (net_tasks n) \<and>
        net_tasks n ! sent_task e = TaskDone (sent_options e))"

lemma log_ok_running:
  "log_ok seed n \<Longrightarrow> (\<And>o1. net_tasks n ! i \<noteq> TaskDone o1) \<Longrightarrow> e \<in> set (net_log n) \<Longrightarrow> i \<noteq> sent_task e"
  by (auto simp: log_ok_def)

lemma log_ok_append: "log_ok seed n \<Longrightarrow> log_ok seed (n\<lparr>net_tasks := net_tasks n @ [task]\<rparr>)"
  by (auto simp: log_ok_def nth_append)

lemma log_ok_other:
  assumes "log_ok seed n" "\<And>o1. net_tasks n ! i \<noteq> TaskDone o1" "net_log n' = net_log n"
    and "net_requestId n' = net_requestId n" "net_tasks n' = (net_tasks n)[i := task]"
  shows "log_ok seed n'"
  using assms log_ok_running [OF assms(1,2)] by (simp add: log_ok_def)

lemma log_ok_sent:
  assumes "log_ok seed n" "i < length (net_tasks n)" "\<And>o1. net_tasks n ! i \<noteq> TaskDone o1"
    and "net_requestId n' = generateRequestId (net_requestId n)"
    and "net_tasks n' = (net_tasks n)[i := TaskDone (sent_options e)]" "net_log n' = net_log n @ [e]"
    and "sent_task e = i" "sent_id e = net_requestId n'"
  shows "log_ok seed n'"
proof -
  note other = log_ok_running [OF assms(1,3)]
  from assms(1) have "distinct (map sent_task (net_log n))" by (simp add: log_ok_def)
  moreover from other assms(7) have "sent_task e \<notin> sent_task ` set (net_log n)" by fastforce
  ultimately have d: "distinct (map sent_task (net_log n'))" by (simp add: assms(6))
  have t: "sent_task d < length (net_tasks n') \<and> net_tasks n' ! sent_task d = TaskDone (sent_options d)"
    if "d \<in> set (net_log n')" for d
  proof (cases "d = e")
    case True
    with assms(2,5,7) show ?thesis by simp
  next
    case False
    with that assms(6) have "d \<in> set (net_log n)" by auto
    with other assms(1,5) show ?thesis by (simp add: log_ok_def)
  qed
  from assms have "sent_id (net_log n' ! j) = (generateRequestId ^^ Suc j) seed" if "j < length (net_log n')" for j
    using that by (auto simp: log_ok_def nth_append less_Suc_eq)
  with d t assms(1,4,6) show ?thesis by (simp add: log_ok_def)
qed

section \<open>What every turn keeps\<close>

text \<open>The sessions that requests have named.\<close>

definition log_sessions :: "'n net \<Rightarrow> string set" where
  "log_sessions n = nro_sessionId ` {o1 \<in> sent_options ` set (net_log n). \<not> nro_ephemeral o1}"

fun task_ok :: "'n world \<Rightarrow> fetch_task \<Rightarrow> bool" where
  "task_ok w (TaskArguments url config ses t) \<longleftrightarrow>
     ri_transport config \<in> {TransportUndefined, TransportForeign} \<and> refers (w_transports w) t"
| "task_ok w (TaskBody url config t ctx body) \<longleftrightarrow> check_request config = Inr body \<and>
     ri_transport config \<in> {TransportUndefined, TransportForeign} \<and> refers (w_transports w) t"
| "task_ok w _ \<longleftrightarrow> True"

definition net_ok ::
  "('n \<Rightarrow> string set) \<Rightarrow> ('n \<Rightarrow> string set) \<Rightarrow> ('n \<Rightarrow> bool) \<Rightarrow> native_profiles \<Rightarrow> nat \<Rightarrow> 'n net \<Rightarrow> bool" where
  "net_ok transports sessions ok np seed n \<longleftrightarrow>
     world_ok transports sessions ok (log_sessions n) (net_world n) \<and>
     ephemerals_ok (net_ephemeral n) (net_tasks n) \<and> log_ok seed n \<and>
     (\<forall>task \<in> set (net_tasks n). task_ok (net_world n) task) \<and>
     (\<forall>e \<in> set (net_log n). consistent np (sent_options e))"

lemma check_request_bind [simp]:
  "check_request (bind_session w ses config) = check_request config"
  by (simp add: bind_session_def check_request_def split: option.split)

lemma check_request_transport [simp]:
  "check_request (bind_transport w t config) = check_request config"
  by (simp add: bind_transport_def check_request_def split: option.split)

lemma resolveFetchArgs_transport:
  "resolveFetchArgs input init = Inr (url, config) \<Longrightarrow>
     ri_transport config = ri_transport (opt_default init empty_init)"
  by (auto simp: resolveFetchArgs_def Let_def res_bind_Inr_iff split: fetch_input.splits)

lemma refers_mono: "refers xs r \<Longrightarrow> length xs \<le> length ys \<Longrightarrow> refers ys r"
  by (auto simp: refers_def split: option.splits)

lemma task_ok_mono:
  "task_ok w task \<Longrightarrow> length (w_transports w) \<le> length (w_transports w') \<Longrightarrow> task_ok w' task"
  by (cases task) (auto intro: refers_mono)

lemma world_step_transports:
  "world_step ops np w w' \<Longrightarrow> length (w_transports w) \<le> length (w_transports w')"
  by (induction rule: world_step.induct) simp_all

lemma world_ok_heap [simp]:
  "held_transports (w\<lparr>w_heap := h\<rparr>) = held_transports w"
  "held_sessions (w\<lparr>w_heap := h\<rparr>) = held_sessions w"
  "world_ok transports sessions ok extra (w\<lparr>w_heap := h\<rparr>) = world_ok transports sessions ok extra w"
  by (simp_all add: world_ok_def held_transports_def held_sessions_def)

lemma set_update_ball:
  "\<forall>x \<in> set xs. P x \<Longrightarrow> P y \<Longrightarrow> \<forall>x \<in> set (xs[i := y]). P x"
  using set_update_subset_insert [of xs i y] by blast

text \<open>A turn that replaces one task.\<close>

lemma net_ok_update:
  assumes "net_ok transports sessions ok np seed n" "net_tasks n' = (net_tasks n)[i := task]"
    and "world_ok transports sessions ok (log_sessions n') (net_world n')"
    and "length (w_transports (net_world n)) \<le> length (w_transports (net_world n'))"
    and "ephemerals_ok (net_ephemeral n') (net_tasks n')" "log_ok seed n'"
    and "task_ok (net_world n') task" "\<forall>e \<in> set (net_log n'). consistent np (sent_options e)"
  shows "net_ok transports sessions ok np seed n'"
proof -
  have "\<forall>task \<in> set (net_tasks n). task_ok (net_world n') task"
    using assms(1,4) by (auto simp: net_ok_def intro: task_ok_mono)
  from set_update_ball [of _ _ task i, OF this assms(7)] assms show ?thesis by (simp add: net_ok_def)
qed

lemma net_ok_append:
  "net_ok transports sessions ok np seed n \<Longrightarrow> task_ephemeral task = None \<Longrightarrow> task_ok (net_world n) task \<Longrightarrow>
     net_ok transports sessions ok np seed (n\<lparr>net_tasks := net_tasks n @ [task]\<rparr>)"
  by (auto simp: net_ok_def log_sessions_def intro: ephemerals_ok_append log_ok_append)

lemma start_task_ok:
  assumes "net_ok transports sessions ok np seed n" "by_reference input init"
    and "refers (w_transports (net_world n)) t"
  shows "net_ok transports sessions ok np seed (start_task input init ses t n)"
  unfolding start_task_def
  using assms(2,3)
  by (intro net_ok_append [OF assms(1)])
    (auto simp: by_reference_def dest: resolveFetchArgs_transport split: sum.split)

lemma begin_task_ok:
  assumes ok: "net_ok transports sessions ok np seed n" and i: "i < length (net_tasks n)"
  shows "net_ok transports sessions ok np seed (begin_task i n)"
proof (cases "net_tasks n ! i")
  case (TaskArguments url config ses t)
  obtain r c where b: "begin_request (bind_session (net_world n) ses config) (net_ephemeral n) = (r, c)"
    by fastforce
  define task where "task = (case r of Inl e \<Rightarrow> TaskFailed e
    | Inr (ctx, body) \<Rightarrow> TaskBody url config t ctx body)"
  have step: "begin_task i n = n\<lparr>net_ephemeral := c, net_tasks := (net_tasks n)[i := task]\<rparr>"
    by (simp add: begin_task_def TaskArguments b task_def)
  have "task_ok (net_world n) (net_tasks n ! i)"
    using ok i by (simp add: net_ok_def)
  with b have task: "task_ok (net_world n) task"
    by (auto simp: task_def TaskArguments dest!: begin_request_checked split: sum.split)
  have eph: "ephemerals_ok c ((net_tasks n)[i := task])"
    using ok i b unfolding task_def by (intro begin_ephemerals) (auto simp: net_ok_def)
  have log: "log_ok seed (begin_task i n)"
    by (rule log_ok_other [of seed n i _ task]) (use ok in \<open>auto simp: net_ok_def step TaskArguments\<close>)
  show ?thesis
    by (rule net_ok_update [OF ok, of _ i task])
      (use ok task eph log in \<open>simp_all add: step net_ok_def log_sessions_def\<close>)
qed (use ok in \<open>simp_all add: begin_task_def\<close>)

context request_registry
begin

lemma send_request_effect:
  assumes "ok s" "send_request request signal fate o1 requestId s = (calls, s')"
  shows "ok s' \<and> transports s' = transports s \<and>
    sessions s' \<subseteq> sessions s \<union> (if nro_ephemeral o1 then {} else {nro_sessionId o1})"
proof -
  obtain a s1 where a: "request o1 s = (a, s1)" by fastforce
  have "ok s1 \<and> transports s1 = transports s \<and>
      sessions s1 \<subseteq> sessions s \<union> (if nro_ephemeral o1 then {} else {nro_sessionId o1})"
    using request_Inl [OF assms(1)] request_Inr [OF assms(1)] a by (cases a) auto
  with a assms show ?thesis by (auto simp: send_request_def Let_def split: if_splits)
qed

lemma world_ok_native:
  assumes "world_ok transports sessions ok extra w" "ok s'" "transports s' = transports (w_native w)"
    and "sessions s' \<subseteq> sessions (w_native w) \<union> extra'"
  shows "world_ok transports sessions ok (extra \<union> extra') (w\<lparr>w_native := s'\<rparr>)"
  using assms by (auto simp: world_ok_def held_transports_def held_sessions_def)

lemma finish_task_ok:
  assumes ok: "net_ok transports sessions ok np seed n" and i: "i < length (net_tasks n)"
  shows "net_ok transports sessions ok np seed (finish_task request np fate i n)"
proof (cases "net_tasks n ! i")
  case (TaskBody url config t ctx body)
  define w where "w = net_world n"
  have w_ok: "world_ok transports sessions ok (log_sessions n) w" using ok by (simp add: net_ok_def w_def)
  have t_ok: "task_ok w (TaskBody url config t ctx body)"
    using ok i TaskBody by (metis net_ok_def nth_mem w_def)
  obtain r h where f: "finish_request np url (bind_transport w t config) ctx body (w_heap w) = (r, h)"
    by fastforce
  show ?thesis
  proof (cases r)
    case (Inl e)
    have step: "finish_task request np fate i n =
        n\<lparr>net_world := w\<lparr>w_heap := h\<rparr>, net_tasks := (net_tasks n)[i := TaskFailed e]\<rparr>"
      using f Inl by (simp add: finish_task_def TaskBody w_def Let_def)
    have log: "log_ok seed (finish_task request np fate i n)"
      by (rule log_ok_other [of seed n i _ "TaskFailed e"]) (use ok in \<open>auto simp: net_ok_def step TaskBody\<close>)
    have eph: "ephemerals_ok (net_ephemeral n) ((net_tasks n)[i := TaskFailed e])"
      using ok i by (intro ephemerals_ok_update [of "net_ephemeral n"]) (auto simp: net_ok_def)
    show ?thesis
      by (rule net_ok_update [OF ok, of _ i "TaskFailed e"])
        (use ok w_ok eph log in \<open>simp_all add: step net_ok_def log_sessions_def w_def\<close>)
  next
    case (Inr o1)
    define rid where "rid = generateRequestId (net_requestId n)"
    obtain calls s' where sd: "send_request request (has_signal config) fate o1 rid (w_native w) = (calls, s')"
      by fastforce
    define e where "e = \<lparr>sent_task = i, sent_id = rid, sent_options = o1, sent_calls = calls\<rparr>"
    have step: "finish_task request np fate i n =
        n\<lparr>net_world := w\<lparr>w_heap := h, w_native := s'\<rparr>, net_requestId := rid,
          net_tasks := (net_tasks n)[i := TaskDone o1], net_log := net_log n @ [e]\<rparr>"
      using f Inr sd by (simp add: finish_task_def TaskBody w_def [symmetric] rid_def [symmetric] e_def Let_def)
    have log: "log_ok seed (finish_task request np fate i n)"
      by (rule log_ok_sent [of seed n i _ e]) (use ok i in \<open>auto simp: net_ok_def step TaskBody e_def rid_def\<close>)
    have eph: "ephemerals_ok (net_ephemeral n) ((net_tasks n)[i := TaskDone o1])"
      using ok i finish_request_session [OF f [unfolded Inr]]
      by (intro ephemerals_ok_update [of "net_ephemeral n"]) (auto simp: net_ok_def TaskBody)
    have cons: "consistent np o1"
    proof (rule finish_request_consistent [OF f [unfolded Inr]])
      show "check_request (bind_transport w t config) = Inr body" using t_ok by simp
      show "transport_id x \<noteq> []" if "ri_transport (bind_transport w t config) = TransportObject x" for x
        using that t_ok w_ok by (auto simp: bind_transport_def refers_def world_ok_def split: option.splits)
    qed
    have world: "world_ok transports sessions ok (log_sessions n \<union> (if nro_ephemeral o1 then {} else {nro_sessionId o1}))
        (w\<lparr>w_heap := h, w_native := s'\<rparr>)"
      using send_request_effect [OF _ sd] w_ok by (intro world_ok_native) (auto simp: world_ok_def)
    have sess: "log_sessions (finish_task request np fate i n) =
        log_sessions n \<union> (if nro_ephemeral o1 then {} else {nro_sessionId o1})"
      by (auto simp: log_sessions_def step e_def)
    show ?thesis
    proof (rule net_ok_update [OF ok, of _ i "TaskDone o1"])
      show "world_ok transports sessions ok (log_sessions (finish_task request np fate i n))
          (net_world (finish_task request np fate i n))"
        unfolding sess using world by (simp add: step)
    qed (use ok eph log cons in \<open>auto simp: step net_ok_def w_def e_def\<close>)
  qed
qed (use ok in \<open>simp_all add: finish_task_def\<close>)

lemma net_step_ok:
  assumes "net_step ops request np n n'" "net_ok transports sessions ok np seed n"
  shows "net_ok transports sessions ok np seed n'"
  using assms
proof (induction rule: net_step.induct)
  case (net_other n w')
  then have "world_ok transports sessions ok (log_sessions n) w'"
    by (auto simp: net_ok_def intro: world_step_ok)
  with net_other show ?case
    by (auto simp: net_ok_def log_sessions_def log_ok_def intro: task_ok_mono world_step_transports)
next
  case (net_start_session input init k n t)
  then show ?case
    by (auto simp: start_session_task_def intro!: net_ok_append start_task_ok split: sum.split)
qed (auto intro: start_task_ok begin_task_ok finish_task_ok)

lemma net_reachable_ok:
  assumes "(net_step ops request np)\<^sup>*\<^sup>* n n'" "net_ok transports sessions ok np seed n"
  shows "net_ok transports sessions ok np seed n'"
  using assms by (induction rule: rtranclp_induct) (auto intro: net_step_ok)

end

end
