(* ===== verification/FetchInterleaving.thy ===== *)
theory FetchInterleaving
  imports FetchTasks
begin

text \<open>
  What holds of many calls of \<open>fetch\<close> whatever happens between their turns: what reaches the addon, what
  stays registered there, and what becomes of a request whose session is closed while it runs.

  The locale \<open>issuing_registry\<close> extends the contract of the registries by the identifiers issued so
  far: none is issued twice, so the transport of a closed object is never in use again.
\<close>

section \<open>Identifiers are issued once\<close>

locale issuing_registry = request_registry ops transports sessions ok request
  for ops :: "'n lifecycle" and transports :: "'n \<Rightarrow> string set" and sessions :: "'n \<Rightarrow> string set"
    and ok :: "'n \<Rightarrow> bool" and request :: "NativeRequestOptions \<Rightarrow> 'n \<Rightarrow> unit res \<times> 'n" +
  fixes issued :: "'n \<Rightarrow> string set"
  assumes issued_create:
      "ok s \<Longrightarrow> native_createTransport ops opts s = (Inr i, s') \<Longrightarrow>
         i \<notin> issued s \<and> issued s' = insert i (issued s)"
    and issued_no_create:
      "ok s \<Longrightarrow> native_createTransport ops opts s = (Inl e, s') \<Longrightarrow> issued s' = issued s"
    and issued_drop: "ok s \<Longrightarrow> native_dropTransport ops j s = (r, s') \<Longrightarrow> issued s' = issued s"
    and issued_session: "ok s \<Longrightarrow> native_createSession ops j s = (r', s') \<Longrightarrow> issued s' = issued s"
    and issued_drop_session: "ok s \<Longrightarrow> native_dropSession ops j s = (r, s') \<Longrightarrow> issued s' = issued s"
    and issued_idle: "ok s \<Longrightarrow> issued (addon_idle ops j s) = issued s"
    and issued_request: "ok s \<Longrightarrow> request o1 s = (r, s') \<Longrightarrow> issued s' = issued s"

definition rust_issued :: "('c, 'j) rust_state \<Rightarrow> string set" where
  "rust_issued s = rust_uuids s ` {..<rust_used s}"

interpretation rust_issuing: issuing_registry "rust_lifecycle build empty_jar"
  "\<lambda>s. dom (rust_transports s)" "\<lambda>s. dom (rust_sessions s)" rust_ok "make_request client empty_jar" rust_issued
  for build :: "NativeTransportOptions \<Rightarrow> 'c res" and empty_jar :: 'j
    and client :: "NativeRequestOptions \<Rightarrow> string option"
  by unfold_locales
    (auto simp: rust_issued_def rust_lifecycle_def create_transport_def drop_transport_def
      create_session_def drop_session_def expire_session_def make_request_def jar_for_def rust_ok_def lessThan_Suc
      Let_def dest: injD split: sum.splits option.splits if_splits)

text \<open>The transports of all objects there have been, open or closed.\<close>

definition session_transports :: "Session \<Rightarrow> string list" where
  "session_transports ses =
     (if sd_ownsTransport (session_defaults ses) \<and> present (sd_transportId (session_defaults ses))
      then [the (sd_transportId (session_defaults ses))] else [])"

definition all_transports :: "'n world \<Rightarrow> string list" where
  "all_transports w = map transport_id (w_transports w) @ concat (map session_transports (w_sessions w))"

lemma open_owned_subset: "set (open_owned ses) \<subseteq> set (session_transports ses)"
  by (auto simp: open_owned_def session_transports_def)

lemma open_transport_subset: "set (open_transport t) \<subseteq> {transport_id t}"
  by (simp add: open_transport_def)

text \<open>A closed session's transport is held by no object.\<close>

lemma closed_not_held:
  assumes "distinct (all_transports w)" "k < length (w_sessions w)"
    and "session_disposed (w_sessions w ! k)" "i \<in> set (session_transports (w_sessions w ! k))"
  shows "i \<notin> set (held_transports w)"
proof -
  obtain ys zs where split: "w_sessions w = ys @ w_sessions w ! k # zs"
    using assms(2) by (rule list_update_split) blast
  have "distinct (map transport_id (w_transports w) @ concat (map session_transports ys) @
      session_transports (w_sessions w ! k) @ concat (map session_transports zs))"
    using assms(1) unfolding all_transports_def by (subst (asm) split) simp
  with assms(4) have "i \<notin> transport_id ` set (w_transports w)"
    "i \<notin> \<Union> (set ` session_transports ` (set ys \<union> set zs))"
    by auto
  moreover have "set (held_transports w) \<subseteq> transport_id ` set (w_transports w) \<union>
      \<Union> (set ` session_transports ` (set ys \<union> set zs))"
    unfolding held_transports_def
    by (subst split) (use assms(3) open_transport_subset open_owned_subset in fastforce)
  ultimately show ?thesis by blast
qed

lemma all_transports_new:
  "all_transports (w\<lparr>w_native := s', w_heap := h', w_sessions := w_sessions w @ [ses]\<rparr>) =
     all_transports w @ session_transports ses"
  by (simp add: all_transports_def)

lemma distinct_session_transports [simp]: "distinct (session_transports ses)"
  by (simp add: session_transports_def)

lemma transport_close_object:
  "transport_close ops t s = (r, t', s') \<Longrightarrow> transport_id t' = transport_id t"
  by (auto simp: transport_close_def Let_def split: if_splits sum.splits prod.splits)

lemma all_transports_close:
  "transport_id t' = transport_id (w_transports w ! k) \<Longrightarrow>
     all_transports (w\<lparr>w_native := s', w_transports := (w_transports w)[k := t']\<rparr>) = all_transports w"
  "session_defaults ses' = session_defaults (w_sessions w ! k) \<Longrightarrow>
     all_transports (w\<lparr>w_native := s', w_sessions := (w_sessions w)[k := ses']\<rparr>) = all_transports w"
proof -
  assume "transport_id t' = transport_id (w_transports w ! k)"
  then have "map transport_id ((w_transports w)[k := t']) = map transport_id (w_transports w)"
    by (metis list_update_id map_update)
  then show "all_transports (w\<lparr>w_native := s', w_transports := (w_transports w)[k := t']\<rparr>) = all_transports w"
    by (simp add: all_transports_def)
next
  assume "session_defaults ses' = session_defaults (w_sessions w ! k)"
  then have "session_transports ses' = session_transports (w_sessions w ! k)"
    by (simp add: session_transports_def)
  then have "map session_transports ((w_sessions w)[k := ses']) = map session_transports (w_sessions w)"
    by (metis list_update_id map_update)
  then show "all_transports (w\<lparr>w_native := s', w_sessions := (w_sessions w)[k := ses']\<rparr>) = all_transports w"
    by (simp add: all_transports_def)
qed

definition issued_ok :: "('n \<Rightarrow> string set) \<Rightarrow> 'n world \<Rightarrow> bool" where
  "issued_ok issued w \<longleftrightarrow> distinct (all_transports w) \<and> set (all_transports w) \<subseteq> issued (w_native w)"

context issuing_registry
begin

lemma createTransport_issued:
  assumes "ok s" "createTransport ops np options s = (r, s')"
  shows "(case r of Inl e \<Rightarrow> issued s' = issued s
    | Inr t \<Rightarrow> transport_id t \<notin> issued s \<and> issued s' = insert (transport_id t) (issued s))"
  using assms issued_create [OF assms(1)] issued_no_create [OF assms(1)]
  by (auto simp: createTransport_def Let_def split: sum.splits prod.splits)

lemma transport_close_issued:
  "ok s \<Longrightarrow> transport_close ops t s = (r, t', s') \<Longrightarrow> issued s' = issued s"
  using issued_drop by (auto simp: transport_close_def Let_def split: if_splits sum.splits prod.splits)

lemma createSession_issued:
  assumes ok: "ok s" and run: "createSession ops np uuid options h s = (r, s')"
  shows "(case r of Inl e \<Rightarrow> issued s \<subseteq> issued s'
    | Inr (ses, h') \<Rightarrow> set (session_transports ses) \<inter> issued s = {} \<and>
        issued s' = set (session_transports ses) \<union> issued s)"
proof (cases "normalizeSessionOptions np uuid options h")
  case (Inl e)
  with run show ?thesis by (auto simp: createSession_def)
next
  case (Inr v)
  obtain sid d h1 where v: "v = ((sid, d), h1)" by (metis prod.exhaust)
  obtain rt s1 where t: "native_createTransport ops (session_transport_options d) s = (rt, s1)"
    by fastforce
  show ?thesis
  proof (cases rt)
    case e: (Inl e)
    with Inr v t run issued_no_create [OF ok t [unfolded e]] show ?thesis
      by (auto simp: createSession_def)
  next
    case i: (Inr i)
    note T = issued_create [OF ok t [unfolded i]] createTransport_Inr [OF ok t [unfolded i]]
    obtain rs s2 where c: "native_createSession ops sid s1 = (rs, s2)" by fastforce
    from T have ok1: "ok s1" by simp
    have ok2: "ok s2"
      using createSession_Inl [OF ok1] createSession_Inr [OF ok1] c by (cases rs) auto
    have I: "issued s2 = issued s1" by (rule issued_session [OF ok1 c])
    obtain u s3 where dr: "native_dropTransport ops i s2 = (u, s3)" by fastforce
    have "issued s3 = issued s2" by (rule issued_drop [OF ok2 dr])
    with I T have fail: "issued s \<subseteq> issued s3" by auto
    show ?thesis
    proof (cases rs)
      case e: (Inl e)
      have "\<exists>e. r = Inl e" "s' = s3"
        using run by (auto simp: createSession_def Inr v t i c e dr)
      with fail show ?thesis by auto
    next
      case j: (Inr j)
      have r: "r = Inr (\<lparr>session_id = j, session_disposed = False,
          session_defaults = d\<lparr>sd_transportId := Some i, sd_ownsTransport := True\<rparr>\<rparr>, h1)" "s' = s2"
        using run by (auto simp: createSession_def Inr v t i c j)
      from T I show ?thesis unfolding r by (simp add: session_transports_def)
    qed
  qed
qed

lemma session_close_issued:
  assumes "ok s" "session_close ops ses s = (r, ses', s')"
  shows "issued s' = issued s"
proof -
  obtain rd s1 where d: "native_dropSession ops (session_id ses) s = (rd, s1)" by fastforce
  from dropSession [OF assms(1) d] issued_drop_session [OF assms(1) d]
  have S: "ok s1" "issued s1 = issued s" by auto
  then show ?thesis
    using assms(2) d issued_drop [OF S(1)]
    by (auto simp: session_close_def Let_def split: if_splits sum.splits prod.splits)
qed

lemma world_step_issued:
  assumes "world_step ops np w w'" "ok (w_native w)" "issued_ok issued w"
  shows "issued_ok issued w'"
  using assms
proof (induction rule: world_step.induct)
  case (new_transport options w t s')
  with createTransport_issued [OF new_transport.prems(1) new_transport.hyps] show ?case
    by (auto simp: issued_ok_def all_transports_def)
next
  case (no_transport options w e s')
  with createTransport_issued [OF no_transport.prems(1) no_transport.hyps] show ?case
    by (auto simp: issued_ok_def all_transports_def)
next
  case (close_transport k w r t' s')
  with transport_close_issued [OF close_transport.prems(1) close_transport.hyps(2)]
  show ?case
    by (simp add: issued_ok_def all_transports_close(1) [OF transport_close_object [OF close_transport.hyps(2)]])
next
  case (new_session uuid options' w ses h' s')
  with createSession_issued [OF new_session.prems(1) new_session.hyps] show ?case
    unfolding issued_ok_def all_transports_new by auto
next
  case (no_session uuid options' w e s')
  with createSession_issued [OF no_session.prems(1) no_session.hyps] show ?case
    by (auto simp: issued_ok_def all_transports_def)
next
  case (close_session k w r' ses' s')
  with session_close_issued [OF close_session.prems(1) close_session.hyps(2)]
    session_close_object [OF close_session.hyps(2)]
  show ?case by (simp add: issued_ok_def all_transports_close(2))
next
  case (idle_session w i)
  with issued_idle [OF idle_session.prems(1)] show ?case
    by (simp add: issued_ok_def all_transports_def)
qed

lemma send_request_issued:
  "ok s \<Longrightarrow> send_request request signal fate o1 requestId s = (calls, s') \<Longrightarrow> issued s' = issued s"
  using issued_request by (auto simp: send_request_def Let_def split: prod.splits if_splits)

lemma issued_ok_native:
  "issued_ok issued w \<Longrightarrow> issued s' = issued (w_native w) \<Longrightarrow>
     issued_ok issued (w\<lparr>w_heap := h, w_native := s'\<rparr>)"
  by (simp add: issued_ok_def all_transports_def)

lemma finish_task_issued:
  assumes "ok (w_native (net_world n))" "issued_ok issued (net_world n)"
  shows "issued_ok issued (net_world (finish_task request np fate i n))"
  using assms send_request_issued [OF assms(1)]
  by (auto simp: finish_task_def Let_def issued_ok_def all_transports_def
      split: fetch_task.split sum.split prod.split)

lemma net_step_issued:
  assumes "net_step ops request np n n'" "ok (w_native (net_world n))" "issued_ok issued (net_world n)"
  shows "issued_ok issued (net_world n')"
  using assms
  by (induction rule: net_step.induct)
    (auto simp: start_task_def start_session_task_def begin_task_def Let_def
      intro: world_step_issued finish_task_issued split: sum.split fetch_task.split prod.split)

lemma net_reachable_issued:
  assumes "(net_step ops request np)\<^sup>*\<^sup>* n n'" "net_ok transports sessions ok np seed n"
    and "issued_ok issued (net_world n)"
  shows "issued_ok issued (net_world n')"
  using assms
proof (induction rule: rtranclp_induct)
  case (step n' n'')
  from net_reachable_ok [OF step.hyps(1) step.prems(1)] have "ok (w_native (net_world n'))"
    by (simp add: net_ok_def world_ok_def)
  with step show ?case by (auto intro: net_step_issued)
qed simp

text \<open>A request on the transport of a closed session fails in the addon and changes nothing there.\<close>

lemma closed_transport_refused:
  assumes "net_ok transports sessions ok np seed n" "issued_ok issued (net_world n)"
    and "k < length (w_sessions (net_world n))" "session_disposed (w_sessions (net_world n) ! k)"
    and "i \<in> set (session_transports (w_sessions (net_world n) ! k))"
  shows "i \<notin> transports (w_native (net_world n))"
  using assms closed_not_held [of "net_world n" k i]
  by (auto simp: net_ok_def world_ok_def issued_ok_def)

end

section \<open>From the beginning\<close>

definition fresh_net :: "nat \<Rightarrow> ('c, 'j) rust_state net \<Rightarrow> bool" where
  "fresh_net hrtime n \<longleftrightarrow>
     net_requestId n = seed_request_id hrtime \<and> net_ephemeral n = 0 \<and> net_tasks n = [] \<and> net_log n = [] \<and>
     w_transports (net_world n) = [] \<and> w_sessions (net_world n) = [] \<and> rust_ok (w_native (net_world n)) \<and>
     rust_transports (w_native (net_world n)) = Map.empty \<and> rust_sessions (w_native (net_world n)) = Map.empty"

lemma fresh_net_ok:
  assumes "fresh_net hrtime n"
  shows "net_ok (\<lambda>s. dom (rust_transports s)) (\<lambda>s. dom (rust_sessions s)) rust_ok np (seed_request_id hrtime) n"
    and "issued_ok rust_issued (net_world n)"
  using assms
  by (simp_all add: fresh_net_def net_ok_def world_ok_def held_transports_def held_sessions_def
      log_ok_def ephemerals_ok_def issued_ok_def all_transports_def)

lemmas rust_reachable_ok =
  rust_requests.net_reachable_ok [OF _ fresh_net_ok(1)]
  rust_issuing.net_reachable_issued [OF _ fresh_net_ok]

text \<open>What a task without a transport of its own asks for, once its session is known.\<close>

lemma finish_request_transport:
  assumes "finish_request np url config ctx sb h = (Inr o1, h')" "sr_defaults ctx = Some d"
    and "ri_transport config \<in> {TransportUndefined, TransportForeign}" "sd_transportId d = Some j" "j \<noteq> []"
  shows "nro_transportId o1 = Some j"
proof -
  from assms(1) obtain headers transport where
    t: "resolveTransportContext np config (sr_defaults ctx) = Inr transport"
    and o1: "o1 = request_options url config ctx (sb_body sb) headers transport"
    by (elim finish_request_Inr)
  with assms(2-5) have "session_transport np config d j = Inr transport"
    by (auto simp: resolveTransportContext_def split: transport_argument.splits)
  with assms(5) show ?thesis by (auto simp: o1 session_transport_Inr fixed_transport_def)
qed

section \<open>A run\<close>

text \<open>
  One session and one transport; two requests on the session, the first with the transport as its own;
  the session is closed between their turns.
\<close>

definition run_session :: "bool \<Rightarrow> Session" where
  "run_session disposed = \<lparr>session_id = ''id'', session_disposed = disposed,
     session_defaults = \<lparr>sd_transportMode = PresetMode DEFAULT_BROWSER DEFAULT_OS None,
       sd_proxy = JUndefined, sd_proxyHeaders = None, sd_timeout = JUndefined, sd_insecure = None,
       sd_trustStore = DEFAULT_TRUST_STORE, sd_defaultHeaders = None, sd_captureDiagnostics = None,
       sd_transportId = Some ''u'', sd_ownsTransport = True\<rparr>\<rparr>"

definition run_transport :: Transport where
  "run_transport = \<lparr>transport_id = ''uu'', transport_disposed = False\<rparr>"

definition run_world :: "bool \<Rightarrow> (unit, unit) rust_state world" where
  "run_world disposed = \<lparr>w_native = first_state\<lparr>rust_used := 2,
       rust_transports := (if disposed then [''uu'' \<mapsto> ()] else [''u'' \<mapsto> (), ''uu'' \<mapsto> ()]),
       rust_sessions := (if disposed then Map.empty else [''id'' \<mapsto> ()])\<rparr>,
     w_heap = heap_empty, w_transports = [run_transport], w_sessions = [run_session disposed]\<rparr>"

definition first_net :: "(unit, unit) rust_state net" where
  "first_net = \<lparr>net_world = first_world, net_ephemeral = 0, net_requestId = seed_request_id 5,
     net_tasks = [], net_log = []\<rparr>"

definition run_url :: fetch_input where
  "run_url = PlainInput (UrlString ''https://a/'')"

definition started_net :: "(unit, unit) rust_state net" where
  "started_net = start_task run_url None (Some 0) None
     (start_task run_url None (Some 0) (Some 0) (first_net\<lparr>net_world := run_world False\<rparr>))"

definition waiting_net :: "(unit, unit) rust_state net" where
  "waiting_net = begin_task 1 (begin_task 0 started_net)"

definition closed_net :: "(unit, unit) rust_state net" where
  "closed_net = waiting_net\<lparr>net_world := run_world True\<rparr>"

abbreviation plain_request :: "NativeRequestOptions \<Rightarrow> (unit, unit) rust_state \<Rightarrow> unit res \<times> (unit, unit) rust_state" where
  "plain_request \<equiv> make_request (\<lambda>_. None) ()"

definition sent_one :: "(unit, unit) rust_state net" where
  "sent_one = finish_task plain_request sample_profiles NeverFires 0 closed_net"

definition sent_two :: "(unit, unit) rust_state net" where
  "sent_two = finish_task plain_request sample_profiles NeverFires 1 sent_one"

abbreviation run_step :: "(unit, unit) rust_state net \<Rightarrow> (unit, unit) rust_state net \<Rightarrow> bool" where
  "run_step \<equiv> net_step plain_lifecycle plain_request sample_profiles"

lemma fresh_first_net: "fresh_net 5 first_net"
  using rust_ok_first_state
  by (simp add: fresh_net_def first_net_def first_world_def first_state_def)

lemma run_url_resolved: "resolveFetchArgs run_url None = Inr (''https://a/'', empty_init)"
proof -
  have "coerceUrlInput (UrlString ''https://a/'') = Inr ''https://a/''" by code_simp
  then show ?thesis by (simp add: resolveFetchArgs_def run_url_def)
qed

lemma run_created:
  "createSession plain_lifecycle sample_profiles ''id'' None heap_empty first_state =
     (Inr (run_session False, heap_empty),
      first_state\<lparr>rust_used := 1, rust_transports := [''u'' \<mapsto> ()], rust_sessions := [''id'' \<mapsto> ()]\<rparr>)"
  by (simp add: createSession_def normalizeSessionOptions_def no_session_options_def run_session_def
      resolveEmulationMode_def when_defined_def normalizeProxyHeaders_def plain_lifecycle_def
      rust_lifecycle_def create_transport_def create_session_def first_state_def Let_def)

lemma run_created_transport:
  "createTransport plain_lifecycle sample_profiles None
     (first_state\<lparr>rust_used := 1, rust_transports := [''u'' \<mapsto> ()], rust_sessions := [''id'' \<mapsto> ()]\<rparr>) =
   (Inr run_transport, w_native (run_world False))"
  by (simp add: createTransport_def createTransport_options_def no_transport_options_def
      resolveEmulationMode_def validateTrustStore_def when_defined_def normalizeProxyHeaders_def
      plain_lifecycle_def rust_lifecycle_def create_transport_def first_state_def run_world_def
      run_transport_def numeral_2_eq_2 Let_def fun_upd_twist)

lemma run_closed:
  "session_close plain_lifecycle (run_session False) (w_native (run_world False)) =
     (Inr (), run_session True, w_native (run_world True))"
  by (auto simp: session_close_def run_session_def run_world_def plain_lifecycle_def rust_lifecycle_def
      drop_session_def drop_transport_def present_def first_state_def fun_eq_iff Let_def)

definition run_context :: SessionResolution where
  "run_context = \<lparr>sr_sessionId = ''id'', sr_cookieMode = ''session'', sr_dropAfterRequest = False,
     sr_defaults = Some (session_defaults (run_session False))\<rparr>"

lemma run_begins:
  "begin_request (bind_session (run_world False) (Some 0) empty_init) 0 = (Inr (run_context, no_body), 0)"
  by (simp add: run_context_def begin_request_def bind_session_def resolveSessionContext_def empty_init_def run_world_def
      run_session_def check_request_def validateRedirectMode_def when_defined_def validateTrustStore_def
      serializeBody_def no_body_def ensureBodyAllowed_def ensureMethod_def)


lemma waiting_net_eq:
  "waiting_net = first_net\<lparr>net_world := run_world False, net_tasks :=
     [TaskBody ''https://a/'' empty_init (Some 0) run_context no_body,
      TaskBody ''https://a/'' empty_init None run_context no_body]\<rparr>"
  using run_begins
  by (simp add: waiting_net_def begin_task_def started_net_def start_task_def run_url_resolved first_net_def)

definition run_options :: "nat option \<Rightarrow> string \<Rightarrow> NativeRequestOptions" where
  "run_options t i = request_options ''https://a/'' (bind_transport (run_world True) t empty_init)
     run_context None None (fixed_transport i None)"

lemma run_options_simps [simp]:
  "nro_transportId (run_options t i) = (if i = [] then None else Some i)"
  "nro_sessionId (run_options t i) = ''id''" "\<not> nro_ephemeral (run_options t i)"
  by (simp_all add: run_options_def fixed_transport_def run_context_def)

lemma run_finishes:
  "finish_request sample_profiles ''https://a/'' (bind_transport (run_world True) (Some 0) empty_init)
     run_context no_body heap_empty = (Inr (run_options (Some 0) ''uu''), heap_empty)"
  "finish_request sample_profiles ''https://a/'' (bind_transport (run_world True) None empty_init)
     run_context no_body heap_empty = (Inr (run_options None ''u''), heap_empty)"
  by (simp_all add: finish_request_def default_headers_def run_context_def run_session_def run_options_def
      mergeHeaderTuples_def bind_transport_def empty_init_def add_content_type_def no_body_def
      resolveTransportContext_def own_transport_def session_transport_def normalizeProxyHeaders_def
      run_world_def run_transport_def deref_def opt_or_def)

lemma run_answers:
  "plain_request (run_options (Some 0) ''uu'') (w_native (run_world True)) =
     (Inr (), (w_native (run_world True))\<lparr>rust_sessions := [''id'' \<mapsto> ()]\<rparr>)"
  by (simp add: make_request_def jar_for_def run_world_def first_state_def)


lemma sent_one_eq:
  "sent_one = closed_net\<lparr>net_world := (run_world True)\<lparr>w_native :=
       (w_native (run_world True))\<lparr>rust_sessions := [''id'' \<mapsto> ()]\<rparr>\<rparr>,
     net_requestId := generateRequestId (seed_request_id 5),
     net_tasks := [TaskDone (run_options (Some 0) ''uu''), TaskBody ''https://a/'' empty_init None run_context no_body],
     net_log := [\<lparr>sent_task = 0, sent_id = generateRequestId (seed_request_id 5),
       sent_options = run_options (Some 0) ''uu'',
       sent_calls = [CallRequest (generateRequestId (seed_request_id 5)) False]\<rparr>]\<rparr>"
proof -
  have h: "w_heap (run_world True) = heap_empty" by (simp add: run_world_def)
  show ?thesis
    by (simp add: sent_one_def finish_task_def closed_net_def waiting_net_eq h run_finishes
        send_request_def run_answers has_signal_def dispatchRequest_def first_net_def Let_def)
      (simp add: empty_init_def h [symmetric])
qed

lemma sent_two_log:
  "\<exists>e. net_log sent_two = net_log sent_one @ [e]"
proof -
  have h: "w_heap (run_world True) = heap_empty" by (simp add: run_world_def)
  show ?thesis
    by (simp add: sent_two_def finish_task_def sent_one_eq bind_transport_def h Let_def
        run_finishes(2) [unfolded bind_transport_def, simplified] split: prod.split)
qed

lemma run_reaches:
  "run_step\<^sup>*\<^sup>* first_net waiting_net" "run_step waiting_net closed_net"
  "run_step closed_net sent_one" "run_step sent_one sent_two"
proof -
  define w1 where "w1 = first_world\<lparr>w_native := first_state\<lparr>rust_used := 1, rust_transports := [''u'' \<mapsto> ()],
    rust_sessions := [''id'' \<mapsto> ()]\<rparr>, w_heap := heap_empty, w_sessions := [run_session False]\<rparr>"
  have "world_step plain_lifecycle sample_profiles first_world w1"
    using world_step.new_session [of plain_lifecycle sample_profiles "''id''" None first_world] run_created
    by (simp add: w1_def first_world_def)
  then have 1: "run_step first_net (first_net\<lparr>net_world := w1\<rparr>)"
    by (intro net_other) (simp add: first_net_def)
  have "world_step plain_lifecycle sample_profiles w1 (run_world False)"
    using world_step.new_transport [of plain_lifecycle sample_profiles None w1] run_created_transport
    by (simp add: w1_def first_world_def run_world_def)
  then have 2: "run_step (first_net\<lparr>net_world := w1\<rparr>) (first_net\<lparr>net_world := run_world False\<rparr>)"
    using net_other [of plain_lifecycle sample_profiles "first_net\<lparr>net_world := w1\<rparr>" "run_world False" plain_request]
    by simp
  define n3 where "n3 = start_task run_url None (Some 0) (Some 0) (first_net\<lparr>net_world := run_world False\<rparr>)"
  have url: "by_reference run_url None" by (simp add: by_reference_def empty_init_def)
  have 3: "run_step (first_net\<lparr>net_world := run_world False\<rparr>) n3"
    unfolding n3_def by (rule net_start [OF url]) (simp_all add: refers_def run_world_def)
  have 4: "run_step n3 started_net"
    unfolding started_net_def n3_def [symmetric]
    by (rule net_start [OF url]) (simp_all add: refers_def run_world_def n3_def start_task_def)
  have len: "length (net_tasks started_net) = 2"
    by (simp add: started_net_def start_task_def first_net_def)
  have 5: "run_step started_net (begin_task 0 started_net)"
    by (rule net_begin) (simp add: len)
  have "length (net_tasks (begin_task 0 started_net)) = 2"
    by (simp add: begin_task_def len split: fetch_task.split prod.split)
  then have 6: "run_step (begin_task 0 started_net) waiting_net"
    unfolding waiting_net_def by (intro net_begin) simp
  from 1 2 3 4 5 6 show "run_step\<^sup>*\<^sup>* first_net waiting_net"
    by (meson converse_rtranclp_into_rtranclp rtranclp.rtrancl_refl)
  have "world_step plain_lifecycle sample_profiles (run_world False) (run_world True)"
    using world_step.close_session [of 0 "run_world False" plain_lifecycle] run_closed
    by (simp add: run_world_def)
  then show "run_step waiting_net closed_net"
    unfolding closed_net_def by (intro net_other) (simp add: waiting_net_eq)
  show "run_step closed_net sent_one"
    using net_finish [of 0 closed_net plain_lifecycle plain_request sample_profiles NeverFires]
    by (simp add: sent_one_def closed_net_def waiting_net_eq)
  show "run_step sent_one sent_two"
    using net_finish [of 1 "sent_one" plain_lifecycle plain_request sample_profiles NeverFires]
    unfolding sent_two_def by (simp add: sent_one_eq)
qed

lemmas run_reaches_all = run_reaches [unfolded plain_lifecycle_def]

lemma run_reaches_sent_two:
  "(net_step (rust_lifecycle (\<lambda>_. Inr ()) ()) plain_request sample_profiles)\<^sup>*\<^sup>* first_net sent_two"
  using run_reaches_all by (meson rtranclp.rtrancl_into_rtrancl)

section \<open>Properties\<close>

text \<open>C2: However many requests run at once and whatever happens between their turns, no request is sent
  twice, no two of fewer than 2^48 consecutive ones share an identifier, and no two that are isolated
  share a session.\<close>

theorem requests_in_any_order:
  assumes "(net_step (rust_lifecycle build jar) (make_request client jar) np)\<^sup>*\<^sup>* n n'" "fresh_net hrtime n"
    and "i < j" "j < length (net_log n')" "j < i + (REQUEST_ID_MAX - 1)"
  shows "sent_task (net_log n' ! i) \<noteq> sent_task (net_log n' ! j) \<and>
    sent_id (net_log n' ! i) \<noteq> sent_id (net_log n' ! j) \<and>
    (nro_ephemeral (sent_options (net_log n' ! i)) \<and> nro_ephemeral (sent_options (net_log n' ! j)) \<longrightarrow>
      nro_sessionId (sent_options (net_log n' ! i)) \<noteq> nro_sessionId (sent_options (net_log n' ! j)))"
proof -
  define a b where "a = net_log n' ! i" and "b = net_log n' ! j"
  from assms(3,4) have in_log: "a \<in> set (net_log n')" "b \<in> set (net_log n')"
    by (simp_all add: a_def b_def)
  note ok = rust_reachable_ok(1) [OF assms(1,2)]
  then have log: "log_ok (seed_request_id hrtime) n'" and eph: "ephemerals_ok (net_ephemeral n') (net_tasks n')"
    by (simp_all add: net_ok_def)
  from log have "distinct (map sent_task (net_log n'))" by (simp add: log_ok_def)
  from nth_eq_iff_index_eq [OF this, of i j] assms(3,4) have task: "sent_task a \<noteq> sent_task b"
    by (simp add: a_def b_def)
  have ids: "sent_id a = (generateRequestId ^^ Suc i) (seed_request_id hrtime)"
    "sent_id b = (generateRequestId ^^ Suc j) (seed_request_id hrtime)"
    using log assms(3,4) by (simp_all add: log_ok_def a_def b_def)
  have pos: "0 < REQUEST_ID_MAX - 1" by (simp add: REQUEST_ID_MAX_def)
  have "sent_id a \<noteq> sent_id b"
    unfolding ids seed_request_id_def generateRequestId_power
    using mod_distinct [of "Suc i" "Suc j" "REQUEST_ID_MAX - 1" hrtime] assms(3,5) by simp
  moreover have "nro_sessionId (sent_options a) \<noteq> nro_sessionId (sent_options b)"
    if "nro_ephemeral (sent_options a)" "nro_ephemeral (sent_options b)"
  proof -
    from log in_log have t: "sent_task a < length (net_tasks n')" "sent_task b < length (net_tasks n')"
      "net_tasks n' ! sent_task a = TaskDone (sent_options a)"
      "net_tasks n' ! sent_task b = TaskDone (sent_options b)"
      by (simp_all add: log_ok_def)
    with ephemerals_okD(2) [OF eph t(1) _ t(2) task] that show ?thesis by auto
  qed
  ultimately show ?thesis using task by (simp add: a_def b_def)
qed

theorem requests_in_any_order_witness:
  "sent_id (net_log sent_two ! 0) \<noteq> sent_id (net_log sent_two ! 1)"
proof -
  obtain e where "net_log sent_two = net_log sent_one @ [e]" using sent_two_log by blast
  then have "1 < length (net_log sent_two)" by (simp add: sent_one_eq)
  moreover have "(1 :: nat) < 0 + (REQUEST_ID_MAX - 1)" by (simp add: REQUEST_ID_MAX_def)
  ultimately show ?thesis
    using requests_in_any_order [OF run_reaches_sent_two fresh_first_net, of 0 1] by simp
qed

text \<open>C25: Every request that reaches the addon is consistent, whatever ran between its turns: \<open>GET\<close> and
  \<open>HEAD\<close> have no body, the redirect mode is a known one, the header list is not empty, and either it
  runs on a transport and says nothing of what a transport decides, or it has none and carries a
  sound emulation mode.\<close>

theorem sent_requests_consistent:
  assumes "(net_step (rust_lifecycle build jar) (make_request client jar) np)\<^sup>*\<^sup>* n n'" "fresh_net hrtime n"
    and "e \<in> set (net_log n')"
  shows "consistent np (sent_options e)"
  using rust_reachable_ok(1) [OF assms(1,2)] assms(3) by (simp add: net_ok_def)

theorem sent_requests_consistent_witness:
  "consistent sample_profiles (run_options (Some 0) ''uu'')"
proof -
  have "\<exists>e \<in> set (net_log sent_two). sent_options e = run_options (Some 0) ''uu''"
    using sent_two_log by (auto simp: sent_one_eq)
  with sent_requests_consistent [OF run_reaches_sent_two fresh_first_net] show ?thesis by metis
qed

text \<open>C3: Requests register nothing but cookie jars: however they interleave with the creation and closing
  of sessions and transports, the addon holds exactly the transports of open objects, each held by one
  object, and every session it knows is open or was named by a request.\<close>

theorem interleaved_registries:
  assumes "(net_step (rust_lifecycle build jar) (make_request client jar) np)\<^sup>*\<^sup>* n n'" "fresh_net hrtime n"
  shows "distinct (held_transports (net_world n')) \<and>
    set (held_transports (net_world n')) = dom (rust_transports (w_native (net_world n'))) \<and>
    dom (rust_sessions (w_native (net_world n'))) \<subseteq>
      set (held_sessions (net_world n')) \<union> nro_sessionId ` sent_options ` set (net_log n')"
proof -
  have "log_sessions n' \<subseteq> nro_sessionId ` sent_options ` set (net_log n')"
    by (auto simp: log_sessions_def)
  with rust_reachable_ok(1) [OF assms] show ?thesis by (auto simp: net_ok_def world_ok_def)
qed

theorem interleaved_registries_witness:
  "set (held_transports (net_world sent_two)) = dom (rust_transports (w_native (net_world sent_two)))"
  using interleaved_registries [OF run_reaches_sent_two fresh_first_net] by blast

text \<open>C28: A request on a session that is closed while its body is collected is refused: the addon answers
  that the session's transport does not exist, and nothing is registered or sent. (The session was
  open in the request's first turn; it is not asked again.)\<close>

theorem late_request_refused:
  assumes "(net_step (rust_lifecycle build jar) (make_request client jar) np)\<^sup>*\<^sup>* n n'" "fresh_net hrtime n"
    and "i < length (net_tasks n')" "net_tasks n' ! i = TaskBody url config None ctx body"
    and "k < length (w_sessions (net_world n'))" "session_disposed (w_sessions (net_world n') ! k)"
    and "sr_defaults ctx = Some (session_defaults (w_sessions (net_world n') ! k))"
    and "sd_ownsTransport (session_defaults (w_sessions (net_world n') ! k))"
    and "sd_transportId (session_defaults (w_sessions (net_world n') ! k)) = Some j" "j \<noteq> []"
    and "n'' = finish_task (make_request client jar) np fate i n'"
  shows "w_native (net_world n'') = w_native (net_world n') \<and>
    (\<forall>e \<in> set (drop (length (net_log n')) (net_log n'')).
       fst (make_request client jar (sent_options e) (w_native (net_world n'))) =
         Inl (PlainError (''Transport '' @ squote @ j @ squote @ '' not found'')))"
proof -
  let ?s = "w_native (net_world n')"
  note ok = rust_reachable_ok(1) [OF assms(1,2)] and iss = rust_reachable_ok(2) [OF assms(1,2,2)]
  have gone: "j \<notin> dom (rust_transports ?s)"
    using rust_issuing.closed_transport_refused [OF ok iss assms(5,6)] assms(8-10)
    by (simp add: session_transports_def)
  have "task_ok (net_world n') (TaskBody url config None ctx body)"
    using ok assms(3,4) by (metis net_ok_def nth_mem)
  then have foreign: "ri_transport config \<in> {TransportUndefined, TransportForeign}" by simp
  obtain r h where f: "finish_request np url config ctx body (w_heap (net_world n')) = (r, h)" by fastforce
  show ?thesis
  proof (cases r)
    case (Inl e)
    with f assms(4,11) show ?thesis by (simp add: finish_task_def bind_transport_def Let_def)
  next
    case (Inr o1)
    have "nro_transportId o1 = Some j"
      using finish_request_transport [OF f [unfolded Inr] assms(7) foreign assms(9,10)] .
    with gone have refused: "make_request client jar o1 ?s =
        (Inl (PlainError (''Transport '' @ squote @ j @ squote @ '' not found'')), ?s)"
      by (simp add: make_request_def)
    then have "snd (send_request (make_request client jar) sig fate o1 rid ?s) = ?s" for sig rid
      by (simp add: send_request_def Let_def)
    with f Inr assms(4,11) refused show ?thesis
      by (simp add: finish_task_def bind_transport_def Let_def case_prod_unfold)
  qed
qed

theorem late_request_refused_witness:
  "w_native (net_world (finish_task plain_request sample_profiles NeverFires 1 closed_net)) =
     w_native (net_world closed_net)"
proof -
  have reach: "(net_step (rust_lifecycle (\<lambda>_. Inr ()) ()) plain_request sample_profiles)\<^sup>*\<^sup>* first_net closed_net"
    using run_reaches_all by (meson rtranclp.rtrancl_into_rtrancl)
  have task: "1 < length (net_tasks closed_net)"
    "net_tasks closed_net ! 1 = TaskBody ''https://a/'' empty_init None run_context no_body"
    by (simp_all add: closed_net_def waiting_net_eq)
  have ses: "0 < length (w_sessions (net_world closed_net))" "session_disposed (w_sessions (net_world closed_net) ! 0)"
    "sr_defaults run_context = Some (session_defaults (w_sessions (net_world closed_net) ! 0))"
    "sd_ownsTransport (session_defaults (w_sessions (net_world closed_net) ! 0))"
    "sd_transportId (session_defaults (w_sessions (net_world closed_net) ! 0)) = Some ''u''" "''u'' \<noteq> []"
    by (simp_all add: closed_net_def run_world_def run_session_def run_context_def)
  from late_request_refused [OF reach fresh_first_net task ses refl] show ?thesis by blast
qed


end
