(* ===== verification/AbortSignals.thy ===== *)
theory AbortSignals
  imports Fetch
begin

text \<open>
  \<open>setupAbort\<close> and the part of \<open>dispatchRequest\<close> that runs under a signal, event by event: the signal
  fires, the promise of the addon settles, the continuation after \<open>await pending\<close> runs, in any order
  and any number of times. Fetch's \<open>dispatchRequest\<close> sees only who came first; the theorem of this
  theory is that every order of events ends as that says, and exactly when the addon is told to cancel.
\<close>

section \<open>The events\<close>

datatype 'p abort_event =
    Aborts abort_reason
  | Answers "'p res"
  | Resumes

text \<open>
  \<open>ab_listening\<close>: the abort listener is on the signal; \<open>ab_race\<close>: what \<open>Promise.race\<close> has settled with;
  \<open>ab_result\<close>: how \<open>dispatchRequest\<close> has ended.
\<close>

record 'p abort_state =
  ab_aborted :: bool
  ab_answered :: bool
  ab_listening :: bool
  ab_race :: "'p res option"
  ab_calls :: "native_call list"
  ab_result :: "'p res option"

text \<open>
  The call itself: a signal that has fired already, \<open>aborted\<close>; a call of the addon that throws at once,
  \<open>throws\<close>, which no \<open>try\<close> catches.
\<close>

definition dispatch_start :: "abort_reason option \<Rightarrow> js_error option \<Rightarrow> nat \<Rightarrow> 'p abort_state" where
  "dispatch_start aborted throws requestId = (case aborted of
      Some reason \<Rightarrow> \<lparr>ab_aborted = True, ab_answered = False, ab_listening = False, ab_race = None,
        ab_calls = [CallCancel requestId], ab_result = Some (Inl (createAbortError reason))\<rparr>
    | None \<Rightarrow> \<lparr>ab_aborted = False, ab_answered = False, ab_listening = True, ab_race = None,
        ab_calls = [CallRequest requestId True],
        ab_result = (case throws of None \<Rightarrow> None | Some e \<Rightarrow> Some (Inl e))\<rparr>)"

definition race_settle :: "'p res \<Rightarrow> 'p abort_state \<Rightarrow> 'p abort_state" where
  "race_settle r s = (if ab_race s = None then s\<lparr>ab_race := Some r\<rparr> else s)"

text \<open>The \<open>catch\<close> of \<open>dispatchRequest\<close>.\<close>

definition rethrow :: "js_error \<Rightarrow> js_error" where
  "rethrow e = (if isAbortError e then e else as_request_error e)"

text \<open>A signal fires once; its listener is registered with \<open>once\<close>. The \<open>finally\<close> takes it off.\<close>

fun abort_step :: "nat \<Rightarrow> 'p abort_state \<Rightarrow> 'p abort_event \<Rightarrow> 'p abort_state" where
  "abort_step requestId s (Aborts reason) =
     (if ab_aborted s then s
      else (let s1 = s\<lparr>ab_aborted := True\<rparr> in
            if \<not> ab_listening s then s1
            else race_settle (Inl (createAbortError reason))
                   (s1\<lparr>ab_listening := False, ab_calls := ab_calls s @ [CallCancel requestId]\<rparr>)))"
| "abort_step requestId s (Answers r) =
     (if ab_answered s then s else race_settle r (s\<lparr>ab_answered := True\<rparr>))"
| "abort_step requestId s Resumes = (case (ab_result s, ab_race s) of
      (None, Some r) \<Rightarrow>
        s\<lparr>ab_listening := False,
          ab_result := Some (case r of Inl e \<Rightarrow> Inl (rethrow e) | Inr p \<Rightarrow> Inr p)\<rparr>
    | _ \<Rightarrow> s)"

definition abort_run ::
  "abort_reason option \<Rightarrow> js_error option \<Rightarrow> nat \<Rightarrow> 'p abort_event list \<Rightarrow> 'p abort_state" where
  "abort_run aborted throws requestId es =
     foldl (abort_step requestId) (dispatch_start aborted throws requestId) es"

section \<open>Who came first\<close>

fun first_settled :: "'p abort_event list \<Rightarrow> (abort_reason + 'p res) option" where
  "first_settled [] = None"
| "first_settled (Aborts reason # es) = Some (Inl reason)"
| "first_settled (Answers r # es) = Some (Inr r)"
| "first_settled (Resumes # es) = first_settled es"

text \<open>The fate of the signal and the outcome of the call that \<open>dispatchRequest\<close> takes.\<close>

definition fate_of :: "abort_reason option \<Rightarrow> 'p abort_event list \<Rightarrow> signal_fate" where
  "fate_of aborted es = (case aborted of
      Some reason \<Rightarrow> FiredBefore reason
    | None \<Rightarrow> (case first_settled es of Some (Inl reason) \<Rightarrow> FiresFirst reason | _ \<Rightarrow> NeverFires))"

definition outcome_of :: "js_error option \<Rightarrow> 'p res \<Rightarrow> 'p abort_event list \<Rightarrow> 'p native_outcome" where
  "outcome_of throws other es = (case throws of
      Some e \<Rightarrow> ThrowsAtOnce e
    | None \<Rightarrow> (case first_settled es of Some (Inr r) \<Rightarrow> Settles r | _ \<Rightarrow> Settles other))"

text \<open>The call is over once its continuation has run, which needs a settled race.\<close>

definition ended :: "'p abort_event list \<Rightarrow> bool" where
  "ended es \<longleftrightarrow> (\<exists>pre x post. es = pre @ x # post \<and> x = Resumes \<and> first_settled pre \<noteq> None)"

text \<open>The signal fires while its listener is there: for good, if the call of the addon threw at once.\<close>

definition fires_in_time :: "js_error option \<Rightarrow> 'p abort_event list \<Rightarrow> bool" where
  "fires_in_time throws es \<longleftrightarrow>
     (\<exists>pre x post. es = pre @ x # post \<and> (\<exists>reason. x = Aborts reason) \<and> (throws = None \<longrightarrow> \<not> ended pre))"

definition fires :: "'p abort_event list \<Rightarrow> bool" where
  "fires es \<longleftrightarrow> (\<exists>reason. Aborts reason \<in> set es)"

section \<open>One more event\<close>

lemma ex_snoc:
  "(\<exists>pre x post. es @ [y] = pre @ x # post \<and> P pre x) \<longleftrightarrow> (\<exists>pre x post. es = pre @ x # post \<and> P pre x) \<or> P es y"
proof
  assume "\<exists>pre x post. es @ [y] = pre @ x # post \<and> P pre x"
  then obtain pre x post where "es @ [y] = pre @ x # post" "P pre x" by blast
  then show "(\<exists>pre x post. es = pre @ x # post \<and> P pre x) \<or> P es y"
    by (cases post rule: rev_cases) auto
next
  assume "(\<exists>pre x post. es = pre @ x # post \<and> P pre x) \<or> P es y"
  then show "\<exists>pre x post. es @ [y] = pre @ x # post \<and> P pre x"
  proof
    assume "\<exists>pre x post. es = pre @ x # post \<and> P pre x"
    then obtain pre x post where "es = pre @ x # post" "P pre x" by blast
    then have "es @ [y] = pre @ x # post @ [y] \<and> P pre x" by simp
    then show ?thesis by blast
  qed blast
qed

lemma first_settled_snoc:
  "first_settled (es @ [x]) = (case first_settled es of None \<Rightarrow> first_settled [x] | Some w \<Rightarrow> Some w)"
  by (induction es rule: first_settled.induct) simp_all

lemma ended_snoc: "ended (es @ [x]) \<longleftrightarrow> ended es \<or> x = Resumes \<and> first_settled es \<noteq> None"
  unfolding ended_def by (rule ex_snoc)

lemma fires_in_time_snoc:
  "fires_in_time throws (es @ [x]) \<longleftrightarrow> fires_in_time throws es \<or>
     (\<exists>reason. x = Aborts reason) \<and> (throws = None \<longrightarrow> \<not> ended es)"
  unfolding fires_in_time_def by (rule ex_snoc)

lemma fires_snoc: "fires (es @ [x]) \<longleftrightarrow> fires es \<or> (\<exists>reason. x = Aborts reason)"
  by (auto simp: fires_def)

lemma order_Nil [simp]: "\<not> ended []" "\<not> fires_in_time throws []" "\<not> fires []"
  by (simp_all add: ended_def fires_in_time_def fires_def)

lemmas order_snoc = first_settled_snoc ended_snoc fires_in_time_snoc fires_snoc

lemma ended_settled: "ended es \<Longrightarrow> first_settled es \<noteq> None"
  by (induction es rule: rev_induct) (auto simp: order_snoc split: option.splits)

text \<open>A signal that fired before the end fired in time.\<close>

lemma fires_before_end: "fires es \<Longrightarrow> throws = None \<longrightarrow> \<not> ended es \<Longrightarrow> fires_in_time throws es"
  by (induction es rule: rev_induct) (auto simp: order_snoc)

lemma fires_in_time_fires: "fires_in_time throws es \<Longrightarrow> fires es"
  by (auto simp: fires_in_time_def fires_def)

lemma fires_settled: "fires es \<Longrightarrow> first_settled es \<noteq> None"
  by (induction es rule: rev_induct) (auto simp: order_snoc split: option.splits)

definition settled_with :: "(abort_reason + 'p res) option \<Rightarrow> 'p res option" where
  "settled_with w = (case w of None \<Rightarrow> None
    | Some (Inl reason) \<Rightarrow> Some (Inl (createAbortError reason))
    | Some (Inr r) \<Rightarrow> Some r)"

lemma settled_with_simps [simp]:
  "settled_with None = None" "settled_with (Some (Inl reason)) = Some (Inl (createAbortError reason))"
  "settled_with (Some (Inr r)) = Some r"
  by (simp_all add: settled_with_def)

lemma settled_with_None [simp]: "settled_with w = None \<longleftrightarrow> w = None"
  by (simp add: settled_with_def split: option.split sum.split)

text \<open>What a run looks like whose signal had not fired when it began.\<close>

lemma abort_run_state:
  fixes es :: "'p abort_event list" and throws :: "js_error option" and i :: nat
  defines "s \<equiv> abort_run None throws i es"
  shows "ab_aborted s = fires es \<and> (ab_answered s \<longrightarrow> first_settled es \<noteq> None) \<and> ab_race s = settled_with (first_settled es) \<and>
    ab_listening s = (\<not> fires es \<and> (throws = None \<longrightarrow> \<not> ended es)) \<and>
    ab_calls s = CallRequest i True # (if fires_in_time throws es then [CallCancel i] else []) \<and>
    ab_result s = (case throws of Some e \<Rightarrow> Some (Inl e)
      | None \<Rightarrow> if ended es
          then map_option (\<lambda>r. case r of Inl e \<Rightarrow> Inl (rethrow e) | Inr p \<Rightarrow> Inr p) (settled_with (first_settled es))
          else None)"
  unfolding s_def
proof (induction es rule: rev_induct)
  case Nil
  show ?case by (simp add: abort_run_def dispatch_start_def split: option.split)
next
  case (snoc x es)
  have run: "abort_run None throws i (es @ [y]) = abort_step i (abort_run None throws i es) y" for y
    by (simp add: abort_run_def)
  show ?case
  proof (cases x)
    case (Aborts reason)
    with snoc fires_before_end [of es throws] fires_in_time_fires [of throws es] fires_settled [of es]
      ended_settled [of es]
    show ?thesis
      by (cases "first_settled es") (auto simp: run order_snoc race_settle_def Let_def split: option.splits)
  next
    case (Answers r)
    with snoc ended_settled [of es] show ?thesis
      by (cases "first_settled es") (auto simp: run order_snoc race_settle_def split: option.splits)
  next
    case Resumes
    with snoc ended_settled [of es] show ?thesis
      by (cases "first_settled es") (auto simp: run order_snoc split: option.splits)
  qed
qed

section \<open>Property\<close>

text \<open>When \<open>dispatchRequest\<close> has ended: at once, or when its continuation has run.\<close>

definition call_over :: "abort_reason option \<Rightarrow> js_error option \<Rightarrow> 'p abort_event list \<Rightarrow> bool" where
  "call_over aborted throws es \<longleftrightarrow> aborted \<noteq> None \<or> throws \<noteq> None \<or> ended es"

text \<open>C31: In whatever order the signal fires, the addon answers and the continuation runs, a request
  under a signal ends as \<open>dispatchRequest\<close> says of the one that came first, and it ends once the
  continuation has run after either of them. The addon is told to cancel exactly when the signal
  fires before that end, at most once and even if the answer is already there; the listener is
  gone afterwards, unless the call of the addon threw at once: then it stays, and a later abort
  cancels a request that is over.\<close>

theorem abort_refines_dispatch:
  assumes "s = abort_run aborted throws i es"
    and "d = dispatchRequest True (fate_of aborted es) (outcome_of throws other es) i"
  shows "ab_result s = (if call_over aborted throws es then Some (dr_result d) else None) \<and>
    ab_calls s = (if aborted \<noteq> None then [CallCancel i]
      else CallRequest i True # (if fires_in_time throws es then [CallCancel i] else [])) \<and>
    (ab_listening s \<longleftrightarrow> aborted = None \<and> \<not> fires es \<and> \<not> (throws = None \<and> ended es))"
proof (cases aborted)
  case (Some reason)
  have "ab_aborted s \<and> \<not> ab_listening s \<and> ab_calls s = [CallCancel i] \<and>
      ab_result s = Some (Inl (createAbortError reason))"
    unfolding assms(1)
  proof (induction es rule: rev_induct)
    case Nil
    show ?case by (simp add: abort_run_def dispatch_start_def Some)
  next
    case (snoc x es)
    then show ?case by (cases x) (auto simp: abort_run_def race_settle_def)
  qed
  with Some show ?thesis
    by (simp add: assms(2) dispatchRequest_def fate_of_def call_over_def)
next
  case None
  have abort_error: "isAbortError (createAbortError reason)" for reason
    by (cases reason) (simp_all add: createAbortError_def isAbortError_def)
  from None abort_run_state [of throws i es] ended_settled [of es] abort_error show ?thesis
    by (cases throws; cases "first_settled es")
      (auto simp: assms call_over_def dispatchRequest_def fate_of_def outcome_of_def rethrow_def
        split: sum.split)
qed

theorem abort_refines_dispatch_witness:
  "ab_result (abort_run None None 7 [Answers (Inr ()), Aborts ReasonOther, Resumes]) = Some (Inr ()) \<and>
   ab_calls (abort_run None None 7 [Answers (Inr ()), Aborts ReasonOther, Resumes]) =
     [CallRequest 7 True, CallCancel 7]"
proof -
  let ?es = "[Answers (Inr ()), Aborts ReasonOther, Resumes]"
  have e: "ended ?es" "fires_in_time None ?es"
    using ended_snoc [of "[Answers (Inr ()), Aborts ReasonOther]" Resumes]
      fires_in_time_snoc [of None "[Answers (Inr ()), Aborts ReasonOther]" Resumes]
      fires_in_time_snoc [of None "[Answers (Inr ())]" "Aborts ReasonOther"] ended_snoc [of "[]" "Answers (Inr ())"]
    by simp_all
  from abort_refines_dispatch [OF refl refl, of None None 7 ?es "Inr ()"] e show ?thesis
    by (simp add: call_over_def fate_of_def outcome_of_def dispatchRequest_def)
qed

end
