(* ===== verification/Response.thy ===== *)
theory Response
  imports JsMap
begin

text \<open>
  The class \<open>Response\<close> of src/src/wreq-js.ts and the body handles of the addon behind it
  (\<open>read_body_chunk\<close>, \<open>read_body_all\<close>, \<open>drop_body_stream\<close> in rust/src/client.rs).

  A body is a list of chunks and the error it ends with, if any. The state \<open>body_state\<close> holds what the
  addon still has of each handle, the handles released on the JavaScript side, and the objects of the
  runtime: responses, the streams under them and the wrapper streams that \<open>response.body\<close> hands out.

  A \<open>ReadableStream\<close> is modelled by what its standard promises: it has one reader at a time, and
  \<open>tee\<close> locks it and gives two streams that each deliver everything it would. So the streams over one
  source share the log of the chunks read from it, each with its own position; a source reads the
  addon only when a stream at the end of the log is read. Reading ahead by one chunk is not visible
  except in \<open>wrapBodyStream\<close>, whose first \<open>pull\<close>, which the runtime makes on its own, is the step
  \<open>start_wrapper\<close>.
\<close>

section \<open>The bodies of the addon\<close>

type_synonym chunks = "nat list list"

type_synonym body = "chunks \<times> js_error option"

type_synonym bodies = "nat \<Rightarrow> body option"

definition not_found :: "nat \<Rightarrow> js_error" where
  "not_found h = PlainError (''Body handle '' @ nat_str h @ '' not found'')"

definition readBodyChunk :: "nat \<Rightarrow> bodies \<Rightarrow> nat list option res \<times> bodies" where
  "readBodyChunk h n = (case n h of
      None \<Rightarrow> (Inl (not_found h), n)
    | Some (c # cs, e) \<Rightarrow> (Inr (Some c), n(h \<mapsto> (cs, e)))
    | Some ([], Some e) \<Rightarrow> (Inl e, n(h := None))
    | Some ([], None) \<Rightarrow> (Inr None, n(h := None)))"

definition readBodyAll :: "nat \<Rightarrow> bodies \<Rightarrow> nat list res \<times> bodies" where
  "readBodyAll h n = (case n h of
      None \<Rightarrow> (Inl (not_found h), n)
    | Some (cs, Some e) \<Rightarrow> (Inl e, n(h := None))
    | Some (cs, None) \<Rightarrow> (Inr (concat cs), n(h := None)))"

definition cancelBody :: "nat \<Rightarrow> bodies \<Rightarrow> bodies" where
  "cancelBody h n = n(h := None)"

section \<open>Objects\<close>

datatype source_end = Readable | Closed | Failed js_error

text \<open>What a stream reads from: a handle, or the bytes of an inline body, all there from the start.\<close>

record source =
  src_handle :: "nat option"
  src_log :: chunks
  src_end :: source_end

record stream =
  st_source :: nat
  st_pos :: nat
  st_locked :: bool
  st_teed :: bool
  st_cancelled :: bool

text \<open>A wrapper: the response and the stream it was made for; \<open>reader\<close> is set when it is started.\<close>

record wrapper =
  wr_owner :: nat
  wr_stream :: nat
  wr_started :: bool
  wr_failed :: "js_error option"
  wr_cancelled :: bool
  wr_locked :: bool

record NativeResponse =
  nr_status :: int
  nr_headers :: "HeaderTuple list"
  nr_cookies :: "HeaderTuple list"
  nr_url :: string
  nr_contentLength :: "nat option"
  nr_diagnostics :: jsval
  nr_bodyHandle :: "nat option"
  nr_bodyBytes :: "nat list option"

record response =
  rs_payload :: NativeResponse
  rs_requestUrl :: string
  rs_bodyUsed :: bool
  rs_inlineBody :: "nat list option"
  rs_bodySource :: "nat option"
  rs_bodyStream :: "nat option"
  rs_nativeHandleAvailable :: bool

text \<open>What a \<open>FinalizationRegistry\<close> watches for a handle.\<close>

datatype finalizer_target = ResponseObject nat | StreamObject nat

record body_state =
  bs_native :: bodies
  bs_released :: "nat list"
  bs_registry :: "(finalizer_target \<times> nat) list"
  bs_sources :: "source list"
  bs_streams :: "stream list"
  bs_wrappers :: "wrapper list"
  bs_responses :: "response list"

definition put_source :: "nat \<Rightarrow> source \<Rightarrow> body_state \<Rightarrow> body_state" where
  "put_source k x s = s\<lparr>bs_sources := (bs_sources s)[k := x]\<rparr>"

definition put_stream :: "nat \<Rightarrow> stream \<Rightarrow> body_state \<Rightarrow> body_state" where
  "put_stream k x s = s\<lparr>bs_streams := (bs_streams s)[k := x]\<rparr>"

definition put_wrapper :: "nat \<Rightarrow> wrapper \<Rightarrow> body_state \<Rightarrow> body_state" where
  "put_wrapper k x s = s\<lparr>bs_wrappers := (bs_wrappers s)[k := x]\<rparr>"

definition put_response :: "nat \<Rightarrow> response \<Rightarrow> body_state \<Rightarrow> body_state" where
  "put_response k x s = s\<lparr>bs_responses := (bs_responses s)[k := x]\<rparr>"

lemma put_fields [simp]:
  "bs_native (put_source k x s) = bs_native s"
  "bs_released (put_source k x s) = bs_released s"
  "bs_registry (put_source k x s) = bs_registry s"
  "bs_sources (put_source k x s) = (bs_sources s)[k := x]"
  "bs_streams (put_source k x s) = bs_streams s"
  "bs_wrappers (put_source k x s) = bs_wrappers s"
  "bs_responses (put_source k x s) = bs_responses s"
  "bs_native (put_stream k t s) = bs_native s"
  "bs_released (put_stream k t s) = bs_released s"
  "bs_registry (put_stream k t s) = bs_registry s"
  "bs_sources (put_stream k t s) = bs_sources s"
  "bs_streams (put_stream k t s) = (bs_streams s)[k := t]"
  "bs_wrappers (put_stream k t s) = bs_wrappers s"
  "bs_responses (put_stream k t s) = bs_responses s"
  "bs_native (put_wrapper k v s) = bs_native s"
  "bs_released (put_wrapper k v s) = bs_released s"
  "bs_registry (put_wrapper k v s) = bs_registry s"
  "bs_sources (put_wrapper k v s) = bs_sources s"
  "bs_streams (put_wrapper k v s) = bs_streams s"
  "bs_wrappers (put_wrapper k v s) = (bs_wrappers s)[k := v]"
  "bs_responses (put_wrapper k v s) = bs_responses s"
  "bs_native (put_response k r s) = bs_native s"
  "bs_released (put_response k r s) = bs_released s"
  "bs_registry (put_response k r s) = bs_registry s"
  "bs_sources (put_response k r s) = bs_sources s"
  "bs_streams (put_response k r s) = bs_streams s"
  "bs_wrappers (put_response k r s) = bs_wrappers s"
  "bs_responses (put_response k r s) = (bs_responses s)[k := r]"
  by (simp_all add: put_source_def put_stream_def put_wrapper_def put_response_def)

text \<open>
  \<open>bodyHandleFinalizer\<close>: an object is registered with the handle it owns, which is also the token to
  unregister it by. \<open>collect_body\<close> is what happens once a watched object has been collected.
\<close>

definition register_body :: "finalizer_target \<Rightarrow> nat \<Rightarrow> body_state \<Rightarrow> body_state" where
  "register_body t h s = s\<lparr>bs_registry := (t, h) # bs_registry s\<rparr>"

definition unregister_body :: "nat \<Rightarrow> body_state \<Rightarrow> body_state" where
  "unregister_body h s = s\<lparr>bs_registry := filter (\<lambda>entry. snd entry \<noteq> h) (bs_registry s)\<rparr>"

definition bodyHandleFinalizer :: "nat \<Rightarrow> body_state \<Rightarrow> body_state" where
  "bodyHandleFinalizer h s =
     (if h \<in> set (bs_released s) then s
      else s\<lparr>bs_released := h # bs_released s, bs_native := cancelBody h (bs_native s)\<rparr>)"

definition collect_body :: "finalizer_target \<Rightarrow> body_state \<Rightarrow> body_state" where
  "collect_body t s =
     fold bodyHandleFinalizer (map snd (filter (\<lambda>entry. fst entry = t) (bs_registry s)))
       (s\<lparr>bs_registry := filter (\<lambda>entry. fst entry \<noteq> t) (bs_registry s)\<rparr>)"

definition releaseNativeBody :: "nat \<Rightarrow> body_state \<Rightarrow> body_state" where
  "releaseNativeBody h s =
     (if h \<in> set (bs_released s) then s
      else unregister_body h
        (s\<lparr>bs_released := h # bs_released s, bs_native := cancelBody h (bs_native s)\<rparr>))"

definition markNativeBodyReleased :: "nat \<Rightarrow> body_state \<Rightarrow> body_state" where
  "markNativeBodyReleased h s =
     (if h \<in> set (bs_released s) then s else unregister_body h (s\<lparr>bs_released := h # bs_released s\<rparr>))"

text \<open>
  \<open>new Response\<close>: \<open>None\<close> as body source when it is undefined, \<open>Some None\<close> when it is null. One that keeps
  the addon's handle registers itself: \<open>construct_response\<close>.
\<close>

definition Response_new :: "NativeResponse \<Rightarrow> string \<Rightarrow> nat option option \<Rightarrow> response" where
  "Response_new payload requestUrl bodySource =
     \<lparr>rs_payload = payload, rs_requestUrl = requestUrl, rs_bodyUsed = False,
      rs_inlineBody = nr_bodyBytes payload, rs_bodySource = opt_default bodySource None,
      rs_bodyStream = None,
      rs_nativeHandleAvailable =
        (bodySource = None \<and> nr_bodyBytes payload = None \<and> nr_bodyHandle payload \<noteq> None)\<rparr>"

definition construct_response ::
  "NativeResponse \<Rightarrow> string \<Rightarrow> nat option option \<Rightarrow> body_state \<Rightarrow> nat \<times> body_state" where
  "construct_response payload requestUrl bodySource s =
     (let i = length (bs_responses s); r = Response_new payload requestUrl bodySource;
          s1 = s\<lparr>bs_responses := bs_responses s @ [r]\<rparr> in
      (i, case nr_bodyHandle payload of
            Some h \<Rightarrow> (if rs_nativeHandleAvailable r then register_body (ResponseObject i) h s1 else s1)
          | None \<Rightarrow> s1))"

lemma registry_fields [simp]:
  "bs_native (register_body t h s) = bs_native s" "bs_native (unregister_body h s) = bs_native s"
  "bs_released (register_body t h s) = bs_released s" "bs_released (unregister_body h s) = bs_released s"
  "bs_sources (register_body t h s) = bs_sources s" "bs_sources (unregister_body h s) = bs_sources s"
  "bs_streams (register_body t h s) = bs_streams s" "bs_streams (unregister_body h s) = bs_streams s"
  "bs_wrappers (register_body t h s) = bs_wrappers s" "bs_wrappers (unregister_body h s) = bs_wrappers s"
  "bs_responses (register_body t h s) = bs_responses s" "bs_responses (unregister_body h s) = bs_responses s"
  "bs_registry (register_body t h s) = (t, h) # bs_registry s"
  "bs_registry (unregister_body h s) = filter (\<lambda>entry. snd entry \<noteq> h) (bs_registry s)"
  by (simp_all add: register_body_def unregister_body_def)

lemma construct_clone [simp]:
  "construct_response p u (Some source) s =
     (length (bs_responses s), s\<lparr>bs_responses := bs_responses s @ [Response_new p u (Some source)]\<rparr>)"
  by (simp add: construct_response_def Response_new_def Let_def split: option.split)

section \<open>Streams\<close>

definition locked_error :: js_error where
  "locked_error = TypeError ''Invalid state: ReadableStream is locked''"

definition new_stream :: "nat \<Rightarrow> nat \<Rightarrow> stream" where
  "new_stream src pos =
     \<lparr>st_source = src, st_pos = pos, st_locked = False, st_teed = False, st_cancelled = False\<rparr>"

definition add_source :: "source \<Rightarrow> body_state \<Rightarrow> nat \<times> body_state" where
  "add_source x s =
     (length (bs_streams s),
      s\<lparr>bs_sources := bs_sources s @ [x], bs_streams := bs_streams s @ [new_stream (length (bs_sources s)) 0]\<rparr>)"

definition createNativeBodyStream :: "nat \<Rightarrow> body_state \<Rightarrow> nat \<times> body_state" where
  "createNativeBodyStream h s =
     (let (b, s1) = add_source \<lparr>src_handle = Some h, src_log = [], src_end = Readable\<rparr> s in
      (b, register_body (StreamObject b) h s1))"

definition inline_stream :: "nat list \<Rightarrow> body_state \<Rightarrow> nat \<times> body_state" where
  "inline_stream bytes = add_source \<lparr>src_handle = None, src_log = [bytes], src_end = Closed\<rparr>"

text \<open>The \<open>pull\<close> of a native stream, with the chunk enqueued in the log.\<close>

definition pull_source :: "nat \<Rightarrow> body_state \<Rightarrow> body_state" where
  "pull_source k s = (let x = bs_sources s ! k in
     case src_handle x of
       None \<Rightarrow> put_source k (x\<lparr>src_end := Closed\<rparr>) s
     | Some h \<Rightarrow>
         (let (r, n) = readBodyChunk h (bs_native s);
              s1 = s\<lparr>bs_native := n\<rparr> in
          case r of
            Inr (Some c) \<Rightarrow> put_source k (x\<lparr>src_log := src_log x @ [c]\<rparr>) s1
          | Inr None \<Rightarrow> put_source k (x\<lparr>src_end := Closed\<rparr>) (releaseNativeBody h s1)
          | Inl e \<Rightarrow> put_source k (x\<lparr>src_end := Failed e\<rparr>) (releaseNativeBody h s1)))"

text \<open>What a stream has for its reader now: nothing yet (\<open>None\<close>), a chunk, the end or an error.\<close>

definition peek_stream :: "nat \<Rightarrow> body_state \<Rightarrow> nat list option res option" where
  "peek_stream b s = (let t = bs_streams s ! b; x = bs_sources s ! st_source t in
     if st_cancelled t then Some (Inr None)
     else case src_end x of
       Failed e \<Rightarrow> Some (Inl e)
     | e \<Rightarrow> (if st_pos t < length (src_log x) then Some (Inr (Some (src_log x ! st_pos t)))
             else if e = Closed then Some (Inr None) else None))"

definition advance :: "nat \<Rightarrow> body_state \<Rightarrow> nat list option res \<times> body_state" where
  "advance b s = (let t = bs_streams s ! b in
     case peek_stream b s of
       Some (Inr (Some c)) \<Rightarrow> (Inr (Some c), put_stream b (t\<lparr>st_pos := Suc (st_pos t)\<rparr>) s)
     | Some r \<Rightarrow> (r, s)
     | None \<Rightarrow> (Inr None, s))"

definition read_stream :: "nat \<Rightarrow> body_state \<Rightarrow> nat list option res \<times> body_state" where
  "read_stream b s =
     (if peek_stream b s = None then advance b (pull_source (st_source (bs_streams s ! b)) s)
      else advance b s)"

text \<open>
  \<open>cancel\<close> reaches the source when none of the streams over it is left: those that were not split by
  \<open>tee\<close> are all cancelled.
\<close>

definition cancel_stream :: "nat \<Rightarrow> body_state \<Rightarrow> body_state" where
  "cancel_stream b s =
     (let t = bs_streams s ! b; k = st_source t; x = bs_sources s ! k;
          s1 = put_stream b (t\<lparr>st_cancelled := True\<rparr>) s in
      if list_all (\<lambda>u. st_source u = k \<longrightarrow> st_teed u \<or> st_cancelled u) (bs_streams s1) \<and> src_end x = Readable
      then (case src_handle x of
              None \<Rightarrow> put_source k (x\<lparr>src_end := Closed\<rparr>) s1
            | Some h \<Rightarrow> releaseNativeBody h (put_source k (x\<lparr>src_end := Closed\<rparr>) s1))
      else s1)"

definition tee_stream :: "nat \<Rightarrow> body_state \<Rightarrow> (nat \<times> nat) res \<times> body_state" where
  "tee_stream b s = (let t = bs_streams s ! b; n = length (bs_streams s) in
     if st_locked t then (Inl locked_error, s)
     else (Inr (n, Suc n),
           s\<lparr>bs_streams := (bs_streams s)[b := t\<lparr>st_locked := True, st_teed := True\<rparr>] @
               [t\<lparr>st_locked := False\<rparr>, t\<lparr>st_locked := False\<rparr>]\<rparr>))"

section \<open>Wrappers\<close>

definition wrapBodyStream :: "nat \<Rightarrow> nat \<Rightarrow> body_state \<Rightarrow> nat \<times> body_state" where
  "wrapBodyStream b owner s =
     (length (bs_wrappers s),
      s\<lparr>bs_wrappers := bs_wrappers s @ [\<lparr>wr_owner = owner, wr_stream = b, wr_started = False,
          wr_failed = None, wr_cancelled = False, wr_locked = False\<rparr>]\<rparr>)"

definition mark_used :: "nat \<Rightarrow> body_state \<Rightarrow> body_state" where
  "mark_used i s = put_response i ((bs_responses s ! i)\<lparr>rs_bodyUsed := True\<rparr>) s"

text \<open>The first \<open>pull\<close>: \<open>onFirstUse\<close>, then the reader of the source.\<close>

definition start_wrapper :: "nat \<Rightarrow> body_state \<Rightarrow> body_state" where
  "start_wrapper w s =
     (let v = bs_wrappers s ! w; t = bs_streams s ! wr_stream v in
      if wr_started v \<or> wr_cancelled v then s
      else
        (let s1 = mark_used (wr_owner v) s in
         if st_locked t
         then put_wrapper w (v\<lparr>wr_started := True, wr_failed := Some locked_error\<rparr>) s1
         else put_stream (wr_stream v) (t\<lparr>st_locked := True\<rparr>)
                (put_wrapper w (v\<lparr>wr_started := True\<rparr>) s1)))"

definition read_wrapper :: "nat \<Rightarrow> body_state \<Rightarrow> nat list option res \<times> body_state" where
  "read_wrapper w s =
     (let s1 = start_wrapper w s; v = bs_wrappers s1 ! w in
      if wr_cancelled v then (Inr None, s1)
      else case wr_failed v of
        Some e \<Rightarrow> (Inl e, s1)
      | None \<Rightarrow> read_stream (wr_stream v) s1)"

text \<open>\<open>cancel\<close> of a wrapper: of the source itself, refused when that is locked, or of its reader.\<close>

definition cancel_wrapper :: "nat \<Rightarrow> body_state \<Rightarrow> body_state" where
  "cancel_wrapper w s =
     (let v = bs_wrappers s ! w; s1 = put_wrapper w (v\<lparr>wr_cancelled := True\<rparr>) s in
      if wr_cancelled v \<or> wr_failed v \<noteq> None then s
      else if \<not> wr_started v \<and> st_locked (bs_streams s ! wr_stream v) then s1
      else cancel_stream (wr_stream v) s1)"

definition get_reader :: "nat \<Rightarrow> body_state \<Rightarrow> unit res \<times> body_state" where
  "get_reader w s =
     (let v = bs_wrappers s ! w in
      if wr_locked v then (Inl locked_error, s)
      else (Inr (), put_wrapper w (v\<lparr>wr_locked := True\<rparr>) s))"

section \<open>Methods of a response\<close>

definition used_error :: js_error where
  "used_error = TypeError ''Response body is already used''"

text \<open>The lazy creation of the native stream, which \<open>body\<close> and \<open>clone\<close> share.\<close>

definition native_source :: "nat \<Rightarrow> body_state \<Rightarrow> body_state" where
  "native_source i s =
     (let r = bs_responses s ! i in
      case nr_bodyHandle (rs_payload r) of
        Some h \<Rightarrow>
          (if rs_nativeHandleAvailable r
           then (let (b, s1) = createNativeBodyStream h (unregister_body h s) in
                 put_response i (r\<lparr>rs_bodySource := Some b, rs_nativeHandleAvailable := False\<rparr>) s1)
           else s)
      | None \<Rightarrow> s)"

definition inline_source :: "nat \<Rightarrow> body_state \<Rightarrow> body_state" where
  "inline_source i s =
     (let r = bs_responses s ! i in
      case rs_inlineBody r of
        Some bytes \<Rightarrow>
          (if rs_bodySource r = None
           then (let (b, s1) = inline_stream bytes s in
                 put_response i (r\<lparr>rs_inlineBody := None, rs_bodySource := Some b\<rparr>) s1)
           else s)
      | None \<Rightarrow> s)"

text \<open>The getter \<open>body\<close>; \<open>None\<close> stands for null.\<close>

definition get_body :: "nat \<Rightarrow> body_state \<Rightarrow> nat option \<times> body_state" where
  "get_body i s =
     (let s1 = inline_source i s; r1 = bs_responses s1 ! i in
      if rs_inlineBody r1 = None \<and> nr_bodyHandle (rs_payload r1) = None \<and> rs_bodySource r1 = None
      then (None, s1)
      else
        (let s2 = (if rs_bodySource r1 = None then native_source i s1 else s1);
             r2 = bs_responses s2 ! i in
         case rs_bodySource r2 of
           None \<Rightarrow> (None, s2)
         | Some b \<Rightarrow>
             (case rs_bodyStream r2 of
                Some w \<Rightarrow> (Some w, s2)
              | None \<Rightarrow>
                  (let (w, s3) = wrapBodyStream b i s2 in
                   (Some w, put_response i (r2\<lparr>rs_bodyStream := Some w\<rparr>) s3)))))"

text \<open>The loop of \<open>consumeBody\<close>, to the end of the stream.\<close>

partial_function (option) drain ::
  "nat \<Rightarrow> nat list \<Rightarrow> body_state \<Rightarrow> (nat list res \<times> body_state) option" where
  "drain w acc s = (case read_wrapper w s of
      (Inl e, s') \<Rightarrow> Some (Inl e, s')
    | (Inr None, s') \<Rightarrow> Some (Inr acc, s')
    | (Inr (Some c), s') \<Rightarrow> drain w (acc @ c) s')"

definition missing_handle :: "js_error \<Rightarrow> bool" where
  "missing_handle e \<longleftrightarrow>
     has_text (error_string e) ''Body handle'' \<and> has_text (error_string e) ''not found''"

text \<open>\<open>consumeBody\<close>, under \<open>arrayBuffer\<close>, \<open>bytes\<close>, \<open>text\<close>, \<open>json\<close>, \<open>blob\<close> and \<open>formData\<close>.\<close>

definition consumeBody :: "nat \<Rightarrow> body_state \<Rightarrow> (nat list res \<times> body_state) option" where
  "consumeBody i s =
     (let r = bs_responses s ! i; s1 = mark_used i s; r1 = bs_responses s1 ! i in
      if rs_bodyUsed r then Some (Inl used_error, s)
      else case rs_inlineBody r1 of
        Some bytes \<Rightarrow> Some (Inr bytes, put_response i (r1\<lparr>rs_inlineBody := None\<rparr>) s1)
      | None \<Rightarrow>
          (case (rs_nativeHandleAvailable r1, nr_bodyHandle (rs_payload r1)) of
             (True, Some h) \<Rightarrow>
               (let s2 = put_response i (r1\<lparr>rs_nativeHandleAvailable := False\<rparr>) s1;
                    (a, n) = readBodyAll h (bs_native s2);
                    s3 = markNativeBodyReleased h (s2\<lparr>bs_native := n\<rparr>) in
                Some (case a of
                        Inr bytes \<Rightarrow> Inr bytes
                      | Inl e \<Rightarrow> (if missing_handle e then Inr [] else Inl e), s3))
           | _ \<Rightarrow>
               (case get_body i s1 of
                  (None, s2) \<Rightarrow> Some (Inr [], s2)
                | (Some w, s2) \<Rightarrow>
                    (case get_reader w s2 of
                       (Inl e, s3) \<Rightarrow> Some (Inl e, s3)
                     | (Inr _, s3) \<Rightarrow> drain w [] s3))))"

text \<open>
  \<open>text\<close>, \<open>json\<close>, \<open>arrayBuffer\<close>, \<open>bytes\<close>, \<open>blob\<close> and \<open>formData\<close> are \<open>consumeBody\<close> and a conversion of its
  bytes, which may throw.
\<close>

definition body_method ::
  "(nat list \<Rightarrow> 'a res) \<Rightarrow> nat \<Rightarrow> body_state \<Rightarrow> ('a res \<times> body_state) option" where
  "body_method convert i s = map_option (\<lambda>(r, s'). (res_bind r convert, s')) (consumeBody i s)"

definition readable :: "nat \<Rightarrow> body_state \<Rightarrow> nat option res \<times> body_state" where
  "readable i s =
     (if rs_bodyUsed (bs_responses s ! i) then (Inl used_error, s)
      else (let (w, s1) = get_body i (mark_used i s) in
            case w of
              None \<Rightarrow> (Inr None, s1)
            | Some k \<Rightarrow> (case get_reader k s1 of (Inl e, s2) \<Rightarrow> (Inl e, s2) | (Inr _, s2) \<Rightarrow> (Inr (Some k), s2))))"

definition clone :: "nat \<Rightarrow> body_state \<Rightarrow> nat res \<times> body_state" where
  "clone i s =
     (if rs_bodyUsed (bs_responses s ! i)
      then (Inl (TypeError ''Cannot clone a Response whose body is already used''), s)
      else
        (let s1 = native_source i s; r = bs_responses s1 ! i;
             make = (\<lambda>source s. (let (j, s') = construct_response (rs_payload r) (rs_requestUrl r) (Some source) s
               in (Inr j, s'))) in
         case rs_bodySource r of
           None \<Rightarrow> make None s1
         | Some b \<Rightarrow>
             (case tee_stream b s1 of
                (Inl e, s2) \<Rightarrow> (Inl e, s2)
              | (Inr (b1, b2), s2) \<Rightarrow>
                  make (Some b2) (put_response i (r\<lparr>rs_bodySource := Some b1, rs_bodyStream := None\<rparr>) s2))))"

section \<open>Everything that can happen\<close>

text \<open>
  From a response as \<open>dispatchRequest\<close> makes it. A handle the addon has kept idle for its 300 seconds
  may expire, if \<open>expiry\<close>; a wrapper is read, or cancelled, by whoever holds it.
\<close>

inductive body_step :: "bool \<Rightarrow> body_state \<Rightarrow> body_state \<Rightarrow> bool" for expiry where
  step_body: "i < length (bs_responses s) \<Longrightarrow> body_step expiry s (snd (get_body i s))"
| step_clone: "i < length (bs_responses s) \<Longrightarrow> body_step expiry s (snd (clone i s))"
| step_readable: "i < length (bs_responses s) \<Longrightarrow> body_step expiry s (snd (readable i s))"
| step_consume: "i < length (bs_responses s) \<Longrightarrow> consumeBody i s = Some (r, s') \<Longrightarrow> body_step expiry s s'"
| step_start: "w < length (bs_wrappers s) \<Longrightarrow> body_step expiry s (start_wrapper w s)"
| step_get_reader: "w < length (bs_wrappers s) \<Longrightarrow> body_step expiry s (snd (get_reader w s))"
| step_read: "w < length (bs_wrappers s) \<Longrightarrow> body_step expiry s (snd (read_wrapper w s))"
| step_cancel: "w < length (bs_wrappers s) \<Longrightarrow> body_step expiry s (cancel_wrapper w s)"
| step_expire: "expiry \<Longrightarrow> body_step expiry s (s\<lparr>bs_native := cancelBody h (bs_native s)\<rparr>)"

definition first_response :: "NativeResponse \<Rightarrow> string \<Rightarrow> bodies \<Rightarrow> body_state" where
  "first_response payload requestUrl n =
     snd (construct_response payload requestUrl None
       \<lparr>bs_native = n, bs_released = [], bs_registry = [], bs_sources = [], bs_streams = [], bs_wrappers = [],
        bs_responses = []\<rparr>)"

lemma first_response_fields [simp]:
  "bs_native (first_response p u n) = n" "bs_released (first_response p u n) = []"
  "bs_sources (first_response p u n) = []" "bs_streams (first_response p u n) = []"
  "bs_wrappers (first_response p u n) = []" "bs_responses (first_response p u n) = [Response_new p u None]"
  "bs_registry (first_response p u n) = (case nr_bodyHandle p of
     Some h \<Rightarrow> (if nr_bodyBytes p = None then [(ResponseObject 0, h)] else [])
   | None \<Rightarrow> [])"
  by (auto simp: first_response_def construct_response_def register_body_def Response_new_def Let_def
      split: option.split)

text \<open>The body that a payload brings: its inline bytes, the addon's handle, or none.\<close>

definition body_of_payload :: "NativeResponse \<Rightarrow> bodies \<Rightarrow> body" where
  "body_of_payload p n = (case nr_bodyBytes p of
      Some bytes \<Rightarrow> ([bytes], None)
    | None \<Rightarrow> (case nr_bodyHandle p of
        Some h \<Rightarrow> opt_default (n h) ([], None)
      | None \<Rightarrow> ([], None)))"

end
