(* ===== verification/ResponseInvariants.thy ===== *)
theory ResponseInvariants
  imports Response
begin

text \<open>
  The invariant of \<open>body_step\<close>: while a response is unused, everything of the body is still ahead of
  it, wherever it is: in its inline bytes, in the addon, or in a stream that nobody has read. \<open>F\<close> is
  the whole body, \<open>p\<close> the payload all responses share, and \<open>ex\<close> says that handles may expire.
\<close>

section \<open>The invariant\<close>

definition handle_state :: "bool \<Rightarrow> bodies \<Rightarrow> nat \<Rightarrow> body \<Rightarrow> bool" where
  "handle_state ex n h rest \<longleftrightarrow> n h = Some rest \<or> ex \<and> n h = None"

text \<open>\<open>quit\<close>: no stream over the source is left to be read.\<close>

definition abandoned :: "stream list \<Rightarrow> nat \<Rightarrow> bool" where
  "abandoned ts k \<longleftrightarrow> list_all (\<lambda>u. st_source u = k \<longrightarrow> st_teed u \<or> st_cancelled u) ts"

definition source_fits :: "NativeResponse \<Rightarrow> body \<Rightarrow> bool \<Rightarrow> bodies \<Rightarrow> bool \<Rightarrow> source \<Rightarrow> bool" where
  "source_fits p F ex n quit x = (case src_handle x of
      None \<Rightarrow> src_end x = Closed \<and> F = (src_log x, None)
    | Some h \<Rightarrow> nr_bodyHandle p = Some h \<and>
        (case src_end x of
           Readable \<Rightarrow> \<exists>rest. fst F = src_log x @ rest \<and> handle_state ex n h (rest, snd F)
         | Closed \<Rightarrow> F = (src_log x, None) \<or> quit
         | Failed e \<Rightarrow> snd F = Some e \<or> ex))"

definition source_ok :: "NativeResponse \<Rightarrow> body \<Rightarrow> bool \<Rightarrow> body_state \<Rightarrow> nat \<Rightarrow> bool" where
  "source_ok p F ex s k =
     source_fits p F ex (bs_native s) (abandoned (bs_streams s) k) (bs_sources s ! k)"

lemma source_fits_mono:
  "source_fits p F ex n quit x \<Longrightarrow> (quit \<Longrightarrow> quit') \<Longrightarrow> source_fits p F ex n quit' x"
  by (auto simp: source_fits_def split: option.splits source_end.splits)

definition stream_ok :: "body_state \<Rightarrow> stream \<Rightarrow> bool" where
  "stream_ok s t \<longleftrightarrow> st_source t < length (bs_sources s) \<and>
     st_pos t \<le> length (src_log (bs_sources s ! st_source t)) \<and> (st_teed t \<longrightarrow> st_locked t)"

definition wrapper_ok :: "body_state \<Rightarrow> wrapper \<Rightarrow> bool" where
  "wrapper_ok s v \<longleftrightarrow> wr_owner v < length (bs_responses s) \<and> wr_stream v < length (bs_streams s) \<and>
     (wr_failed v \<noteq> None \<longrightarrow> wr_started v) \<and>
     (wr_started v \<and> wr_failed v = None \<longrightarrow> st_locked (bs_streams s ! wr_stream v)) \<and>
     (\<not> st_teed (bs_streams s ! wr_stream v) \<longrightarrow>
        rs_bodySource (bs_responses s ! wr_owner v) = Some (wr_stream v)) \<and>
     (wr_started v \<and> \<not> st_teed (bs_streams s ! wr_stream v) \<longrightarrow> rs_bodyUsed (bs_responses s ! wr_owner v)) \<and>
     (wr_cancelled v \<and> \<not> st_teed (bs_streams s ! wr_stream v) \<longrightarrow>
        st_cancelled (bs_streams s ! wr_stream v) \<or> rs_bodyUsed (bs_responses s ! wr_owner v))"

text \<open>Of one response: what it is made of, and, while it is unused, where its body is.\<close>

definition response_ok :: "NativeResponse \<Rightarrow> body \<Rightarrow> bool \<Rightarrow> body_state \<Rightarrow> response \<Rightarrow> bool" where
  "response_ok p F ex s r \<longleftrightarrow> rs_payload r = p \<and>
     (\<forall>bytes. nr_bodyBytes p = Some bytes \<longrightarrow> F = ([bytes], None)) \<and>
     (\<forall>bytes. rs_inlineBody r = Some bytes \<longrightarrow> nr_bodyBytes p = Some bytes) \<and>
     (rs_nativeHandleAvailable r \<longrightarrow> rs_bodySource r = None \<and> rs_inlineBody r = None \<and>
        (\<exists>h. nr_bodyHandle p = Some h \<and> handle_state ex (bs_native s) h F) \<and>
        (\<forall>k < length (bs_sources s). src_handle (bs_sources s ! k) = None)) \<and>
     (\<forall>w. rs_bodyStream r = Some w \<longrightarrow> w < length (bs_wrappers s) \<and>
        rs_bodySource r = Some (wr_stream (bs_wrappers s ! w))) \<and>
     (\<forall>b. rs_bodySource r = Some b \<longrightarrow> b < length (bs_streams s) \<and> \<not> st_teed (bs_streams s ! b) \<and>
        (\<not> rs_bodyUsed r \<longrightarrow> st_pos (bs_streams s ! b) = 0 \<and> \<not> st_locked (bs_streams s ! b))) \<and>
     (\<not> rs_bodyUsed r \<and> rs_inlineBody r = None \<and> rs_bodySource r = None \<and>
        \<not> rs_nativeHandleAvailable r \<longrightarrow> F = ([], None))"

definition unique_ok :: "body_state \<Rightarrow> bool" where
  "unique_ok s \<longleftrightarrow>
     (\<forall>i < length (bs_responses s). \<forall>j < length (bs_responses s). \<forall>b.
        rs_bodySource (bs_responses s ! i) = Some b \<longrightarrow> rs_bodySource (bs_responses s ! j) = Some b \<longrightarrow> i = j) \<and>
     (\<forall>i < length (bs_responses s). \<forall>j < length (bs_responses s).
        rs_nativeHandleAvailable (bs_responses s ! i) \<longrightarrow> rs_nativeHandleAvailable (bs_responses s ! j) \<longrightarrow> i = j) \<and>
     (\<forall>k < length (bs_sources s). \<forall>l < length (bs_sources s).
        src_handle (bs_sources s ! k) \<noteq> None \<longrightarrow> src_handle (bs_sources s ! l) \<noteq> None \<longrightarrow> k = l)"

definition body_inv :: "NativeResponse \<Rightarrow> body \<Rightarrow> bool \<Rightarrow> body_state \<Rightarrow> bool" where
  "body_inv p F ex s \<longleftrightarrow>
     (\<forall>k < length (bs_sources s). source_ok p F ex s k) \<and>
     (\<forall>t \<in> set (bs_streams s). stream_ok s t) \<and>
     (\<forall>v \<in> set (bs_wrappers s). wrapper_ok s v) \<and>
     (\<forall>r \<in> set (bs_responses s). response_ok p F ex s r) \<and>
     unique_ok s"

lemma body_inv_source: "body_inv p F ex s \<Longrightarrow> k < length (bs_sources s) \<Longrightarrow> source_ok p F ex s k"
  by (simp add: body_inv_def)

lemma body_inv_stream: "body_inv p F ex s \<Longrightarrow> b < length (bs_streams s) \<Longrightarrow> stream_ok s (bs_streams s ! b)"
  by (simp add: body_inv_def)

lemma body_inv_wrapper: "body_inv p F ex s \<Longrightarrow> w < length (bs_wrappers s) \<Longrightarrow> wrapper_ok s (bs_wrappers s ! w)"
  by (simp add: body_inv_def)

lemma body_inv_response:
  "body_inv p F ex s \<Longrightarrow> i < length (bs_responses s) \<Longrightarrow> response_ok p F ex s (bs_responses s ! i)"
  by (simp add: body_inv_def)

lemmas body_inv_parts = body_inv_source body_inv_stream body_inv_wrapper body_inv_response

lemma body_invI:
  assumes "\<And>k. k < length (bs_sources s) \<Longrightarrow> source_ok p F ex s k"
    and "\<And>b. b < length (bs_streams s) \<Longrightarrow> stream_ok s (bs_streams s ! b)"
    and "\<And>w. w < length (bs_wrappers s) \<Longrightarrow> wrapper_ok s (bs_wrappers s ! w)"
    and "\<And>i. i < length (bs_responses s) \<Longrightarrow> response_ok p F ex s (bs_responses s ! i)"
    and "unique_ok s"
  shows "body_inv p F ex s"
  using assms unfolding body_inv_def by (metis in_set_conv_nth)

lemma unique_source:
  "body_inv p F ex s \<Longrightarrow> i < length (bs_responses s) \<Longrightarrow> j < length (bs_responses s) \<Longrightarrow>
     rs_bodySource (bs_responses s ! i) = Some b \<Longrightarrow> rs_bodySource (bs_responses s ! j) = Some b \<Longrightarrow> i = j"
  by (simp add: body_inv_def unique_ok_def)

lemma unique_native:
  "body_inv p F ex s \<Longrightarrow> i < length (bs_responses s) \<Longrightarrow> j < length (bs_responses s) \<Longrightarrow>
     rs_nativeHandleAvailable (bs_responses s ! i) \<Longrightarrow> rs_nativeHandleAvailable (bs_responses s ! j) \<Longrightarrow> i = j"
  by (simp add: body_inv_def unique_ok_def)

lemma unique_handle:
  "body_inv p F ex s \<Longrightarrow> k < length (bs_sources s) \<Longrightarrow> l < length (bs_sources s) \<Longrightarrow>
     src_handle (bs_sources s ! k) \<noteq> None \<Longrightarrow> src_handle (bs_sources s ! l) \<noteq> None \<Longrightarrow> k = l"
  by (simp add: body_inv_def unique_ok_def)

section \<open>Updates that keep it\<close>

lemmas body_puts = put_source_def put_stream_def put_wrapper_def put_response_def

text \<open>A response may be marked as used and may lose its inline bytes or its handle once it is.\<close>

lemma body_inv_registry [simp]: "body_inv p F ex (s\<lparr>bs_registry := g\<rparr>) = body_inv p F ex s"
  by (simp add: body_inv_def source_ok_def stream_ok_def wrapper_ok_def response_ok_def unique_ok_def)

lemma put_response_inv:
  assumes inv: "body_inv p F ex s" and i: "i < length (bs_responses s)"
    and r: "r = bs_responses s ! i" "response_ok p F ex s r'" "rs_bodySource r' = rs_bodySource r"
    and mono: "rs_bodyUsed r \<longrightarrow> rs_bodyUsed r'"
      "rs_nativeHandleAvailable r' \<longrightarrow> rs_nativeHandleAvailable r"
  shows "body_inv p F ex (put_response i r' s)"
proof (rule body_invI)
  show "source_ok p F ex (put_response i r' s) k" if "k < length (bs_sources (put_response i r' s))" for k
    using body_inv_source [OF inv, of k] that by (simp add: put_response_def source_ok_def)
  show "stream_ok (put_response i r' s) (bs_streams (put_response i r' s) ! b)"
    if "b < length (bs_streams (put_response i r' s))" for b
    using body_inv_stream [OF inv, of b] that by (simp add: put_response_def stream_ok_def)
  show "wrapper_ok (put_response i r' s) (bs_wrappers (put_response i r' s) ! w)"
    if "w < length (bs_wrappers (put_response i r' s))" for w
    using body_inv_wrapper [OF inv, of w] that r i mono
    by (auto simp: put_response_def wrapper_ok_def nth_list_update)
  show "response_ok p F ex (put_response i r' s) (bs_responses (put_response i r' s) ! j)"
    if "j < length (bs_responses (put_response i r' s))" for j
    using body_inv_response [OF inv, of j] that r(2)
    by (cases "j = i") (auto simp: put_response_def response_ok_def)
  show "unique_ok (put_response i r' s)"
    using inv r i mono by (auto simp: body_inv_def unique_ok_def put_response_def nth_list_update)
qed

lemma mark_used_inv:
  assumes "body_inv p F ex s" "i < length (bs_responses s)"
  shows "body_inv p F ex (mark_used i s)"
  unfolding mark_used_def
  by (rule put_response_inv [OF assms refl])
    (use body_inv_response [OF assms] in \<open>simp_all add: response_ok_def\<close>)

text \<open>A new source with its first stream becomes the body source of a response that has none.\<close>

lemma new_source_inv:
  assumes inv: "body_inv p F ex s" and i: "i < length (bs_responses s)"
    and r: "r = bs_responses s ! i" "rs_bodySource r = None"
    and x: "src_handle x = None \<Longrightarrow> src_end x = Closed \<and> F = (src_log x, None)"
      "\<And>h. src_handle x = Some h \<Longrightarrow> rs_nativeHandleAvailable r \<and> nr_bodyHandle p = Some h \<and>
         src_end x = Readable \<and> src_log x = []"
    and r': "rs_payload r' = rs_payload r" "rs_bodyStream r' = rs_bodyStream r" "rs_bodyUsed r' = rs_bodyUsed r"
      "rs_bodySource r' = Some (length (bs_streams s))" "\<not> rs_nativeHandleAvailable r'"
      "rs_inlineBody r' = None \<or> rs_inlineBody r' = rs_inlineBody r"
    and s': "s' = put_response i r' (snd (add_source x s))"
  shows "body_inv p F ex s'"
proof (rule body_invI)
  note R = body_inv_response [OF inv]
  have ri: "response_ok p F ex s r" using R [OF i] r by simp
  then have no_stream: "rs_bodyStream r = None" using r by (cases "rs_bodyStream r") (auto simp: response_ok_def)
  have src: "bs_sources s' = bs_sources s @ [x]" and
    str: "bs_streams s' = bs_streams s @ [new_stream (length (bs_sources s)) 0]" and
    wr: "bs_wrappers s' = bs_wrappers s" and
    rs: "bs_responses s' = (bs_responses s)[i := r']" and
    nat: "bs_native s' = bs_native s"
    by (simp_all add: s' add_source_def put_response_def)
  show "source_ok p F ex s' k" if k: "k < length (bs_sources s')" for k
  proof (cases "k = length (bs_sources s)")
    case True
    with x ri show ?thesis
      by (cases "src_handle x") (auto simp: source_ok_def source_fits_def src nat response_ok_def)
  next
    case False
    with k have k: "k < length (bs_sources s)" by (simp add: src)
    then have "abandoned (bs_streams s') k \<longleftrightarrow> abandoned (bs_streams s) k"
      by (auto simp: str new_stream_def abandoned_def)
    with body_inv_source [OF inv k] k show ?thesis
      by (simp add: source_ok_def src nat nth_append)
  qed
  show "stream_ok s' (bs_streams s' ! b)" if "b < length (bs_streams s')" for b
    using body_inv_stream [OF inv, of b] that
    by (auto simp: stream_ok_def src str nth_append new_stream_def less_Suc_eq)
  show "wrapper_ok s' (bs_wrappers s' ! w)" if "w < length (bs_wrappers s')" for w
  proof -
    define v where "v = bs_wrappers s' ! w"
    from that body_inv_wrapper [OF inv, of w] have v: "wrapper_ok s v" by (simp add: v_def wr)
    then have "wr_owner v = i \<Longrightarrow> st_teed (bs_streams s ! wr_stream v)"
      using r by (auto simp: wrapper_ok_def)
    with v have "wrapper_ok s' v"
      by (cases "wr_owner v = i") (auto simp: wrapper_ok_def rs str nth_append)
    then show ?thesis by (simp add: v_def)
  qed
  have native: "src_handle x \<noteq> None \<Longrightarrow> k < length (bs_sources s) \<Longrightarrow> src_handle (bs_sources s ! k) = None" for k
    using x(2) ri by (auto simp: response_ok_def)
  have only: "src_handle x \<noteq> None \<Longrightarrow> j < length (bs_responses s) \<Longrightarrow>
      rs_nativeHandleAvailable (bs_responses s ! j) \<Longrightarrow> j = i" for j
    using x(2) inv r i by (auto simp: body_inv_def unique_ok_def)
  show "response_ok p F ex s' (bs_responses s' ! j)" if "j < length (bs_responses s')" for j
  proof (cases "j = i")
    case True
    with ri r r' i no_stream show ?thesis
      by (auto simp: response_ok_def rs src str wr nat nth_append new_stream_def)
  next
    case False
    with that have j: "j < length (bs_responses s)" "bs_responses s' ! j = bs_responses s ! j"
      by (simp_all add: rs)
    with R [OF j(1)] only [OF _ j(1)] False show ?thesis
      by (cases "src_handle x") (auto simp: response_ok_def src str wr nat nth_append less_Suc_eq)
  qed
  have fresh: "rs_bodySource (bs_responses s ! j) \<noteq> Some (length (bs_streams s))"
    if "j < length (bs_responses s)" for j
    using R [OF that] by (auto simp: response_ok_def)
  show "unique_ok s'"
    unfolding unique_ok_def
  proof (intro conjI allI impI)
    fix j k b
    assume "j < length (bs_responses s')" "k < length (bs_responses s')"
      "rs_bodySource (bs_responses s' ! j) = Some b" "rs_bodySource (bs_responses s' ! k) = Some b"
    with i r'(4) fresh unique_source [OF inv] show "j = k"
      by (cases "j = i"; cases "k = i") (auto simp: rs)
  next
    fix j k
    assume "j < length (bs_responses s')" "k < length (bs_responses s')"
      "rs_nativeHandleAvailable (bs_responses s' ! j)" "rs_nativeHandleAvailable (bs_responses s' ! k)"
    with i r'(5) unique_native [OF inv] show "j = k"
      by (cases "j = i"; cases "k = i") (auto simp: rs)
  next
    fix k l
    assume "k < length (bs_sources s')" "l < length (bs_sources s')"
      "src_handle (bs_sources s' ! k) \<noteq> None" "src_handle (bs_sources s' ! l) \<noteq> None"
    with native inv show "k = l"
      by (cases "k < length (bs_sources s)"; cases "l < length (bs_sources s)")
        (auto simp: src nth_append less_Suc_eq body_inv_def unique_ok_def)
  qed
qed

section \<open>The getter \<open>body\<close>\<close>

lemma native_source_inv:
  assumes inv: "body_inv p F ex s" and i: "i < length (bs_responses s)"
  shows "body_inv p F ex (native_source i s)"
proof -
  define r where "r = bs_responses s ! i"
  have ri: "response_ok p F ex s r" using body_inv_response [OF inv i] by (simp add: r_def)
  show ?thesis
  proof (cases "rs_nativeHandleAvailable r \<and> nr_bodyHandle (rs_payload r) \<noteq> None")
    case False
    then have "native_source i s = s"
      by (auto simp: native_source_def Let_def r_def [symmetric] split: option.splits)
    with inv show ?thesis by simp
  next
    case True
    then obtain h where h: "nr_bodyHandle (rs_payload r) = Some h" "rs_nativeHandleAvailable r" by auto
    with ri have p: "nr_bodyHandle p = Some h" "rs_bodySource r = None" by (auto simp: response_ok_def)
    let ?x = "\<lparr>src_handle = Some h, src_log = [], src_end = Readable\<rparr>"
    have "native_source i s = (put_response i
        (r\<lparr>rs_bodySource := Some (length (bs_streams s)), rs_nativeHandleAvailable := False\<rparr>)
        (snd (add_source ?x s)))\<lparr>bs_registry :=
          (StreamObject (length (bs_streams s)), h) # filter (\<lambda>entry. snd entry \<noteq> h) (bs_registry s)\<rparr>"
      using h by (simp add: native_source_def Let_def r_def [symmetric] createNativeBodyStream_def
          add_source_def register_body_def unregister_body_def put_response_def)
    moreover have "body_inv p F ex (put_response i
        (r\<lparr>rs_bodySource := Some (length (bs_streams s)), rs_nativeHandleAvailable := False\<rparr>)
        (snd (add_source ?x s)))"
      by (rule new_source_inv [OF inv i r_def p(2) _ _ _ _ _ _ _ _ refl]) (use h p in auto)
    ultimately show ?thesis by simp
  qed
qed

lemma inline_source_inv:
  assumes inv: "body_inv p F ex s" and i: "i < length (bs_responses s)"
  shows "body_inv p F ex (inline_source i s)"
proof -
  define r where "r = bs_responses s ! i"
  have ri: "response_ok p F ex s r" using body_inv_response [OF inv i] by (simp add: r_def)
  show ?thesis
  proof (cases "rs_inlineBody r = None \<or> rs_bodySource r \<noteq> None")
    case True
    then have "inline_source i s = s"
      by (auto simp: inline_source_def Let_def r_def [symmetric] split: option.splits)
    with inv show ?thesis by simp
  next
    case False
    then obtain bytes where b: "rs_inlineBody r = Some bytes" "rs_bodySource r = None" by auto
    with ri have p: "F = ([bytes], None)" "\<not> rs_nativeHandleAvailable r" by (auto simp: response_ok_def)
    let ?x = "\<lparr>src_handle = None, src_log = [bytes], src_end = Closed\<rparr>"
    have "inline_source i s = put_response i
        (r\<lparr>rs_inlineBody := None, rs_bodySource := Some (length (bs_streams s))\<rparr>)
        (snd (add_source ?x s))"
      using b by (simp add: inline_source_def Let_def r_def [symmetric] inline_stream_def add_source_def)
    then show ?thesis
      by (rule new_source_inv [OF inv i r_def b(2), rotated -1]) (use b p in auto)
  qed
qed

lemma source_responses [simp]:
  "length (bs_responses (native_source i s)) = length (bs_responses s)"
  "length (bs_responses (inline_source i s)) = length (bs_responses s)"
  "length (bs_responses (mark_used i s)) = length (bs_responses s)"
  by (auto simp: native_source_def inline_source_def mark_used_def createNativeBodyStream_def inline_stream_def
      add_source_def put_response_def Let_def split: option.splits)

text \<open>The wrapper that \<open>body\<close> adds over the response's own stream.\<close>

lemma wrap_inv:
  assumes inv: "body_inv p F ex s" and i: "i < length (bs_responses s)"
    and r: "r = bs_responses s ! i" "rs_bodySource r = Some b" "rs_bodyStream r = None"
    and s': "s' = put_response i (r\<lparr>rs_bodyStream := Some (length (bs_wrappers s))\<rparr>) (snd (wrapBodyStream b i s))"
  shows "body_inv p F ex s'"
proof (rule body_invI)
  note R = body_inv_response [OF inv]
  have ri: "response_ok p F ex s r" using R [OF i] r by simp
  define v where "v = \<lparr>wr_owner = i, wr_stream = b, wr_started = False, wr_failed = None,
    wr_cancelled = False, wr_locked = False\<rparr>"
  have src: "bs_sources s' = bs_sources s" and str: "bs_streams s' = bs_streams s" and
    wr: "bs_wrappers s' = bs_wrappers s @ [v]" and
    rs: "bs_responses s' = (bs_responses s)[i := r\<lparr>rs_bodyStream := Some (length (bs_wrappers s))\<rparr>]" and
    nat: "bs_native s' = bs_native s"
    by (simp_all add: s' v_def wrapBodyStream_def put_response_def)
  show "source_ok p F ex s' k" if "k < length (bs_sources s')" for k
    using body_inv_source [OF inv, of k] that by (simp add: source_ok_def src str nat)
  show "stream_ok s' (bs_streams s' ! c)" if "c < length (bs_streams s')" for c
    using body_inv_stream [OF inv, of c] that by (simp add: stream_ok_def src str)
  have field: "rs_bodySource (bs_responses s' ! j) = rs_bodySource (bs_responses s ! j)"
    "rs_bodyUsed (bs_responses s' ! j) = rs_bodyUsed (bs_responses s ! j)"
    "rs_nativeHandleAvailable (bs_responses s' ! j) = rs_nativeHandleAvailable (bs_responses s ! j)"
    for j using i r by (auto simp: rs nth_list_update)
  have len: "length (bs_responses s') = length (bs_responses s)" by (simp add: rs)
  show "wrapper_ok s' (bs_wrappers s' ! w)" if "w < length (bs_wrappers s')" for w
  proof (cases "w < length (bs_wrappers s)")
    case True
    with body_inv_wrapper [OF inv True] show ?thesis by (simp add: wrapper_ok_def field str wr len nth_append)
  next
    case False
    with that have "bs_wrappers s' ! w = v" by (simp add: wr nth_append less_Suc_eq)
    moreover have "wrapper_ok s' v"
      using i r ri by (auto simp: wrapper_ok_def field str len v_def response_ok_def)
    ultimately show ?thesis by simp
  qed
  show "response_ok p F ex s' (bs_responses s' ! j)" if "j < length (bs_responses s')" for j
  proof (cases "j = i")
    case True
    with ri r i show ?thesis by (auto simp: response_ok_def rs src str wr nat v_def)
  next
    case False
    with that have j: "j < length (bs_responses s)" "bs_responses s' ! j = bs_responses s ! j"
      by (simp_all add: rs)
    with R [OF j(1)] show ?thesis by (auto simp: response_ok_def src str wr nat nth_append)
  qed
  show "unique_ok s'"
    using inv by (simp add: body_inv_def unique_ok_def field src len)
qed

lemma get_body_inv:
  assumes inv: "body_inv p F ex s" and i: "i < length (bs_responses s)"
  shows "body_inv p F ex (snd (get_body i s))"
proof -
  define s1 where "s1 = inline_source i s"
  define s2 where "s2 = (if rs_bodySource (bs_responses s1 ! i) = None then native_source i s1 else s1)"
  have inv1: "body_inv p F ex s1" using inline_source_inv [OF assms] by (simp add: s1_def)
  have i1: "i < length (bs_responses s1)" using i by (simp add: s1_def)
  have inv2: "body_inv p F ex s2" using native_source_inv [OF inv1 i1] inv1 by (simp add: s2_def)
  have i2: "i < length (bs_responses s2)" using i1 by (simp add: s2_def)
  show ?thesis
  proof (cases "rs_bodySource (bs_responses s2 ! i)")
    case None
    then show ?thesis
      using inv1 inv2 unfolding get_body_def s1_def [symmetric] by (simp add: Let_def s2_def [symmetric])
  next
    case (Some b)
    show ?thesis
    proof (cases "rs_bodyStream (bs_responses s2 ! i)")
      case (Some w)
      with \<open>rs_bodySource (bs_responses s2 ! i) = Some b\<close> show ?thesis
        using inv1 inv2 unfolding get_body_def s1_def [symmetric] by (simp add: Let_def s2_def [symmetric])
    next
      case None
      from wrap_inv [OF inv2 i2 refl Some None refl] Some None inv1 show ?thesis
        unfolding get_body_def s1_def [symmetric]
        by (simp add: Let_def s2_def [symmetric] wrapBodyStream_def)
    qed
  qed
qed

section \<open>Wrappers\<close>

text \<open>An update of a wrapper alone.\<close>

lemma put_wrapper_inv:
  assumes inv: "body_inv p F ex s" and w: "w < length (bs_wrappers s)"
    and v: "wrapper_ok s v" "wr_stream v = wr_stream (bs_wrappers s ! w)"
  shows "body_inv p F ex (put_wrapper w v s)"
proof (rule body_invI)
  show "source_ok p F ex (put_wrapper w v s) k" if "k < length (bs_sources (put_wrapper w v s))" for k
    using body_inv_source [OF inv, of k] that by (simp add: source_ok_def put_wrapper_def)
  show "stream_ok (put_wrapper w v s) (bs_streams (put_wrapper w v s) ! c)"
    if "c < length (bs_streams (put_wrapper w v s))" for c
    using body_inv_stream [OF inv, of c] that by (simp add: stream_ok_def put_wrapper_def)
  show "wrapper_ok (put_wrapper w v s) (bs_wrappers (put_wrapper w v s) ! u)"
    if "u < length (bs_wrappers (put_wrapper w v s))" for u
    using body_inv_wrapper [OF inv, of u] that v(1)
    by (cases "u = w") (simp_all add: wrapper_ok_def put_wrapper_def)
  show "response_ok p F ex (put_wrapper w v s) (bs_responses (put_wrapper w v s) ! j)"
    if "j < length (bs_responses (put_wrapper w v s))" for j
  proof -
    from that have j: "j < length (bs_responses s)" "bs_responses (put_wrapper w v s) ! j = bs_responses s ! j"
      by (simp_all add: put_wrapper_def)
    have "wr_stream (bs_wrappers (put_wrapper w v s) ! u) = wr_stream (bs_wrappers s ! u)" for u
      using w v(2) by (simp add: put_wrapper_def nth_list_update)
    with body_inv_response [OF inv j(1)] show ?thesis
      by (simp add: response_ok_def j(2))
  qed
  show "unique_ok (put_wrapper w v s)" using inv by (simp add: body_inv_def unique_ok_def put_wrapper_def)
qed

text \<open>An update of a stream that keeps its source, of which no unused response reads.\<close>

lemma put_stream_inv:
  assumes inv: "body_inv p F ex s" and b: "b < length (bs_streams s)" and t: "t = bs_streams s ! b"
    and t': "st_source t' = st_source t" "st_teed t' = st_teed t" "st_locked t \<longrightarrow> st_locked t'"
      "st_cancelled t \<longrightarrow> st_cancelled t'"
      "st_pos t' \<le> length (src_log (bs_sources s ! st_source t))"
    and idle: "\<And>j. j < length (bs_responses s) \<Longrightarrow> \<not> rs_bodyUsed (bs_responses s ! j) \<Longrightarrow>
      rs_bodySource (bs_responses s ! j) = Some b \<Longrightarrow> st_pos t' = 0 \<and> \<not> st_locked t'"
  shows "body_inv p F ex (put_stream b t' s)"
proof (rule body_invI)
  have t_ok: "stream_ok s t" using body_inv_stream [OF inv b] by (simp add: t)
  have str: "bs_streams (put_stream b t' s) = (bs_streams s)[b := t']" by (simp add: put_stream_def)
  have same: "bs_sources (put_stream b t' s) = bs_sources s" "bs_wrappers (put_stream b t' s) = bs_wrappers s"
    "bs_responses (put_stream b t' s) = bs_responses s" "bs_native (put_stream b t' s) = bs_native s"
    by (simp_all add: put_stream_def)
  show "source_ok p F ex (put_stream b t' s) k" if "k < length (bs_sources (put_stream b t' s))" for k
  proof -
    have "abandoned (bs_streams s) k \<Longrightarrow> abandoned (bs_streams (put_stream b t' s)) k"
      using t' t b
      by (auto simp: abandoned_def str list_all_length nth_list_update)
    with body_inv_source [OF inv, of k] that show ?thesis
      by (auto simp: source_ok_def same intro: source_fits_mono)
  qed
  show "stream_ok (put_stream b t' s) (bs_streams (put_stream b t' s) ! c)"
    if "c < length (bs_streams (put_stream b t' s))" for c
    using body_inv_stream [OF inv, of c] that t' t_ok
    by (cases "c = b") (auto simp: stream_ok_def same str)
  show "wrapper_ok (put_stream b t' s) (bs_wrappers (put_stream b t' s) ! u)"
    if "u < length (bs_wrappers (put_stream b t' s))" for u
    using body_inv_wrapper [OF inv, of u] that t' t
    by (cases "wr_stream (bs_wrappers s ! u) = b") (auto simp: wrapper_ok_def same str nth_list_update)
  show "response_ok p F ex (put_stream b t' s) (bs_responses (put_stream b t' s) ! j)"
    if "j < length (bs_responses (put_stream b t' s))" for j
  proof (cases "rs_bodySource (bs_responses s ! j) = Some b")
    case True
    with body_inv_response [OF inv, of j] that b t t'(2) idle [of j] show ?thesis
      by (simp add: response_ok_def same str)
  next
    case False
    then have "rs_bodySource (bs_responses s ! j) = Some c \<Longrightarrow> (bs_streams s)[b := t'] ! c = bs_streams s ! c" for c
      by auto
    with body_inv_response [OF inv, of j] that show ?thesis
      by (simp add: response_ok_def same str)
  qed
  show "unique_ok (put_stream b t' s)" using inv by (simp add: body_inv_def unique_ok_def same)
qed

lemma put_stream_wrapper: "put_stream b t (put_wrapper w v s) = put_wrapper w v (put_stream b t s)"
  by (simp add: put_stream_def put_wrapper_def)

lemma get_reader_inv:
  assumes "body_inv p F ex s" "w < length (bs_wrappers s)"
  shows "body_inv p F ex (snd (get_reader w s))"
  using assms put_wrapper_inv [OF assms] body_inv_wrapper [OF assms]
  by (auto simp: get_reader_def Let_def wrapper_ok_def)

lemma start_wrapper_inv:
  assumes inv: "body_inv p F ex s" and w: "w < length (bs_wrappers s)"
  shows "body_inv p F ex (start_wrapper w s)"
proof -
  define v where "v = bs_wrappers s ! w"
  define t where "t = bs_streams s ! wr_stream v"
  define s1 where "s1 = mark_used (wr_owner v) s"
  have v_ok: "wrapper_ok s v" using body_inv_wrapper [OF assms] by (simp add: v_def)
  then have inv1: "body_inv p F ex s1" using mark_used_inv [OF inv] by (simp add: s1_def wrapper_ok_def)
  have same: "bs_wrappers s1 = bs_wrappers s" "bs_streams s1 = bs_streams s" "bs_sources s1 = bs_sources s"
    by (simp_all add: s1_def mark_used_def put_response_def)
  have used: "rs_bodyUsed (bs_responses s1 ! wr_owner v)"
    using v_ok by (simp add: s1_def mark_used_def put_response_def wrapper_ok_def)
  have v1: "wrapper_ok s1 v" using body_inv_wrapper [OF inv1, of w] w by (simp add: same v_def)
  show ?thesis
  proof (cases "wr_started v \<or> wr_cancelled v")
    case True
    with inv show ?thesis by (simp add: start_wrapper_def Let_def v_def)
  next
    case False
    show ?thesis
    proof (cases "st_locked t")
      case True
      have "wrapper_ok s1 (v\<lparr>wr_started := True, wr_failed := Some locked_error\<rparr>)"
        using v1 used by (simp add: wrapper_ok_def)
      from put_wrapper_inv [OF inv1 _ this] w have
        "body_inv p F ex (put_wrapper w (v\<lparr>wr_started := True, wr_failed := Some locked_error\<rparr>) s1)"
        by (simp add: same v_def)
      with False True show ?thesis by (simp add: start_wrapper_def Let_def v_def t_def s1_def)
    next
      case open_stream: False
      have len: "wr_stream v < length (bs_streams s1)" using v1 by (simp add: wrapper_ok_def)
      have t1: "t = bs_streams s1 ! wr_stream v" by (simp add: same t_def)
      have t_ok: "stream_ok s1 t" using body_inv_stream [OF inv1 len] by (simp add: t1)
      with open_stream have "\<not> st_teed t" by (simp add: stream_ok_def)
      with v1 have own: "rs_bodySource (bs_responses s1 ! wr_owner v) = Some (wr_stream v)"
        "wr_owner v < length (bs_responses s1)"
        by (simp_all add: wrapper_ok_def t1)
      have inv2: "body_inv p F ex (put_stream (wr_stream v) (t\<lparr>st_locked := True\<rparr>) s1)"
      proof (rule put_stream_inv [OF inv1 len t1])
        fix j
        assume j: "j < length (bs_responses s1)" "\<not> rs_bodyUsed (bs_responses s1 ! j)"
          "rs_bodySource (bs_responses s1 ! j) = Some (wr_stream v)"
        from unique_source [OF inv1 j(1) own(2) j(3) own(1)] used j(2)
        show "st_pos (t\<lparr>st_locked := True\<rparr>) = 0 \<and> \<not> st_locked (t\<lparr>st_locked := True\<rparr>)" by simp
      qed (use t_ok in \<open>simp_all add: stream_ok_def\<close>)
      have "wrapper_ok (put_stream (wr_stream v) (t\<lparr>st_locked := True\<rparr>) s1) (v\<lparr>wr_started := True\<rparr>)"
        using v1 used len t1 by (simp add: wrapper_ok_def put_stream_def)
      from put_wrapper_inv [OF inv2 _ this] w
      have "body_inv p F ex (put_wrapper w (v\<lparr>wr_started := True\<rparr>)
          (put_stream (wr_stream v) (t\<lparr>st_locked := True\<rparr>) s1))"
        by (simp add: put_stream_def same v_def)
      with False open_stream show ?thesis
        by (simp add: start_wrapper_def Let_def v_def t_def s1_def put_stream_wrapper)
    qed
  qed
qed

section \<open>Sources\<close>

lemma source_update_inv:
  assumes inv: "body_inv p F ex s" and k: "k < length (bs_sources s)" and x: "x = bs_sources s ! k"
    and h: "src_handle x = Some h" "src_handle x' = Some h" "length (src_log x) \<le> length (src_log x')"
    and fits: "source_fits p F ex n' (abandoned (bs_streams s) k) x'"
    and n': "\<And>g. g \<noteq> h \<Longrightarrow> n' g = bs_native s g"
    and s': "bs_native s' = n'" "bs_sources s' = (bs_sources s)[k := x']" "bs_streams s' = bs_streams s"
      "bs_wrappers s' = bs_wrappers s" "bs_responses s' = bs_responses s"
  shows "body_inv p F ex s'"
proof (rule body_invI)
  have handle: "src_handle (bs_sources s' ! l) = src_handle (bs_sources s ! l)" for l
    using k x h by (cases "l = k") (simp_all add: s')
  show "source_ok p F ex s' l" if "l < length (bs_sources s')" for l
  proof (cases "l = k")
    case True
    with fits k show ?thesis by (simp add: source_ok_def s')
  next
    case False
    with that have l: "l < length (bs_sources s)" by (simp add: s')
    have "src_handle (bs_sources s ! l) = None"
    proof (rule ccontr)
      assume "src_handle (bs_sources s ! l) \<noteq> None"
      with unique_handle [OF inv l k] False h x show False by simp
    qed
    with body_inv_source [OF inv l] False show ?thesis by (simp add: source_ok_def source_fits_def s')
  qed
  show "stream_ok s' (bs_streams s' ! c)" if c: "c < length (bs_streams s')" for c
  proof -
    have ok: "stream_ok s (bs_streams s ! c)" using body_inv_stream [OF inv, of c] c by (simp add: s')
    have "length (src_log (bs_sources s ! l)) \<le> length (src_log (bs_sources s' ! l))" for l
      using k x h by (cases "l = k") (simp_all add: s')
    with ok show ?thesis by (auto simp: stream_ok_def s' intro: le_trans)
  qed
  show "wrapper_ok s' (bs_wrappers s' ! u)" if "u < length (bs_wrappers s')" for u
    using body_inv_wrapper [OF inv, of u] that by (simp add: wrapper_ok_def s')
  show "response_ok p F ex s' (bs_responses s' ! j)" if "j < length (bs_responses s')" for j
  proof -
    have ok: "response_ok p F ex s (bs_responses s ! j)" using body_inv_response [OF inv, of j] that by (simp add: s')
    have "\<not> rs_nativeHandleAvailable (bs_responses s ! j)"
    proof
      assume "rs_nativeHandleAvailable (bs_responses s ! j)"
      with ok k have "src_handle (bs_sources s ! k) = None" by (simp add: response_ok_def)
      with h x show False by simp
    qed
    with ok show ?thesis by (simp add: response_ok_def s')
  qed
  show "unique_ok s'" using inv by (simp add: body_inv_def unique_ok_def handle s'(5)) (simp add: s')
qed

lemma release_fields [simp]:
  "bs_sources (releaseNativeBody h s) = bs_sources s" "bs_streams (releaseNativeBody h s) = bs_streams s"
  "bs_wrappers (releaseNativeBody h s) = bs_wrappers s" "bs_responses (releaseNativeBody h s) = bs_responses s"
  "g \<noteq> h \<Longrightarrow> bs_native (releaseNativeBody h s) g = bs_native s g"
  by (simp_all add: releaseNativeBody_def cancelBody_def)

lemma pull_source_inv:
  assumes inv: "body_inv p F ex s" and k: "k < length (bs_sources s)"
    and end_: "src_end (bs_sources s ! k) = Readable"
  shows "body_inv p F ex (pull_source k s)"
proof -
  define x where "x = bs_sources s ! k"
  have ok: "source_fits p F ex (bs_native s) (abandoned (bs_streams s) k) x"
    using body_inv_source [OF inv k] by (simp add: source_ok_def x_def)
  with end_ obtain h rest where h: "src_handle x = Some h" "nr_bodyHandle p = Some h"
    and rest: "fst F = src_log x @ rest" "handle_state ex (bs_native s) h (rest, snd F)"
    by (auto simp: source_fits_def x_def split: option.splits)
  note upd = source_update_inv [OF inv k x_def h(1)]
  obtain r n where rn: "readBodyChunk h (bs_native s) = (r, n)" by fastforce
  then have n: "\<And>g. g \<noteq> h \<Longrightarrow> n g = bs_native s g"
    by (auto simp: readBodyChunk_def split: option.splits list.splits prod.splits)
  define s1 where "s1 = s\<lparr>bs_native := n\<rparr>"
  have pull: "pull_source k s = (case r of
      Inr (Some c) \<Rightarrow> put_source k (x\<lparr>src_log := src_log x @ [c]\<rparr>) s1
    | Inr None \<Rightarrow> put_source k (x\<lparr>src_end := Closed\<rparr>) (releaseNativeBody h s1)
    | Inl e \<Rightarrow> put_source k (x\<lparr>src_end := Failed e\<rparr>) (releaseNativeBody h s1))"
    using h rn unfolding s1_def by (simp add: pull_source_def Let_def x_def [symmetric])
  have fate: "(\<exists>c cs. r = Inr (Some c) \<and> rest = c # cs \<and> n h = Some (cs, snd F)) \<or>
      r = Inr None \<and> rest = [] \<and> snd F = None \<or> (\<exists>e. r = Inl e \<and> (snd F = Some e \<or> ex))"
    using rn rest(2)
    by (cases rest; cases "snd F") (auto simp: handle_state_def readBodyChunk_def)
  from fate show ?thesis
  proof (elim disjE exE conjE)
    fix c cs assume r: "r = Inr (Some c)" "rest = c # cs" "n h = Some (cs, snd F)"
    have "source_fits p F ex n (abandoned (bs_streams s) k) (x\<lparr>src_log := src_log x @ [c]\<rparr>)"
      using h rest r end_ by (simp add: source_fits_def handle_state_def x_def)
    from upd [OF _ _ this n] h show ?thesis by (simp add: pull r s1_def)
  next
    assume r: "r = Inr None" "rest = []" "snd F = None"
    with rest have F: "F = (src_log x, None)" by (cases F) simp
    have "source_fits p F ex (bs_native (releaseNativeBody h s1)) (abandoned (bs_streams s) k) (x\<lparr>src_end := Closed\<rparr>)"
      using h F by (simp add: source_fits_def)
    from upd [OF _ _ this] n h show ?thesis by (simp add: pull r s1_def)
  next
    fix e assume r: "r = Inl e" "snd F = Some e"
    have "source_fits p F ex (bs_native (releaseNativeBody h s1)) (abandoned (bs_streams s) k) (x\<lparr>src_end := Failed e\<rparr>)"
      using h r by (simp add: source_fits_def)
    from upd [OF _ _ this] n h show ?thesis by (simp add: pull r s1_def)
  next
    fix e assume r: "r = Inl e" ex
    have "source_fits p F ex (bs_native (releaseNativeBody h s1)) (abandoned (bs_streams s) k) (x\<lparr>src_end := Failed e\<rparr>)"
      using h r by (simp add: source_fits_def)
    from upd [OF _ _ this] n h show ?thesis by (simp add: pull r s1_def)
  qed
qed

lemma cancel_stream_inv:
  assumes inv: "body_inv p F ex s" and b: "b < length (bs_streams s)"
  shows "body_inv p F ex (cancel_stream b s)"
proof -
  define t where "t = bs_streams s ! b"
  define k where "k = st_source t"
  define x where "x = bs_sources s ! k"
  define s1 where "s1 = put_stream b (t\<lparr>st_cancelled := True\<rparr>) s"
  have t_ok: "stream_ok s t" using body_inv_stream [OF inv b] by (simp add: t_def)
  have inv1: "body_inv p F ex s1"
    unfolding s1_def
  proof (rule put_stream_inv [OF inv b t_def])
    fix j assume "j < length (bs_responses s)" "\<not> rs_bodyUsed (bs_responses s ! j)"
      "rs_bodySource (bs_responses s ! j) = Some b"
    with body_inv_response [OF inv, of j]
    show "st_pos (t\<lparr>st_cancelled := True\<rparr>) = 0 \<and> \<not> st_locked (t\<lparr>st_cancelled := True\<rparr>)"
      by (simp add: response_ok_def t_def)
  qed (use t_ok in \<open>simp_all add: stream_ok_def\<close>)
  have k1: "k < length (bs_sources s1)" "x = bs_sources s1 ! k"
    using t_ok by (simp_all add: stream_ok_def k_def s1_def x_def)
  show ?thesis
  proof (cases "abandoned (bs_streams s1) k \<and> src_end x = Readable")
    case False
    then have "cancel_stream b s = s1"
      by (auto simp: cancel_stream_def Let_def s1_def t_def k_def x_def abandoned_def)
    with inv1 show ?thesis by simp
  next
    case True
    from body_inv_source [OF inv1 k1(1)] True obtain h where h: "src_handle x = Some h" "nr_bodyHandle p = Some h"
      by (auto simp: source_ok_def source_fits_def k1(2) [symmetric] split: option.splits)
    have eq: "cancel_stream b s = releaseNativeBody h (put_source k (x\<lparr>src_end := Closed\<rparr>) s1)"
      using True h by (simp add: cancel_stream_def Let_def s1_def t_def k_def x_def abandoned_def)
    have fits: "source_fits p F ex (bs_native (releaseNativeBody h (put_source k (x\<lparr>src_end := Closed\<rparr>) s1)))
        (abandoned (bs_streams s1) k) (x\<lparr>src_end := Closed\<rparr>)"
      using True h by (simp add: source_fits_def)
    show ?thesis
      unfolding eq
      by (rule source_update_inv [OF inv1 k1 h(1) _ _ fits]) (simp_all add: h)
  qed
qed

section \<open>Reading\<close>

lemma pull_source_streams [simp]:
  "bs_streams (pull_source k s) = bs_streams s" "bs_wrappers (pull_source k s) = bs_wrappers s"
  "bs_responses (pull_source k s) = bs_responses s" "length (bs_sources (pull_source k s)) = length (bs_sources s)"
  by (auto simp: pull_source_def Let_def case_prod_unfold split: option.splits sum.splits)

lemma peek_pull:
  assumes "peek_stream b s = None" "st_source (bs_streams s ! b) < length (bs_sources s)"
    "st_pos (bs_streams s ! b) \<le> length (src_log (bs_sources s ! st_source (bs_streams s ! b)))"
  shows "src_end (bs_sources s ! st_source (bs_streams s ! b)) = Readable"
    and "peek_stream b (pull_source (st_source (bs_streams s ! b)) s) \<noteq> None"
proof -
  define t where "t = bs_streams s ! b"
  define x where "x = bs_sources s ! st_source t"
  have x: "src_end x = Readable" "\<not> st_cancelled t" "st_pos t = length (src_log x)"
    using assms(1,3) by (auto simp: peek_stream_def Let_def t_def x_def split: source_end.splits if_splits)
  then show "src_end (bs_sources s ! st_source (bs_streams s ! b)) = Readable" by (simp add: t_def x_def)
  show "peek_stream b (pull_source (st_source (bs_streams s ! b)) s) \<noteq> None"
  proof (cases "src_handle x")
    case None
    with x assms(2) show ?thesis
      by (simp add: peek_stream_def pull_source_def Let_def t_def [symmetric] x_def [symmetric])
  next
    case (Some h)
    obtain r n where rn: "readBodyChunk h (bs_native s) = (r, n)" by fastforce
    with Some x assms(2) show ?thesis
      by (cases r; cases "projr r")
        (auto simp: peek_stream_def pull_source_def Let_def t_def [symmetric] x_def [symmetric])
  qed
qed

text \<open>What a stream that is still wanted delivers, and where it is then.\<close>

definition delivers :: "body \<Rightarrow> bool \<Rightarrow> nat \<Rightarrow> nat list option res \<Rightarrow> nat \<Rightarrow> bool" where
  "delivers F ex pos r pos' = (case r of
      Inr (Some c) \<Rightarrow> pos < length (fst F) \<and> c = fst F ! pos \<and> pos' = Suc pos
    | Inr None \<Rightarrow> pos = length (fst F) \<and> snd F = None \<and> pos' = pos
    | Inl e \<Rightarrow> (snd F = Some e \<or> ex) \<and> pos' = pos)"

lemma advance_delivers:
  assumes inv: "body_inv p F ex s" and b: "b < length (bs_streams s)" and t: "t = bs_streams s ! b"
    and live: "\<not> st_teed t" "\<not> st_cancelled t" and peek: "peek_stream b s = Some r"
  shows "\<exists>pos'. advance b s = (r, put_stream b (t\<lparr>st_pos := pos'\<rparr>) s) \<and> delivers F ex (st_pos t) r pos'"
proof -
  define x where "x = bs_sources s ! st_source t"
  have t_ok: "stream_ok s t" using body_inv_stream [OF inv b] t by simp
  then have k: "st_source t < length (bs_sources s)" and pos: "st_pos t \<le> length (src_log x)"
    by (simp_all add: stream_ok_def x_def)
  have "\<not> abandoned (bs_streams s) (st_source t)"
    using live b t by (auto simp: abandoned_def list_all_length)
  with body_inv_source [OF inv k] have fits: "source_fits p F ex (bs_native s) False x"
    by (simp add: source_ok_def x_def)
  have self: "put_stream b (t\<lparr>st_pos := st_pos t\<rparr>) s = s" by (simp add: put_stream_def t)
  have adv: "advance b s = (case r of
      Inr (Some c) \<Rightarrow> (r, put_stream b (t\<lparr>st_pos := Suc (st_pos t)\<rparr>) s) | _ \<Rightarrow> (r, s))"
    using peek by (auto simp: advance_def Let_def t split: sum.splits option.splits)
  show ?thesis
  proof (cases "src_end x")
    case (Failed e)
    with peek live have "r = Inl e" by (simp add: peek_stream_def Let_def t [symmetric] x_def [symmetric])
    moreover have "snd F = Some e \<or> ex"
      using fits Failed by (auto simp: source_fits_def split: option.splits)
    ultimately show ?thesis
      using adv self by (intro exI [of _ "st_pos t"]) (auto simp: delivers_def)
  next
    case Readable
    with peek live pos have r: "st_pos t < length (src_log x)" "r = Inr (Some (src_log x ! st_pos t))"
      by (auto simp: peek_stream_def Let_def t [symmetric] x_def [symmetric] split: if_splits)
    from fits Readable obtain rest where "fst F = src_log x @ rest"
      by (auto simp: source_fits_def split: option.splits)
    with r adv show ?thesis
      by (intro exI [of _ "Suc (st_pos t)"]) (auto simp: delivers_def nth_append)
  next
    case Closed
    with fits have F: "F = (src_log x, None)" by (auto simp: source_fits_def split: option.splits)
    show ?thesis
    proof (cases "st_pos t < length (src_log x)")
      case True
      with peek live Closed have "r = Inr (Some (src_log x ! st_pos t))"
        by (simp add: peek_stream_def Let_def t [symmetric] x_def [symmetric])
      with True adv F show ?thesis
        by (intro exI [of _ "Suc (st_pos t)"]) (auto simp: delivers_def)
    next
      case False
      with peek live Closed have "r = Inr None"
        by (simp add: peek_stream_def Let_def t [symmetric] x_def [symmetric])
      with False adv F pos self show ?thesis
        by (intro exI [of _ "st_pos t"]) (auto simp: delivers_def)
    qed
  qed
qed

lemma read_stream_delivers:
  assumes inv: "body_inv p F ex s" and b: "b < length (bs_streams s)" and t: "t = bs_streams s ! b"
    and live: "\<not> st_teed t" "\<not> st_cancelled t"
    and read: "read_stream b s = (r, s')"
  obtains pos' where "delivers F ex (st_pos t) r pos'"
    "bs_streams s' = (bs_streams s)[b := t\<lparr>st_pos := pos'\<rparr>]" "bs_wrappers s' = bs_wrappers s"
    "bs_responses s' = bs_responses s"
proof -
  define s1 where "s1 = (if peek_stream b s = None then pull_source (st_source t) s else s)"
  have t_ok: "stream_ok s t" using body_inv_stream [OF inv b] t by simp
  then have inv1: "body_inv p F ex s1" "peek_stream b s1 \<noteq> None"
    using pull_source_inv [OF inv] peek_pull [of b s] inv t by (auto simp: s1_def stream_ok_def)
  then obtain r1 where r1: "peek_stream b s1 = Some r1" by blast
  have same: "bs_streams s1 = bs_streams s" "bs_wrappers s1 = bs_wrappers s" "bs_responses s1 = bs_responses s"
    by (simp_all add: s1_def)
  with b t have "b < length (bs_streams s1)" "t = bs_streams s1 ! b" by simp_all
  from advance_delivers [OF inv1(1) this live r1] obtain pos' where
    adv: "advance b s1 = (r1, put_stream b (t\<lparr>st_pos := pos'\<rparr>) s1)" "delivers F ex (st_pos t) r1 pos'" by blast
  have "read_stream b s = advance b s1" by (simp add: read_stream_def s1_def t)
  with adv read have "r = r1" "s' = put_stream b (t\<lparr>st_pos := pos'\<rparr>) s1" by simp_all
  with adv same show ?thesis by (intro that [of pos']) simp_all
qed

lemma advance_inv:
  assumes inv: "body_inv p F ex s" and b: "b < length (bs_streams s)" and locked: "st_locked (bs_streams s ! b)"
  shows "body_inv p F ex (snd (advance b s))"
proof -
  define t where "t = bs_streams s ! b"
  have t_ok: "stream_ok s t" using body_inv_stream [OF inv b] by (simp add: t_def)
  have "body_inv p F ex (put_stream b (t\<lparr>st_pos := Suc (st_pos t)\<rparr>) s)"
    if "st_pos t < length (src_log (bs_sources s ! st_source t))"
  proof (rule put_stream_inv [OF inv b t_def])
    fix j assume "j < length (bs_responses s)" "\<not> rs_bodyUsed (bs_responses s ! j)"
      "rs_bodySource (bs_responses s ! j) = Some b"
    with body_inv_response [OF inv, of j] locked
    show "st_pos (t\<lparr>st_pos := Suc (st_pos t)\<rparr>) = 0 \<and> \<not> st_locked (t\<lparr>st_pos := Suc (st_pos t)\<rparr>)"
      by (simp add: response_ok_def)
  qed (use that in simp_all)
  then show ?thesis
    using inv by (auto simp: advance_def Let_def t_def peek_stream_def split: source_end.splits if_splits)
qed

lemma read_stream_inv:
  assumes inv: "body_inv p F ex s" and b: "b < length (bs_streams s)" and locked: "st_locked (bs_streams s ! b)"
  shows "body_inv p F ex (snd (read_stream b s))"
proof -
  have t_ok: "stream_ok s (bs_streams s ! b)" by (rule body_inv_stream [OF inv b])
  show ?thesis
  proof (cases "peek_stream b s = None")
    case True
    with t_ok have "body_inv p F ex (pull_source (st_source (bs_streams s ! b)) s)"
      using pull_source_inv [OF inv] peek_pull(1) [OF True] by (simp add: stream_ok_def)
    from advance_inv [OF this, of b] b locked True show ?thesis by (simp add: read_stream_def)
  next
    case False
    have "read_stream b s = advance b s" unfolding read_stream_def using False by (rule if_not_P)
    with advance_inv [OF assms] show ?thesis by simp
  qed
qed

lemma start_wrapper_fields:
  assumes "w < length (bs_wrappers s)"
  shows "length (bs_wrappers (start_wrapper w s)) = length (bs_wrappers s)"
    "length (bs_streams (start_wrapper w s)) = length (bs_streams s)"
    "length (bs_responses (start_wrapper w s)) = length (bs_responses s)"
    "wr_stream (bs_wrappers (start_wrapper w s) ! w) = wr_stream (bs_wrappers s ! w)"
    "wr_cancelled (bs_wrappers (start_wrapper w s) ! w) = wr_cancelled (bs_wrappers s ! w)"
    "wr_started (bs_wrappers (start_wrapper w s) ! w) \<or> wr_cancelled (bs_wrappers s ! w)"
  using assms by (auto simp: start_wrapper_def Let_def mark_used_def)

lemma read_wrapper_inv:
  assumes inv: "body_inv p F ex s" and w: "w < length (bs_wrappers s)"
  shows "body_inv p F ex (snd (read_wrapper w s))"
proof -
  define s1 where "s1 = start_wrapper w s"
  have inv1: "body_inv p F ex s1" using start_wrapper_inv [OF assms] by (simp add: s1_def)
  have w1: "w < length (bs_wrappers s1)" using w start_wrapper_fields(1) [OF w] by (simp add: s1_def)
  show ?thesis
  proof (cases "wr_cancelled (bs_wrappers s1 ! w) \<or> wr_failed (bs_wrappers s1 ! w) \<noteq> None")
    case True
    with inv1 show ?thesis by (auto simp: read_wrapper_def Let_def s1_def)
  next
    case False
    then have "wr_started (bs_wrappers s1 ! w)"
      using start_wrapper_fields(5,6) [OF w] by (auto simp: s1_def)
    with body_inv_wrapper [OF inv1 w1] False have
      "wr_stream (bs_wrappers s1 ! w) < length (bs_streams s1)"
      "st_locked (bs_streams s1 ! wr_stream (bs_wrappers s1 ! w))"
      by (simp_all add: wrapper_ok_def)
    from read_stream_inv [OF inv1 this] False show ?thesis
      by (simp add: read_wrapper_def Let_def s1_def)
  qed
qed

lemma cancel_stream_fields [simp]:
  "bs_wrappers (cancel_stream b s) = bs_wrappers s" "bs_responses (cancel_stream b s) = bs_responses s"
  "bs_streams (cancel_stream b s) = (bs_streams s)[b := (bs_streams s ! b)\<lparr>st_cancelled := True\<rparr>]"
  by (auto simp: cancel_stream_def Let_def split: option.splits)

lemma cancel_stream_wrapper:
  "cancel_stream b (put_wrapper w v s) = put_wrapper w v (cancel_stream b s)"
  by (simp add: cancel_stream_def Let_def put_wrapper_def put_stream_def put_source_def releaseNativeBody_def
      split: option.split)

lemma cancel_wrapper_inv:
  assumes inv: "body_inv p F ex s" and w: "w < length (bs_wrappers s)"
  shows "body_inv p F ex (cancel_wrapper w s)"
proof -
  define v where "v = bs_wrappers s ! w"
  define t where "t = bs_streams s ! wr_stream v"
  have v_ok: "wrapper_ok s v" using body_inv_wrapper [OF assms] by (simp add: v_def)
  show ?thesis
  proof (cases "wr_cancelled v \<or> wr_failed v \<noteq> None")
    case True
    with inv show ?thesis by (auto simp: cancel_wrapper_def Let_def v_def)
  next
    case False
    show ?thesis
    proof (cases "\<not> wr_started v \<and> st_locked t")
      case True
      have "rs_bodyUsed (bs_responses s ! wr_owner v)" if "\<not> st_teed t"
        using that True v_ok body_inv_response [OF inv, of "wr_owner v"]
        by (auto simp: wrapper_ok_def response_ok_def t_def)
      with v_ok True have "wrapper_ok s (v\<lparr>wr_cancelled := True\<rparr>)" by (auto simp: wrapper_ok_def t_def)
      from put_wrapper_inv [OF inv w this] True False show ?thesis
        by (simp add: cancel_wrapper_def Let_def v_def t_def)
    next
      case live: False
      have b: "wr_stream v < length (bs_streams s)" using v_ok by (simp add: wrapper_ok_def)
      have inv1: "body_inv p F ex (cancel_stream (wr_stream v) s)" by (rule cancel_stream_inv [OF inv b])
      have "wrapper_ok (cancel_stream (wr_stream v) s) (v\<lparr>wr_cancelled := True\<rparr>)"
        using v_ok b by (simp add: wrapper_ok_def)
      from put_wrapper_inv [OF inv1 _ this] w have
        "body_inv p F ex (put_wrapper w (v\<lparr>wr_cancelled := True\<rparr>) (cancel_stream (wr_stream v) s))"
        by (simp add: v_def)
      with False live show ?thesis
        by (auto simp: cancel_wrapper_def Let_def v_def t_def cancel_stream_wrapper)
    qed
  qed
qed

section \<open>\<open>clone\<close>\<close>

lemma append_response_inv:
  assumes inv: "body_inv p F ex s" and r: "response_ok p F ex s r" "\<not> rs_nativeHandleAvailable r"
    and fresh: "\<And>j b. j < length (bs_responses s) \<Longrightarrow> rs_bodySource r = Some b \<Longrightarrow>
      rs_bodySource (bs_responses s ! j) \<noteq> Some b"
  shows "body_inv p F ex (s\<lparr>bs_responses := bs_responses s @ [r]\<rparr>)" (is "body_inv p F ex ?s'")
proof (rule body_invI)
  show "source_ok p F ex ?s' k" if "k < length (bs_sources ?s')" for k
    using body_inv_source [OF inv, of k] that by (simp add: source_ok_def)
  show "stream_ok ?s' (bs_streams ?s' ! c)" if "c < length (bs_streams ?s')" for c
    using body_inv_stream [OF inv, of c] that by (simp add: stream_ok_def)
  show "wrapper_ok ?s' (bs_wrappers ?s' ! u)" if "u < length (bs_wrappers ?s')" for u
    using body_inv_wrapper [OF inv, of u] that by (auto simp: wrapper_ok_def nth_append)
  show "response_ok p F ex ?s' (bs_responses ?s' ! j)" if "j < length (bs_responses ?s')" for j
    using body_inv_response [OF inv, of j] that r
    by (cases "j < length (bs_responses s)") (simp_all add: response_ok_def nth_append less_Suc_eq)
  show "unique_ok ?s'"
    using inv r(2) fresh unfolding body_inv_def unique_ok_def
    by (auto simp: nth_append less_Suc_eq)
qed

lemma tee_inv:
  assumes inv: "body_inv p F ex s" and i: "i < length (bs_responses s)"
    and r: "r = bs_responses s ! i" "rs_bodySource r = Some b" "\<not> rs_bodyUsed r"
    and t: "t = bs_streams s ! b" and n: "n = length (bs_streams s)"
    and s': "s' = put_response i (r\<lparr>rs_bodySource := Some n, rs_bodyStream := None\<rparr>)
      (s\<lparr>bs_streams := (bs_streams s)[b := t\<lparr>st_locked := True, st_teed := True\<rparr>] @
        [t\<lparr>st_locked := False\<rparr>, t\<lparr>st_locked := False\<rparr>]\<rparr>)"
  shows "body_inv p F ex s'"
proof (rule body_invI)
  have ri: "response_ok p F ex s r" using body_inv_response [OF inv i] r by simp
  with r have b: "b < length (bs_streams s)" "\<not> st_teed t" "st_pos t = 0" "\<not> st_locked t"
    "\<not> rs_nativeHandleAvailable r"
    by (auto simp: response_ok_def t)
  have t_ok: "stream_ok s t" using body_inv_stream [OF inv b(1)] by (simp add: t)
  have same: "bs_sources s' = bs_sources s" "bs_wrappers s' = bs_wrappers s" "bs_native s' = bs_native s"
    by (simp_all add: s')
  have str: "bs_streams s' = (bs_streams s)[b := t\<lparr>st_locked := True, st_teed := True\<rparr>] @
        [t\<lparr>st_locked := False\<rparr>, t\<lparr>st_locked := False\<rparr>]" by (simp add: s')
  have rs: "bs_responses s' = (bs_responses s)[i := r\<lparr>rs_bodySource := Some n, rs_bodyStream := None\<rparr>]"
    by (simp add: s')
  have more: "c < n \<Longrightarrow> c < length (bs_streams s')" for c by (simp add: str n)
  have rlen: "length (bs_responses s') = length (bs_responses s)" by (simp add: rs)
  have other: "j \<noteq> i \<Longrightarrow> bs_responses s' ! j = bs_responses s ! j" for j by (simp add: rs)
  have used: "rs_bodyUsed (bs_responses s' ! j) = rs_bodyUsed (bs_responses s ! j)" for j
    using i r by (simp add: rs nth_list_update)
  have old: "c < n \<Longrightarrow> bs_streams s' ! c =
      (if c = b then t\<lparr>st_locked := True, st_teed := True\<rparr> else bs_streams s ! c)" for c
    by (simp add: str n nth_append)
  have new: "bs_streams s' ! n = t\<lparr>st_locked := False\<rparr>" "bs_streams s' ! Suc n = t\<lparr>st_locked := False\<rparr>"
    by (simp_all add: str n nth_append)
  show "source_ok p F ex s' k" if "k < length (bs_sources s')" for k
  proof -
    have "abandoned (bs_streams s') k" if "abandoned (bs_streams s) k"
    proof -
      have "t \<in> set (bs_streams s)" using b(1) t by simp
      with that b(2) have "st_source t = k \<longrightarrow> st_cancelled t" by (auto simp: abandoned_def list_all_iff)
      with that show ?thesis
        by (auto simp: abandoned_def str list_all_iff dest!: subsetD [OF set_update_subset_insert])
    qed
    with body_inv_source [OF inv, of k] \<open>k < length (bs_sources s')\<close> show ?thesis
      by (auto simp: source_ok_def same intro: source_fits_mono)
  qed
  show "stream_ok s' (bs_streams s' ! c)" if "c < length (bs_streams s')" for c
  proof -
    from that consider "c < n" | "c = n" | "c = Suc n" unfolding str n by (simp add: less_Suc_eq) blast
    then show ?thesis
      using body_inv_stream [OF inv, of c] t_ok b
      by cases (auto simp: stream_ok_def same old new n [symmetric])
  qed
  show "wrapper_ok s' (bs_wrappers s' ! u)" if "u < length (bs_wrappers s')" for u
  proof -
    define v where "v = bs_wrappers s ! u"
    have v: "wrapper_ok s v" using body_inv_wrapper [OF inv, of u] that by (simp add: v_def same)
    then have len: "wr_stream v < n" by (simp add: wrapper_ok_def n)
    have "wrapper_ok s' v"
    proof (cases "wr_stream v = b")
      case True
      with v len more show ?thesis by (simp add: wrapper_ok_def old rlen)
    next
      case False
      then have "wr_owner v = i \<Longrightarrow> st_teed (bs_streams s ! wr_stream v)"
        using v r by (auto simp: wrapper_ok_def)
      with v False len show ?thesis
        by (cases "wr_owner v = i") (auto simp: wrapper_ok_def old more rlen other used)
    qed
    then show ?thesis by (simp add: v_def same)
  qed
  show "response_ok p F ex s' (bs_responses s' ! j)" if "j < length (bs_responses s')" for j
  proof (cases "j = i")
    case True
    have "n < length (bs_streams s')" by (simp add: str n)
    with True ri r b i new show ?thesis by (auto simp: response_ok_def rs same)
  next
    case False
    with that have j: "j < length (bs_responses s)" "bs_responses s' ! j = bs_responses s ! j"
      by (simp_all add: rs)
    have "rs_bodySource (bs_responses s ! j) \<noteq> Some b"
      using unique_source [OF inv j(1) i] False r by auto
    then have "rs_bodySource (bs_responses s ! j) = Some c \<Longrightarrow> c < n \<Longrightarrow> bs_streams s' ! c = bs_streams s ! c" for c
      by (auto simp: old)
    with body_inv_response [OF inv j(1)] more show ?thesis
      by (auto simp: response_ok_def j(2) same n [symmetric])
  qed
  have fresh: "rs_bodySource (bs_responses s ! j) \<noteq> Some n" if "j < length (bs_responses s)" for j
    using body_inv_response [OF inv that] by (auto simp: response_ok_def n)
  show "unique_ok s'"
    unfolding unique_ok_def
  proof (intro conjI allI impI)
    fix j k c
    assume "j < length (bs_responses s')" "k < length (bs_responses s')"
      "rs_bodySource (bs_responses s' ! j) = Some c" "rs_bodySource (bs_responses s' ! k) = Some c"
    with i fresh unique_source [OF inv] show "j = k"
      by (cases "j = i"; cases "k = i") (auto simp: rs)
  next
    fix j k
    assume "j < length (bs_responses s')" "k < length (bs_responses s')"
      "rs_nativeHandleAvailable (bs_responses s' ! j)" "rs_nativeHandleAvailable (bs_responses s' ! k)"
    with i b(5) unique_native [OF inv] show "j = k"
      by (cases "j = i"; cases "k = i") (auto simp: rs)
  next
    fix k l
    assume "k < length (bs_sources s')" "l < length (bs_sources s')"
      "src_handle (bs_sources s' ! k) \<noteq> None" "src_handle (bs_sources s' ! l) \<noteq> None"
    with unique_handle [OF inv] show "k = l" by (simp add: same)
  qed
qed

end
