(* ===== verification/ResponseProperties.thy ===== *)
theory ResponseProperties
  imports ResponseInvariants
begin

text \<open>
  Every step keeps the invariant; what \<open>consumeBody\<close> returns follows from it: the whole body, on every
  path and for every clone. The last section has the two flaws the model shows: a body that expired in
  the addon is read as an empty one, and looking at \<open>response.body\<close> uses the response up.
\<close>

section \<open>The remaining steps\<close>

lemma native_source_done:
  assumes "body_inv p F ex s" "i < length (bs_responses s)"
  shows "\<not> rs_nativeHandleAvailable (bs_responses (native_source i s) ! i)"
  using body_inv_response [OF assms] assms(2)
  by (auto simp: native_source_def Let_def createNativeBodyStream_def add_source_def response_ok_def
      split: option.split)

lemma native_source_used [simp]:
  "i < length (bs_responses s) \<Longrightarrow>
     rs_bodyUsed (bs_responses (native_source i s) ! j) = rs_bodyUsed (bs_responses s ! j)"
  by (auto simp: native_source_def Let_def createNativeBodyStream_def add_source_def nth_list_update
      split: option.split)

lemma clone_inv:
  assumes inv: "body_inv p F ex s" and i: "i < length (bs_responses s)"
  shows "body_inv p F ex (snd (clone i s))"
proof (cases "rs_bodyUsed (bs_responses s ! i)")
  case True
  with inv show ?thesis by (simp add: clone_def)
next
  case unused: False
  define s1 where "s1 = native_source i s"
  define r where "r = bs_responses s1 ! i"
  have inv1: "body_inv p F ex s1" using native_source_inv [OF assms] by (simp add: s1_def)
  have i1: "i < length (bs_responses s1)" using i by (simp add: s1_def)
  have ri: "response_ok p F ex s1 r" using body_inv_response [OF inv1 i1] by (simp add: r_def)
  have nr: "\<not> rs_bodyUsed r" "\<not> rs_nativeHandleAvailable r"
    using unused i native_source_done [OF assms] by (simp_all add: r_def s1_def)
  show ?thesis
  proof (cases "rs_bodySource r")
    case None
    have "response_ok p F ex s1 (Response_new p (rs_requestUrl r) (Some None))"
      using ri None nr by (auto simp: response_ok_def Response_new_def)
    from append_response_inv [OF inv1 this] show ?thesis
      using unused None ri
      by (simp add: clone_def Let_def s1_def [symmetric] r_def [symmetric] Response_new_def response_ok_def)
  next
    case (Some b)
    define t where "t = bs_streams s1 ! b"
    define n where "n = length (bs_streams s1)"
    define s2 where "s2 = put_response i (r\<lparr>rs_bodySource := Some n, rs_bodyStream := None\<rparr>)
      (s1\<lparr>bs_streams := (bs_streams s1)[b := t\<lparr>st_locked := True, st_teed := True\<rparr>] @
        [t\<lparr>st_locked := False\<rparr>, t\<lparr>st_locked := False\<rparr>]\<rparr>)"
    have inv2: "body_inv p F ex s2"
      by (rule tee_inv [OF inv1 i1 r_def Some nr(1) t_def n_def s2_def])
    have t: "b < n" "\<not> st_teed t" "st_pos t = 0" "\<not> st_locked t"
      using ri Some nr by (simp_all add: response_ok_def t_def n_def)
    let ?c = "Response_new p (rs_requestUrl r) (Some (Some (Suc n)))"
    have second: "bs_streams s2 ! Suc n = t\<lparr>st_locked := False\<rparr>" "Suc n < length (bs_streams s2)"
      by (simp_all add: s2_def n_def nth_append)
    have c: "response_ok p F ex s2 ?c"
      using ri t second by (auto simp: response_ok_def Response_new_def)
    have fresh: "rs_bodySource (bs_responses s2 ! j) \<noteq> Some (Suc n)" if j: "j < length (bs_responses s2)" for j
    proof (cases "j = i")
      case True
      with i1 show ?thesis by (simp add: s2_def)
    next
      case False
      with j body_inv_response [OF inv1, of j] show ?thesis
        by (auto simp: s2_def response_ok_def n_def)
    qed
    have "body_inv p F ex (s2\<lparr>bs_responses := bs_responses s2 @ [?c]\<rparr>)"
    proof (rule append_response_inv [OF inv2 c])
      show "\<not> rs_nativeHandleAvailable ?c" by (simp add: Response_new_def)
      show "rs_bodySource (bs_responses s2 ! j) \<noteq> Some d"
        if "j < length (bs_responses s2)" "rs_bodySource ?c = Some d" for j d
        using fresh [OF that(1)] that(2) by (simp add: Response_new_def)
    qed
    moreover have "rs_payload r = p" using ri by (simp add: response_ok_def)
    moreover have "snd (clone i s) =
        s2\<lparr>bs_responses := bs_responses s2 @ [Response_new (rs_payload r) (rs_requestUrl r) (Some (Some (Suc n)))]\<rparr>"
      unfolding s2_def using unused Some t(4)
      by (simp add: clone_def Let_def s1_def [symmetric] r_def [symmetric] tee_stream_def t_def [symmetric]
          n_def [symmetric])
    ultimately show ?thesis by simp
  qed
qed

text \<open>The addon's handle gives its body away at once.\<close>

lemma native_gone_inv:
  assumes inv: "body_inv p F ex s" and i: "i < length (bs_responses s)"
    and r: "r = bs_responses s ! i" "rs_nativeHandleAvailable r" "rs_bodyUsed r"
    and s': "s' = (put_response i (r\<lparr>rs_nativeHandleAvailable := False\<rparr>) s)\<lparr>bs_native := n, bs_released := l, bs_registry := g\<rparr>"
  shows "body_inv p F ex s'"
proof -
  have ri: "response_ok p F ex s r" using body_inv_response [OF inv i] r by simp
  define s1 where "s1 = put_response i (r\<lparr>rs_nativeHandleAvailable := False\<rparr>) s"
  have inv1: "body_inv p F ex s1"
    unfolding s1_def
    by (rule put_response_inv [OF inv i r(1)]) (use ri r in \<open>auto simp: response_ok_def\<close>)
  have none: "\<not> rs_nativeHandleAvailable (bs_responses s1 ! j)" if "j < length (bs_responses s1)" for j
    using unique_native [OF inv _ i, of j] that r i by (cases "j = i") (auto simp: s1_def)
  have plain: "src_handle (bs_sources s1 ! k) = None" if "k < length (bs_sources s1)" for k
    using ri r that by (simp add: response_ok_def s1_def)
  show ?thesis
  proof (rule body_invI)
    show "source_ok p F ex s' k" if "k < length (bs_sources s')" for k
      using body_inv_source [OF inv1, of k] plain [of k] that
      by (simp add: source_ok_def source_fits_def s' s1_def)
    show "stream_ok s' (bs_streams s' ! c)" if "c < length (bs_streams s')" for c
      using body_inv_stream [OF inv1, of c] that by (simp add: stream_ok_def s' s1_def)
    show "wrapper_ok s' (bs_wrappers s' ! u)" if "u < length (bs_wrappers s')" for u
      using body_inv_wrapper [OF inv1, of u] that by (simp add: wrapper_ok_def s' s1_def)
    show "response_ok p F ex s' (bs_responses s' ! j)" if "j < length (bs_responses s')" for j
      using body_inv_response [OF inv1, of j] none [of j] that by (simp add: response_ok_def s' s1_def)
    show "unique_ok s'" using inv1 by (simp add: body_inv_def unique_ok_def s' s1_def)
  qed
qed

lemma expire_inv:
  assumes inv: "body_inv p F True s"
  shows "body_inv p F True (s\<lparr>bs_native := cancelBody h (bs_native s)\<rparr>)" (is "body_inv p F True ?s'")
proof (rule body_invI)
  have keep: "handle_state True (bs_native s) g rest \<Longrightarrow> handle_state True (cancelBody h (bs_native s)) g rest"
    for g rest by (auto simp: handle_state_def cancelBody_def)
  show "source_ok p F True ?s' k" if "k < length (bs_sources ?s')" for k
    using body_inv_source [OF inv, of k] that
    by (auto simp: source_ok_def source_fits_def split: option.splits source_end.splits intro: keep)
  show "stream_ok ?s' (bs_streams ?s' ! c)" if "c < length (bs_streams ?s')" for c
    using body_inv_stream [OF inv, of c] that by (simp add: stream_ok_def)
  show "wrapper_ok ?s' (bs_wrappers ?s' ! u)" if "u < length (bs_wrappers ?s')" for u
    using body_inv_wrapper [OF inv, of u] that by (simp add: wrapper_ok_def)
  show "response_ok p F True ?s' (bs_responses ?s' ! j)" if "j < length (bs_responses ?s')" for j
    using body_inv_response [OF inv, of j] that by (auto simp: response_ok_def intro: keep)
  show "unique_ok ?s'" using inv by (simp add: body_inv_def unique_ok_def)
qed

section \<open>What \<open>body\<close> gives\<close>

definition fresh_wrapper :: "nat \<Rightarrow> nat \<Rightarrow> wrapper" where
  "fresh_wrapper b i = \<lparr>wr_owner = i, wr_stream = b, wr_started = False, wr_failed = None,
     wr_cancelled = False, wr_locked = False\<rparr>"

lemma native_source_cases:
  assumes "body_inv p F ex s" "i < length (bs_responses s)"
  shows "native_source i s = s \<and> \<not> rs_nativeHandleAvailable (bs_responses s ! i) \<or>
    rs_bodySource (bs_responses (native_source i s) ! i) = Some (length (bs_streams s)) \<and>
    bs_streams (native_source i s) = bs_streams s @ [new_stream (length (bs_sources s)) 0] \<and>
    bs_wrappers (native_source i s) = bs_wrappers s \<and>
    rs_bodyStream (bs_responses (native_source i s) ! i) = rs_bodyStream (bs_responses s ! i)"
  using body_inv_response [OF assms] assms(2)
  by (auto simp: native_source_def Let_def createNativeBodyStream_def add_source_def response_ok_def
      split: option.split)

lemma inline_source_cases:
  assumes "i < length (bs_responses s)"
  shows "inline_source i s = s \<and>
      (rs_inlineBody (bs_responses s ! i) = None \<or> rs_bodySource (bs_responses s ! i) \<noteq> None) \<or>
    rs_bodySource (bs_responses s ! i) = None \<and>
    rs_bodySource (bs_responses (inline_source i s) ! i) = Some (length (bs_streams s)) \<and>
    bs_streams (inline_source i s) = bs_streams s @ [new_stream (length (bs_sources s)) 0] \<and>
    bs_wrappers (inline_source i s) = bs_wrappers s \<and>
    rs_bodyStream (bs_responses (inline_source i s) ! i) = rs_bodyStream (bs_responses s ! i)"
  using assms
  by (auto simp: inline_source_def Let_def inline_stream_def add_source_def split: option.split)

lemma get_body_cases:
  assumes inv: "body_inv p F ex s" and i: "i < length (bs_responses s)"
  obtains (null) s2 where "get_body i s = (None, s2)" "rs_inlineBody (bs_responses s ! i) = None"
      "rs_bodySource (bs_responses s ! i) = None" "\<not> rs_nativeHandleAvailable (bs_responses s ! i)"
  | (stream) w b s2 where "get_body i s = (Some w, s2)" "w < length (bs_wrappers s2)"
      "wr_stream (bs_wrappers s2 ! w) = b" "b < length (bs_streams s2)"
      "rs_bodySource (bs_responses s ! i) = Some b \<and> bs_streams s2 ! b = bs_streams s ! b \<or>
       rs_bodySource (bs_responses s ! i) = None \<and> (\<exists>k. bs_streams s2 ! b = new_stream k 0)"
      "rs_bodyStream (bs_responses s ! i) = Some w \<and> bs_wrappers s2 ! w = bs_wrappers s ! w \<or>
       bs_wrappers s2 ! w = fresh_wrapper b i"
      "\<not> st_teed (bs_streams s2 ! b)"
proof -
  define s1 where "s1 = inline_source i s"
  define s2 where "s2 = (if rs_bodySource (bs_responses s1 ! i) = None then native_source i s1 else s1)"
  have inv1: "body_inv p F ex s1" using inline_source_inv [OF assms] by (simp add: s1_def)
  have i1: "i < length (bs_responses s1)" using i by (simp add: s1_def)
  have inv2: "body_inv p F ex s2" using native_source_inv [OF inv1 i1] inv1 by (simp add: s2_def)
  have i2: "i < length (bs_responses s2)" using i1 by (simp add: s2_def)
  have ri: "response_ok p F ex s (bs_responses s ! i)" by (rule body_inv_response [OF assms])
  have ri2: "response_ok p F ex s2 (bs_responses s2 ! i)" by (rule body_inv_response [OF inv2 i2])
  from inline_source_cases [OF i] native_source_cases [OF inv1 i1]
  have src: "(rs_bodySource (bs_responses s2 ! i) = rs_bodySource (bs_responses s ! i) \<and> s2 = s \<and>
        (rs_bodySource (bs_responses s ! i) \<noteq> None \<or>
         rs_inlineBody (bs_responses s ! i) = None \<and> \<not> rs_nativeHandleAvailable (bs_responses s ! i))) \<or>
      (rs_bodySource (bs_responses s ! i) = None \<and>
        (\<exists>b k. rs_bodySource (bs_responses s2 ! i) = Some b \<and> bs_streams s2 ! b = new_stream k 0 \<and>
          bs_wrappers s2 = bs_wrappers s \<and>
          rs_bodyStream (bs_responses s2 ! i) = rs_bodyStream (bs_responses s ! i)))"
    unfolding s2_def s1_def [symmetric] by (auto simp: s1_def)
  show ?thesis
  proof (cases "rs_bodySource (bs_responses s2 ! i)")
    case None
    with src have "s2 = s" "rs_bodySource (bs_responses s ! i) = None"
      "rs_inlineBody (bs_responses s ! i) = None" "\<not> rs_nativeHandleAvailable (bs_responses s ! i)" by auto
    moreover have "fst (get_body i s) = None"
      using None unfolding get_body_def s1_def [symmetric] by (simp add: Let_def s2_def [symmetric])
    ultimately show ?thesis by (metis null prod.collapse)
  next
    case (Some b)
    have not_null: "\<not> (rs_inlineBody (bs_responses s1 ! i) = None \<and>
        nr_bodyHandle (rs_payload (bs_responses s1 ! i)) = None \<and> rs_bodySource (bs_responses s1 ! i) = None)"
      using Some by (auto simp: s2_def native_source_def split: if_splits)
    have b: "b < length (bs_streams s2)" "\<not> st_teed (bs_streams s2 ! b)"
      using ri2 Some by (auto simp: response_ok_def)
    have from_s: "rs_bodySource (bs_responses s ! i) = Some b \<and> bs_streams s2 ! b = bs_streams s ! b \<or>
       rs_bodySource (bs_responses s ! i) = None \<and> (\<exists>k. bs_streams s2 ! b = new_stream k 0)"
      using src Some by auto
    have same: "rs_bodyStream (bs_responses s2 ! i) = rs_bodyStream (bs_responses s ! i)"
      "bs_wrappers s2 = bs_wrappers s" using src by auto
    show ?thesis
    proof (cases "rs_bodyStream (bs_responses s2 ! i)")
      case (Some w)
      have "get_body i s = (Some w, s2)"
        using not_null Some \<open>rs_bodySource (bs_responses s2 ! i) = Some b\<close>
        unfolding get_body_def s1_def [symmetric] by (auto simp: Let_def s2_def [symmetric])
      moreover have "w < length (bs_wrappers s2)" "wr_stream (bs_wrappers s2 ! w) = b"
        using ri2 Some \<open>rs_bodySource (bs_responses s2 ! i) = Some b\<close> by (auto simp: response_ok_def)
      ultimately show ?thesis using stream [of w s2 b] b from_s same Some by auto
    next
      case None
      define s3 where "s3 = put_response i ((bs_responses s2 ! i)\<lparr>rs_bodyStream := Some (length (bs_wrappers s2))\<rparr>)
        (s2\<lparr>bs_wrappers := bs_wrappers s2 @ [fresh_wrapper b i]\<rparr>)"
      have "get_body i s = (Some (length (bs_wrappers s2)), s3)"
        using not_null None Some unfolding get_body_def s1_def [symmetric] s3_def
        by (auto simp: Let_def s2_def [symmetric] wrapBodyStream_def fresh_wrapper_def)
      then show ?thesis
        by (rule stream [of _ _ b]) (use b from_s in \<open>simp_all add: s3_def fresh_wrapper_def\<close>)
    qed
  qed
qed

section \<open>Reading to the end\<close>

definition outcome_from :: "body \<Rightarrow> nat list \<Rightarrow> nat \<Rightarrow> nat list res" where
  "outcome_from F acc pos = (case snd F of
      None \<Rightarrow> Inr (acc @ concat (drop pos (fst F)))
    | Some e \<Rightarrow> Inl e)"

lemma outcome_from_step:
  "pos < length (fst F) \<Longrightarrow> outcome_from F (acc @ fst F ! pos) (Suc pos) = outcome_from F acc pos"
  by (simp add: outcome_from_def Cons_nth_drop_Suc [symmetric] split: option.split)

text \<open>What reading the body to its end gives.\<close>

definition outcome :: "body \<Rightarrow> nat list res" where
  "outcome F = (case snd F of None \<Rightarrow> Inr (concat (fst F)) | Some e \<Rightarrow> Inl e)"

lemma outcome_from_start: "outcome_from F [] 0 = outcome F"
  by (simp add: outcome_from_def outcome_def split: option.split)

lemma drain_started:
  assumes "body_inv p F ex s" "w < length (bs_wrappers s)" "b = wr_stream (bs_wrappers s ! w)"
    and "wr_started (bs_wrappers s ! w)" "wr_failed (bs_wrappers s ! w) = None" "\<not> wr_cancelled (bs_wrappers s ! w)"
    and "\<not> st_teed (bs_streams s ! b)" "\<not> st_cancelled (bs_streams s ! b)"
  shows "\<exists>r s'. drain w acc s = Some (r, s') \<and>
    (r = outcome_from F acc (st_pos (bs_streams s ! b)) \<or> ex)"
  using assms
proof (induction "length (fst F) - st_pos (bs_streams s ! b)" arbitrary: acc s rule: less_induct)
  case less
  define t where "t = bs_streams s ! b"
  have b: "b < length (bs_streams s)" "st_locked t"
    using body_inv_wrapper [OF less.prems(1,2)] less.prems(3-5) by (simp_all add: wrapper_ok_def t_def)
  have start: "start_wrapper w s = s" using less.prems(4) by (simp add: start_wrapper_def Let_def)
  obtain r s' where rs: "read_stream b s = (r, s')" by fastforce
  have read: "read_wrapper w s = (r, s')"
    using rs less.prems(3,5,6) by (simp add: read_wrapper_def Let_def start)
  from read_stream_delivers [OF less.prems(1) b(1) t_def _ _ rs] less.prems(7,8)
  obtain pos' where d: "delivers F ex (st_pos t) r pos'"
    and s': "bs_streams s' = (bs_streams s)[b := t\<lparr>st_pos := pos'\<rparr>]" "bs_wrappers s' = bs_wrappers s"
    by (auto simp: t_def)
  show ?case
  proof (cases r)
    case (Inl e)
    with read d show ?thesis by (subst drain.simps) (auto simp: delivers_def outcome_from_def)
  next
    case (Inr o1)
    show ?thesis
    proof (cases o1)
      case None
      with Inr read d show ?thesis by (subst drain.simps) (auto simp: delivers_def t_def outcome_from_def)
    next
      case (Some c)
      with Inr d have c: "st_pos t < length (fst F)" "c = fst F ! st_pos t" "pos' = Suc (st_pos t)"
        by (auto simp: delivers_def)
      have inv': "body_inv p F ex s'" using read_stream_inv [OF less.prems(1) b(1)] b(2) rs by (simp add: t_def)
      have t': "bs_streams s' ! b = t\<lparr>st_pos := Suc (st_pos t)\<rparr>" using b(1) s' c(3) by simp
      have "\<exists>r s''. drain w (acc @ c) s' = Some (r, s'') \<and>
          (r = outcome_from F (acc @ c) (st_pos (bs_streams s' ! b)) \<or> ex)"
        by (rule less.hyps) (use c t' less.prems s'(2) inv' in \<open>simp_all add: t_def\<close>)
      moreover have "drain w acc s = drain w (acc @ c) s'"
        using read Inr Some by (subst drain.simps) simp
      moreover have "outcome_from F (acc @ c) (Suc (st_pos t)) = outcome_from F acc (st_pos t)"
        using c outcome_from_step by simp
      ultimately show ?thesis using t' by (simp add: t_def)
    qed
  qed
qed

lemma start_wrapper_idem:
  assumes "w < length (bs_wrappers s)"
  shows "start_wrapper w (start_wrapper w s) = start_wrapper w s"
  using start_wrapper_fields [OF assms] by (subst start_wrapper_def) (auto simp: Let_def)

lemma drain_start:
  "w < length (bs_wrappers s) \<Longrightarrow> drain w acc s = drain w acc (start_wrapper w s)"
  by (subst (1 2) drain.simps) (simp add: read_wrapper_def start_wrapper_idem)

text \<open>
  Draining the wrapper of a stream that has not been split: at once if either is cancelled or the
  wrapper has failed, and to the end of the body otherwise.
\<close>

lemma drain_wrapper:
  assumes inv: "body_inv p F ex s" and w: "w < length (bs_wrappers s)" "b = wr_stream (bs_wrappers s ! w)"
    and b: "b < length (bs_streams s)" "\<not> st_teed (bs_streams s ! b)"
  shows "\<exists>r s'. drain w acc s = Some (r, s') \<and>
    (\<not> wr_cancelled (bs_wrappers s ! w) \<and> \<not> wr_started (bs_wrappers s ! w) \<and>
     \<not> st_locked (bs_streams s ! b) \<and> \<not> st_cancelled (bs_streams s ! b) \<longrightarrow>
     r = outcome_from F acc (st_pos (bs_streams s ! b)) \<or> ex)"
proof -
  define s1 where "s1 = start_wrapper w s"
  have inv1: "body_inv p F ex s1" using start_wrapper_inv [OF inv w(1)] by (simp add: s1_def)
  note fields = start_wrapper_fields [OF w(1), folded s1_def]
  have w1: "w < length (bs_wrappers s1)" "wr_stream (bs_wrappers s1 ! w) = b"
    using fields w by simp_all
  have stream1: "st_pos (bs_streams s1 ! b) = st_pos (bs_streams s ! b) \<and>
      st_teed (bs_streams s1 ! b) = st_teed (bs_streams s ! b) \<and>
      st_cancelled (bs_streams s1 ! b) = st_cancelled (bs_streams s ! b)"
    using b(1) w(2) by (auto simp: s1_def start_wrapper_def Let_def mark_used_def)
  have fail1: "\<not> wr_started (bs_wrappers s ! w) \<Longrightarrow> \<not> wr_cancelled (bs_wrappers s ! w) \<Longrightarrow>
      \<not> st_locked (bs_streams s ! b) \<Longrightarrow> wr_failed (bs_wrappers s1 ! w) = None"
    using w body_inv_wrapper [OF inv w(1)]
    by (auto simp: s1_def start_wrapper_def Let_def mark_used_def wrapper_ok_def)
  have drain: "drain w acc s = drain w acc s1" using drain_start [OF w(1)] by (simp add: s1_def)
  have start: "start_wrapper w s1 = s1" using start_wrapper_idem [OF w(1)] by (simp add: s1_def)
  show ?thesis
  proof (cases "wr_cancelled (bs_wrappers s1 ! w) \<or> wr_failed (bs_wrappers s1 ! w) \<noteq> None")
    case True
    have "\<exists>r. drain w acc s1 = Some (r, s1)"
      using True by (subst drain.simps) (auto simp: read_wrapper_def Let_def start)
    with True fail1 fields drain show ?thesis by auto
  next
    case live: False
    then have started: "wr_started (bs_wrappers s1 ! w)" using fields by auto
    show ?thesis
    proof (cases "st_cancelled (bs_streams s ! b)")
      case True
      then have "read_stream b s1 = (Inr None, s1)"
        using stream1 by (simp add: read_stream_def advance_def peek_stream_def Let_def)
      then have "drain w acc s1 = Some (Inr acc, s1)"
        using live w1 by (subst drain.simps) (simp add: read_wrapper_def Let_def start)
      with True drain show ?thesis by auto
    next
      case False
      from drain_started [OF inv1 w1(1) w1(2) [symmetric] started, of acc] live stream1 b(2) False
      obtain r s' where "drain w acc s1 = Some (r, s')"
        "r = outcome_from F acc (st_pos (bs_streams s1 ! b)) \<or> ex"
        by auto
      with drain stream1 show ?thesis by auto
    qed
  qed
qed

lemma drain_inv:
  assumes "drain w acc s = Some (r, s')" "body_inv p F ex s" "w < length (bs_wrappers s)"
  shows "body_inv p F ex s'"
proof -
  have "body_inv p F ex s \<longrightarrow> w < length (bs_wrappers s) \<longrightarrow> body_inv p F ex (snd (r, s'))"
  proof (rule drain.raw_induct [OF _ assms(1), where P = "\<lambda>w acc s y. body_inv p F ex s \<longrightarrow>
      w < length (bs_wrappers s) \<longrightarrow> body_inv p F ex (snd y)"], intro impI)
    fix dr w acc s y
    assume IH: "\<And>w acc s y. dr w acc s = Some y \<Longrightarrow> body_inv p F ex s \<longrightarrow>
        w < length (bs_wrappers s) \<longrightarrow> body_inv p F ex (snd y)"
      and step: "(case read_wrapper w s of (Inl e, s') \<Rightarrow> Some (Inl e, s') | (Inr None, s') \<Rightarrow> Some (Inr acc, s')
        | (Inr (Some c), s') \<Rightarrow> dr w (acc @ c) s') = Some y"
      and inv: "body_inv p F ex s" and w: "w < length (bs_wrappers s)"
    obtain q s1 where q: "read_wrapper w s = (q, s1)" by fastforce
    have inv1: "body_inv p F ex s1" using read_wrapper_inv [OF inv w] q by simp
    have "length (bs_wrappers (snd (read_wrapper w s))) = length (bs_wrappers s)"
      using start_wrapper_fields(1) [OF w]
      by (auto simp: read_wrapper_def Let_def read_stream_def advance_def split: option.splits sum.splits)
    with q w have w1: "w < length (bs_wrappers s1)" by simp
    from step q inv1 w1 IH [of w _ s1 y] show "body_inv p F ex (snd y)"
      by (auto split: sum.splits option.splits)
  qed
  with assms(2,3) show ?thesis by simp
qed

section \<open>\<open>consumeBody\<close>\<close>

text \<open>A response whose body has not been touched: not used, and no one holds or cancelled its stream.\<close>

definition intact :: "nat \<Rightarrow> body_state \<Rightarrow> bool" where
  "intact i s \<longleftrightarrow> i < length (bs_responses s) \<and> \<not> rs_bodyUsed (bs_responses s ! i) \<and>
     (case rs_bodySource (bs_responses s ! i) of None \<Rightarrow> True | Some b \<Rightarrow> \<not> st_cancelled (bs_streams s ! b)) \<and>
     (case rs_bodyStream (bs_responses s ! i) of None \<Rightarrow> True | Some w \<Rightarrow> \<not> wr_locked (bs_wrappers s ! w))"

definition plain_errors :: "body \<Rightarrow> bool" where
  "plain_errors F \<longleftrightarrow> (case snd F of None \<Rightarrow> True | Some e \<Rightarrow> \<not> missing_handle e)"

lemma mark_used_fields [simp]:
  "bs_streams (mark_used i s) = bs_streams s" "bs_wrappers (mark_used i s) = bs_wrappers s"
  "bs_native (mark_used i s) = bs_native s" "bs_sources (mark_used i s) = bs_sources s"
  "rs_bodySource (bs_responses (mark_used i s) ! j) = rs_bodySource (bs_responses s ! j)"
  "rs_bodyStream (bs_responses (mark_used i s) ! j) = rs_bodyStream (bs_responses s ! j)"
  "rs_inlineBody (bs_responses (mark_used i s) ! j) = rs_inlineBody (bs_responses s ! j)"
  "rs_payload (bs_responses (mark_used i s) ! j) = rs_payload (bs_responses s ! j)"
  "rs_nativeHandleAvailable (bs_responses (mark_used i s) ! j) = rs_nativeHandleAvailable (bs_responses s ! j)"
  "i < length (bs_responses s) \<Longrightarrow> rs_bodyUsed (bs_responses (mark_used i s) ! i)"
proof -
  show "bs_streams (mark_used i s) = bs_streams s" "bs_wrappers (mark_used i s) = bs_wrappers s"
    "bs_native (mark_used i s) = bs_native s" "bs_sources (mark_used i s) = bs_sources s"
    "i < length (bs_responses s) \<Longrightarrow> rs_bodyUsed (bs_responses (mark_used i s) ! i)"
    by (simp_all add: mark_used_def)
  have "bs_responses (mark_used i s) ! j = bs_responses s ! j \<or>
      bs_responses (mark_used i s) ! j = (bs_responses s ! j)\<lparr>rs_bodyUsed := True\<rparr>"
    by (cases "i < length (bs_responses s)") (auto simp: mark_used_def nth_list_update list_update_beyond)
  then show "rs_bodySource (bs_responses (mark_used i s) ! j) = rs_bodySource (bs_responses s ! j)"
    "rs_bodyStream (bs_responses (mark_used i s) ! j) = rs_bodyStream (bs_responses s ! j)"
    "rs_inlineBody (bs_responses (mark_used i s) ! j) = rs_inlineBody (bs_responses s ! j)"
    "rs_payload (bs_responses (mark_used i s) ! j) = rs_payload (bs_responses s ! j)"
    "rs_nativeHandleAvailable (bs_responses (mark_used i s) ! j) = rs_nativeHandleAvailable (bs_responses s ! j)"
    by auto
qed

lemma get_reader_fields:
  assumes "get_reader w s = (Inr u, s')" "w < length (bs_wrappers s)"
  shows "bs_streams s' = bs_streams s" "length (bs_wrappers s') = length (bs_wrappers s)"
    "wr_stream (bs_wrappers s' ! w) = wr_stream (bs_wrappers s ! w)"
    "wr_started (bs_wrappers s' ! w) = wr_started (bs_wrappers s ! w)"
    "wr_cancelled (bs_wrappers s' ! w) = wr_cancelled (bs_wrappers s ! w)"
  using assms by (auto simp: get_reader_def Let_def split: if_splits)

text \<open>
  It always ends, with the whole body if the response was intact; the invariant still holds.
\<close>

lemma consumeBody_ends:
  assumes inv: "body_inv p F ex s" and i: "i < length (bs_responses s)"
  shows "\<exists>r s'. consumeBody i s = Some (r, s') \<and> body_inv p F ex s' \<and>
    (intact i s \<and> plain_errors F \<longrightarrow> r = outcome F \<or> ex)"
proof (cases "rs_bodyUsed (bs_responses s ! i)")
  case True
  with inv show ?thesis by (auto simp: consumeBody_def Let_def intact_def)
next
  case unused: False
  define s1 where "s1 = mark_used i s"
  define r1 where "r1 = bs_responses s1 ! i"
  have inv1: "body_inv p F ex s1" using mark_used_inv [OF inv i] by (simp add: s1_def)
  have i1: "i < length (bs_responses s1)" using i by (simp add: s1_def)
  have ri: "response_ok p F ex s (bs_responses s ! i)" by (rule body_inv_response [OF inv i])
  have ri1: "response_ok p F ex s1 r1" using body_inv_response [OF inv1 i1] by (simp add: r1_def)
  show ?thesis
  proof (cases "rs_inlineBody r1")
    case (Some bytes)
    with ri1 have "F = ([bytes], None)" by (auto simp: response_ok_def)
    moreover have "body_inv p F ex (put_response i (r1\<lparr>rs_inlineBody := None\<rparr>) s1)"
      by (rule put_response_inv [OF inv1 i1 r1_def])
        (use ri1 i in \<open>auto simp: response_ok_def r1_def s1_def\<close>)
    ultimately show ?thesis
      using unused Some by (simp add: consumeBody_def Let_def s1_def [symmetric] r1_def [symmetric] outcome_def)
  next
    case no_inline: None
    show ?thesis
    proof (cases "rs_nativeHandleAvailable r1")
      case True
      with ri1 obtain h where h: "nr_bodyHandle (rs_payload r1) = Some h" "handle_state ex (bs_native s1) h F"
        by (auto simp: response_ok_def)
      obtain a n where an: "readBodyAll h (bs_native s1) = (a, n)" by fastforce
      define s3 where "s3 = markNativeBodyReleased h
        ((put_response i (r1\<lparr>rs_nativeHandleAvailable := False\<rparr>) s1)\<lparr>bs_native := n\<rparr>)"
      have eq: "consumeBody i s = Some (case a of Inr bytes \<Rightarrow> Inr bytes
          | Inl e \<Rightarrow> (if missing_handle e then Inr [] else Inl e), s3)"
        using unused no_inline True h an
        by (simp add: consumeBody_def Let_def s1_def [symmetric] r1_def [symmetric] s3_def)
      have "body_inv p F ex ((put_response i (r1\<lparr>rs_nativeHandleAvailable := False\<rparr>) s1)
          \<lparr>bs_native := n, bs_released := l, bs_registry := g\<rparr>)" for l g
        by (rule native_gone_inv [OF inv1 i1 r1_def True _ refl]) (use i in \<open>simp add: r1_def s1_def\<close>)
      moreover have "s3 = (put_response i (r1\<lparr>rs_nativeHandleAvailable := False\<rparr>) s1)
          \<lparr>bs_native := n, bs_released := bs_released s3, bs_registry := bs_registry s3\<rparr>"
        by (simp add: s3_def markNativeBodyReleased_def put_response_def unregister_body_def)
      ultimately have "body_inv p F ex s3" by metis
      moreover have "plain_errors F \<Longrightarrow> (case a of Inr bytes \<Rightarrow> Inr bytes
          | Inl e \<Rightarrow> (if missing_handle e then Inr [] else Inl e)) = outcome F \<or> ex"
        using an h(2) by (cases F; cases "snd F")
          (auto simp: handle_state_def readBodyAll_def outcome_def plain_errors_def)
      ultimately show ?thesis using eq by auto
    next
      case no_native: False
      have slow: "consumeBody i s = (case get_body i s1 of
            (None, s2) \<Rightarrow> Some (Inr [], s2)
          | (Some w, s2) \<Rightarrow>
              (case get_reader w s2 of
                 (Inl e, s3) \<Rightarrow> Some (Inl e, s3)
               | (Inr _, s3) \<Rightarrow> drain w [] s3))"
        using unused no_inline no_native
        by (simp add: consumeBody_def Let_def s1_def [symmetric] r1_def [symmetric])
      from inv1 i1 show ?thesis
      proof (cases rule: get_body_cases)
        case (null s2)
        have "F = ([], None)"
          using ri unused null(2-4) by (simp add: response_ok_def s1_def)
        with null slow get_body_inv [OF inv1 i1] show ?thesis by (simp add: outcome_def)
      next
        case (stream w b s2)
        have inv2: "body_inv p F ex s2" using get_body_inv [OF inv1 i1] stream(1) by simp
        obtain g s3 where g: "get_reader w s2 = (g, s3)" by fastforce
        have inv3: "body_inv p F ex s3" using get_reader_inv [OF inv2 stream(2)] g by simp
        show ?thesis
        proof (cases g)
          case (Inl e)
          then have "wr_locked (bs_wrappers s2 ! w)"
            using g by (simp add: get_reader_def Let_def split: if_splits)
          with stream(6) have "\<not> intact i s"
            by (auto simp: fresh_wrapper_def intact_def s1_def split: option.splits)
          with Inl slow stream(1) g inv3 show ?thesis by simp
        next
          case (Inr u)
          note g = g [unfolded Inr]
          note f = get_reader_fields [OF g stream(2)]
          have w3: "w < length (bs_wrappers s3)" "b = wr_stream (bs_wrappers s3 ! w)"
            "b < length (bs_streams s3)" "\<not> st_teed (bs_streams s3 ! b)"
            using f stream(2-4,7) by simp_all
          from drain_wrapper [OF inv3 w3, of "[]"] obtain r s4 where d: "drain w [] s3 = Some (r, s4)"
            and r: "\<not> wr_cancelled (bs_wrappers s3 ! w) \<and> \<not> wr_started (bs_wrappers s3 ! w) \<and>
              \<not> st_locked (bs_streams s3 ! b) \<and> \<not> st_cancelled (bs_streams s3 ! b) \<longrightarrow>
              r = outcome_from F [] (st_pos (bs_streams s3 ! b)) \<or> ex" by blast
          have inv4: "body_inv p F ex s4" by (rule drain_inv [OF d inv3 w3(1)])
          have "r = outcome F \<or> ex" if "intact i s"
          proof -
            have src: "st_pos (bs_streams s3 ! b) = 0" "\<not> st_locked (bs_streams s3 ! b)"
              "\<not> st_cancelled (bs_streams s3 ! b)"
              using stream(5) that ri unused f(1)
              by (auto simp: s1_def intact_def response_ok_def new_stream_def)
            have "\<not> wr_started (bs_wrappers s3 ! w) \<and> \<not> wr_cancelled (bs_wrappers s3 ! w)"
            proof (cases "bs_wrappers s2 ! w = fresh_wrapper b i")
              case True
              with f show ?thesis by (simp add: fresh_wrapper_def)
            next
              case False
              with stream(6) have old: "rs_bodyStream (bs_responses s ! i) = Some w"
                "bs_wrappers s2 ! w = bs_wrappers s ! w" by (auto simp: s1_def)
              with ri have w: "w < length (bs_wrappers s)"
                "rs_bodySource (bs_responses s ! i) = Some (wr_stream (bs_wrappers s ! w))"
                by (auto simp: response_ok_def)
              with ri unused have base: "\<not> st_teed (bs_streams s ! wr_stream (bs_wrappers s ! w))"
                "\<not> st_locked (bs_streams s ! wr_stream (bs_wrappers s ! w))"
                by (auto simp: response_ok_def)
              have v: "wrapper_ok s (bs_wrappers s ! w)" by (rule body_inv_wrapper [OF inv w(1)])
              with base w(2) unique_source [OF inv i _ w(2), of "wr_owner (bs_wrappers s ! w)"]
              have own: "wr_owner (bs_wrappers s ! w) = i" by (simp add: wrapper_ok_def)
              have "\<not> st_cancelled (bs_streams s ! wr_stream (bs_wrappers s ! w))"
                using that w(2) by (simp add: intact_def)
              with v base own unused old(2) f(4,5) show ?thesis by (auto simp: wrapper_ok_def)
            qed
            with r src show ?thesis by (simp add: outcome_from_start)
          qed
          with slow stream(1) g d inv4 show ?thesis by simp
        qed
      qed
    qed
  qed
qed

section \<open>Reachable states\<close>

lemma body_step_inv:
  assumes "body_step ex s s'" "body_inv p F ex s"
  shows "body_inv p F ex s'"
  using assms
proof cases
  case (step_readable i)
  have "body_inv p F ex (snd (readable i s))"
  proof (cases "rs_bodyUsed (bs_responses s ! i)")
    case True
    with assms(2) show ?thesis by (simp add: readable_def)
  next
    case False
    have inv1: "body_inv p F ex (mark_used i s)" by (rule mark_used_inv [OF assms(2) step_readable(2)])
    have i1: "i < length (bs_responses (mark_used i s))" using step_readable(2) by simp
    obtain w s2 where g: "get_body i (mark_used i s) = (w, s2)" by fastforce
    have inv2: "body_inv p F ex s2" using get_body_inv [OF inv1 i1] g by simp
    show ?thesis
    proof (cases w)
      case None
      with False g inv2 show ?thesis by (simp add: readable_def)
    next
      case (Some k)
      have "k < length (bs_wrappers s2)"
        using inv1 i1 by (cases rule: get_body_cases) (use g Some in auto)
      from get_reader_inv [OF inv2 this] False g Some show ?thesis
        by (auto simp: readable_def split: prod.splits sum.splits)
    qed
  qed
  with step_readable show ?thesis by simp
next
  case (step_consume i r)
  with consumeBody_ends [OF assms(2), of i] show ?thesis by auto
qed (use assms(2) get_body_inv clone_inv start_wrapper_inv get_reader_inv read_wrapper_inv
    cancel_wrapper_inv expire_inv in auto)

text \<open>The payload's handle is one that the addon has.\<close>

definition payload_ok :: "NativeResponse \<Rightarrow> bodies \<Rightarrow> bool" where
  "payload_ok p n \<longleftrightarrow> (nr_bodyBytes p = None \<longrightarrow> (\<forall>h. nr_bodyHandle p = Some h \<longrightarrow> n h \<noteq> None))"

lemma first_response_inv:
  assumes "payload_ok p n"
  shows "body_inv p (body_of_payload p n) ex (first_response p u n)"
  using assms
  by (auto simp: body_inv_def Response_new_def response_ok_def unique_ok_def
      payload_ok_def body_of_payload_def handle_state_def split: option.splits)

lemma reachable_inv:
  assumes "payload_ok p n" "(body_step ex)\<^sup>*\<^sup>* (first_response p u n) s"
  shows "body_inv p (body_of_payload p n) ex s"
  using assms(2)
  by (induction rule: rtranclp_induct) (auto intro: body_step_inv first_response_inv [OF assms(1)])

section \<open>What reading leaves alone\<close>

text \<open>Everything but the stream \<open>b\<close>, the wrapper \<open>w\<close> and the response \<open>i\<close>; what is used stays used.\<close>

definition only_touches :: "nat \<Rightarrow> nat \<Rightarrow> nat \<Rightarrow> body_state \<Rightarrow> body_state \<Rightarrow> bool" where
  "only_touches b w i s s' \<longleftrightarrow>
     (\<forall>c. c \<noteq> b \<longrightarrow> bs_streams s' ! c = bs_streams s ! c) \<and>
     (\<forall>v. v \<noteq> w \<longrightarrow> bs_wrappers s' ! v = bs_wrappers s ! v) \<and>
     (\<forall>j. j \<noteq> i \<longrightarrow> bs_responses s' ! j = bs_responses s ! j) \<and>
     length (bs_responses s') = length (bs_responses s) \<and>
     length (bs_wrappers s') = length (bs_wrappers s) \<and>
     wr_stream (bs_wrappers s' ! w) = wr_stream (bs_wrappers s ! w) \<and>
     wr_owner (bs_wrappers s' ! w) = wr_owner (bs_wrappers s ! w) \<and>
     (rs_bodyUsed (bs_responses s ! i) \<longrightarrow> rs_bodyUsed (bs_responses s' ! i))"

lemma only_touches_refl [simp]: "only_touches b w i s s"
  by (simp add: only_touches_def)

lemma only_touches_trans: "only_touches b w i s s' \<Longrightarrow> only_touches b w i s' s'' \<Longrightarrow> only_touches b w i s s''"
  by (simp add: only_touches_def)

lemma start_wrapper_touches:
  assumes "w < length (bs_wrappers s)"
  shows "only_touches (wr_stream (bs_wrappers s ! w)) w (wr_owner (bs_wrappers s ! w)) s (start_wrapper w s)"
proof -
  define v where "v = bs_wrappers s ! w"
  have "rs_bodyUsed (bs_responses s ! wr_owner v) \<longrightarrow>
      rs_bodyUsed ((bs_responses s)[wr_owner v := (bs_responses s ! wr_owner v)\<lparr>rs_bodyUsed := True\<rparr>] ! wr_owner v)"
    by (cases "wr_owner v < length (bs_responses s)") (simp_all add: list_update_beyond)
  then show ?thesis
    using assms by (simp add: only_touches_def start_wrapper_def Let_def mark_used_def v_def [symmetric])
qed

lemma read_wrapper_touches:
  assumes "w < length (bs_wrappers s)"
  shows "only_touches (wr_stream (bs_wrappers s ! w)) w (wr_owner (bs_wrappers s ! w)) s (snd (read_wrapper w s))"
proof -
  define s1 where "s1 = start_wrapper w s"
  define b where "b = wr_stream (bs_wrappers s ! w)"
  have st: "only_touches b w (wr_owner (bs_wrappers s ! w)) s s1"
    using start_wrapper_touches [OF assms] by (simp add: s1_def b_def)
  then have b1: "wr_stream (bs_wrappers s1 ! w) = b" by (simp add: only_touches_def b_def)
  have adv: "only_touches b w i s2 (snd (advance b s2))" for i s2
    by (auto simp: only_touches_def advance_def Let_def split: option.splits sum.splits)
  have pull: "only_touches b w i s2 (pull_source k s2)" for i k s2
    by (simp add: only_touches_def)
  have "only_touches b w i s2 (snd (read_stream b s2))" for i s2
    by (auto simp: read_stream_def intro: adv only_touches_trans [OF pull adv])
  with st b1 show ?thesis
    by (auto simp: read_wrapper_def Let_def s1_def [symmetric] b_def [symmetric] split: option.split
        intro: only_touches_trans)
qed

lemma drain_touches:
  assumes "drain w acc s = Some (r, s')" "w < length (bs_wrappers s)"
  shows "only_touches (wr_stream (bs_wrappers s ! w)) w (wr_owner (bs_wrappers s ! w)) s s'"
proof -
  have "w < length (bs_wrappers s) \<longrightarrow>
      only_touches (wr_stream (bs_wrappers s ! w)) w (wr_owner (bs_wrappers s ! w)) s (snd (r, s'))"
  proof (rule drain.raw_induct [OF _ assms(1), where P = "\<lambda>w acc s y. w < length (bs_wrappers s) \<longrightarrow>
      only_touches (wr_stream (bs_wrappers s ! w)) w (wr_owner (bs_wrappers s ! w)) s (snd y)"], intro impI)
    fix dr w acc s y
    assume IH: "\<And>w acc s y. dr w acc s = Some y \<Longrightarrow> w < length (bs_wrappers s) \<longrightarrow>
        only_touches (wr_stream (bs_wrappers s ! w)) w (wr_owner (bs_wrappers s ! w)) s (snd y)"
      and step: "(case read_wrapper w s of (Inl e, s') \<Rightarrow> Some (Inl e, s') | (Inr None, s') \<Rightarrow> Some (Inr acc, s')
        | (Inr (Some c), s') \<Rightarrow> dr w (acc @ c) s') = Some y"
      and w: "w < length (bs_wrappers s)"
    obtain q s1 where q: "read_wrapper w s = (q, s1)" by fastforce
    from read_wrapper_touches [OF w] q
    have t: "only_touches (wr_stream (bs_wrappers s ! w)) w (wr_owner (bs_wrappers s ! w)) s s1" by simp
    then have same: "w < length (bs_wrappers s1)" "wr_stream (bs_wrappers s1 ! w) = wr_stream (bs_wrappers s ! w)"
      "wr_owner (bs_wrappers s1 ! w) = wr_owner (bs_wrappers s ! w)"
      using w by (simp_all add: only_touches_def)
    from step q have "s1 = snd y \<or> (\<exists>acc. dr w acc s1 = Some y)"
      by (auto split: sum.splits option.splits)
    then show "only_touches (wr_stream (bs_wrappers s ! w)) w (wr_owner (bs_wrappers s ! w)) s (snd y)"
      using t IH same only_touches_trans by metis
  qed
  with assms(2) show ?thesis by simp
qed

text \<open>Reading a response leaves the others alone.\<close>

lemma get_body_others:
  assumes "i < length (bs_responses s)" "get_body i s = (w, s')"
  shows "\<forall>j. j \<noteq> i \<longrightarrow> bs_responses s' ! j = bs_responses s ! j"
    and "\<forall>c < length (bs_streams s). bs_streams s' ! c = bs_streams s ! c"
    and "\<forall>v < length (bs_wrappers s). bs_wrappers s' ! v = bs_wrappers s ! v"
    and "length (bs_responses s') = length (bs_responses s)"
    and "rs_bodyUsed (bs_responses s' ! i) = rs_bodyUsed (bs_responses s ! i)"
proof -
  have inl: "(\<forall>j. j \<noteq> i \<longrightarrow> bs_responses (inline_source i s) ! j = bs_responses s ! j) \<and>
      (\<forall>c < length (bs_streams s). bs_streams (inline_source i s) ! c = bs_streams s ! c) \<and>
      bs_wrappers (inline_source i s) = bs_wrappers s \<and>
      length (bs_streams s) \<le> length (bs_streams (inline_source i s)) \<and>
      length (bs_responses (inline_source i s)) = length (bs_responses s) \<and>
      rs_bodyUsed (bs_responses (inline_source i s) ! i) = rs_bodyUsed (bs_responses s ! i)"
    if "i < length (bs_responses s)" for s
    using that by (auto simp: inline_source_def Let_def inline_stream_def add_source_def nth_append split: option.split)
  have nat: "(\<forall>j. j \<noteq> i \<longrightarrow> bs_responses (native_source i s) ! j = bs_responses s ! j) \<and>
      (\<forall>c < length (bs_streams s). bs_streams (native_source i s) ! c = bs_streams s ! c) \<and>
      bs_wrappers (native_source i s) = bs_wrappers s \<and>
      length (bs_responses (native_source i s)) = length (bs_responses s) \<and>
      rs_bodyUsed (bs_responses (native_source i s) ! i) = rs_bodyUsed (bs_responses s ! i)"
    if "i < length (bs_responses s)" for s
    using that by (auto simp: native_source_def Let_def createNativeBodyStream_def add_source_def nth_append split: option.split)
  define s1 where "s1 = inline_source i s"
  define s2 where "s2 = (if rs_bodySource (bs_responses s1 ! i) = None then native_source i s1 else s1)"
  have s2: "(\<forall>j. j \<noteq> i \<longrightarrow> bs_responses s2 ! j = bs_responses s ! j) \<and>
      (\<forall>c < length (bs_streams s). bs_streams s2 ! c = bs_streams s ! c) \<and> bs_wrappers s2 = bs_wrappers s \<and>
      length (bs_responses s2) = length (bs_responses s) \<and>
      rs_bodyUsed (bs_responses s2 ! i) = rs_bodyUsed (bs_responses s ! i)"
    using inl [OF assms(1)] nat [of s1] assms(1) by (auto simp: s2_def s1_def)
  have s': "s' = s1 \<and> s2 = s1 \<or> s' = s2 \<or> (\<exists>b. s' = put_response i ((bs_responses s2 ! i)\<lparr>rs_bodyStream := Some (length (bs_wrappers s2))\<rparr>)
      (s2\<lparr>bs_wrappers := bs_wrappers s2 @ [fresh_wrapper b i]\<rparr>)) \<or> s' = s1"
    using assms(2) unfolding get_body_def s1_def [symmetric]
    by (auto simp: Let_def s2_def [symmetric] wrapBodyStream_def fresh_wrapper_def split: option.splits if_splits)
  have s1: "(\<forall>j. j \<noteq> i \<longrightarrow> bs_responses s1 ! j = bs_responses s ! j) \<and>
      (\<forall>c < length (bs_streams s). bs_streams s1 ! c = bs_streams s ! c) \<and> bs_wrappers s1 = bs_wrappers s \<and>
      length (bs_responses s1) = length (bs_responses s) \<and>
      rs_bodyUsed (bs_responses s1 ! i) = rs_bodyUsed (bs_responses s ! i)"
    using inl [OF assms(1)] by (simp add: s1_def)
  show "\<forall>j. j \<noteq> i \<longrightarrow> bs_responses s' ! j = bs_responses s ! j"
    "\<forall>c < length (bs_streams s). bs_streams s' ! c = bs_streams s ! c"
    "\<forall>v < length (bs_wrappers s). bs_wrappers s' ! v = bs_wrappers s ! v"
    "length (bs_responses s') = length (bs_responses s)"
    "rs_bodyUsed (bs_responses s' ! i) = rs_bodyUsed (bs_responses s ! i)"
    using s' s1 s2 assms(1) by (auto simp: nth_append)
qed

text \<open>What \<open>intact j\<close> looks at.\<close>

lemma intact_cong:
  assumes "bs_responses s' ! j = bs_responses s ! j" "length (bs_responses s') = length (bs_responses s)"
    and "\<And>b. rs_bodySource (bs_responses s ! j) = Some b \<Longrightarrow> bs_streams s' ! b = bs_streams s ! b"
    and "\<And>w. rs_bodyStream (bs_responses s ! j) = Some w \<Longrightarrow> bs_wrappers s' ! w = bs_wrappers s ! w"
  shows "intact j s' \<longleftrightarrow> intact j s"
  using assms by (auto simp: intact_def split: option.split)

lemma mark_used_other: "j \<noteq> i \<Longrightarrow> bs_responses (mark_used i s) ! j = bs_responses s ! j"
  by (simp add: mark_used_def)

text \<open>After \<open>consumeBody\<close> the response is used and any other is as intact as it was.\<close>

lemma consumeBody_leaves:
  assumes inv: "body_inv p F ex s" and i: "i < length (bs_responses s)"
    and c: "consumeBody i s = Some (r, s')"
  shows "rs_bodyUsed (bs_responses s' ! i) \<and> length (bs_responses s') = length (bs_responses s) \<and>
    (\<forall>j. j \<noteq> i \<longrightarrow> intact j s' \<longleftrightarrow> intact j s)"
proof (cases "rs_bodyUsed (bs_responses s ! i)")
  case True
  with c show ?thesis by (auto simp: consumeBody_def Let_def)
next
  case unused: False
  define s1 where "s1 = mark_used i s"
  define r1 where "r1 = bs_responses s1 ! i"
  have inv1: "body_inv p F ex s1" using mark_used_inv [OF inv i] by (simp add: s1_def)
  have i1: "i < length (bs_responses s1)" using i by (simp add: s1_def)
  have used1: "rs_bodyUsed r1" using i by (simp add: r1_def s1_def)
  have other1: "intact j s1 \<longleftrightarrow> intact j s" if "j \<noteq> i" for j
    by (rule intact_cong) (use that in \<open>simp_all add: s1_def mark_used_other\<close>)
  show ?thesis
  proof (cases "rs_inlineBody r1 \<noteq> None \<or> rs_nativeHandleAvailable r1 \<and> nr_bodyHandle (rs_payload r1) \<noteq> None")
    case True
    with c unused have s': "bs_streams s' = bs_streams s1 \<and> bs_wrappers s' = bs_wrappers s1 \<and>
        (\<exists>r'. bs_responses s' = (bs_responses s1)[i := r'] \<and> rs_bodyUsed r' = rs_bodyUsed r1)"
      by (auto simp: consumeBody_def Let_def s1_def [symmetric] r1_def [symmetric] case_prod_unfold
          markNativeBodyReleased_def split: option.splits)
    moreover have "intact j s' \<longleftrightarrow> intact j s1" if "j \<noteq> i" for j
      by (rule intact_cong) (use s' that in auto)
    ultimately show ?thesis using i1 used1 other1 by (auto simp: s1_def)
  next
    case False
    then have slow: "consumeBody i s = (case get_body i s1 of
          (None, s2) \<Rightarrow> Some (Inr [], s2)
        | (Some w, s2) \<Rightarrow>
            (case get_reader w s2 of
               (Inl e, s3) \<Rightarrow> Some (Inl e, s3)
             | (Inr _, s3) \<Rightarrow> drain w [] s3))"
      using unused by (auto simp: consumeBody_def Let_def s1_def [symmetric] r1_def [symmetric] split: option.split bool.split)
    obtain w s2 where g: "get_body i s1 = (w, s2)" by fastforce
    note keep = get_body_others [OF i1 g]
    have inv2: "body_inv p F ex s2" using get_body_inv [OF inv1 i1] g by simp
    have i2: "i < length (bs_responses s2)" using i1 keep(4) by simp
    have old: "rs_bodySource (bs_responses s1 ! j) = Some b \<Longrightarrow> b < length (bs_streams s1)"
      "rs_bodyStream (bs_responses s1 ! j) = Some v \<Longrightarrow> v < length (bs_wrappers s1)"
      if "j < length (bs_responses s1)" for j b v
      using body_inv_response [OF inv1 that] by (auto simp: response_ok_def)
    have other2: "intact j s2 \<longleftrightarrow> intact j s1" if "j \<noteq> i" for j
    proof (cases "j < length (bs_responses s1)")
      case True
      show ?thesis
        by (rule intact_cong) (use keep that old [OF True] in auto)
    next
      case False
      with keep(4) show ?thesis by (simp add: intact_def)
    qed
    have used2: "rs_bodyUsed (bs_responses s2 ! i)" using keep(5) used1 by (simp add: r1_def)
    show ?thesis
    proof (cases w)
      case None
      with slow g c have "s' = s2" by simp
      with used2 keep(4) other2 other1 show ?thesis by (auto simp: s1_def)
    next
      case (Some k)
      from inv1 i1 obtain b where k: "k < length (bs_wrappers s2)" "wr_stream (bs_wrappers s2 ! k) = b"
        "\<not> st_teed (bs_streams s2 ! b)"
        by (cases rule: get_body_cases) (use g Some in auto)
      have v: "wrapper_ok s2 (bs_wrappers s2 ! k)" by (rule body_inv_wrapper [OF inv2 k(1)])
      with k have base: "rs_bodySource (bs_responses s2 ! wr_owner (bs_wrappers s2 ! k)) = Some b"
        "wr_owner (bs_wrappers s2 ! k) < length (bs_responses s2)"
        by (simp_all add: wrapper_ok_def)
      have ri2: "response_ok p F ex s2 (bs_responses s2 ! i)" by (rule body_inv_response [OF inv2 i2])
      have stream_i: "rs_bodySource (bs_responses s2 ! i) = Some b"
      proof -
        have "rs_bodyStream (bs_responses s2 ! i) = Some k"
          using g Some i1 unfolding get_body_def
          by (auto simp: Let_def wrapBodyStream_def split: option.splits if_splits)
        with ri2 k(2) show ?thesis by (auto simp: response_ok_def)
      qed
      then have own: "wr_owner (bs_wrappers s2 ! k) = i"
        using unique_source [OF inv2 base(2) i2 base(1)] by simp
      obtain q s3 where q: "get_reader k s2 = (q, s3)" by fastforce
      then have s3: "only_touches b k i s2 s3"
        using k(2) own k(1) by (auto simp: only_touches_def get_reader_def Let_def split: if_splits)
      have s': "only_touches b k i s2 s'"
      proof (cases q)
        case (Inl e)
        with slow g Some q c s3 show ?thesis by simp
      next
        case (Inr u)
        with slow g Some q c have d: "drain k [] s3 = Some (r, s')" by simp
        from s3 k own have "k < length (bs_wrappers s3)" "wr_stream (bs_wrappers s3 ! k) = b"
          "wr_owner (bs_wrappers s3 ! k) = i" by (simp_all add: only_touches_def)
        with drain_touches [OF d] have "only_touches b k i s3 s'" by simp
        with s3 show ?thesis by (rule only_touches_trans)
      qed
      have "intact j s' \<longleftrightarrow> intact j s2" if j: "j \<noteq> i" for j
      proof (cases "j < length (bs_responses s2)")
        case True
        have nb: "rs_bodySource (bs_responses s2 ! j) \<noteq> Some b"
          using unique_source [OF inv2 True i2 _ stream_i] j by auto
        have nk: "rs_bodyStream (bs_responses s2 ! j) \<noteq> Some k"
          using body_inv_response [OF inv2 True] nb k(2) by (auto simp: response_ok_def)
        show ?thesis
          by (rule intact_cong) (use s' j nb nk in \<open>auto simp: only_touches_def\<close>)
      next
        case False
        with s' show ?thesis by (simp add: intact_def only_touches_def)
      qed
      with s' used2 keep(4) other2 other1 show ?thesis by (auto simp: s1_def only_touches_def)
    qed
  qed
qed

lemma intact_consumed:
  assumes "payload_ok p n" "plain_errors (body_of_payload p n)"
    and "(body_step False)\<^sup>*\<^sup>* (first_response p u n) s" "intact i s"
  shows "\<exists>s'. consumeBody i s = Some (outcome (body_of_payload p n), s')"
  using consumeBody_ends [OF reachable_inv [OF assms(1,3)], of i] assms(2,4)
  by (auto simp: intact_def)

section \<open>Properties\<close>

text \<open>C33: Whatever happened before, reads, clones, streams, a response whose own body has not been touched
  still has all of it: reading it gives the bytes of the whole body, or the error it ends with,
  whether they are inline, in the addon, or in one branch of a split stream.\<close>

theorem response_reads_whole_body:
  assumes "payload_ok p n" "plain_errors (body_of_payload p n)"
    and "(body_step False)\<^sup>*\<^sup>* (first_response p u n) s" "intact i s"
  shows "\<exists>s'. consumeBody i s = Some (outcome (body_of_payload p n), s')"
  using assms by (rule intact_consumed)

definition sample_payload :: NativeResponse where
  "sample_payload = \<lparr>nr_status = 200, nr_headers = [], nr_cookies = [], nr_url = ''https://a/'',
     nr_contentLength = None, nr_diagnostics = JNull, nr_bodyHandle = Some 1, nr_bodyBytes = None\<rparr>"

definition sample_bodies :: bodies where
  "sample_bodies = (\<lambda>h. if h = 1 then Some ([[1, 2], [3]], None) else None)"

lemmas sample_response = sample_payload_def sample_bodies_def Response_new_def

lemma sample_payload_ok:
  "payload_ok sample_payload sample_bodies" "plain_errors (body_of_payload sample_payload sample_bodies)"
  "body_of_payload sample_payload sample_bodies = ([[1, 2], [3]], None)"
  by (simp_all add: payload_ok_def plain_errors_def body_of_payload_def sample_payload_def sample_bodies_def)

lemma sample_clone:
  "\<exists>s. clone 0 (first_response sample_payload [] sample_bodies) = (Inr 1, s) \<and> intact 0 s \<and> intact 1 s \<and>
     (body_step ex)\<^sup>*\<^sup>* (first_response sample_payload [] sample_bodies) s"
proof -
  let ?s0 = "first_response sample_payload [] sample_bodies"
  have c: "fst (clone 0 ?s0) = Inr 1" "intact 0 (snd (clone 0 ?s0))" "intact 1 (snd (clone 0 ?s0))"
    by (simp_all add: clone_def sample_response native_source_def createNativeBodyStream_def add_source_def
        put_response_def tee_stream_def new_stream_def intact_def Let_def)
  have "(body_step ex)\<^sup>*\<^sup>* ?s0 (snd (clone 0 ?s0))"
    by (rule r_into_rtranclp, rule step_clone) simp
  with c show ?thesis by (intro exI [of _ "snd (clone 0 ?s0)"]) (simp add: prod_eq_iff)
qed

theorem response_reads_whole_body_witness:
  "\<exists>s s'. clone 0 (first_response sample_payload [] sample_bodies) = (Inr 1, s) \<and>
     consumeBody 1 s = Some (Inr [1, 2, 3], s')"
proof -
  obtain s where s: "clone 0 (first_response sample_payload [] sample_bodies) = (Inr 1, s)" "intact 1 s"
    "(body_step False)\<^sup>*\<^sup>* (first_response sample_payload [] sample_bodies) s"
    using sample_clone by blast
  from response_reads_whole_body [OF sample_payload_ok(1,2) s(3,2)] s(1) show ?thesis
    by (auto simp: outcome_def sample_payload_ok)
qed

text \<open>A response and its clones do not disturb one another: after one of them has been read, whether that
  gave its body or failed, any other that was intact still gives the whole body.\<close>

lemma clones_independent:
  assumes "payload_ok p n" "plain_errors (body_of_payload p n)"
    and "(body_step False)\<^sup>*\<^sup>* (first_response p u n) s" "i < length (bs_responses s)"
    and "consumeBody i s = Some (r, s')" "intact j s" "j \<noteq> i"
  shows "\<exists>s''. consumeBody j s' = Some (outcome (body_of_payload p n), s'')"
proof -
  note inv = reachable_inv [OF assms(1,3)]
  have inv': "body_inv p (body_of_payload p n) False s'"
    using consumeBody_ends [OF inv assms(4)] assms(5) by auto
  have j: "intact j s'" using consumeBody_leaves [OF inv assms(4,5)] assms(6,7) by blast
  with consumeBody_ends [OF inv', of j] assms(2) show ?thesis by (auto simp: intact_def)
qed

lemma clones_independent_witness:
  "\<exists>s s' s'' r. clone 0 (first_response sample_payload [] sample_bodies) = (Inr 1, s) \<and>
     consumeBody 1 s = Some (r, s') \<and> consumeBody 0 s' = Some (Inr [1, 2, 3], s'')"
proof -
  obtain s where s: "clone 0 (first_response sample_payload [] sample_bodies) = (Inr 1, s)" "intact 0 s" "intact 1 s"
    "(body_step False)\<^sup>*\<^sup>* (first_response sample_payload [] sample_bodies) s"
    using sample_clone by blast
  have i: "1 < length (bs_responses s)" using s(3) by (simp add: intact_def)
  obtain r s' where c: "consumeBody 1 s = Some (r, s')"
    using consumeBody_ends [OF reachable_inv [OF sample_payload_ok(1) s(4)] i] by blast
  from clones_independent [OF sample_payload_ok(1,2) s(4) i c s(2)] s(1) c show ?thesis
    by (auto simp: outcome_def sample_payload_ok)
qed

text \<open>C37: Reading a response always ends, even when the addon's handle has expired or the stream is held or
  cancelled, whichever method reads it and whatever the conversion makes of the bytes; and it uses the
  response up: every later method, stream or clone of it is refused.\<close>

theorem response_read_once:
  assumes "payload_ok p n" "(body_step ex)\<^sup>*\<^sup>* (first_response p u n) s" "i < length (bs_responses s)"
  shows "\<exists>r s'. consumeBody i s = Some (r, s') \<and> body_method convert i s = Some (res_bind r convert, s') \<and>
    body_method convert' i s' = Some (Inl used_error, s') \<and>
    readable i s' = (Inl used_error, s') \<and>
    clone i s' = (Inl (TypeError ''Cannot clone a Response whose body is already used''), s')"
proof -
  note inv = reachable_inv [OF assms(1,2)]
  obtain r s' where c: "consumeBody i s = Some (r, s')" using consumeBody_ends [OF inv assms(3)] by blast
  from consumeBody_leaves [OF inv assms(3) c] have "rs_bodyUsed (bs_responses s' ! i)" by simp
  with c show ?thesis
    by (intro exI [of _ r] exI [of _ s'])
      (simp add: consumeBody_def body_method_def readable_def clone_def Let_def)
qed

theorem response_read_once_witness:
  "\<exists>r s'. consumeBody 0 (first_response sample_payload [] sample_bodies) = Some (r, s') \<and>
     body_method Inr 0 s' = Some (Inl used_error, s')"
proof -
  have "0 < length (bs_responses (first_response sample_payload [] sample_bodies))"
    by simp
  from response_read_once [OF sample_payload_ok(1) rtranclp.rtrancl_refl this] show ?thesis by blast
qed

section \<open>Two flaws\<close>

lemma missing_not_found: "missing_handle (not_found h)"
proof -
  have "error_string (not_found h) = ''Error: '' @ ''Body handle'' @ ('' '' @ nat_str h @ '' not found'')"
    "error_string (not_found h) = (''Error: Body handle '' @ nat_str h @ '' '') @ ''not found'' @ []"
    by (simp_all add: error_string_def not_found_def)
  then show ?thesis unfolding missing_handle_def by (metis has_text_append)
qed

text \<open>A body that the addon has dropped after keeping it idle is read as an empty body, without an
  error, whatever it was.\<close>

lemma expired_body_reads_empty:
  "nr_bodyHandle p = Some h \<Longrightarrow> nr_bodyBytes p = None \<Longrightarrow>
     \<exists>s'. consumeBody 0 (first_response p u (cancelBody h n)) = Some (Inr [], s')"
  using missing_not_found [of h]
  by (simp add: consumeBody_def Let_def Response_new_def mark_used_def readBodyAll_def
      cancelBody_def)

lemma expired_body_reads_empty_witness:
  "\<exists>s'. consumeBody 0 (first_response sample_payload [] (cancelBody 1 sample_bodies)) = Some (Inr [], s')"
  by (rule expired_body_reads_empty) (simp_all add: sample_payload_def)

text \<open>Looking at \<open>response.body\<close> uses the response up: once the runtime has made the first \<open>pull\<close> of the
  stream the getter created, no method can read the body, though nothing has been read from it.\<close>

lemma body_getter_uses_response:
  "\<exists>w s1. get_body 0 (first_response sample_payload [] sample_bodies) = (Some w, s1) \<and>
     consumeBody 0 s1 = Some (Inr [1, 2, 3], snd (the (consumeBody 0 s1))) \<and>
     consumeBody 0 (start_wrapper w s1) = Some (Inl used_error, start_wrapper w s1)"
proof -
  let ?s0 = "first_response sample_payload [] sample_bodies"
  obtain w s1 where g: "get_body 0 ?s0 = (Some w, s1)" and w: "w < length (bs_wrappers s1)"
    "wr_owner (bs_wrappers s1 ! w) = 0" "\<not> wr_started (bs_wrappers s1 ! w)" "\<not> wr_cancelled (bs_wrappers s1 ! w)"
    "0 < length (bs_responses s1)" and intact: "intact 0 s1"
    by (simp add: get_body_def inline_source_def sample_response native_source_def createNativeBodyStream_def
        add_source_def put_response_def wrapBodyStream_def new_stream_def intact_def Let_def)
  have "body_inv sample_payload (body_of_payload sample_payload sample_bodies) False s1"
    using get_body_inv [OF first_response_inv [OF sample_payload_ok(1)], of 0 "[]" False] g
    by simp
  from consumeBody_ends [OF this w(5)] intact obtain s' where "consumeBody 0 s1 = Some (Inr [1, 2, 3], s')"
    by (auto simp: outcome_def sample_payload_ok plain_errors_def)
  moreover have "rs_bodyUsed (bs_responses (start_wrapper w s1) ! 0)"
    using w by (simp add: start_wrapper_def Let_def mark_used_def)
  ultimately show ?thesis using g by (simp add: consumeBody_def Let_def)
qed

end
