(* ===== verification/ResponseAccessors.thy ===== *)
theory ResponseAccessors
  imports ResponseProperties HeaderTuples
begin

text \<open>
  What a \<open>Response\<close> of src/src/wreq-js.ts computes from its payload: \<open>ok\<close>, \<open>redirected\<close> with its memo,
  the record of cookies and the lazily built \<open>headers\<close>. The normalisation of URLs by the runtime is
  the parameter \<open>norm\<close>, \<open>None\<close> where it throws.
\<close>

definition status_ok :: "int \<Rightarrow> bool" where
  "status_ok status \<longleftrightarrow> status \<ge> 200 \<and> status < 300"

section \<open>\<open>redirected\<close>\<close>

definition normalizeUrlForComparison :: "(string \<Rightarrow> string option) \<Rightarrow> string \<Rightarrow> string option" where
  "normalizeUrlForComparison norm value = norm value"

text \<open>The getter, with the memo before and after.\<close>

definition redirected ::
  "(string \<Rightarrow> string option) \<Rightarrow> response \<Rightarrow> bool option \<Rightarrow> bool \<times> bool option" where
  "redirected norm r memo = (case memo of
      Some b \<Rightarrow> (b, memo)
    | None \<Rightarrow>
        (let url = nr_url (rs_payload r) in
         if url = rs_requestUrl r then (False, Some False)
         else (let b = (case normalizeUrlForComparison norm (rs_requestUrl r) of
                 Some n \<Rightarrow> (if n = [] then True else url \<noteq> n)
               | None \<Rightarrow> True) in (b, Some b))))"

section \<open>Cookies\<close>

datatype cookie_value = OneCookie string | ManyCookies "string list"

definition add_cookie :: "(string, cookie_value) omap \<Rightarrow> HeaderTuple \<Rightarrow> (string, cookie_value) omap" where
  "add_cookie record t = (case om_get record (fst t) of
      None \<Rightarrow> om_set record (fst t) (OneCookie (snd t))
    | Some (ManyCookies vs) \<Rightarrow> om_set record (fst t) (ManyCookies (vs @ [snd t]))
    | Some (OneCookie v) \<Rightarrow> om_set record (fst t) (ManyCookies [v, snd t]))"

definition response_cookies :: "response \<Rightarrow> (string, cookie_value) omap" where
  "response_cookies r = foldl add_cookie [] (nr_cookies (rs_payload r))"

definition cookies_named :: "string \<Rightarrow> HeaderTuple list \<Rightarrow> string list" where
  "cookies_named n ts = map snd (filter (\<lambda>t. fst t = n) ts)"

definition cookie_entry :: "string list \<Rightarrow> cookie_value option" where
  "cookie_entry vs = (case vs of [] \<Rightarrow> None | [v] \<Rightarrow> Some (OneCookie v) | _ \<Rightarrow> Some (ManyCookies vs))"

lemma cookie_entry_append:
  "cookie_entry (vs @ [v]) = Some (case cookie_entry vs of
      None \<Rightarrow> OneCookie v
    | Some (OneCookie u) \<Rightarrow> ManyCookies [u, v]
    | Some (ManyCookies us) \<Rightarrow> ManyCookies (us @ [v]))"
  by (auto simp: cookie_entry_def split: list.split)

lemma add_cookie_get:
  "om_get (add_cookie record t) n =
     (if n = fst t then Some (case om_get record n of
          None \<Rightarrow> OneCookie (snd t)
        | Some (OneCookie u) \<Rightarrow> ManyCookies [u, snd t]
        | Some (ManyCookies us) \<Rightarrow> ManyCookies (us @ [snd t]))
      else om_get record n)"
  by (simp add: add_cookie_def om_get_set split: option.split cookie_value.split)

section \<open>Properties\<close>

text \<open>The record of cookies has, for every name, the values set for it in the order of the response: a
  string for one value, an array for several, nothing for none.\<close>

lemma response_cookies_spec:
  "om_get (response_cookies r) n = cookie_entry (cookies_named n (nr_cookies (rs_payload r)))"
proof -
  have "om_get (foldl add_cookie [] ts) n = cookie_entry (cookies_named n ts)" for ts
  proof (induction ts rule: rev_induct)
    case Nil
    then show ?case by (simp add: cookie_entry_def cookies_named_def)
  next
    case (snoc t ts)
    then show ?case
      by (cases "n = fst t") (simp_all add: add_cookie_get cookies_named_def cookie_entry_append)
  qed
  then show ?thesis by (simp add: response_cookies_def)
qed

text \<open>The memo of \<open>redirected\<close> never changes its answer.\<close>

lemma redirected_memo:
  "fst (redirected norm r (snd (redirected norm r None))) = fst (redirected norm r None)"
  by (simp add: redirected_def Let_def split: option.split)

section \<open>Conversions of the body\<close>

text \<open>
  A \<open>Buffer\<close> shows a part of the memory behind it; \<open>place\<close> is where the runtime put the bytes of the
  body. \<open>arrayBuffer\<close> hands the memory out as it is when the buffer covers it, and a slice otherwise.
\<close>

record byte_view =
  bv_buffer :: "nat list"
  bv_byteOffset :: nat
  bv_byteLength :: nat

definition view_bytes :: "byte_view \<Rightarrow> nat list" where
  "view_bytes v = take (bv_byteLength v) (drop (bv_byteOffset v) (bv_buffer v))"

definition slice_list :: "'a list \<Rightarrow> nat \<Rightarrow> nat \<Rightarrow> 'a list" where
  "slice_list xs from to = drop from (take to xs)"

definition array_buffer :: "byte_view \<Rightarrow> nat list" where
  "array_buffer v =
     (if bv_byteOffset v = 0 \<and> bv_byteLength v = length (bv_buffer v) then bv_buffer v
      else slice_list (bv_buffer v) (bv_byteOffset v) (bv_byteOffset v + bv_byteLength v))"

definition arrayBuffer ::
  "(nat list \<Rightarrow> byte_view) \<Rightarrow> nat \<Rightarrow> body_state \<Rightarrow> (nat list res \<times> body_state) option" where
  "arrayBuffer place = body_method (\<lambda>bytes. Inr (array_buffer (place bytes)))"

text \<open>The runtime's UTF-8 decoder, \<open>JSON.parse\<close> and form parser are parameters.\<close>

definition response_text ::
  "(nat list \<Rightarrow> string) \<Rightarrow> nat \<Rightarrow> body_state \<Rightarrow> (string res \<times> body_state) option" where
  "response_text decode = body_method (\<lambda>bytes. Inr (decode bytes))"

definition response_json ::
  "(nat list \<Rightarrow> string) \<Rightarrow> (string \<Rightarrow> 'v res) \<Rightarrow> nat \<Rightarrow> body_state \<Rightarrow> ('v res \<times> body_state) option" where
  "response_json decode parse i s =
     map_option (\<lambda>(r, s'). (res_bind r parse, s')) (response_text decode i s)"

definition response_headers :: "response \<Rightarrow> header_store res" where
  "response_headers r = Headers_new (tuples_value (nr_headers (rs_payload r)))"

definition content_type :: "response \<Rightarrow> string option res" where
  "content_type r = res_bind (response_headers r) (\<lambda>st. headers_get st (JString ''content-type''))"

definition blob :: "nat \<Rightarrow> body_state \<Rightarrow> ((nat list \<times> string) res \<times> body_state) option" where
  "blob i s = body_method (\<lambda>bytes. res_bind (content_type (bs_responses s ! i)) (\<lambda>t.
     Inr (bytes, opt_default t []))) i s"

definition formData ::
  "(nat list \<Rightarrow> string option \<Rightarrow> 'f res) \<Rightarrow> nat \<Rightarrow> body_state \<Rightarrow> ('f res \<times> body_state) option" where
  "formData parse i s = body_method (\<lambda>bytes. res_bind (content_type (bs_responses s ! i)) (\<lambda>t.
     parse bytes (if t = Some [] then None else t))) i s"

lemma array_buffer_exact: "bv_byteOffset v + bv_byteLength v \<le> length (bv_buffer v) \<Longrightarrow> array_buffer v = view_bytes v"
  by (simp add: array_buffer_def view_bytes_def slice_list_def drop_take)

text \<open>Wherever the bytes are, \<open>arrayBuffer\<close> gives the body; \<open>json\<close> is one conversion of it.\<close>

lemma arrayBuffer_reads_body:
  assumes "\<And>bs. view_bytes (place bs) = bs"
    and "\<And>bs. bv_byteOffset (place bs) + bv_byteLength (place bs) \<le> length (bv_buffer (place bs))"
  shows "arrayBuffer place i s = consumeBody i s"
proof -
  have "res_bind r Inr = r" for r :: "nat list res" by (cases r) simp_all
  then show ?thesis
    by (simp add: arrayBuffer_def body_method_def array_buffer_exact [OF assms(2)] assms(1)
        case_prod_unfold option.map_ident)
qed

lemma response_json_method: "response_json decode parse = body_method (\<lambda>bytes. parse (decode bytes))"
proof (intro ext)
  fix i s
  have "res_bind (res_bind r (\<lambda>bytes. Inr (decode bytes))) parse = res_bind r (\<lambda>bytes. parse (decode bytes))" for r
    by (cases r) simp_all
  then show "response_json decode parse i s = body_method (\<lambda>bytes. parse (decode bytes)) i s"
    by (simp add: response_json_def response_text_def body_method_def option.map_comp comp_def case_prod_unfold)
qed

end
