(* ===== verification/Platform.thy ===== *)
theory Platform
  imports JsPrelude
begin

text \<open>
  The choice of the native addon at load time in src/src/wreq-js.ts: \<open>detectLibc\<close>,
  \<open>resolveNativePlatform\<close> and \<open>loadNativeBinding\<close>. What the code reads of the process is the record
  \<open>host\<close>; \<open>require\<close> is a parameter.
\<close>

section \<open>The host\<close>

datatype libc = Gnu | Musl

text \<open>\<open>process.report\<close>: it throws, or gives the version of glibc the process runs on, if any.\<close>

datatype process_report = ReportThrows | Report "string option"

record host =
  host_platform :: string
  host_arch :: string
  env_LIBC :: "string option"
  env_npm_config_libc :: "string option"
  host_report :: process_report

definition detectLibc :: "host \<Rightarrow> libc option" where
  "detectLibc h =
     (if host_platform h \<noteq> ''linux'' then None
      else
        (let envLibc = opt_or (env_LIBC h) (env_npm_config_libc h) in
         case envLibc of
           Some (c # cs) \<Rightarrow> Some (if has_text (to_lower (c # cs)) ''musl'' then Musl else Gnu)
         | _ \<Rightarrow> (case host_report h of
                  ReportThrows \<Rightarrow> Some Gnu
                | Report (Some (c # cs)) \<Rightarrow> Some Gnu
                | Report _ \<Rightarrow> Some Musl)))"

definition NATIVE_PLATFORMS :: "string list" where
  "NATIVE_PLATFORMS = [''darwin-x64'', ''darwin-arm64'', ''linux-x64-gnu'', ''linux-x64-musl'',
     ''linux-arm64-gnu'', ''linux-arm64-musl'', ''win32-x64-msvc'', ''win32-arm64-msvc'', ''android-arm64'']"

definition resolveNativePlatform :: "host \<Rightarrow> string option" where
  "resolveNativePlatform h =
     (let platform = host_platform h; arch = host_arch h in
      if platform = ''android'' \<and> arch = ''arm64'' then Some ''android-arm64''
      else if platform = ''darwin'' \<and> arch = ''x64'' then Some ''darwin-x64''
      else if platform = ''darwin'' \<and> arch = ''arm64'' then Some ''darwin-arm64''
      else if platform = ''linux'' \<and> arch = ''x64''
      then Some (if detectLibc h = Some Musl then ''linux-x64-musl'' else ''linux-x64-gnu'')
      else if platform = ''linux'' \<and> arch = ''arm64''
      then Some (if detectLibc h = Some Musl then ''linux-arm64-musl'' else ''linux-arm64-gnu'')
      else if platform = ''win32'' \<and> arch = ''x64'' then Some ''win32-x64-msvc''
      else if platform = ''win32'' \<and> arch = ''arm64'' then Some ''win32-arm64-msvc''
      else None)"

section \<open>Loading\<close>

text \<open>What \<open>require\<close> does with a candidate: the module, or the error, marked when it says not found.\<close>

datatype 'm required = Loaded 'm | ModuleNotFound string | LoadError string

text \<open>The error thrown in the end: a message and, for a failed load, its cause.\<close>

datatype load_failure = Unsupported string | FailedToLoad string "string option"

definition candidates :: "string \<Rightarrow> string list" where
  "candidates target = [''../rust/freq-js.'' @ target @ ''.node'', ''@zionsssx/freq-js-'' @ target,
     ''../rust/freq-js.node'']"

text \<open>The loop, with the two errors kept so far.\<close>

fun try_candidates ::
  "(string \<Rightarrow> 'm required) \<Rightarrow> string option \<Rightarrow> string option \<Rightarrow> string list \<Rightarrow>
     (string option \<times> string option) + 'm" where
  "try_candidates require notFoundError loadError [] = Inl (notFoundError, loadError)"
| "try_candidates require notFoundError loadError (c # cs) = (case require c of
      Loaded m \<Rightarrow> Inr m
    | ModuleNotFound e \<Rightarrow> try_candidates require (opt_or notFoundError (Some e)) loadError cs
    | LoadError e \<Rightarrow> try_candidates require notFoundError (opt_or loadError (Some e)) cs)"

definition libc_suffix :: "libc option \<Rightarrow> string" where
  "libc_suffix l = (case l of None \<Rightarrow> [] | Some Gnu \<Rightarrow> ''-gnu'' | Some Musl \<Rightarrow> ''-musl'')"

definition loadNativeBinding :: "host \<Rightarrow> (string \<Rightarrow> 'm required) \<Rightarrow> load_failure + 'm" where
  "loadNativeBinding h require = (case resolveNativePlatform h of
      None \<Rightarrow> Inl (Unsupported (''Unsupported platform: '' @ host_platform h @ ''-'' @ host_arch h @
        libc_suffix (detectLibc h) @ ''. Supported platforms: '' @ join '', '' NATIVE_PLATFORMS))
    | Some target \<Rightarrow>
        (case try_candidates require None None (candidates target) of
           Inr m \<Rightarrow> Inr m
         | Inl (notFoundError, loadError) \<Rightarrow>
             Inl (FailedToLoad (''Failed to load native module for '' @ target @ ''. Tried: '' @
               join '', '' (candidates target) @
               ''. Make sure the package is installed correctly and the native module is built for your platform.'')
               (opt_or loadError notFoundError))))"

section \<open>Properties\<close>

definition loads :: "(string \<Rightarrow> 'm required) \<Rightarrow> string \<Rightarrow> bool" where
  "loads require c = (case require c of Loaded m \<Rightarrow> True | _ \<Rightarrow> False)"

definition load_error :: "'m required \<Rightarrow> string list" where
  "load_error r = (case r of LoadError e \<Rightarrow> [e] | _ \<Rightarrow> [])"

definition missing_error :: "'m required \<Rightarrow> string list" where
  "missing_error r = (case r of ModuleNotFound e \<Rightarrow> [e] | _ \<Rightarrow> [])"

lemma required_simps:
  "require c = Loaded m \<Longrightarrow> loads require c \<and> missing_error (require c) = [] \<and> load_error (require c) = []"
  "require c = ModuleNotFound e \<Longrightarrow>
     \<not> loads require c \<and> missing_error (require c) = [e] \<and> load_error (require c) = []"
  "require c = LoadError e \<Longrightarrow>
     \<not> loads require c \<and> missing_error (require c) = [] \<and> load_error (require c) = [e]"
  by (simp_all add: loads_def missing_error_def load_error_def)

definition first_of :: "'a list \<Rightarrow> 'a option" where
  "first_of xs = (case xs of [] \<Rightarrow> None | x # _ \<Rightarrow> Some x)"

lemma first_of_simps [simp]: "first_of [] = None" "first_of (x # xs) = Some x"
  by (simp_all add: first_of_def)

lemma first_of_append: "first_of (xs @ ys) = opt_or (first_of xs) (first_of ys)"
  by (simp add: first_of_def opt_or_def split: list.split)

lemma try_candidates_eq:
  "try_candidates require nf le cs = (case List.find (loads require) cs of
      Some c \<Rightarrow> (case require c of Loaded m \<Rightarrow> Inr m | _ \<Rightarrow> undefined)
    | None \<Rightarrow> Inl (opt_or nf (first_of (concat (map (\<lambda>c. missing_error (require c)) cs))),
                   opt_or le (first_of (concat (map (\<lambda>c. load_error (require c)) cs)))))"
proof (induction cs arbitrary: nf le)
  case Nil
  then show ?case by (simp add: first_of_def opt_or_def split: option.split)
next
  case (Cons c cs)
  show ?case
  proof (cases "require c")
    case (Loaded m)
    with required_simps(1) [of require c, OF Loaded] show ?thesis by simp
  next
    case (ModuleNotFound e)
    with Cons required_simps(2) [of require c, OF ModuleNotFound] show ?thesis
      by (simp add: opt_or_def split: option.split)
  next
    case (LoadError e)
    with Cons required_simps(3) [of require c, OF LoadError] show ?thesis
      by (simp add: opt_or_def split: option.split)
  qed
qed

lemma find_loads:
  "List.find (loads require) cs = Some c \<Longrightarrow> \<exists>m. require c = Loaded m"
  by (cases "require c") (auto simp: find_Some_iff dest: required_simps)

text \<open>The addon that is loaded is the first of the three candidates that loads, a local build before the
  published package, and only on a platform that is supported; when none loads the cause given is
  the first error of a module that is there, and that of the first missing one if none is; every
  supported platform is one that some host resolves to.\<close>

lemma loadNativeBinding_spec:
  "(loadNativeBinding h require = Inr m \<longleftrightarrow>
      (\<exists>target c. resolveNativePlatform h = Some target \<and> target \<in> set NATIVE_PLATFORMS \<and>
         List.find (loads require) (candidates target) = Some c \<and> require c = Loaded m)) \<and>
   ((\<exists>msg. loadNativeBinding h require = Inl (FailedToLoad msg cause)) \<longleftrightarrow>
      (\<exists>target. resolveNativePlatform h = Some target \<and> List.find (loads require) (candidates target) = None \<and>
         cause = first_of (concat (map (\<lambda>c. load_error (require c)) (candidates target)) @
                           concat (map (\<lambda>c. missing_error (require c)) (candidates target))))) \<and>
   set NATIVE_PLATFORMS = {target. \<exists>h. resolveNativePlatform h = Some target}"
proof (intro conjI)
  have known: "resolveNativePlatform h = Some target \<Longrightarrow> target \<in> set NATIVE_PLATFORMS" for h target
    by (auto simp: resolveNativePlatform_def NATIVE_PLATFORMS_def Let_def split: if_splits)
  have none: "resolveNativePlatform h = None \<Longrightarrow> \<exists>u. loadNativeBinding h require = Inl (Unsupported u)"
    by (simp add: loadNativeBinding_def)
  have some: "(\<exists>c m. List.find (loads require) (candidates target) = Some c \<and> require c = Loaded m \<and>
        loadNativeBinding h require = Inr m) \<or>
      (\<exists>msg. List.find (loads require) (candidates target) = None \<and>
        loadNativeBinding h require = Inl (FailedToLoad msg
          (first_of (concat (map (\<lambda>c. load_error (require c)) (candidates target)) @
                     concat (map (\<lambda>c. missing_error (require c)) (candidates target))))))"
    if "resolveNativePlatform h = Some target" for target
  proof (cases "List.find (loads require) (candidates target)")
    case None
    with that show ?thesis
      by (simp add: loadNativeBinding_def try_candidates_eq first_of_append)
  next
    case (Some c)
    with find_loads [OF Some] that show ?thesis
      by (auto simp: loadNativeBinding_def try_candidates_eq)
  qed
  show "loadNativeBinding h require = Inr m \<longleftrightarrow>
      (\<exists>target c. resolveNativePlatform h = Some target \<and> target \<in> set NATIVE_PLATFORMS \<and>
         List.find (loads require) (candidates target) = Some c \<and> require c = Loaded m)"
  proof (cases "resolveNativePlatform h")
    case None
    with none show ?thesis by auto
  next
    case (Some target)
    from some [OF Some] Some known [OF Some] show ?thesis by auto
  qed
  show "(\<exists>msg. loadNativeBinding h require = Inl (FailedToLoad msg cause)) \<longleftrightarrow>
      (\<exists>target. resolveNativePlatform h = Some target \<and> List.find (loads require) (candidates target) = None \<and>
         cause = first_of (concat (map (\<lambda>c. load_error (require c)) (candidates target)) @
                           concat (map (\<lambda>c. missing_error (require c)) (candidates target))))"
  proof (cases "resolveNativePlatform h")
    case None
    with none show ?thesis by auto
  next
    case (Some target)
    from some [OF Some] Some show ?thesis by auto
  qed
  define machine where "machine p a r =
    \<lparr>host_platform = p, host_arch = a, env_LIBC = None, env_npm_config_libc = None, host_report = r\<rparr>" for p a r
  have "\<exists>h. resolveNativePlatform h = Some t" if "t \<in> set NATIVE_PLATFORMS" for t
  proof -
    have "resolveNativePlatform (machine ''darwin'' ''x64'' ReportThrows) = Some ''darwin-x64''"
      "resolveNativePlatform (machine ''darwin'' ''arm64'' ReportThrows) = Some ''darwin-arm64''"
      "resolveNativePlatform (machine ''linux'' ''x64'' ReportThrows) = Some ''linux-x64-gnu''"
      "resolveNativePlatform (machine ''linux'' ''x64'' (Report None)) = Some ''linux-x64-musl''"
      "resolveNativePlatform (machine ''linux'' ''arm64'' ReportThrows) = Some ''linux-arm64-gnu''"
      "resolveNativePlatform (machine ''linux'' ''arm64'' (Report None)) = Some ''linux-arm64-musl''"
      "resolveNativePlatform (machine ''win32'' ''x64'' ReportThrows) = Some ''win32-x64-msvc''"
      "resolveNativePlatform (machine ''win32'' ''arm64'' ReportThrows) = Some ''win32-arm64-msvc''"
      "resolveNativePlatform (machine ''android'' ''arm64'' ReportThrows) = Some ''android-arm64''"
      by (simp_all add: resolveNativePlatform_def machine_def detectLibc_def opt_or_def)
    with that show ?thesis unfolding NATIVE_PLATFORMS_def by auto
  qed
  with known show "set NATIVE_PLATFORMS = {target. \<exists>h. resolveNativePlatform h = Some target}" by blast
qed

end
