(* ===== verification/Bench.thy ===== *)
theory Bench
  imports Complex_Main JsMap "HOL-Library.List_Lexorder" "HOL-Library.Char_ord"
begin

text \<open>
  The two loops that decide in the benchmark tools: the worker of \<open>measureThroughput\<close>
  (src/src/bench/run.ts) and the comparison of two runs (\<open>compare\<close> in
  src/scripts/aws-perf/compare-bench.mjs).

  A worker runs against a clock and a server that are parameters: \<open>now k\<close> is the time when it makes
  its \<open>k\<close>-th pass, \<open>ok k\<close> whether the request of that pass succeeds. It may run forever, so it is a
  partial function. Means are rationals: the rounding of floating-point numbers is left out, their
  division by zero is not.
\<close>

section \<open>The worker\<close>

partial_function (option) worker ::
  "(nat \<Rightarrow> nat) \<Rightarrow> nat \<Rightarrow> (nat \<Rightarrow> bool) \<Rightarrow> nat \<Rightarrow> nat \<Rightarrow> nat \<Rightarrow> (nat \<times> nat) option" where
  "worker now deadline ok k count errors =
     (if count mod 32 = 0 \<and> now k \<ge> deadline then Some (count, errors)
      else if ok k then worker now deadline ok (Suc k) (count + 1) errors
      else worker now deadline ok (Suc k) count (errors + 1))"

text \<open>\<open>measureThroughput\<close>: every worker starts from nothing; the counts are added up.\<close>

definition measure_counts ::
  "nat \<Rightarrow> ((nat \<Rightarrow> nat) \<times> (nat \<Rightarrow> bool)) list \<Rightarrow> (nat \<times> nat) option" where
  "measure_counts deadline workers =
     (let results = map (\<lambda>(now, ok). worker now deadline ok 0 0 0) workers in
      if None \<in> set results then None
      else Some (sum_list (map (fst \<circ> the) results), sum_list (map (snd \<circ> the) results)))"

text \<open>Once the time is over, a worker whose requests succeed ends within 32 of them.\<close>

lemma worker_finishes:
  assumes "\<And>j. j \<ge> k \<Longrightarrow> now j \<ge> deadline" "\<And>j. j \<ge> k \<Longrightarrow> ok j"
  shows "worker now deadline ok k count errors = Some (count + (32 - count mod 32) mod 32, errors)"
  using assms
proof (induction "(32 - count mod 32) mod 32" arbitrary: k count)
  case 0
  then have "count mod 32 = 0" by (metis diff_less_mono2 mod_less mod_less_divisor not_gr_zero
        minus_nat.diff_0 zero_less_diff zero_less_numeral)
  with 0 show ?case by (subst worker.simps) simp
next
  case (Suc n)
  then have nz: "count mod 32 \<noteq> 0" by (intro notI) simp
  then have left: "n = (32 - (count + 1) mod 32) mod 32" using Suc.hyps(2)
    by (cases "Suc (count mod 32) = 32") (simp_all add: mod_Suc)
  have "worker now deadline ok k count errors = worker now deadline ok (Suc k) (count + 1) errors"
    using nz Suc.prems(2) by (subst worker.simps) simp
  also have "\<dots> = Some (count + 1 + (32 - (count + 1) mod 32) mod 32, errors)"
    by (rule Suc.hyps(1) [OF left]) (use Suc.prems in auto)
  finally show ?case using left Suc.hyps(2) by simp
qed

text \<open>With a count that is no multiple of 32, a worker whose requests fail never looks at the clock.\<close>

lemma worker_stuck:
  assumes "worker now deadline ok k count errors = Some r"
  shows "count mod 32 \<noteq> 0 \<longrightarrow> \<not> (\<forall>j \<ge> k. \<not> ok j)"
proof (rule worker.raw_induct [OF _ assms, where P = "\<lambda>now deadline ok k count errors r.
      count mod 32 \<noteq> 0 \<longrightarrow> \<not> (\<forall>j \<ge> k. \<not> ok j)"], intro impI notI)
  fix w now deadline ok k count errors r
  assume IH: "\<And>now deadline ok k count errors r. w now deadline ok k count errors = Some r \<Longrightarrow>
      count mod 32 \<noteq> 0 \<longrightarrow> \<not> (\<forall>j \<ge> k. \<not> ok j)"
    and step: "(if count mod 32 = 0 \<and> now k \<ge> deadline then Some (count, errors)
      else if ok k then w now deadline ok (Suc k) (count + 1) errors
      else w now deadline ok (Suc k) count (errors + 1)) = Some r"
    and stuck: "count mod 32 \<noteq> 0" "\<forall>j \<ge> k. \<not> ok j"
  then have "w now deadline ok (Suc k) count (errors + 1) = Some r" by simp
  from IH [OF this] stuck show False by auto
qed

section \<open>Comparing two runs\<close>

record bench_result =
  br_name :: string
  br_mean :: rat

datatype status = OK | REGRESSION | IMPROVEMENT

text \<open>
  \<open>deltaPct\<close> when the base mean is not zero; with a base of zero it is an infinity of the sign of the
  head mean, or NaN, for which both comparisons are false.
\<close>

definition scenario_status :: "rat \<Rightarrow> rat \<Rightarrow> rat \<Rightarrow> status" where
  "scenario_status thresholdPct base head =
     (if base = 0 then (if head > 0 then IMPROVEMENT else if head < 0 then REGRESSION else OK)
      else (let deltaPct = (head - base) / base * 100 in
            if deltaPct \<le> - thresholdPct then REGRESSION
            else if deltaPct \<ge> thresholdPct then IMPROVEMENT
            else OK))"

definition by_name :: "bench_result list \<Rightarrow> (string, bench_result) omap" where
  "by_name results = foldl (\<lambda>m r. om_set m (br_name r) r) [] results"

text \<open>The scenarios of both runs, sorted by name, with their status.\<close>

definition compare_runs ::
  "rat \<Rightarrow> bench_result list \<Rightarrow> bench_result list \<Rightarrow> (string \<times> status) list" where
  "compare_runs thresholdPct baseRun headRun =
     (let baseMap = by_name baseRun; headMap = by_name headRun in
      map (\<lambda>name. (name, scenario_status thresholdPct (br_mean (the (om_get baseMap name)))
                          (br_mean (the (om_get headMap name)))))
        (sort (filter (om_has headMap) (om_keys baseMap))))"

definition gate_passes :: "rat \<Rightarrow> bench_result list \<Rightarrow> bench_result list \<Rightarrow> bool" where
  "gate_passes thresholdPct baseRun headRun \<longleftrightarrow>
     list_all (\<lambda>(name, status). status \<noteq> REGRESSION) (compare_runs thresholdPct baseRun headRun)"

lemma by_name_distinct:
  assumes "distinct (map br_name rs)"
  shows "by_name rs = map (\<lambda>r. (br_name r, r)) rs"
proof -
  have "foldl (\<lambda>m r. om_set m (br_name r) r) m rs = m @ map (\<lambda>r. (br_name r, r)) rs"
    if "distinct (map br_name rs)" "set (om_keys m) \<inter> br_name ` set rs = {}" for m
    using that
  proof (induction rs arbitrary: m)
    case (Cons r rs)
    then have "om_set m (br_name r) r = m @ [(br_name r, r)]" by (intro om_set_fresh) auto
    with Cons show ?case by (auto simp: om_keys_def)
  qed simp
  from this [of "[]"] assms show ?thesis by (simp add: by_name_def om_keys_def)
qed

section \<open>Properties\<close>

text \<open>C40: When the time is over, a worker ends after at most 31 more requests if they succeed, with every
  request counted; but if its count is not a multiple of 32 and the server fails from then on, it never
  ends, whatever the clock says.\<close>

theorem worker_ends_or_hangs:
  assumes "\<forall>j \<ge> k. now j \<ge> deadline"
  shows "((\<forall>j \<ge> k. ok j) \<longrightarrow> (\<exists>n \<le> 31. worker now deadline ok k count errors = Some (count + n, errors))) \<and>
    ((\<forall>j \<ge> k. \<not> ok j) \<and> count mod 32 \<noteq> 0 \<longrightarrow> worker now deadline ok k count errors = None)"
proof (intro conjI impI)
  assume "\<forall>j \<ge> k. ok j"
  with assms worker_finishes [of k deadline now ok count errors]
  have "worker now deadline ok k count errors = Some (count + (32 - count mod 32) mod 32, errors)" by blast
  moreover have "(32 - count mod 32) mod 32 \<le> (31 :: nat)"
    using mod_less_divisor [of 32 "32 - count mod 32"] by linarith
  ultimately show "\<exists>n \<le> 31. worker now deadline ok k count errors = Some (count + n, errors)" by blast
next
  assume "(\<forall>j \<ge> k. \<not> ok j) \<and> count mod 32 \<noteq> 0"
  then show "worker now deadline ok k count errors = None"
    using worker_stuck [of now deadline ok k count errors]
    by (cases "worker now deadline ok k count errors") auto
qed

theorem worker_ends_or_hangs_witness:
  "worker (\<lambda>j. 9) 5 (\<lambda>j. False) 1 1 0 = None"
  using worker_ends_or_hangs [of 1 5 "\<lambda>j. 9" "\<lambda>j. False" 1 0] by simp

text \<open>The gate passes exactly when no scenario that both runs have lost the threshold or more of its
  throughput; a scenario missing from the new run does not fail it.\<close>

lemma gate_passes_spec:
  assumes "distinct (map br_name baseRun)" "distinct (map br_name headRun)" "thresholdPct \<ge> 0"
    and "\<forall>b \<in> set baseRun. br_mean b > 0"
  shows "gate_passes thresholdPct baseRun headRun \<longleftrightarrow>
    (\<forall>b \<in> set baseRun. \<forall>h \<in> set headRun. br_name b = br_name h \<longrightarrow>
       br_mean h > br_mean b * (1 - thresholdPct / 100))"
proof -
  have get: "om_get (by_name rs) n = Some r \<longleftrightarrow> r \<in> set rs \<and> br_name r = n"
    if "distinct (map br_name rs)" for rs n r
  proof -
    have "om_ok (by_name rs)" using that by (simp add: by_name_distinct om_ok_def om_keys_def o_def)
    then show ?thesis
      using om_get_in om_get_Some_in by (fastforce simp: by_name_distinct [OF that])
  qed
  have drop: "scenario_status thresholdPct b h \<noteq> REGRESSION \<longleftrightarrow> h > b * (1 - thresholdPct / 100)"
    if "b > 0" for b h :: rat
  proof -
    have "(h - b) / b * 100 \<le> - thresholdPct \<longleftrightarrow> (h - b) * 100 \<le> - thresholdPct * b"
      using that by (simp add: field_simps)
    also have "\<dots> \<longleftrightarrow> h \<le> b * (1 - thresholdPct / 100)" by (simp add: field_simps)
    finally show ?thesis using that by (auto simp: scenario_status_def Let_def)
  qed
  show ?thesis
  proof
    assume pass: "gate_passes thresholdPct baseRun headRun"
    show "\<forall>b \<in> set baseRun. \<forall>h \<in> set headRun. br_name b = br_name h \<longrightarrow>
        br_mean h > br_mean b * (1 - thresholdPct / 100)"
    proof (intro ballI impI)
      fix b h assume bh: "b \<in> set baseRun" "h \<in> set headRun" "br_name b = br_name h"
      then have m: "om_get (by_name baseRun) (br_name b) = Some b" "om_get (by_name headRun) (br_name b) = Some h"
        using get [OF assms(1)] get [OF assms(2)] by auto
      then have "br_name b \<in> set (filter (om_has (by_name headRun)) (om_keys (by_name baseRun)))"
        using om_get_None_iff [of "by_name baseRun" "br_name b"] by (auto simp: om_has_def)
      with pass m have "scenario_status thresholdPct (br_mean b) (br_mean h) \<noteq> REGRESSION"
        by (auto simp: gate_passes_def compare_runs_def Let_def list_all_iff dest!: bspec)
      with drop [of "br_mean b"] assms(4) bh(1) show "br_mean h > br_mean b * (1 - thresholdPct / 100)" by blast
    qed
  next
    assume all: "\<forall>b \<in> set baseRun. \<forall>h \<in> set headRun. br_name b = br_name h \<longrightarrow>
        br_mean h > br_mean b * (1 - thresholdPct / 100)"
    have "scenario_status thresholdPct (br_mean (the (om_get (by_name baseRun) n)))
        (br_mean (the (om_get (by_name headRun) n))) \<noteq> REGRESSION"
      if "n \<in> set (om_keys (by_name baseRun))" "om_has (by_name headRun) n" for n
    proof -
      from that obtain b h where bh: "om_get (by_name baseRun) n = Some b" "om_get (by_name headRun) n = Some h"
        using om_get_None_iff [of "by_name baseRun" n] by (auto simp: om_has_def)
      with get [OF assms(1)] get [OF assms(2)] have "b \<in> set baseRun" "h \<in> set headRun" "br_name b = br_name h"
        by auto
      with all drop assms(4) bh show ?thesis by simp
    qed
    then show "gate_passes thresholdPct baseRun headRun"
      by (auto simp: gate_passes_def compare_runs_def Let_def list_all_iff)
  qed
qed

lemma gate_passes_spec_witness:
  "gate_passes 5 [\<lparr>br_name = ''a'', br_mean = 100\<rparr>, \<lparr>br_name = ''b'', br_mean = 7\<rparr>] [\<lparr>br_name = ''a'', br_mean = 96\<rparr>]"
  by (subst gate_passes_spec) simp_all

end
