(* ===== verification/BenchTools.thy ===== *)
theory BenchTools
  imports EmulationFields Bench
begin

text \<open>
  The rest of the benchmark tools that decides something: the command lines of src/src/bench/run.ts and
  src/scripts/aws-perf/compare-bench.mjs, the routes of src/src/bench/local-bench-server.ts, and the output
  by which its Rust counterpart comes up, whose port is read from the output of a child process. \<open>Number(s)\<close> of the
  runtime is the parameter \<open>to_number\<close>.
\<close>

section \<open>Sums and extremes of lists\<close>

lemma sum_list_between:
  assumes "\<forall>x \<in> set xs. lo \<le> x \<and> x \<le> (hi :: 'a :: linordered_field)"
  shows "of_nat (length xs) * lo \<le> sum_list xs" "sum_list xs \<le> of_nat (length xs) * hi"
  using assms by (induction xs) (auto simp: algebra_simps intro: add_mono)

lemma fold_min_max:
  fixes xs :: "'a :: linorder list"
  shows "fold min xs a = Min (insert a (set xs))" "fold max xs a = Max (insert a (set xs))"
proof -
  show "fold min xs a = Min (insert a (set xs))" using Min.set_eq_fold [of a xs] by simp
  show "fold max xs a = Max (insert a (set xs))" using Max.set_eq_fold [of a xs] by simp
qed

section \<open>Command lines\<close>

text \<open>How parsing stops early: an error, or \<open>--help\<close>, which prints and exits.\<close>

datatype args_stop = ArgsError string | ArgsHelp

type_synonym 'a args_res = "args_stop + 'a"

definition args_bind :: "'a args_res \<Rightarrow> ('a \<Rightarrow> 'b args_res) \<Rightarrow> 'b args_res" where
  "args_bind r f = (case r of Inl e \<Rightarrow> Inl e | Inr x \<Rightarrow> f x)"

lemma args_bind_Inr [simp]: "args_bind r f = Inr y \<longleftrightarrow> (\<exists>x. r = Inr x \<and> f x = Inr y)"
  by (cases r) (simp_all add: args_bind_def)

record Args =
  arg_durationMs :: number
  arg_samples :: number
  arg_warmup :: number
  arg_concurrency :: number
  arg_scenarios :: "string list option"
  arg_jsonPath :: "string option"

definition bench_defaults :: "number \<Rightarrow> Args" where
  "bench_defaults concurrency = \<lparr>arg_durationMs = NumInt 3000, arg_samples = NumInt 20, arg_warmup = NumInt 5,
     arg_concurrency = concurrency, arg_scenarios = None, arg_jsonPath = None\<rparr>"

definition readValue :: "string \<Rightarrow> string list \<Rightarrow> (string \<times> string list) args_res" where
  "readValue arg rest = (case rest of
      [] \<Rightarrow> Inl (ArgsError (''Missing value for '' @ arg))
    | v # rest' \<Rightarrow>
        (if v = [] \<or> take 2 v = ''--'' then Inl (ArgsError (''Missing value for '' @ arg)) else Inr (v, rest')))"

text \<open>What one flag with a value does; \<open>None\<close> for any other argument.\<close>

definition bench_flag :: "(string \<Rightarrow> number) \<Rightarrow> string \<Rightarrow> (string \<Rightarrow> Args \<Rightarrow> Args) option" where
  "bench_flag to_number arg =
     (if arg = ''--duration-ms'' then Some (\<lambda>v a. a\<lparr>arg_durationMs := to_number v\<rparr>)
      else if arg = ''--samples'' then Some (\<lambda>v a. a\<lparr>arg_samples := to_number v\<rparr>)
      else if arg = ''--warmup'' then Some (\<lambda>v a. a\<lparr>arg_warmup := to_number v\<rparr>)
      else if arg = ''--concurrency'' then Some (\<lambda>v a. a\<lparr>arg_concurrency := to_number v\<rparr>)
      else if arg = ''--scenario'' then
        Some (\<lambda>v a. a\<lparr>arg_scenarios := Some (opt_default (arg_scenarios a) [] @ [v])\<rparr>)
      else if arg = ''--json'' then Some (\<lambda>v a. a\<lparr>arg_jsonPath := Some v\<rparr>)
      else None)"

function parse_loop :: "(string \<Rightarrow> number) \<Rightarrow> Args \<Rightarrow> string list \<Rightarrow> Args args_res" where
  "parse_loop to_number a [] = Inr a"
| "parse_loop to_number a (arg # rest) = (case bench_flag to_number arg of
      Some set_flag \<Rightarrow>
        (case readValue arg rest of
           Inl e \<Rightarrow> Inl e
         | Inr (v, rest') \<Rightarrow> parse_loop to_number (set_flag v a) rest')
    | None \<Rightarrow>
        (if arg = ''--help'' \<or> arg = ''-h'' then Inl ArgsHelp
         else Inl (ArgsError (''Unknown arg: '' @ arg))))"
  by pat_completeness auto

termination
  by (relation "measure (\<lambda>(to_number, a, argv). length argv)")
    (auto simp: readValue_def split: list.splits if_splits)

definition args_check :: "bool \<Rightarrow> string \<Rightarrow> unit args_res" where
  "args_check bad message = (if bad then Inl (ArgsError message) else Inr ())"

lemma args_check_Inr [simp]: "args_check bad message = Inr u \<longleftrightarrow> \<not> bad"
  by (simp add: args_check_def)

text \<open>\<open>Array.from(new Set(xs))\<close>: the first of each.\<close>

definition unique_names :: "string list \<Rightarrow> string list" where
  "unique_names xs = rev (remdups (rev xs))"

definition parseArgs :: "(string \<Rightarrow> number) \<Rightarrow> number \<Rightarrow> string list \<Rightarrow> Args args_res" where
  "parseArgs to_number concurrency argv =
     args_bind (parse_loop to_number (bench_defaults concurrency) argv) (\<lambda>a.
     args_bind (args_check (\<not> is_finite (arg_durationMs a) \<or> num_le (arg_durationMs a) 0)
       ''--duration-ms must be > 0'') (\<lambda>_.
     args_bind (args_check (\<not> is_finite (arg_samples a) \<or> num_less (arg_samples a) 3)
       ''--samples must be >= 3'') (\<lambda>_.
     args_bind (args_check (\<not> is_finite (arg_warmup a) \<or> num_less (arg_warmup a) 0)
       ''--warmup must be >= 0'') (\<lambda>_.
     args_bind (args_check (\<not> is_finite (arg_concurrency a) \<or> num_less (arg_concurrency a) 1)
       ''--concurrency must be >= 1'') (\<lambda>_.
     Inr (a\<lparr>arg_scenarios := map_option unique_names (arg_scenarios a)\<rparr>))))))"

text \<open>\<open>shouldRun\<close>\<close>

definition shouldRun :: "Args \<Rightarrow> string \<Rightarrow> bool" where
  "shouldRun a name = (case arg_scenarios a of None \<Rightarrow> True | Some names \<Rightarrow> name \<in> set names)"

lemma unique_names_set [simp]: "set (unique_names xs) = set xs" "distinct (unique_names xs)"
  by (simp_all add: unique_names_def)

text \<open>Accepted arguments are finite numbers in range, and no scenario is named twice.\<close>

lemma parseArgs_sound:
  assumes "parseArgs to_number concurrency argv = Inr a"
  shows "is_finite (arg_durationMs a) \<and> num_greater (arg_durationMs a) 0 \<and>
    is_finite (arg_samples a) \<and> num_ge (arg_samples a) 3 \<and>
    is_finite (arg_warmup a) \<and> num_ge (arg_warmup a) 0 \<and>
    is_finite (arg_concurrency a) \<and> num_ge (arg_concurrency a) 1 \<and>
    (\<forall>names. arg_scenarios a = Some names \<longrightarrow> distinct names)"
proof -
  have finite_ge: "is_finite n \<and> \<not> num_less n c \<Longrightarrow> num_ge n c" for n c
    by (auto simp: num_ge_def is_finite_def)
  have finite_greater: "is_finite n \<and> \<not> num_le n c \<Longrightarrow> num_greater n c" for n c
    by (cases n) (auto simp: num_le_def is_finite_def)
  from assms show ?thesis
    by (auto simp: parseArgs_def finite_ge finite_greater)
qed

text \<open>Arguments are read from left to right: the last value of a flag counts, scenarios add up.\<close>

lemma parse_loop_append:
  "parse_loop to_number a argv = Inr b \<Longrightarrow> parse_loop to_number a (argv @ argv') = parse_loop to_number b argv'"
proof (induction to_number a argv rule: parse_loop.induct)
  case (2 to_number a arg rest)
  then show ?case
    by (auto simp: readValue_def split: option.splits sum.splits list.splits if_splits)
qed simp

section \<open>The command line of the comparison\<close>

record CompareArgs =
  ca_basePath :: "string option"
  ca_headPath :: "string option"
  ca_thresholdPct :: number
  ca_markdownPath :: "string option"
  ca_jsonPath :: "string option"
  ca_failOnRegression :: bool

definition compare_defaults :: CompareArgs where
  "compare_defaults = \<lparr>ca_basePath = None, ca_headPath = None, ca_thresholdPct = NumInt 5,
     ca_markdownPath = None, ca_jsonPath = None, ca_failOnRegression = True\<rparr>"

definition compare_flag :: "(string \<Rightarrow> number) \<Rightarrow> string \<Rightarrow> (string \<Rightarrow> CompareArgs \<Rightarrow> CompareArgs) option" where
  "compare_flag to_number arg =
     (if arg = ''--base'' then Some (\<lambda>v a. a\<lparr>ca_basePath := Some v\<rparr>)
      else if arg = ''--head'' then Some (\<lambda>v a. a\<lparr>ca_headPath := Some v\<rparr>)
      else if arg = ''--threshold-pct'' then Some (\<lambda>v a. a\<lparr>ca_thresholdPct := to_number v\<rparr>)
      else if arg = ''--markdown'' then Some (\<lambda>v a. a\<lparr>ca_markdownPath := Some v\<rparr>)
      else if arg = ''--json'' then Some (\<lambda>v a. a\<lparr>ca_jsonPath := Some v\<rparr>)
      else None)"

text \<open>Here a value may begin with dashes; it must only not be empty.\<close>

fun compare_loop :: "(string \<Rightarrow> number) \<Rightarrow> CompareArgs \<Rightarrow> string list \<Rightarrow> CompareArgs args_res" where
  "compare_loop to_number a [] = Inr a"
| "compare_loop to_number a (arg # rest) = (case compare_flag to_number arg of
      Some set_flag \<Rightarrow>
        (case rest of
           [] \<Rightarrow> Inl (ArgsError (''Missing value for '' @ arg))
         | v # rest' \<Rightarrow>
             (if v = [] then Inl (ArgsError (''Missing value for '' @ arg))
              else compare_loop to_number (set_flag v a) rest'))
    | None \<Rightarrow>
        (if arg = ''--no-fail'' then compare_loop to_number (a\<lparr>ca_failOnRegression := False\<rparr>) rest
         else Inl (ArgsError (''Unknown argument: '' @ arg))))"

definition compare_parseArgs :: "(string \<Rightarrow> number) \<Rightarrow> string list \<Rightarrow> CompareArgs args_res" where
  "compare_parseArgs to_number argv =
     args_bind (compare_loop to_number compare_defaults argv) (\<lambda>a.
     args_bind (args_check (ca_basePath a = None \<or> ca_headPath a = None)
       ''Usage: compare-bench.mjs --base <path> --head <path> [--threshold-pct <n>]'') (\<lambda>_.
     args_bind (args_check (\<not> is_finite (ca_thresholdPct a) \<or> num_less (ca_thresholdPct a) 0)
       ''--threshold-pct must be a non-negative number'') (\<lambda>_.
     Inr a)))"

lemma compare_flag_paths:
  "compare_flag to_number arg = Some f \<Longrightarrow> v \<noteq> [] \<Longrightarrow> ca_basePath a \<noteq> Some [] \<and> ca_headPath a \<noteq> Some [] \<Longrightarrow>
     ca_basePath (f v a) \<noteq> Some [] \<and> ca_headPath (f v a) \<noteq> Some []"
  by (auto simp: compare_flag_def split: if_splits)

lemma compare_loop_paths:
  assumes "compare_loop to_number a argv = Inr b" "ca_basePath a \<noteq> Some [] \<and> ca_headPath a \<noteq> Some []"
  shows "ca_basePath b \<noteq> Some [] \<and> ca_headPath b \<noteq> Some []"
  using assms
proof (induction to_number a argv rule: compare_loop.induct)
  case (2 to_number a arg rest)
  show ?case
  proof (cases "compare_flag to_number arg")
    case None
    with 2 show ?thesis by (simp split: if_splits)
  next
    case (Some f)
    with "2.prems"(1) obtain v rest' where "rest = v # rest'" "v \<noteq> []"
      "compare_loop to_number (f v a) rest' = Inr b"
      by (auto split: list.splits if_splits)
    with "2.IH"(2) [OF Some] compare_flag_paths [OF Some] "2.prems"(2) show ?thesis by blast
  qed
qed simp

text \<open>The comparison starts only with two files and a threshold that is a number and not negative.\<close>

lemma compare_parseArgs_sound:
  assumes "compare_parseArgs to_number argv = Inr a"
  shows "(\<exists>b h. ca_basePath a = Some b \<and> b \<noteq> [] \<and> ca_headPath a = Some h \<and> h \<noteq> []) \<and>
    is_finite (ca_thresholdPct a) \<and> num_ge (ca_thresholdPct a) 0"
proof -
  from assms have "compare_loop to_number compare_defaults argv = Inr a"
    "ca_basePath a \<noteq> None" "ca_headPath a \<noteq> None" "is_finite (ca_thresholdPct a)"
    "\<not> num_less (ca_thresholdPct a) 0"
    by (auto simp: compare_parseArgs_def)
  with compare_loop_paths [OF this(1)] show ?thesis
    by (auto simp: compare_defaults_def num_ge_def is_finite_def)
qed

section \<open>The local server\<close>

text \<open>A request: its method and path, the query parameter \<open>len\<close>, the sizes of the chunks of its body.\<close>

record bench_request =
  br_method :: string
  br_path :: string
  br_len :: "string option"
  br_chunks :: "nat list"

record bench_response =
  bp_status :: nat
  bp_contentType :: "string option"
  bp_body :: "nat list"

definition sendBytes :: "nat \<Rightarrow> string \<Rightarrow> nat list \<Rightarrow> bench_response" where
  "sendBytes status contentType body =
     \<lparr>bp_status = status, bp_contentType = Some contentType, bp_body = body\<rparr>"

text \<open>
  \<open>drainBody\<close> stops reading at the first chunk that goes past the limit, and destroys the request, so that
  the client does not see the answer that is then written.
\<close>

fun drain_body :: "number \<Rightarrow> nat \<Rightarrow> nat list \<Rightarrow> nat" where
  "drain_body maxBytes received [] = received"
| "drain_body maxBytes received (chunk # rest) =
     (let received' = received + chunk in
      if num_greater maxBytes 0 \<and> num_less maxBytes (int received') then received'
      else drain_body maxBytes received' rest)"

definition buffer_length :: "number \<Rightarrow> nat" where
  "buffer_length n = (case n of NumInt i \<Rightarrow> nat i | NumDec m k \<Rightarrow> nat (m div 10 ^ k) | _ \<Rightarrow> 0)"

definition binary_length :: "number \<Rightarrow> number" where
  "binary_length n =
     (if is_finite n \<and> num_greater n 0
      then (if num_less n 1048576 then n else NumInt 1048576) else NumInt 4096)"

definition handleRequest :: "(string \<Rightarrow> number) \<Rightarrow> bench_request \<Rightarrow> bench_response" where
  "handleRequest to_number r =
     (if br_method r = ''GET'' \<and> br_path r = ''/small''
      then sendBytes 200 ''text/plain; charset=utf-8'' (utf8_bytes ''OK'')
      else if br_method r = ''GET'' \<and> br_path r = ''/json''
      then sendBytes 200 ''application/json; charset=utf-8''
             (utf8_bytes (CHR 0x7B # json_quote ''ok'' @ '':true,'' @ json_quote ''message'' @ '':'' @
                          json_quote ''hello'' @ [CHR 0x7D]))
      else if br_method r = ''GET'' \<and> br_path r = ''/binary''
      then sendBytes 200 ''application/octet-stream''
             (replicate (buffer_length (binary_length
                (case br_len r of None \<Rightarrow> NumInt 0 | Some s \<Rightarrow> to_number s))) 0xab)
      else if br_method r = ''POST'' \<and> br_path r = ''/echo-len''
      then (let expectedLength = to_number (opt_default (br_len r) ''0'');
                received = drain_body expectedLength 0 (br_chunks r) in
            if num_greater expectedLength 0 \<and> \<not> num_eq expectedLength (int received)
            then sendBytes 400 ''text/plain; charset=utf-8''
                   (utf8_bytes (''expected '' @ number_string expectedLength @ '', got '' @ nat_str received))
            else \<lparr>bp_status = 204, bp_contentType = None, bp_body = []\<rparr>)
      else sendBytes 404 ''text/plain; charset=utf-8'' (utf8_bytes ''not found''))"

text \<open>Reading no further than the limit does not change the verdict.\<close>

lemma num_less_not_eq: "num_less n c \<Longrightarrow> c \<le> d \<Longrightarrow> \<not> num_eq n d"
proof (cases n)
  case (NumDec m k)
  assume "num_less n c" "c \<le> d"
  with NumDec have "m < c * 10 ^ k" "c * 10 ^ k \<le> d * 10 ^ k" by (simp_all add: mult_right_mono)
  with NumDec show ?thesis by simp
qed auto

lemma drain_body_exact:
  assumes "num_greater maxBytes 0"
  shows "num_eq maxBytes (int (drain_body maxBytes received chunks)) \<longleftrightarrow>
    num_eq maxBytes (int (received + sum_list chunks))"
  using assms
proof (induction maxBytes received chunks rule: drain_body.induct)
  case (2 maxBytes received chunk rest)
  show ?case
  proof (cases "num_less maxBytes (int (received + chunk))")
    case True
    have "int (received + chunk) \<le> int (received + sum_list (chunk # rest))" by simp
    with 2 True num_less_not_eq [OF True] show ?thesis
      by (metis drain_body.simps(2) order_refl)
  next
    case False
    with 2 show ?thesis by (simp add: add.assoc)
  qed
qed simp

text \<open>A post to \<open>/echo-len\<close> succeeds exactly when its body has the length it announces, if it does.\<close>

lemma echo_len_spec:
  assumes "br_method r = ''POST''" "br_path r = ''/echo-len''"
    and "n = to_number (opt_default (br_len r) ''0'')"
  shows "bp_status (handleRequest to_number r) =
    (if num_greater n 0 \<and> \<not> num_eq n (int (sum_list (br_chunks r))) then 400 else 204)"
  using assms drain_body_exact [of n 0 "br_chunks r"]
  by (auto simp: handleRequest_def sendBytes_def Let_def)

section \<open>Starting the Rust server\<close>

text \<open>What the child process and the timer do, in any order.\<close>

datatype launch_event = LaunchError | LaunchExit | LaunchTimeout | LaunchOutput string

text \<open>\<open>la_result\<close>: what the promise was resolved with, \<open>Some None\<close> for null, else the base URL.\<close>

record launch =
  la_settled :: bool
  la_stdoutBuf :: string
  la_killed :: bool
  la_result :: "string option option"

definition launch_start :: launch where
  "launch_start = \<lparr>la_settled = False, la_stdoutBuf = [], la_killed = False, la_result = None\<rparr>"

definition newline :: char where
  "newline = CHR 0x0A"

definition launch_settle :: "string option \<Rightarrow> bool \<Rightarrow> launch \<Rightarrow> launch" where
  "launch_settle r kill s = s\<lparr>la_settled := True, la_killed := kill, la_result := Some r\<rparr>"

fun launch_step :: "(string \<Rightarrow> number) \<Rightarrow> launch \<Rightarrow> launch_event \<Rightarrow> launch" where
  "launch_step to_number s LaunchTimeout = (if la_settled s then s else launch_settle None True s)"
| "launch_step to_number s LaunchError = (if la_settled s then s else launch_settle None False s)"
| "launch_step to_number s LaunchExit = (if la_settled s then s else launch_settle None False s)"
| "launch_step to_number s (LaunchOutput chunk) =
     (if la_settled s then s
      else (let buf = la_stdoutBuf s @ chunk; s1 = s\<lparr>la_stdoutBuf := buf\<rparr> in
            if newline \<notin> set buf then s1
            else (let port = to_number (trim (takeWhile (\<lambda>c. c \<noteq> newline) buf)) in
                  if \<not> is_finite port \<or> num_le port 0 then launch_settle None True s1
                  else launch_settle (Some (''http://127.0.0.1:'' @ number_string port)) False s1)))"

lemma launch_settled: "la_settled s \<Longrightarrow> foldl (launch_step to_number) s es = s"
proof (induction es)
  case (Cons e es)
  then show ?case by (cases e) simp_all
qed simp

text \<open>However the output is cut into chunks, the port is its first line, once that is complete.\<close>

definition first_line_url :: "(string \<Rightarrow> number) \<Rightarrow> string \<Rightarrow> string option" where
  "first_line_url to_number out =
     (let port = to_number (trim (takeWhile (\<lambda>c. c \<noteq> newline) out)) in
      if is_finite port \<and> \<not> num_le port 0 then Some (''http://127.0.0.1:'' @ number_string port) else None)"

lemma launch_output:
  defines "run \<equiv> \<lambda>to_number chunks. foldl (launch_step to_number) launch_start (map LaunchOutput chunks)"
  shows "if newline \<in> set (concat chunks)
    then la_settled (run to_number chunks) \<and>
      la_result (run to_number chunks) = Some (first_line_url to_number (concat chunks))
    else run to_number chunks = launch_start\<lparr>la_stdoutBuf := concat chunks\<rparr>"
proof (induction chunks rule: rev_induct)
  case Nil
  show ?case by (simp add: run_def launch_start_def)
next
  case (snoc chunk chunks)
  have step: "run to_number (chunks @ [chunk]) = launch_step to_number (run to_number chunks) (LaunchOutput chunk)"
    by (simp add: run_def)
  show ?case
  proof (cases "newline \<in> set (concat chunks)")
    case True
    then have "takeWhile (\<lambda>c. c \<noteq> newline) (concat (chunks @ [chunk])) = takeWhile (\<lambda>c. c \<noteq> newline) (concat chunks)"
      by (simp add: takeWhile_append1)
    with snoc True show ?thesis by (simp add: step first_line_url_def)
  next
    case False
    with snoc show ?thesis
      by (simp add: step launch_start_def launch_settle_def first_line_url_def Let_def)
  qed
qed

end
