(* ===== verification/RustEmulation.thy ===== *)
theory RustEmulation
  imports Emulation
begin

text \<open>
  What the addon makes of the JSON of a custom emulation (rust/src/custom_emulation.rs): the structures
  it deserialises to with \<open>serde\<close>, the checks of the \<open>build_\<close> functions, and the overlay on a preset.

  A derived deserialiser is a predicate on JSON values; a structure is a table of its fields. A builder
  of the HTTP library is the list of its calls. Parameters: the parser of JSON text, and \<open>header_lib\<close>,
  which names and values the library accepts as headers, and what a preset brings along.
\<close>

section \<open>JSON values\<close>

text \<open>The value whose text \<open>JSON.stringify\<close> writes, \<open>None\<close> if it writes none.\<close>

fun json_form :: "jsval \<Rightarrow> jsval option" where
  "json_form JUndefined = None"
| "json_form (JFunction s) = None"
| "json_form (JNumber n) = Some (if is_finite n then JNumber n else JNull)"
| "json_form (JArray vs) = Some (JArray (map (\<lambda>v. case json_form v of None \<Rightarrow> JNull | Some w \<Rightarrow> w) vs))"
| "json_form (JObject ps) = Some (JObject (concat (map (\<lambda>p. case json_form (snd p) of
      None \<Rightarrow> [] | Some w \<Rightarrow> [(fst p, w)]) ps)))"
| "json_form (JHeaders st) = Some (JObject [(''store'', JObject [])])"
| "json_form (JIterable s vs) = Some (JObject [])"
| "json_form (JInstance c s) = Some (JObject [])"
| "json_form v = Some v"

definition json_props :: "props \<Rightarrow> props" where
  "json_props ps = concat (map (\<lambda>p. case json_form (snd p) of None \<Rightarrow> [] | Some w \<Rightarrow> [(fst p, w)]) ps)"

lemma json_form_JObject: "json_form (JObject ps) = Some (JObject (json_props ps))"
  by (simp add: json_props_def)

lemma json_props_Nil [simp]: "json_props [] = []"
  by (simp add: json_props_def)

lemma json_props_Cons [simp]:
  "json_props ((k, v) # ps) = (case json_form v of None \<Rightarrow> json_props ps | Some w \<Rightarrow> (k, w) # json_props ps)"
  by (simp add: json_props_def split: option.split)

lemma json_props_keys: "set (map fst (json_props ps)) \<subseteq> set (map fst ps)"
proof (induction ps)
  case (Cons p ps)
  then show ?case by (cases p) (auto split: option.split)
qed simp

lemma map_of_json_props:
  "distinct (map fst ps) \<Longrightarrow> map_of (json_props ps) k = json_form (lookup ps k)"
proof (induction ps)
  case (Cons p ps)
  obtain a v where p: "p = (a, v)" by fastforce
  with Cons.prems have "a \<notin> set (map fst (json_props ps))"
    using json_props_keys [of ps] by auto
  then have "map_of (json_props ps) a = None" by (simp only: map_of_eq_None_iff set_map) simp
  with Cons p show ?case
    by (auto split: option.split)
qed simp

section \<open>Deserialisers\<close>

definition de_bool :: "jsval \<Rightarrow> bool" where
  "de_bool v = (case v of JBool _ \<Rightarrow> True | _ \<Rightarrow> False)"

definition de_string :: "jsval \<Rightarrow> bool" where
  "de_string v = (case v of JString _ \<Rightarrow> True | _ \<Rightarrow> False)"

text \<open>An unsigned integer of \<open>w\<close> bits; a number with a fraction is refused.\<close>

definition de_uint :: "nat \<Rightarrow> jsval \<Rightarrow> bool" where
  "de_uint w v = (case v of JNumber (NumInt i) \<Rightarrow> 0 \<le> i \<and> i < 2 ^ w | _ \<Rightarrow> False)"

definition de_option :: "(jsval \<Rightarrow> bool) \<Rightarrow> jsval \<Rightarrow> bool" where
  "de_option f v \<longleftrightarrow> v = JNull \<or> f v"

definition de_vec :: "(jsval \<Rightarrow> bool) \<Rightarrow> jsval \<Rightarrow> bool" where
  "de_vec f v = (case v of JArray vs \<Rightarrow> list_all f vs | _ \<Rightarrow> False)"

definition de_pair :: "(jsval \<Rightarrow> bool) \<Rightarrow> (jsval \<Rightarrow> bool) \<Rightarrow> jsval \<Rightarrow> bool" where
  "de_pair f g v = (case v of JArray [x, y] \<Rightarrow> f x \<and> g y | _ \<Rightarrow> False)"

text \<open>
  A field: its name, whether it may be missing, its type. A structure is read from an object, whose
  other properties are ignored, or from an array with the fields in their order.
\<close>

type_synonym struct_field = "string \<times> bool \<times> (jsval \<Rightarrow> bool)"

fun de_seq :: "struct_field list \<Rightarrow> jsval list \<Rightarrow> bool" where
  "de_seq [] vs = (vs = [])"
| "de_seq ((k, missing, f) # fs) [] = (missing \<and> de_seq fs [])"
| "de_seq ((k, missing, f) # fs) (v # vs) = (f v \<and> de_seq fs vs)"

definition de_struct :: "struct_field list \<Rightarrow> jsval \<Rightarrow> bool" where
  "de_struct fs v = (case v of
      JObject ps \<Rightarrow> list_all (\<lambda>(k, missing, f). case map_of ps k of None \<Rightarrow> missing | Some x \<Rightarrow> f x) fs
    | JArray vs \<Rightarrow> de_seq fs vs
    | _ \<Rightarrow> False)"

text \<open>\<open>#[serde(default)] k: Option<T>\<close>\<close>

definition opt_field :: "string \<Rightarrow> (jsval \<Rightarrow> bool) \<Rightarrow> struct_field" where
  "opt_field k f = (k, True, de_option f)"

definition CustomTlsOptions :: "struct_field list" where
  "CustomTlsOptions = [
     opt_field ''alpnProtocols'' (de_vec de_string),
     opt_field ''alpsProtocols'' (de_vec de_string),
     opt_field ''alpsUseNewCodepoint'' de_bool,
     opt_field ''sessionTicket'' de_bool,
     opt_field ''minTlsVersion'' de_string,
     opt_field ''maxTlsVersion'' de_string,
     opt_field ''preSharedKey'' de_bool,
     opt_field ''enableEchGrease'' de_bool,
     opt_field ''permuteExtensions'' de_bool,
     opt_field ''greaseEnabled'' de_bool,
     opt_field ''enableOcspStapling'' de_bool,
     opt_field ''enableSignedCertTimestamps'' de_bool,
     opt_field ''recordSizeLimit'' (de_uint 16),
     opt_field ''pskSkipSessionTicket'' de_bool,
     opt_field ''pskDheKe'' de_bool,
     opt_field ''renegotiation'' de_bool,
     opt_field ''delegatedCredentials'' de_string,
     opt_field ''curvesList'' de_string,
     opt_field ''cipherList'' de_string,
     opt_field ''sigalgsList'' de_string,
     opt_field ''certificateCompressionAlgorithms'' (de_vec de_string),
     opt_field ''extensionPermutation'' (de_vec (de_uint 16)),
     opt_field ''aesHwOverride'' de_bool,
     opt_field ''preserveTls13CipherList'' de_bool,
     opt_field ''randomAesHwOverride'' de_bool]"

text \<open>A \<open>usize\<close> has 64 bits on every platform the addon is built for.\<close>

definition CustomHttp1Options :: "struct_field list" where
  "CustomHttp1Options = [
     opt_field ''http09Responses'' de_bool,
     opt_field ''writev'' de_bool,
     opt_field ''maxHeaders'' (de_uint 64),
     opt_field ''readBufExactSize'' (de_uint 64),
     opt_field ''maxBufSize'' (de_uint 64),
     opt_field ''ignoreInvalidHeadersInResponses'' de_bool,
     opt_field ''allowSpacesAfterHeaderNameInResponses'' de_bool,
     opt_field ''allowObsoleteMultilineHeadersInResponses'' de_bool]"

definition CustomHttp2StreamDependency :: "struct_field list" where
  "CustomHttp2StreamDependency = [
     (''dependencyId'', False, de_uint 32),
     (''weight'', False, de_uint 8),
     (''exclusive'', True, de_bool)]"

definition CustomHttp2Priority :: "struct_field list" where
  "CustomHttp2Priority = [
     (''streamId'', False, de_uint 32),
     (''dependency'', False, de_struct CustomHttp2StreamDependency)]"

definition CustomHttp2Options :: "struct_field list" where
  "CustomHttp2Options = [
     opt_field ''adaptiveWindow'' de_bool,
     opt_field ''initialStreamId'' (de_uint 32),
     opt_field ''initialConnectionWindowSize'' (de_uint 32),
     opt_field ''initialWindowSize'' (de_uint 32),
     opt_field ''initialMaxSendStreams'' (de_uint 64),
     opt_field ''maxFrameSize'' (de_uint 32),
     opt_field ''keepAliveInterval'' (de_uint 64),
     opt_field ''keepAliveTimeout'' (de_uint 64),
     opt_field ''keepAliveWhileIdle'' de_bool,
     opt_field ''maxConcurrentResetStreams'' (de_uint 64),
     opt_field ''maxSendBufferSize'' (de_uint 64),
     opt_field ''maxConcurrentStreams'' (de_uint 32),
     opt_field ''maxHeaderListSize'' (de_uint 32),
     opt_field ''maxPendingAcceptResetStreams'' (de_uint 64),
     opt_field ''enablePush'' de_bool,
     opt_field ''headerTableSize'' (de_uint 32),
     opt_field ''enableConnectProtocol'' de_bool,
     opt_field ''noRfc7540Priorities'' de_bool,
     opt_field ''settingsOrder'' (de_vec de_string),
     opt_field ''headersPseudoOrder'' (de_vec de_string),
     opt_field ''headersStreamDependency'' (de_struct CustomHttp2StreamDependency),
     opt_field ''priorities'' (de_vec (de_struct CustomHttp2Priority))]"

definition CustomEmulationPayload :: "struct_field list" where
  "CustomEmulationPayload = [
     opt_field ''tlsOptions'' (de_struct CustomTlsOptions),
     opt_field ''http1Options'' (de_struct CustomHttp1Options),
     opt_field ''http2Options'' (de_struct CustomHttp2Options),
     opt_field ''headers'' (de_vec (de_pair de_string de_string)),
     opt_field ''origHeaders'' (de_vec de_string)]"

definition parse_payload :: "(string \<Rightarrow> jsval option) \<Rightarrow> string \<Rightarrow> jsval res" where
  "parse_payload from_str emulation_json = (case from_str emulation_json of
      Some v \<Rightarrow>
        (if de_struct CustomEmulationPayload v then Inr v
         else Inl (PlainError ''Failed to parse emulation JSON''))
    | None \<Rightarrow> Inl (PlainError ''Failed to parse emulation JSON''))"

definition struct_props :: "struct_field list \<Rightarrow> jsval \<Rightarrow> props" where
  "struct_props fs v = (case v of
      JObject ps \<Rightarrow> ps
    | JArray vs \<Rightarrow> zip (map fst fs) vs
    | _ \<Rightarrow> [])"

text \<open>The value of an optional field; null is absent.\<close>

definition given :: "props \<Rightarrow> string \<Rightarrow> jsval option" where
  "given ps k = (case map_of ps k of Some JNull \<Rightarrow> None | r \<Rightarrow> r)"

definition payload_is_empty :: "jsval \<Rightarrow> bool" where
  "payload_is_empty payload =
     (let ps = struct_props CustomEmulationPayload payload in
      given ps ''tlsOptions'' = None \<and> given ps ''http1Options'' = None \<and> given ps ''http2Options'' = None \<and>
      given ps ''headers'' \<in> {None, Some (JArray [])} \<and> given ps ''origHeaders'' \<in> {None, Some (JArray [])})"

section \<open>Enumerations\<close>

text \<open>A constant of the library is its name.\<close>

definition invalid :: "string \<Rightarrow> string \<Rightarrow> 'a res" where
  "invalid what other = Inl (PlainError (''Invalid '' @ what @ '': '' @ other))"

definition parse_tls_version :: "string \<Rightarrow> string res" where
  "parse_tls_version value =
     (if value = ''1.0'' \<or> value = ''TLS1.0'' then Inr ''TLS_1_0''
      else if value = ''1.1'' \<or> value = ''TLS1.1'' then Inr ''TLS_1_1''
      else if value = ''1.2'' \<or> value = ''TLS1.2'' then Inr ''TLS_1_2''
      else if value = ''1.3'' \<or> value = ''TLS1.3'' then Inr ''TLS_1_3''
      else invalid ''TLS version'' value)"

definition parse_alpn_protocol :: "string \<Rightarrow> string res" where
  "parse_alpn_protocol value =
     (if value \<in> {''HTTP1'', ''HTTP2'', ''HTTP3''} then Inr value else invalid ''ALPN protocol'' value)"

definition parse_alps_protocol :: "string \<Rightarrow> string res" where
  "parse_alps_protocol value =
     (if value \<in> {''HTTP1'', ''HTTP2'', ''HTTP3''} then Inr value else invalid ''ALPS protocol'' value)"

definition parse_certificate_compressor :: "string \<Rightarrow> string res" where
  "parse_certificate_compressor value =
     (if value = ''zlib'' then Inr ''ZlibCompressor''
      else if value = ''brotli'' then Inr ''BrotliCompressor''
      else if value = ''zstd'' then Inr ''ZstdCompressor''
      else invalid ''certificate compression algorithm'' value)"

definition parse_pseudo_id :: "string \<Rightarrow> string res" where
  "parse_pseudo_id value =
     (if value \<in> {''Method'', ''Scheme'', ''Authority'', ''Path'', ''Protocol''} then Inr value
      else invalid ''HTTP/2 pseudo-header id'' value)"

definition parse_http2_setting_id :: "string \<Rightarrow> string res" where
  "parse_http2_setting_id value =
     (if value \<in> {''HeaderTableSize'', ''EnablePush'', ''MaxConcurrentStreams'', ''InitialWindowSize'',
                  ''MaxFrameSize'', ''MaxHeaderListSize'', ''EnableConnectProtocol'', ''NoRfc7540Priorities''}
      then Inr value else invalid ''HTTP/2 setting id'' value)"

section \<open>Builders\<close>

text \<open>The calls on a builder: the method and its argument, enumerations as their constants.\<close>

type_synonym builder = "(string \<times> jsval) list"

text \<open>\<open>if let Some(value) = options.k { builder = builder.method(convert(value)?); }\<close>\<close>

type_synonym build_step = "string \<times> string \<times> (jsval \<Rightarrow> jsval res)"

fun build_steps :: "build_step list \<Rightarrow> props \<Rightarrow> builder res" where
  "build_steps [] ps = Inr []"
| "build_steps ((k, call, convert) # steps) ps =
     res_bind (case given ps k of
         None \<Rightarrow> Inr []
       | Some v \<Rightarrow> res_bind (convert v) (\<lambda>w. Inr [(call, w)])) (\<lambda>here.
     res_bind (build_steps steps ps) (\<lambda>rest. Inr (here @ rest)))"

definition each :: "(string \<Rightarrow> string res) \<Rightarrow> jsval list \<Rightarrow> jsval list res" where
  "each parse vs = foldr (\<lambda>v rest. res_bind (parse (js_string v)) (\<lambda>c.
     res_bind rest (\<lambda>cs. Inr (JString c # cs)))) vs (Inr [])"

definition elements :: "jsval \<Rightarrow> jsval list" where
  "elements v = (case v of JArray vs \<Rightarrow> vs | _ \<Rightarrow> [])"

definition parsed_list :: "(string \<Rightarrow> string res) \<Rightarrow> jsval \<Rightarrow> jsval res" where
  "parsed_list parse v = res_bind (each parse (elements v)) (\<lambda>cs. Inr (JArray cs))"

definition parsed :: "(string \<Rightarrow> string res) \<Rightarrow> jsval \<Rightarrow> jsval res" where
  "parsed parse v = res_bind (parse (js_string v)) (\<lambda>c. Inr (JString c))"

definition tls_steps :: "build_step list" where
  "tls_steps = [
     (''alpnProtocols'', ''alpn_protocols'', parsed_list parse_alpn_protocol),
     (''alpsProtocols'', ''alps_protocols'', parsed_list parse_alps_protocol),
     (''alpsUseNewCodepoint'', ''alps_use_new_codepoint'', Inr),
     (''sessionTicket'', ''session_ticket'', Inr),
     (''minTlsVersion'', ''min_tls_version'', parsed parse_tls_version),
     (''maxTlsVersion'', ''max_tls_version'', parsed parse_tls_version),
     (''preSharedKey'', ''pre_shared_key'', Inr),
     (''enableEchGrease'', ''enable_ech_grease'', Inr),
     (''permuteExtensions'', ''permute_extensions'', Inr),
     (''greaseEnabled'', ''grease_enabled'', Inr),
     (''enableOcspStapling'', ''enable_ocsp_stapling'', Inr),
     (''enableSignedCertTimestamps'', ''enable_signed_cert_timestamps'', Inr),
     (''recordSizeLimit'', ''record_size_limit'', Inr),
     (''pskSkipSessionTicket'', ''psk_skip_session_ticket'', Inr),
     (''pskDheKe'', ''psk_dhe_ke'', Inr),
     (''renegotiation'', ''renegotiation'', Inr),
     (''delegatedCredentials'', ''delegated_credentials'', Inr),
     (''curvesList'', ''curves_list'', Inr),
     (''cipherList'', ''cipher_list'', Inr),
     (''sigalgsList'', ''sigalgs_list'', Inr),
     (''certificateCompressionAlgorithms'', ''certificate_compressors'', parsed_list parse_certificate_compressor),
     (''extensionPermutation'', ''extension_permutation'', Inr),
     (''aesHwOverride'', ''aes_hw_override'', Inr),
     (''preserveTls13CipherList'', ''preserve_tls13_cipher_list'', Inr),
     (''randomAesHwOverride'', ''random_aes_hw_override'', Inr)]"

definition build_tls_options :: "jsval \<Rightarrow> builder res" where
  "build_tls_options options = build_steps tls_steps (struct_props CustomTlsOptions options)"

definition at_least_8192 :: "jsval \<Rightarrow> jsval res" where
  "at_least_8192 v = res_bind (throw_if (case v of JNumber n \<Rightarrow> num_less n 8192 | _ \<Rightarrow> False)
     (PlainError ''Invalid emulation http1Options.maxBufSize: must be at least 8192'')) (\<lambda>_. Inr v)"

definition http1_steps :: "build_step list" where
  "http1_steps = [
     (''http09Responses'', ''http09_responses'', Inr),
     (''writev'', ''writev'', Inr),
     (''maxHeaders'', ''max_headers'', Inr),
     (''readBufExactSize'', ''read_buf_exact_size'', Inr),
     (''maxBufSize'', ''max_buf_size'', at_least_8192)]"

definition http1_parser_steps :: "build_step list" where
  "http1_parser_steps = [
     (''ignoreInvalidHeadersInResponses'', ''ignore_invalid_headers_in_responses'', Inr),
     (''allowSpacesAfterHeaderNameInResponses'', ''allow_spaces_after_header_name_in_responses'', Inr),
     (''allowObsoleteMultilineHeadersInResponses'', ''allow_obsolete_multiline_headers_in_responses'', Inr)]"

definition build_http1_options :: "jsval \<Rightarrow> builder res" where
  "build_http1_options options =
     (let ps = struct_props CustomHttp1Options options in
      res_bind (build_steps http1_steps ps) (\<lambda>sizes.
      res_bind (throw_if (given ps ''readBufExactSize'' \<noteq> None \<and> given ps ''maxBufSize'' \<noteq> None)
        (PlainError ''Invalid emulation http1Options: readBufExactSize and maxBufSize cannot both be set'')) (\<lambda>_.
      res_bind (build_steps http1_parser_steps ps) (\<lambda>rest.
      Inr (sizes @ rest)))))"

text \<open>The loops over ordered identifiers: each is parsed, then must be new.\<close>

fun build_order ::
  "string \<Rightarrow> (string \<Rightarrow> string res) \<Rightarrow> string list \<Rightarrow> jsval list \<Rightarrow> jsval list res" where
  "build_order what parse seen [] = Inr []"
| "build_order what parse seen (v # vs) =
     res_bind (parse (js_string v)) (\<lambda>c.
     if js_string v \<in> set seen
     then Inl (PlainError (''Duplicate emulation http2Options.'' @ what @ '' entry: '' @ js_string v))
     else res_bind (build_order what parse (js_string v # seen) vs) (\<lambda>cs. Inr (JString c # cs)))"

definition build_settings_order :: "jsval \<Rightarrow> jsval res" where
  "build_settings_order v =
     res_bind (build_order ''settingsOrder'' parse_http2_setting_id [] (elements v)) (\<lambda>cs. Inr (JArray cs))"

definition build_pseudo_order :: "jsval \<Rightarrow> jsval res" where
  "build_pseudo_order v =
     res_bind (build_order ''headersPseudoOrder'' parse_pseudo_id [] (elements v)) (\<lambda>cs. Inr (JArray cs))"

text \<open>\<open>StreamDependency::new(id, weight, exclusive)\<close>; without \<open>exclusive\<close> it is false.\<close>

definition stream_dependency :: "jsval \<Rightarrow> jsval" where
  "stream_dependency v =
     (let ps = struct_props CustomHttp2StreamDependency v in
      JArray [lookup ps ''dependencyId'', lookup ps ''weight'',
              if lookup ps ''exclusive'' = JUndefined then JBool False else lookup ps ''exclusive''])"

fun priorities_steps :: "jsval list \<Rightarrow> jsval list \<Rightarrow> jsval list res" where
  "priorities_steps seen [] = Inr []"
| "priorities_steps seen (v # vs) =
     (let ps = struct_props CustomHttp2Priority v; streamId = lookup ps ''streamId'' in
      if streamId = JNumber (NumInt 0)
      then Inl (PlainError ''Invalid emulation http2Options.priorities entry: streamId must be greater than 0'')
      else if streamId \<in> set seen
      then Inl (PlainError (''Duplicate emulation http2Options.priorities streamId: '' @ js_string streamId))
      else res_bind (priorities_steps (streamId # seen) vs) (\<lambda>rest.
        Inr (JArray [streamId, stream_dependency (lookup ps ''dependency'')] # rest)))"

definition build_priorities :: "jsval \<Rightarrow> jsval res" where
  "build_priorities v = res_bind (priorities_steps [] (elements v)) (\<lambda>ps. Inr (JArray ps))"

definition http2_steps :: "build_step list" where
  "http2_steps = [
     (''adaptiveWindow'', ''adaptive_window'', Inr),
     (''initialStreamId'', ''initial_stream_id'', Inr),
     (''initialConnectionWindowSize'', ''initial_connection_window_size'', Inr),
     (''initialWindowSize'', ''initial_window_size'', Inr),
     (''initialMaxSendStreams'', ''initial_max_send_streams'', Inr),
     (''maxFrameSize'', ''max_frame_size'', Inr),
     (''keepAliveInterval'', ''keep_alive_interval'', Inr),
     (''keepAliveTimeout'', ''keep_alive_timeout'', Inr),
     (''keepAliveWhileIdle'', ''keep_alive_while_idle'', Inr),
     (''maxConcurrentResetStreams'', ''max_concurrent_reset_streams'', Inr),
     (''maxSendBufferSize'', ''max_send_buf_size'', Inr),
     (''maxConcurrentStreams'', ''max_concurrent_streams'', Inr),
     (''maxHeaderListSize'', ''max_header_list_size'', Inr),
     (''maxPendingAcceptResetStreams'', ''max_pending_accept_reset_streams'', Inr),
     (''enablePush'', ''enable_push'', Inr),
     (''headerTableSize'', ''header_table_size'', Inr),
     (''enableConnectProtocol'', ''enable_connect_protocol'', Inr),
     (''noRfc7540Priorities'', ''no_rfc7540_priorities'', Inr),
     (''settingsOrder'', ''settings_order'', build_settings_order),
     (''headersPseudoOrder'', ''headers_pseudo_order'', build_pseudo_order),
     (''headersStreamDependency'', ''headers_stream_dependency'', \<lambda>v. Inr (stream_dependency v)),
     (''priorities'', ''priorities'', build_priorities)]"

definition build_http2_options :: "jsval \<Rightarrow> builder res" where
  "build_http2_options options = build_steps http2_steps (struct_props CustomHttp2Options options)"

section \<open>Headers\<close>

text \<open>
  The library's \<open>HeaderMap\<close>: the values of each name in order, names folded to lower case.
  \<open>HeaderName::from_bytes\<close> is \<open>name_of\<close>, the folded name if it is one; \<open>HeaderValue::from_str\<close> accepts
  the strings for which \<open>value_ok\<close> holds.
\<close>

record header_lib =
  name_of :: "string \<Rightarrow> string option"
  value_ok :: "string \<Rightarrow> bool"

type_synonym header_map = "string \<Rightarrow> string list"

definition header_pair :: "jsval \<Rightarrow> HeaderTuple" where
  "header_pair v = (case v of JArray [JString n, JString x] \<Rightarrow> (n, x) | _ \<Rightarrow> ([], []))"

definition checked_header :: "header_lib \<Rightarrow> HeaderTuple \<Rightarrow> (string \<times> string) res" where
  "checked_header lib h = (case name_of lib (fst h) of
      None \<Rightarrow> Inl (PlainError (''Invalid emulation header name: '' @ fst h))
    | Some n \<Rightarrow>
        (if value_ok lib (snd h) then Inr (n, snd h)
         else Inl (PlainError (''Invalid emulation header value for '' @ fst h))))"

definition append_value :: "header_map \<Rightarrow> string \<Rightarrow> string \<Rightarrow> header_map" where
  "append_value m n v = m(n := m n @ [v])"

definition merge_step ::
  "header_lib \<Rightarrow> header_map \<times> string list \<Rightarrow> HeaderTuple \<Rightarrow> (header_map \<times> string list) res" where
  "merge_step lib s h =
     (let (target, removed) = s in
      res_bind (checked_header lib h) (\<lambda>(n, v).
        if n \<in> set removed then Inr (append_value target n v, removed)
        else Inr (append_value (target(n := [])) n v, n # removed)))"

definition merge_header_map :: "header_lib \<Rightarrow> header_map \<Rightarrow> HeaderTuple list \<Rightarrow> header_map res" where
  "merge_header_map lib target headers =
     res_bind (res_foldl (merge_step lib) (target, []) headers) (\<lambda>s. Inr (fst s))"

definition build_header_map :: "header_lib \<Rightarrow> HeaderTuple list \<Rightarrow> header_map res" where
  "build_header_map lib headers =
     res_foldl (\<lambda>m h. res_bind (checked_header lib h) (\<lambda>(n, v). Inr (append_value m n v))) (\<lambda>_. []) headers"

text \<open>\<open>str::trim\<close> and \<open>to_ascii_lowercase\<close>, on codes below 256.\<close>

definition rust_space :: "char \<Rightarrow> bool" where
  "rust_space c \<longleftrightarrow> (let k = code_unit c in 9 \<le> k \<and> k \<le> 13 \<or> k = 32 \<or> k = 133 \<or> k = 160)"

definition rust_trim :: "string \<Rightarrow> string" where
  "rust_trim s = rev (dropWhile rust_space (rev (dropWhile rust_space s)))"

definition ascii_lower :: "string \<Rightarrow> string" where
  "ascii_lower s = map (\<lambda>c. if 65 \<le> code_unit c \<and> code_unit c \<le> 90 then char_of (code_unit c + 32) else c) s"

text \<open>A library that takes every word for a header name, for the examples.\<close>

definition ascii_lib :: header_lib where
  "ascii_lib = \<lparr>name_of = (\<lambda>s. if s \<noteq> [] \<and> list_all (\<lambda>c. \<not> rust_space c) s then Some (ascii_lower s) else None),
     value_ok = (\<lambda>_. True)\<rparr>"

text \<open>The \<open>OrigHeaderMap\<close> is the list of the names inserted, in order.\<close>

fun build_orig_header_map :: "header_lib \<Rightarrow> string list \<Rightarrow> string list \<Rightarrow> string list res" where
  "build_orig_header_map lib seen [] = Inr []"
| "build_orig_header_map lib seen (orig_header # rest) =
     (let trimmed = rust_trim orig_header; dedupe_key = ascii_lower trimmed in
      if trimmed = [] then Inl (PlainError ''Invalid emulation origHeaders entry: header name must not be empty'')
      else if name_of lib trimmed = None
      then Inl (PlainError (''Invalid emulation origHeaders entry: '' @ trimmed))
      else if dedupe_key \<in> set seen
      then Inl (PlainError (''Duplicate emulation origHeaders entry: '' @ trimmed))
      else res_bind (build_orig_header_map lib (dedupe_key # seen) rest) (\<lambda>names. Inr (trimmed # names)))"

section \<open>The emulation\<close>

record wreq_emulation =
  em_tls_options :: "builder option"
  em_http1_options :: "builder option"
  em_http2_options :: "builder option"
  em_headers :: header_map
  em_orig_headers :: "string list"

text \<open>\<open>if let Some(value) = payload.k { ... }\<close>\<close>

definition with_option :: "jsval option \<Rightarrow> (jsval \<Rightarrow> 'a \<Rightarrow> 'a res) \<Rightarrow> 'a \<Rightarrow> 'a res" where
  "with_option x f e = (case x of None \<Rightarrow> Inr e | Some v \<Rightarrow> f v e)"

definition apply_payload :: "header_lib \<Rightarrow> bool \<Rightarrow> jsval \<Rightarrow> wreq_emulation \<Rightarrow> wreq_emulation res" where
  "apply_payload lib overlay_on_preset payload e =
     (let ps = struct_props CustomEmulationPayload payload in
      res_bind (with_option (given ps ''tlsOptions'')
        (\<lambda>v e. res_bind (build_tls_options v) (\<lambda>b. Inr (e\<lparr>em_tls_options := Some b\<rparr>))) e) (\<lambda>e.
      res_bind (with_option (given ps ''http1Options'')
        (\<lambda>v e. res_bind (build_http1_options v) (\<lambda>b. Inr (e\<lparr>em_http1_options := Some b\<rparr>))) e) (\<lambda>e.
      res_bind (with_option (given ps ''http2Options'')
        (\<lambda>v e. res_bind (build_http2_options v) (\<lambda>b. Inr (e\<lparr>em_http2_options := Some b\<rparr>))) e) (\<lambda>e.
      res_bind (with_option (given ps ''headers'') (\<lambda>v e.
        let headers = map header_pair (elements v) in
        res_bind (if overlay_on_preset then merge_header_map lib (em_headers e) headers
                  else build_header_map lib headers) (\<lambda>m. Inr (e\<lparr>em_headers := m\<rparr>))) e) (\<lambda>e.
      with_option (given ps ''origHeaders'') (\<lambda>v e.
        res_bind (build_orig_header_map lib [] (map js_string (elements v))) (\<lambda>names.
        Inr (e\<lparr>em_orig_headers := (if overlay_on_preset then em_orig_headers e @ names else names)\<rparr>))) e)))))"

definition resolve_preset_emulation ::
  "header_lib \<Rightarrow> (string \<Rightarrow> jsval option) \<Rightarrow> wreq_emulation \<Rightarrow> string option \<Rightarrow> wreq_emulation res" where
  "resolve_preset_emulation lib from_str preset emulation_json = (case emulation_json of
      None \<Rightarrow> Inr preset
    | Some j \<Rightarrow> res_bind (parse_payload from_str j) (\<lambda>payload. apply_payload lib True payload preset))"

text \<open>\<open>WreqEmulation::builder().build(group)\<close>; the group only names the pool.\<close>

definition no_emulation :: wreq_emulation where
  "no_emulation = \<lparr>em_tls_options = None, em_http1_options = None, em_http2_options = None,
     em_headers = (\<lambda>_. []), em_orig_headers = []\<rparr>"

definition resolve_custom_emulation ::
  "header_lib \<Rightarrow> (string \<Rightarrow> jsval option) \<Rightarrow> string \<Rightarrow> wreq_emulation res" where
  "resolve_custom_emulation lib from_str emulation_json =
     res_bind (parse_payload from_str emulation_json) (\<lambda>payload.
     if payload_is_empty payload
     then Inl (PlainError ''Standalone custom emulation requires at least one of tlsOptions, http1Options, http2Options, headers, or origHeaders'')
     else apply_payload lib False payload no_emulation)"

text \<open>The preset of a profile on a platform is the argument \<open>preset\<close>.\<close>

definition resolve_emulation ::
  "header_lib \<Rightarrow> (string \<Rightarrow> jsval option) \<Rightarrow> ('p \<Rightarrow> 'o \<Rightarrow> wreq_emulation) \<Rightarrow> 'p option \<Rightarrow> 'o option \<Rightarrow>
     string option \<Rightarrow> wreq_emulation res" where
  "resolve_emulation lib from_str preset browser os emulation_json =
     (case (browser, os, emulation_json) of
        (Some b, Some s, j) \<Rightarrow> resolve_preset_emulation lib from_str (preset b s) j
      | (None, None, Some j) \<Rightarrow> resolve_custom_emulation lib from_str j
      | (None, None, None) \<Rightarrow> Inl (PlainError ''Missing emulation configuration'')
      | _ \<Rightarrow> Inl (PlainError ''Invalid emulation configuration dispatched from JS''))"

section \<open>Overlaying headers\<close>

definition header_names :: "header_lib \<Rightarrow> HeaderTuple list \<Rightarrow> string list" where
  "header_names lib hs = map (\<lambda>h. the (name_of lib (fst h))) hs"

definition values_of :: "header_lib \<Rightarrow> HeaderTuple list \<Rightarrow> string \<Rightarrow> string list" where
  "values_of lib hs n = map snd (filter (\<lambda>h. name_of lib (fst h) = Some n) hs)"

definition header_valid :: "header_lib \<Rightarrow> HeaderTuple \<Rightarrow> bool" where
  "header_valid lib h \<longleftrightarrow> name_of lib (fst h) \<noteq> None \<and> value_ok lib (snd h)"

lemma checked_header_Inr:
  "checked_header lib h = Inr p \<longleftrightarrow> header_valid lib h \<and> p = (the (name_of lib (fst h)), snd h)"
  by (auto simp: checked_header_def header_valid_def split: option.split)

lemma merge_step_valid:
  assumes "header_valid lib h" "n = the (name_of lib (fst h))"
  shows "merge_step lib (m, removed) h =
    (if n \<in> set removed then Inr (append_value m n (snd h), removed)
     else Inr (m(n := [snd h]), n # removed))"
  using assms by (auto simp: merge_step_def checked_header_def header_valid_def append_value_def)

lemma merge_steps_Inr:
  "res_foldl (merge_step lib) (m, removed) hs = Inr s' \<Longrightarrow>
     list_all (header_valid lib) hs \<and>
     fst s' = (\<lambda>n. (if n \<in> set (header_names lib hs) - set removed then [] else m n) @ values_of lib hs n)"
proof (induction hs arbitrary: m removed)
  case Nil
  then show ?case by (auto simp: header_names_def values_of_def)
next
  case (Cons h hs)
  then have h: "header_valid lib h"
    by (auto simp: merge_step_def checked_header_Inr res_bind_Inr_iff)
  define n where n: "n = the (name_of lib (fst h))"
  have name: "name_of lib (fst h) = Some n" using h by (auto simp: header_valid_def n)
  show ?case
  proof (cases "n \<in> set removed")
    case True
    with Cons.prems h n have "res_foldl (merge_step lib) (append_value m n (snd h), removed) hs = Inr s'"
      by (simp add: merge_step_valid)
    from Cons.IH [OF this] h name True show ?thesis
      by (auto simp: header_names_def values_of_def append_value_def fun_eq_iff)
  next
    case False
    with Cons.prems h n have "res_foldl (merge_step lib) (m(n := [snd h]), n # removed) hs = Inr s'"
      by (simp add: merge_step_valid)
    from Cons.IH [OF this] h name False show ?thesis
      by (auto simp: header_names_def values_of_def fun_eq_iff)
  qed
qed

lemma merge_steps_total:
  "list_all (header_valid lib) hs \<Longrightarrow> \<exists>s'. res_foldl (merge_step lib) (m, removed) hs = Inr s'"
  by (induction hs arbitrary: m removed) (auto simp: merge_step_valid)

lemma merge_header_map_Inr:
  "merge_header_map lib m hs = Inr m' \<longleftrightarrow>
     list_all (header_valid lib) hs \<and>
     m' = (\<lambda>n. if n \<in> set (header_names lib hs) then values_of lib hs n else m n)"
proof (cases "list_all (header_valid lib) hs")
  case True
  have "n \<notin> set (header_names lib hs) \<Longrightarrow> values_of lib hs n = []" for n
    by (auto simp: header_names_def values_of_def filter_empty_conv image_iff)
  then have merged: "(\<lambda>n. (if n \<in> set (header_names lib hs) - set [] then [] else m n) @ values_of lib hs n) =
      (\<lambda>n. if n \<in> set (header_names lib hs) then values_of lib hs n else m n)"
    by (auto simp: fun_eq_iff)
  from merge_steps_total [OF True] obtain s' where s': "res_foldl (merge_step lib) (m, []) hs = Inr s'"
    by blast
  with merge_steps_Inr [OF s'] True merged show ?thesis
    by (auto simp: merge_header_map_def)
next
  case False
  then show ?thesis
    using merge_steps_Inr [of lib m "[]" hs] by (auto simp: merge_header_map_def res_bind_Inr_iff)
qed

lemma build_header_map_Inr:
  "build_header_map lib hs = Inr m \<longleftrightarrow> list_all (header_valid lib) hs \<and> m = values_of lib hs"
proof -
  have "res_foldl (\<lambda>m h. res_bind (checked_header lib h) (\<lambda>(n, v). Inr (append_value m n v))) m0 hs = Inr m \<longleftrightarrow>
      list_all (header_valid lib) hs \<and> m = (\<lambda>n. m0 n @ values_of lib hs n)" for m0
  proof (induction hs arbitrary: m0)
    case Nil
    then show ?case by (auto simp: values_of_def)
  next
    case (Cons h hs)
    show ?case
    proof (cases "header_valid lib h")
      case True
      then have "checked_header lib h = Inr (the (name_of lib (fst h)), snd h)"
        by (simp add: checked_header_Inr)
      moreover have "name_of lib (fst h) \<noteq> None" using True by (simp add: header_valid_def)
      ultimately show ?thesis
        using True Cons by (auto simp: values_of_def append_value_def fun_eq_iff)
    next
      case False
      then show ?thesis by (auto simp: res_bind_Inr_iff checked_header_Inr)
    qed
  qed
  then show ?thesis by (simp add: build_header_map_def)
qed

end
