(* ===== verification/RustAcceptance.thy ===== *)
theory RustAcceptance
  imports RustEmulation
begin

text \<open>
  Which custom emulations the addon accepts of those \<open>normalizeCustomEmulationOptions\<close> lets through.
  The normalisation checks lists, enumerations and ranges, but copies its flags and its cipher lists as
  they are (\<open>declared_types\<close> says that they have the documented types) and allows any non-negative
  integer for a size (\<open>sizes_fit\<close> says that each fits its field in the addon). Each lemma compares one
  structure of the addon with the object of the normalisation it is read from.
\<close>

section \<open>What the normalisation leaves open\<close>

text \<open>A value whose JSON is a boolean (a string), or is read as absent.\<close>

definition json_absent :: "jsval \<Rightarrow> bool" where
  "json_absent v = (case json_form v of None \<Rightarrow> True | Some w \<Rightarrow> w = JNull)"

definition flag_ok :: "jsval \<Rightarrow> bool" where
  "flag_ok v \<longleftrightarrow> json_absent v \<or> (\<exists>b. v = JBool b)"

definition text_ok :: "jsval \<Rightarrow> bool" where
  "text_ok v \<longleftrightarrow> json_absent v \<or> (\<exists>s. v = JString s)"

text \<open>\<open>exclusive\<close> may be missing but not null.\<close>

definition exclusive_ok :: "jsval \<Rightarrow> bool" where
  "exclusive_ok v \<longleftrightarrow> json_form v = None \<or> (\<exists>b. v = JBool b)"

definition size_fits :: "nat \<Rightarrow> jsval \<Rightarrow> bool" where
  "size_fits w v = (case v of JNumber (NumInt i) \<Rightarrow> i < 2 ^ w | _ \<Rightarrow> True)"

definition sub_object :: "jsval \<Rightarrow> string \<Rightarrow> props" where
  "sub_object v k = (case v of
      JObject ps \<Rightarrow> (case lookup ps k of JObject qs \<Rightarrow> qs | _ \<Rightarrow> [])
    | _ \<Rightarrow> [])"

definition tls_flags :: "string list" where
  "tls_flags = [''alpsUseNewCodepoint'', ''sessionTicket'', ''preSharedKey'', ''enableEchGrease'',
     ''permuteExtensions'', ''greaseEnabled'', ''enableOcspStapling'', ''enableSignedCertTimestamps'',
     ''pskSkipSessionTicket'', ''pskDheKe'', ''renegotiation'', ''aesHwOverride'',
     ''preserveTls13CipherList'', ''randomAesHwOverride'']"

definition tls_texts :: "string list" where
  "tls_texts = [''delegatedCredentials'', ''curvesList'', ''cipherList'', ''sigalgsList'']"

definition http1_flags :: "string list" where
  "http1_flags = [''http09Responses'', ''writev'', ''ignoreInvalidHeadersInResponses'',
     ''allowSpacesAfterHeaderNameInResponses'', ''allowObsoleteMultilineHeadersInResponses'']"

definition http2_flags :: "string list" where
  "http2_flags = [''adaptiveWindow'', ''keepAliveWhileIdle'', ''enablePush'', ''enableConnectProtocol'',
     ''noRfc7540Priorities'']"

definition http1_sizes :: "string list" where
  "http1_sizes = [''maxHeaders'', ''readBufExactSize'', ''maxBufSize'']"

text \<open>The sizes the addon keeps in 32 bits, and those it keeps in 64.\<close>

definition http2_sizes32 :: "string list" where
  "http2_sizes32 = [''initialStreamId'', ''initialConnectionWindowSize'', ''initialWindowSize'',
     ''maxFrameSize'', ''maxConcurrentStreams'', ''maxHeaderListSize'', ''headerTableSize'']"

definition http2_sizes64 :: "string list" where
  "http2_sizes64 = [''initialMaxSendStreams'', ''keepAliveInterval'', ''keepAliveTimeout'',
     ''maxConcurrentResetStreams'', ''maxSendBufferSize'', ''maxPendingAcceptResetStreams'']"

definition dependency_flag_ok :: "jsval \<Rightarrow> bool" where
  "dependency_flag_ok v = (case v of JObject ps \<Rightarrow> exclusive_ok (lookup ps ''exclusive'') | _ \<Rightarrow> True)"

definition priority_dependency :: "jsval \<Rightarrow> jsval" where
  "priority_dependency v = (case v of JObject ps \<Rightarrow> lookup ps ''dependency'' | _ \<Rightarrow> JUndefined)"

definition all_at :: "(jsval \<Rightarrow> bool) \<Rightarrow> string list \<Rightarrow> props \<Rightarrow> bool" where
  "all_at P ks ps \<longleftrightarrow> list_all (\<lambda>k. P (lookup ps k)) ks"

definition tls_declared :: "props \<Rightarrow> bool" where
  "tls_declared ps \<longleftrightarrow> all_at flag_ok tls_flags ps \<and> all_at text_ok tls_texts ps"

definition http2_declared :: "props \<Rightarrow> bool" where
  "http2_declared ps \<longleftrightarrow> all_at flag_ok http2_flags ps \<and>
     dependency_flag_ok (lookup ps ''headersStreamDependency'') \<and>
     list_all (\<lambda>p. dependency_flag_ok (priority_dependency p)) (elements (lookup ps ''priorities''))"

definition http2_sized :: "props \<Rightarrow> bool" where
  "http2_sized ps \<longleftrightarrow> all_at (size_fits 32) http2_sizes32 ps \<and> all_at (size_fits 64) http2_sizes64 ps \<and>
     list_all (\<lambda>p. size_fits 32 (stream_id p)) (elements (lookup ps ''priorities''))"

definition declared_types :: "jsval \<Rightarrow> bool" where
  "declared_types v \<longleftrightarrow> tls_declared (sub_object v ''tlsOptions'') \<and>
     all_at flag_ok http1_flags (sub_object v ''http1Options'') \<and>
     http2_declared (sub_object v ''http2Options'')"

definition sizes_fit :: "jsval \<Rightarrow> bool" where
  "sizes_fit v \<longleftrightarrow> all_at (size_fits 64) http1_sizes (sub_object v ''http1Options'') \<and>
     http2_sized (sub_object v ''http2Options'')"

section \<open>Fields\<close>

definition fits :: "bool \<Rightarrow> (jsval \<Rightarrow> bool) \<Rightarrow> jsval \<Rightarrow> bool" where
  "fits missing f x = (case json_form x of None \<Rightarrow> missing | Some y \<Rightarrow> f y)"

abbreviation opt_fits :: "(jsval \<Rightarrow> bool) \<Rightarrow> jsval \<Rightarrow> bool" where
  "opt_fits f \<equiv> fits True (de_option f)"

lemma de_struct_json:
  assumes "distinct (map fst ps)"
  shows "de_struct fs (JObject (json_props ps)) \<longleftrightarrow> list_all (\<lambda>(k, missing, f). fits missing f (lookup ps k)) fs"
  using map_of_json_props [OF assms] by (simp add: de_struct_def fits_def)

lemma opt_fits_flag: "opt_fits de_bool x \<longleftrightarrow> flag_ok x"
  by (cases x) (auto simp: fits_def de_option_def de_bool_def flag_ok_def json_absent_def)

lemma opt_fits_text: "opt_fits de_string x \<longleftrightarrow> text_ok x"
  by (cases x) (auto simp: fits_def de_option_def de_string_def text_ok_def json_absent_def)

lemma fits_exclusive: "fits True de_bool x \<longleftrightarrow> exclusive_ok x"
  by (cases x) (auto simp: fits_def de_bool_def exclusive_ok_def)

lemma opt_fits_absent [simp]: "opt_fits f JUndefined"
  by (simp add: fits_def)

lemma size_fits_absent [simp]: "size_fits w JUndefined"
  by (simp add: size_fits_def)

lemma fits_size: "int_from lo x \<Longrightarrow> 0 \<le> lo \<Longrightarrow> opt_fits (de_uint w) x \<longleftrightarrow> size_fits w x"
  by (auto simp: int_from_def fits_def de_option_def de_uint_def size_fits_def is_finite_def
      split: jsval.splits number.splits)

lemma fits_range: "int_in 0 hi x \<Longrightarrow> hi < 2 ^ w \<Longrightarrow> fits missing (de_uint w) x \<and> opt_fits (de_uint w) x"
  by (auto simp: int_in_def fits_def de_option_def de_uint_def is_finite_def
      split: jsval.splits number.splits)

text \<open>A value that \<open>JSON.stringify\<close> and the parser leave as it is.\<close>

definition plain_json :: "jsval \<Rightarrow> bool" where
  "plain_json v \<longleftrightarrow> json_form v = Some v"

lemma plain_json_simps [simp]:
  "plain_json (JString s)" "plain_json (JBool b)" "plain_json (JNumber (NumInt i))"
  by (simp_all add: plain_json_def is_finite_def)

lemma plain_json_JArray: "list_all plain_json vs \<Longrightarrow> plain_json (JArray vs)"
  by (induction vs) (simp_all add: plain_json_def)

lemma plain_json_fits: "plain_json v \<Longrightarrow> fits missing f v = f v"
  by (simp add: plain_json_def fits_def)

lemma int_in_iff: "int_in lo hi x \<longleftrightarrow> (\<exists>i. x = JNumber (NumInt i) \<and> lo \<le> i \<and> i \<le> hi)"
  by (cases x; simp add: int_in_def split: number.split)

lemma strings_in_plain:
  assumes "strings_in allowed x"
  shows "plain_json x \<and> de_vec de_string x"
proof -
  from assms obtain xs where x: "x = JArray xs" "\<forall>y \<in> set xs. \<exists>s. y = JString s"
    by (auto simp: strings_in_image)
  have "list_all plain_json xs" "list_all de_string xs"
    using x(2) by (force simp: list_all_iff de_string_def)+
  with x(1) show ?thesis by (simp add: plain_json_JArray de_vec_def)
qed

lemma strings_in_fits: "strings_in allowed x \<Longrightarrow> opt_fits (de_vec de_string) x"
  using strings_in_plain by (simp add: plain_json_fits de_option_def)

lemma ints_plain: "list_all (int_in 0 hi) xs \<Longrightarrow> list_all plain_json xs"
  by (auto simp: list_all_iff int_in_iff)

lemma ints_fits:
  assumes "case x of JArray xs \<Rightarrow> list_all (int_in 0 65535) xs | _ \<Rightarrow> False"
  shows "opt_fits (de_vec (de_uint 16)) x"
proof -
  from assms obtain xs where x: "x = JArray xs" "list_all (int_in 0 65535) xs" by (cases x) auto
  then have "list_all (de_uint 16) xs"
    by (auto simp: list_all_iff int_in_iff de_uint_def)
  with x ints_plain [OF x(2)] show ?thesis
    by (simp add: plain_json_fits plain_json_JArray de_option_def de_vec_def)
qed

section \<open>Objects of the normalisation\<close>

lemma object_okD:
  assumes "object_ok allowed P v"
  obtains ps where "v = JObject ps" "ps \<noteq> []" "distinct (map fst ps)"
    "\<And>k. lookup ps k = JUndefined \<or> P k (lookup ps k)"
proof -
  from assms obtain ps where ps: "v = JObject ps" "ps \<noteq> []" "distinct (map fst ps)"
    "list_all (\<lambda>(k, x). x \<noteq> JUndefined \<and> P k x) ps"
    by (auto simp: object_ok_def split: jsval.splits)
  have "lookup ps k = JUndefined \<or> P k (lookup ps k)" for k
    using ps(4) by (auto simp: lookup_def list_all_iff dest: map_of_SomeD split: option.split)
  with ps that show ?thesis by blast
qed

lemma de_tls_options:
  assumes "distinct (map fst ps)" "\<And>k. lookup ps k = JUndefined \<or> tls_value_ok k (lookup ps k)"
  shows "de_struct CustomTlsOptions (JObject (json_props ps)) \<longleftrightarrow> tls_declared ps"
proof -
  have "opt_fits (de_vec de_string) (lookup ps ''alpnProtocols'')"
    "opt_fits (de_vec de_string) (lookup ps ''alpsProtocols'')"
    "opt_fits (de_vec de_string) (lookup ps ''certificateCompressionAlgorithms'')"
    using assms(2) [of "''alpnProtocols''"] assms(2) [of "''alpsProtocols''"]
      assms(2) [of "''certificateCompressionAlgorithms''"] strings_in_fits
    by (auto simp: tls_value_ok_def)
  moreover have "opt_fits de_string (lookup ps ''minTlsVersion'')" "opt_fits de_string (lookup ps ''maxTlsVersion'')"
    using assms(2) [of "''minTlsVersion''"] assms(2) [of "''maxTlsVersion''"]
    by (auto simp: tls_value_ok_def opt_fits_text text_ok_def json_absent_def)
  moreover have "opt_fits (de_uint 16) (lookup ps ''recordSizeLimit'')"
    using assms(2) [of "''recordSizeLimit''"] fits_range [of 65535 _ 16 True]
    by (auto simp: tls_value_ok_def)
  moreover have "opt_fits (de_vec (de_uint 16)) (lookup ps ''extensionPermutation'')"
    using assms(2) [of "''extensionPermutation''"] ints_fits by (auto simp: tls_value_ok_def)
  ultimately show ?thesis
    unfolding de_struct_json [OF assms(1)] CustomTlsOptions_def opt_field_def tls_declared_def all_at_def
      tls_flags_def tls_texts_def
    by (simp add: opt_fits_flag opt_fits_text) blast
qed

lemma de_http1_options:
  assumes "distinct (map fst ps)" "\<And>k. lookup ps k = JUndefined \<or> http1_value_ok k (lookup ps k)"
  shows "de_struct CustomHttp1Options (JObject (json_props ps)) \<longleftrightarrow>
    all_at flag_ok http1_flags ps \<and> all_at (size_fits 64) http1_sizes ps"
proof -
  have "opt_fits (de_uint 64) (lookup ps k) \<longleftrightarrow> size_fits 64 (lookup ps k)" if "k \<in> set http1_sizes" for k
    using assms(2) [of k] that fits_size [of 0] fits_size [of 8192]
    by (auto simp: http1_value_ok_def http1_sizes_def)
  then have "opt_fits (de_uint 64) (lookup ps ''maxHeaders'') \<longleftrightarrow> size_fits 64 (lookup ps ''maxHeaders'')"
    "opt_fits (de_uint 64) (lookup ps ''readBufExactSize'') \<longleftrightarrow> size_fits 64 (lookup ps ''readBufExactSize'')"
    "opt_fits (de_uint 64) (lookup ps ''maxBufSize'') \<longleftrightarrow> size_fits 64 (lookup ps ''maxBufSize'')"
    by (simp_all add: http1_sizes_def)
  then show ?thesis
    unfolding de_struct_json [OF assms(1)] CustomHttp1Options_def opt_field_def all_at_def
      http1_flags_def http1_sizes_def
    by (simp add: opt_fits_flag) blast
qed

lemma dependency_okE:
  assumes "dependency_ok v"
  obtains ps i w where "v = JObject ps" "distinct (map fst ps)"
    "lookup ps ''dependencyId'' = JNumber (NumInt i)" "0 \<le> i" "i \<le> 0x7fffffff"
    "lookup ps ''weight'' = JNumber (NumInt w)" "0 \<le> w" "w \<le> 255"
  using assms by (auto simp: dependency_ok_def)

lemma de_dependency:
  assumes "dependency_ok v"
  shows "fits missing (de_struct CustomHttp2StreamDependency) v \<longleftrightarrow> dependency_flag_ok v"
    and "opt_fits (de_struct CustomHttp2StreamDependency) v \<longleftrightarrow> dependency_flag_ok v"
proof -
  from assms obtain ps i w where v: "v = JObject ps" "distinct (map fst ps)"
    "lookup ps ''dependencyId'' = JNumber (NumInt i)" "0 \<le> i" "i \<le> 0x7fffffff"
    "lookup ps ''weight'' = JNumber (NumInt w)" "0 \<le> w" "w \<le> 255"
    by (rule dependency_okE)
  then have "de_struct CustomHttp2StreamDependency (JObject (json_props ps)) \<longleftrightarrow> exclusive_ok (lookup ps ''exclusive'')"
    by (simp add: de_struct_json CustomHttp2StreamDependency_def fits_exclusive)
      (simp add: fits_def de_uint_def is_finite_def)
  then show "fits missing (de_struct CustomHttp2StreamDependency) v \<longleftrightarrow> dependency_flag_ok v"
    "opt_fits (de_struct CustomHttp2StreamDependency) v \<longleftrightarrow> dependency_flag_ok v"
    using v(1) by (simp_all add: fits_def de_option_def json_form_JObject dependency_flag_ok_def del: json_form.simps(5))
qed

definition json_value :: "jsval \<Rightarrow> jsval" where
  "json_value v = (case json_form v of None \<Rightarrow> JNull | Some w \<Rightarrow> w)"

lemma json_form_JArray: "json_form (JArray vs) = Some (JArray (map json_value vs))"
  by (simp add: json_value_def)

lemma de_priority:
  assumes "priority_ok v"
  shows "de_struct CustomHttp2Priority (json_value v) \<longleftrightarrow>
    size_fits 32 (stream_id v) \<and> dependency_flag_ok (priority_dependency v)"
proof -
  from assms obtain i d qs where v: "v = JObject qs" "qs = [(''streamId'', JNumber (NumInt i)), (''dependency'', d)]"
    "0 < i" "dependency_ok d"
    by (auto simp: priority_ok_def)
  have "json_value v = JObject (json_props qs)"
    by (simp add: json_value_def v(1) json_form_JObject del: json_form.simps(5))
  moreover have "de_struct CustomHttp2Priority (JObject (json_props qs)) \<longleftrightarrow>
      fits False (de_uint 32) (lookup qs ''streamId'') \<and>
      fits False (de_struct CustomHttp2StreamDependency) (lookup qs ''dependency'')"
    using v(2) by (subst de_struct_json) (simp_all add: CustomHttp2Priority_def)
  ultimately show ?thesis
    using v de_dependency(1) [OF v(4), of False]
    by (simp add: priority_dependency_def fits_def [of False "de_uint 32"] de_uint_def size_fits_def is_finite_def)
qed

lemma fits_priorities:
  assumes "case x of JArray ys \<Rightarrow> list_all priority_ok ys \<and> distinct (map stream_id ys) | _ \<Rightarrow> False"
  shows "opt_fits (de_vec (de_struct CustomHttp2Priority)) x \<longleftrightarrow>
    list_all (\<lambda>p. size_fits 32 (stream_id p)) (elements x) \<and>
    list_all (\<lambda>p. dependency_flag_ok (priority_dependency p)) (elements x)"
proof -
  from assms obtain ys where x: "x = JArray ys" "list_all priority_ok ys" by (cases x) auto
  then have "opt_fits (de_vec (de_struct CustomHttp2Priority)) x \<longleftrightarrow>
      list_all (\<lambda>p. de_struct CustomHttp2Priority (json_value p)) ys"
    by (simp add: fits_def json_form_JArray de_option_def de_vec_def list.pred_map comp_def
        del: json_form.simps(4))
  with x show ?thesis by (auto simp: elements_def list_all_iff de_priority)
qed

lemma de_http2_options:
  assumes "distinct (map fst ps)" "\<And>k. lookup ps k = JUndefined \<or> http2_value_ok k (lookup ps k)"
  shows "de_struct CustomHttp2Options (JObject (json_props ps)) \<longleftrightarrow> http2_declared ps \<and> http2_sized ps"
proof -
  have size: "opt_fits (de_uint w) (lookup ps k) \<longleftrightarrow> size_fits w (lookup ps k)"
    if "k \<in> set http2_sizes32 \<union> set http2_sizes64" for k w
    using assms(2) [of k] that fits_size [of 0 "lookup ps k" w]
    by (auto simp: http2_value_ok_def http2_sizes32_def http2_sizes64_def)
  have lists: "opt_fits (de_vec de_string) (lookup ps ''settingsOrder'')"
    "opt_fits (de_vec de_string) (lookup ps ''headersPseudoOrder'')"
    using assms(2) [of "''settingsOrder''"] assms(2) [of "''headersPseudoOrder''"] strings_in_fits
    by (auto simp: http2_value_ok_def)
  have dep: "opt_fits (de_struct CustomHttp2StreamDependency) (lookup ps ''headersStreamDependency'') \<longleftrightarrow>
      dependency_flag_ok (lookup ps ''headersStreamDependency'')"
    using assms(2) [of "''headersStreamDependency''"] de_dependency(2)
    by (auto simp: http2_value_ok_def dependency_flag_ok_def)
  have prio: "opt_fits (de_vec (de_struct CustomHttp2Priority)) (lookup ps ''priorities'') \<longleftrightarrow>
      list_all (\<lambda>p. size_fits 32 (stream_id p)) (elements (lookup ps ''priorities'')) \<and>
      list_all (\<lambda>p. dependency_flag_ok (priority_dependency p)) (elements (lookup ps ''priorities''))"
    using assms(2) [of "''priorities''"] fits_priorities
    by (auto simp: http2_value_ok_def elements_def)
  from size have "list_all (\<lambda>k. opt_fits (de_uint 32) (lookup ps k)) http2_sizes32 \<longleftrightarrow> all_at (size_fits 32) http2_sizes32 ps"
    "list_all (\<lambda>k. opt_fits (de_uint 64) (lookup ps k)) http2_sizes64 \<longleftrightarrow> all_at (size_fits 64) http2_sizes64 ps"
    by (auto simp: all_at_def list_all_iff)
  then show ?thesis
    unfolding de_struct_json [OF assms(1)] CustomHttp2Options_def opt_field_def http2_declared_def
      http2_sized_def all_at_def http2_flags_def http2_sizes32_def http2_sizes64_def
    by (simp add: opt_fits_flag lists dep prio) blast
qed

lemma absent_declared [simp]:
  "flag_ok JUndefined" "text_ok JUndefined" "exclusive_ok JUndefined" "dependency_flag_ok JUndefined"
  by (simp_all add: flag_ok_def text_ok_def json_absent_def exclusive_ok_def dependency_flag_ok_def)

lemma all_at_Nil [simp]: "P JUndefined \<Longrightarrow> all_at P ks []"
  by (simp add: all_at_def list_all_iff)

lemma empty_declared [simp]: "tls_declared []" "http2_declared []" "http2_sized []"
  by (simp_all add: tls_declared_def http2_declared_def http2_sized_def elements_def)

text \<open>An optional structure of the payload.\<close>

lemma fits_sub_object:
  assumes "x = JUndefined \<or> object_ok allowed P x"
    and "\<And>qs. distinct (map fst qs) \<Longrightarrow> (\<And>k. lookup qs k = JUndefined \<or> P k (lookup qs k)) \<Longrightarrow>
      de_struct fs (JObject (json_props qs)) \<longleftrightarrow> Q qs"
    and "Q []"
  shows "opt_fits (de_struct fs) x \<longleftrightarrow> Q (case x of JObject qs \<Rightarrow> qs | _ \<Rightarrow> [])"
proof (cases "x = JUndefined")
  case False
  with assms(1) obtain qs where "x = JObject qs" "distinct (map fst qs)"
    "\<And>k. lookup qs k = JUndefined \<or> P k (lookup qs k)"
    by (auto elim: object_okD)
  with assms(2) [of qs] show ?thesis
    by (simp add: fits_def json_form_JObject de_option_def del: json_form.simps(5))
qed (simp add: assms(3))

lemma header_pair_shape:
  assumes "header_pair_ok y"
  shows "\<exists>n v. y = JArray [JString n, JString v]"
proof -
  from assms obtain zs where y: "y = JArray zs" by (cases y) (auto simp: header_pair_ok_def)
  with assms obtain a rest where zs: "zs = a # rest" by (cases zs) (auto simp: header_pair_ok_def)
  with assms y obtain n where a: "a = JString n" by (cases a) (auto simp: header_pair_ok_def)
  with assms y zs obtain b rest' where rest: "rest = b # rest'" by (cases rest) (auto simp: header_pair_ok_def)
  with assms y zs a obtain v where "b = JString v" by (cases b) (auto simp: header_pair_ok_def)
  moreover from this assms y zs a rest have "rest' = []" by (cases rest') (auto simp: header_pair_ok_def)
  ultimately show ?thesis using y zs a rest by blast
qed

lemma pairs_fit:
  assumes "case x of JArray xs \<Rightarrow> xs \<noteq> [] \<and> list_all header_pair_ok xs | _ \<Rightarrow> False"
  shows "plain_json x \<and> de_vec (de_pair de_string de_string) x"
proof -
  from assms obtain xs where x: "x = JArray xs" "list_all header_pair_ok xs" by (cases x) auto
  with header_pair_shape have pairs: "\<forall>y \<in> set xs. \<exists>n v. y = JArray [JString n, JString v]" by (auto simp: list_all_iff)
  have "list_all plain_json xs" "list_all (de_pair de_string de_string) xs"
    using pairs by (fastforce simp: list_all_iff plain_json_JArray de_pair_def de_string_def)+
  with x(1) show ?thesis by (simp add: plain_json_JArray de_vec_def)
qed

lemma orig_headers_fit:
  assumes "case x of JArray xs \<Rightarrow> xs \<noteq> [] \<and> list_all orig_header_ok xs \<and>
      distinct (map (\<lambda>x. to_lower (js_string x)) xs) | _ \<Rightarrow> False"
  shows "plain_json x \<and> de_vec de_string x"
proof -
  from assms obtain xs where x: "x = JArray xs" "list_all orig_header_ok xs" by (cases x) auto
  have "\<exists>s. y = JString s" if "orig_header_ok y" for y
    using that by (cases y) (auto simp: orig_header_ok_def)
  with x(2) have "\<forall>y \<in> set xs. \<exists>s. y = JString s" by (auto simp: list_all_iff)
  then have "list_all plain_json xs" "list_all de_string xs"
    by (force simp: list_all_iff de_string_def)+
  with x(1) show ?thesis by (simp add: plain_json_JArray de_vec_def)
qed

lemma wire_okD:
  assumes "wire_ok v"
  obtains ps where "v = JObject ps" "ps \<noteq> []" "distinct (map fst ps)" "set (map fst ps) \<subseteq> set (map fst emulation_fields)"
    "\<And>k. lookup ps k = JUndefined \<or> emulation_value_ok k (lookup ps k)"
    "\<forall>(k, x) \<in> set ps. x \<noteq> JUndefined"
proof -
  from assms have ok: "object_ok (map fst emulation_fields) emulation_value_ok v" by (simp add: wire_ok_def)
  then obtain ps where ps: "v = JObject ps" "ps \<noteq> []" "distinct (map fst ps)"
    "\<forall>k. lookup ps k = JUndefined \<or> emulation_value_ok k (lookup ps k)"
    by (rule object_okD) auto
  from ok ps(1) have "set (map fst ps) \<subseteq> set (map fst emulation_fields)" "\<forall>(k, x) \<in> set ps. x \<noteq> JUndefined"
    by (auto simp: object_ok_def list_all_iff)
  with that [OF ps(1-3)] ps(4) show ?thesis by blast
qed

lemma de_payload:
  assumes "wire_ok (JObject ps)"
  shows "de_struct CustomEmulationPayload (JObject (json_props ps)) \<longleftrightarrow>
    declared_types (JObject ps) \<and> sizes_fit (JObject ps)"
proof -
  from assms have d: "distinct (map fst ps)"
    and ok: "\<And>k. lookup ps k = JUndefined \<or> emulation_value_ok k (lookup ps k)"
    by (auto elim: wire_okD)
  have tls: "opt_fits (de_struct CustomTlsOptions) (lookup ps ''tlsOptions'') \<longleftrightarrow>
      tls_declared (sub_object (JObject ps) ''tlsOptions'')"
    unfolding sub_object_def jsval.case
    by (rule fits_sub_object [where P = tls_value_ok and allowed = "map fst tls_fields"])
      (use ok [of "''tlsOptions''"] de_tls_options in \<open>simp_all add: emulation_value_ok_def tls_object_ok_def\<close>)
  have http1: "opt_fits (de_struct CustomHttp1Options) (lookup ps ''http1Options'') \<longleftrightarrow>
      all_at flag_ok http1_flags (sub_object (JObject ps) ''http1Options'') \<and>
      all_at (size_fits 64) http1_sizes (sub_object (JObject ps) ''http1Options'')"
    unfolding sub_object_def jsval.case
    by (rule fits_sub_object [where P = http1_value_ok and allowed = "map fst http1_fields"
          and Q = "\<lambda>qs. all_at flag_ok http1_flags qs \<and> all_at (size_fits 64) http1_sizes qs"])
      (use ok [of "''http1Options''"] de_http1_options in \<open>auto simp: emulation_value_ok_def http1_object_ok_def\<close>)
  have http2: "opt_fits (de_struct CustomHttp2Options) (lookup ps ''http2Options'') \<longleftrightarrow>
      http2_declared (sub_object (JObject ps) ''http2Options'') \<and> http2_sized (sub_object (JObject ps) ''http2Options'')"
    unfolding sub_object_def jsval.case
    by (rule fits_sub_object [where P = http2_value_ok and allowed = "map fst http2_fields"
          and Q = "\<lambda>qs. http2_declared qs \<and> http2_sized qs"])
      (use ok [of "''http2Options''"] de_http2_options in \<open>simp_all add: emulation_value_ok_def http2_object_ok_def\<close>)
  have "opt_fits (de_vec (de_pair de_string de_string)) (lookup ps ''headers'')"
    "opt_fits (de_vec de_string) (lookup ps ''origHeaders'')"
    using ok [of "''headers''"] ok [of "''origHeaders''"] pairs_fit orig_headers_fit
    by (auto simp: emulation_value_ok_def plain_json_fits de_option_def)
  then show ?thesis
    unfolding de_struct_json [OF d] CustomEmulationPayload_def opt_field_def declared_types_def sizes_fit_def
    by (simp add: tls http1 http2) blast
qed

section \<open>The builders accept what the normalisation checks\<close>

lemma given_json:
  assumes "distinct (map fst ps)" "given (json_props ps) k = Some x"
  shows "json_form (lookup ps k) = Some x"
  using assms by (auto simp: given_def map_of_json_props split: option.splits jsval.splits)

lemma given_plain:
  assumes "distinct (map fst ps)" "given (json_props ps) k = Some x" "plain_json (lookup ps k)"
  shows "x = lookup ps k"
  using given_json [OF assms(1,2)] assms(3) by (simp add: plain_json_def)

lemma build_steps_ok:
  assumes "list_all (\<lambda>(k, call, f). \<forall>x. given ps k = Some x \<longrightarrow> (\<exists>w. f x = Inr w)) steps"
  shows "\<exists>b. build_steps steps ps = Inr b"
  using assms
proof (induction steps)
  case (Cons step steps)
  obtain k call f where step: "step = (k, call, f)" by (metis prod.exhaust)
  with Cons obtain b where "build_steps steps ps = Inr b" by auto
  with Cons.prems step show ?case by (cases "given ps k") auto
qed simp

lemma each_ok: "(\<And>v. v \<in> set vs \<Longrightarrow> \<exists>c. parse (js_string v) = Inr c) \<Longrightarrow> \<exists>cs. each parse vs = Inr cs"
  by (induction vs) (force simp: each_def)+

lemma parsed_list_ok:
  assumes "strings_in allowed x" "\<And>s. s \<in> set allowed \<Longrightarrow> \<exists>c. parse s = Inr c"
  shows "\<exists>w. parsed_list parse x = Inr w"
proof -
  from assms(1) obtain xs where x: "x = JArray xs" "set xs \<subseteq> JString ` set allowed"
    by (auto simp: strings_in_image)
  have "\<exists>cs. each parse xs = Inr cs"
    by (rule each_ok) (use x(2) assms(2) in force)
  with x(1) show ?thesis by (auto simp: parsed_list_def elements_def)
qed

lemma build_order_ok:
  assumes "set xs \<subseteq> JString ` set allowed" "\<And>s. s \<in> set allowed \<Longrightarrow> \<exists>c. parse s = Inr c"
    and "distinct xs" "JString ` set seen \<inter> set xs = {}"
  shows "\<exists>cs. build_order what parse seen xs = Inr cs"
  using assms
proof (induction xs arbitrary: seen)
  case (Cons x xs)
  then obtain s c where "x = JString s" "s \<in> set allowed" "parse s = Inr c" by fastforce
  moreover from this Cons.prems have "\<exists>cs. build_order what parse (s # seen) xs = Inr cs"
    by (intro Cons.IH) auto
  ultimately show ?case using Cons.prems(4) by auto
qed simp

lemma order_ok:
  assumes "strings_in allowed x \<and> unique_values x" "\<And>s. s \<in> set allowed \<Longrightarrow> \<exists>c. parse s = Inr c"
  shows "\<exists>w. build_order what parse [] (elements x) = Inr w"
proof -
  from assms(1) obtain xs where "x = JArray xs" "set xs \<subseteq> JString ` set allowed" "distinct xs"
    by (auto simp: strings_in_image unique_values_def)
  then show ?thesis using build_order_ok [of xs allowed parse "[]" what] assms(2) by (auto simp: elements_def)
qed

lemma priorities_steps_ok:
  assumes "list_all priority_ok ys" "distinct (map stream_id ys)" "set seen \<inter> stream_id ` set ys = {}"
  shows "\<exists>r. priorities_steps seen (map json_value ys) = Inr r"
  using assms
proof (induction ys arbitrary: seen)
  case (Cons y ys)
  from Cons.prems(1) obtain i d where y: "y = JObject [(''streamId'', JNumber (NumInt i)), (''dependency'', d)]"
    "0 < i" by (auto simp: priority_ok_def)
  have "json_value y = JObject (json_props [(''streamId'', JNumber (NumInt i)), (''dependency'', d)])"
    unfolding y(1) by (simp only: json_value_def json_form_JObject option.case)
  then have "lookup (struct_props CustomHttp2Priority (json_value y)) ''streamId'' = JNumber (NumInt i)"
    by (simp add: struct_props_def is_finite_def)
  moreover have "\<exists>r. priorities_steps (JNumber (NumInt i) # seen) (map json_value ys) = Inr r"
    using Cons.prems y(1) by (intro Cons.IH) auto
  ultimately show ?case using Cons.prems y by (auto simp: Let_def)
qed simp

lemma build_tls_ok:
  assumes "distinct (map fst ps)" "\<And>k. lookup ps k = JUndefined \<or> tls_value_ok k (lookup ps k)"
  shows "\<exists>b. build_tls_options (JObject (json_props ps)) = Inr b"
proof -
  have alpn: "\<exists>w. parsed_list parse_alpn_protocol x = Inr w" "\<exists>w. parsed_list parse_alps_protocol x = Inr w"
    if "strings_in [''HTTP1'', ''HTTP2'', ''HTTP3''] x" for x
    by (rule parsed_list_ok [OF that], simp add: parse_alpn_protocol_def parse_alps_protocol_def)+
  have cert: "\<exists>w. parsed_list parse_certificate_compressor x = Inr w"
    if "strings_in [''zlib'', ''brotli'', ''zstd''] x" for x
    by (rule parsed_list_ok [OF that]) (auto simp: parse_certificate_compressor_def)
  have version: "\<exists>w. parsed parse_tls_version x = Inr w \<and> plain_json x"
    if "x \<in> set (map JString [''1.0'', ''1.1'', ''1.2'', ''1.3''])" for x
    using that by (auto simp: parsed_def parse_tls_version_def)
  have steps: "\<exists>w. f x = Inr w"
    if "given (json_props ps) k = Some x" "tls_value_ok k (lookup ps k) \<Longrightarrow> plain_json (lookup ps k) \<and> (\<exists>w. f (lookup ps k) = Inr w)"
    for k f x
    using assms(2) [of k] given_json [OF assms(1) that(1)] given_plain [OF assms(1) that(1)] that(2) by auto
  note [simp] = tls_value_ok_def
  have "\<exists>w. parsed_list parse_alpn_protocol x = Inr w" if "given (json_props ps) ''alpnProtocols'' = Some x" for x
    by (rule steps [OF that]) (simp add: alpn strings_in_plain)
  moreover have "\<exists>w. parsed_list parse_alps_protocol x = Inr w" if "given (json_props ps) ''alpsProtocols'' = Some x" for x
    by (rule steps [OF that]) (simp add: alpn strings_in_plain)
  moreover have "\<exists>w. parsed parse_tls_version x = Inr w" if "given (json_props ps) ''minTlsVersion'' = Some x" for x
    by (rule steps [OF that]) (use version in auto)
  moreover have "\<exists>w. parsed parse_tls_version x = Inr w" if "given (json_props ps) ''maxTlsVersion'' = Some x" for x
    by (rule steps [OF that]) (use version in auto)
  moreover have "\<exists>w. parsed_list parse_certificate_compressor x = Inr w"
    if "given (json_props ps) ''certificateCompressionAlgorithms'' = Some x" for x
    by (rule steps [OF that]) (auto simp: cert dest: strings_in_plain)
  ultimately have "list_all (\<lambda>(k, call, f). \<forall>x. given (json_props ps) k = Some x \<longrightarrow> (\<exists>w. f x = Inr w)) tls_steps"
    unfolding tls_steps_def list.pred_inject prod.case by simp
  then show ?thesis
    using build_steps_ok by (simp add: build_tls_options_def struct_props_def)
qed

lemma build_http1_ok:
  assumes "distinct (map fst ps)" "\<And>k. lookup ps k = JUndefined \<or> http1_value_ok k (lookup ps k)"
    and "\<not> http1_conflict ps"
  shows "\<exists>b. build_http1_options (JObject (json_props ps)) = Inr b"
proof -
  have "\<exists>w. at_least_8192 x = Inr w" if "given (json_props ps) ''maxBufSize'' = Some x" for x
    using assms(2) [of "''maxBufSize''"] given_json [OF assms(1) that]
    by (auto simp: http1_value_ok_def int_from_def at_least_8192_def is_finite_def split: jsval.splits number.splits)
  then have "\<exists>b. build_steps http1_steps (json_props ps) = Inr b"
    by (intro build_steps_ok) (simp add: http1_steps_def)
  moreover have "\<exists>b. build_steps http1_parser_steps (json_props ps) = Inr b"
    by (intro build_steps_ok) (simp add: http1_parser_steps_def)
  moreover have "given (json_props ps) ''readBufExactSize'' = None \<or> given (json_props ps) ''maxBufSize'' = None"
  proof -
    have "lookup ps k \<noteq> JUndefined" if "given (json_props ps) k \<noteq> None" for k
      using given_json [OF assms(1), of k] that by auto
    with assms(3) show ?thesis unfolding http1_conflict_def by blast
  qed
  ultimately show ?thesis by (auto simp: build_http1_options_def struct_props_def)
qed

lemma build_http2_ok:
  assumes "distinct (map fst ps)" "\<And>k. lookup ps k = JUndefined \<or> http2_value_ok k (lookup ps k)"
  shows "\<exists>b. build_http2_options (JObject (json_props ps)) = Inr b"
proof -
  have settings: "\<exists>c. parse_http2_setting_id s = Inr c" if "s \<in> set HTTP2_SETTING_IDS" for s
    using that by (simp add: HTTP2_SETTING_IDS_def parse_http2_setting_id_def)
  have pseudo: "\<exists>c. parse_pseudo_id s = Inr c" if "s \<in> set HTTP2_PSEUDO_HEADER_IDS" for s
    using that by (simp add: HTTP2_PSEUDO_HEADER_IDS_def parse_pseudo_id_def)
  have "\<exists>w. build_settings_order x = Inr w" if "given (json_props ps) ''settingsOrder'' = Some x" for x
  proof -
    have ok: "strings_in HTTP2_SETTING_IDS (lookup ps ''settingsOrder'') \<and> unique_values (lookup ps ''settingsOrder'')"
      using assms(2) [of "''settingsOrder''"] given_json [OF assms(1) that] by (auto simp: http2_value_ok_def)
    then have "x = lookup ps ''settingsOrder''"
      using given_plain [OF assms(1) that] strings_in_plain by blast
    moreover have "\<exists>w. build_order ''settingsOrder'' parse_http2_setting_id [] (elements (lookup ps ''settingsOrder'')) = Inr w"
      by (rule order_ok [OF ok]) (rule settings)
    ultimately show ?thesis by (auto simp: build_settings_order_def)
  qed
  moreover have "\<exists>w. build_pseudo_order x = Inr w" if "given (json_props ps) ''headersPseudoOrder'' = Some x" for x
  proof -
    have ok: "strings_in HTTP2_PSEUDO_HEADER_IDS (lookup ps ''headersPseudoOrder'') \<and> unique_values (lookup ps ''headersPseudoOrder'')"
      using assms(2) [of "''headersPseudoOrder''"] given_json [OF assms(1) that] by (auto simp: http2_value_ok_def)
    then have "x = lookup ps ''headersPseudoOrder''"
      using given_plain [OF assms(1) that] strings_in_plain by blast
    moreover have "\<exists>w. build_order ''headersPseudoOrder'' parse_pseudo_id [] (elements (lookup ps ''headersPseudoOrder'')) = Inr w"
      by (rule order_ok [OF ok]) (rule pseudo)
    ultimately show ?thesis by (auto simp: build_pseudo_order_def)
  qed
  moreover have "\<exists>w. build_priorities x = Inr w" if x: "given (json_props ps) ''priorities'' = Some x" for x
  proof -
    obtain ys where ys: "lookup ps ''priorities'' = JArray ys" "list_all priority_ok ys" "distinct (map stream_id ys)"
      using assms(2) [of "''priorities''"] given_json [OF assms(1) x]
      by (auto simp: http2_value_ok_def split: jsval.splits)
    then have "x = JArray (map json_value ys)"
      using given_json [OF assms(1) x] by (simp add: json_form_JArray del: json_form.simps(4))
    with priorities_steps_ok [OF ys(2,3), of "[]"] show ?thesis by (auto simp: build_priorities_def elements_def)
  qed
  ultimately have "list_all (\<lambda>(k, call, f). \<forall>x. given (json_props ps) k = Some x \<longrightarrow> (\<exists>w. f x = Inr w)) http2_steps"
    unfolding http2_steps_def list.pred_inject prod.case by simp
  then show ?thesis
    using build_steps_ok by (simp add: build_http2_options_def struct_props_def)
qed

section \<open>Headers\<close>

text \<open>What the library documents of header names: they are tokens, without any space.\<close>

definition tokens_only :: "header_lib \<Rightarrow> bool" where
  "tokens_only lib \<longleftrightarrow> (\<forall>s. name_of lib s \<noteq> None \<longrightarrow> s \<noteq> [] \<and> list_all (\<lambda>c. \<not> rust_space c) s)"

definition entries_at :: "jsval \<Rightarrow> string \<Rightarrow> jsval list" where
  "entries_at v k = (case v of JObject ps \<Rightarrow> elements (lookup ps k) | _ \<Rightarrow> [])"

definition headers_named :: "header_lib \<Rightarrow> jsval \<Rightarrow> bool" where
  "headers_named lib v \<longleftrightarrow>
     list_all (\<lambda>h. header_valid lib (header_pair h)) (entries_at v ''headers'') \<and>
     list_all (\<lambda>x. name_of lib (js_string x) \<noteq> None) (entries_at v ''origHeaders'')"

lemma token_trim:
  assumes "tokens_only lib" "name_of lib s \<noteq> None"
  shows "rust_trim s = s" "s \<noteq> []"
proof -
  have "dropWhile rust_space t = t" if "list_all (\<lambda>c. \<not> rust_space c) t" for t
    using that by (cases t) auto
  moreover from assms have "s \<noteq> []" "list_all (\<lambda>c. \<not> rust_space c) s" "list_all (\<lambda>c. \<not> rust_space c) (rev s)"
    by (auto simp: tokens_only_def list_all_iff)
  ultimately show "rust_trim s = s" "s \<noteq> []" by (simp_all add: rust_trim_def)
qed

lemma build_orig_ok:
  assumes "tokens_only lib" "list_all (\<lambda>s. name_of lib s \<noteq> None) ss" "distinct (map ascii_lower ss)"
    and "set seen \<inter> ascii_lower ` set ss = {}"
  shows "build_orig_header_map lib seen ss = Inr ss"
  using assms(2-4) token_trim [OF assms(1)]
  by (induction ss arbitrary: seen) auto

lemma to_lower_ascii_lower [simp]: "to_lower (ascii_lower s) = to_lower s"
  by (auto simp: to_lower_def ascii_lower_def lower_char_def Let_def)

lemma distinct_ascii_lower: "distinct (map to_lower ss) \<Longrightarrow> distinct (map ascii_lower ss)"
  by (metis distinct_map to_lower_ascii_lower inj_on_def)

section \<open>The whole payload\<close>

lemma with_option_ok:
  "(\<And>x. v = Some x \<Longrightarrow> \<exists>e'. f x e = Inr e') \<Longrightarrow> \<exists>e'. with_option v f e = Inr e'"
  by (cases v) (auto simp: with_option_def)

lemma res_bind_ok: "\<exists>x. m = Inr x \<Longrightarrow> (\<And>x. \<exists>y. f x = Inr y) \<Longrightarrow> \<exists>y. res_bind m f = Inr y"
  by auto

lemma sub_option:
  assumes "distinct (map fst ps)" "lookup ps k = JUndefined \<or> object_ok allowed P (lookup ps k)"
    and "given (json_props ps) k = Some x"
  obtains qs where "x = JObject (json_props qs)" "distinct (map fst qs)"
    "\<And>k'. lookup qs k' = JUndefined \<or> P k' (lookup qs k')" "lookup ps k = JObject qs"
proof -
  from given_json [OF assms(1,3)] have j: "json_form (lookup ps k) = Some x" .
  with assms(2) have "object_ok allowed P (lookup ps k)" by auto
  then obtain qs where qs: "lookup ps k = JObject qs" "distinct (map fst qs)"
    "\<forall>k'. lookup qs k' = JUndefined \<or> P k' (lookup qs k')"
    by (rule object_okD) auto
  with j have "x = JObject (json_props qs)" by (simp add: json_form_JObject del: json_form.simps(5))
  with qs that show ?thesis by blast
qed

lemma apply_payload_ok:
  assumes wire: "wire_ok (JObject ps)" and lib: "tokens_only lib" and named: "headers_named lib (JObject ps)"
  shows "\<exists>e'. apply_payload lib overlay (JObject (json_props ps)) e = Inr e'"
proof -
  from wire have d: "distinct (map fst ps)"
    and ok: "\<And>k. lookup ps k = JUndefined \<or> emulation_value_ok k (lookup ps k)"
    by (auto elim: wire_okD)
  have tls: "\<exists>b. build_tls_options x = Inr b" if x: "given (json_props ps) ''tlsOptions'' = Some x" for x
  proof -
    have "lookup ps ''tlsOptions'' = JUndefined \<or> object_ok (map fst tls_fields) tls_value_ok (lookup ps ''tlsOptions'')"
      using ok [of "''tlsOptions''"] by (simp add: emulation_value_ok_def tls_object_ok_def)
    then show ?thesis by (rule sub_option [OF d _ x]) (auto intro: build_tls_ok)
  qed
  have http1: "\<exists>b. build_http1_options x = Inr b" if x: "given (json_props ps) ''http1Options'' = Some x" for x
  proof -
    have o: "lookup ps ''http1Options'' = JUndefined \<or> http1_object_ok (lookup ps ''http1Options'')"
      using ok [of "''http1Options''"] by (simp add: emulation_value_ok_def)
    then have "lookup ps ''http1Options'' = JUndefined \<or> object_ok (map fst http1_fields) http1_value_ok (lookup ps ''http1Options'')"
      by (auto simp: http1_object_ok_def)
    then show ?thesis by (rule sub_option [OF d _ x]) (use o in \<open>auto simp: http1_object_ok_def intro: build_http1_ok\<close>)
  qed
  have http2: "\<exists>b. build_http2_options x = Inr b" if x: "given (json_props ps) ''http2Options'' = Some x" for x
  proof -
    have "lookup ps ''http2Options'' = JUndefined \<or> object_ok (map fst http2_fields) http2_value_ok (lookup ps ''http2Options'')"
      using ok [of "''http2Options''"] by (simp add: emulation_value_ok_def http2_object_ok_def)
    then show ?thesis by (rule sub_option [OF d _ x]) (auto intro: build_http2_ok)
  qed
  have headers: "list_all (header_valid lib) (map header_pair (elements x))"
    if x: "given (json_props ps) ''headers'' = Some x" for x
  proof -
    have "plain_json (lookup ps ''headers'')"
      using ok [of "''headers''"] given_json [OF d x] pairs_fit by (auto simp: emulation_value_ok_def)
    with given_plain [OF d x] named show ?thesis
      by (simp add: headers_named_def entries_at_def list.pred_map comp_def)
  qed
  have orig: "\<exists>names. build_orig_header_map lib [] (map js_string (elements x)) = Inr names"
    if x: "given (json_props ps) ''origHeaders'' = Some x" for x
  proof -
    have o: "case lookup ps ''origHeaders'' of JArray xs \<Rightarrow> xs \<noteq> [] \<and> list_all orig_header_ok xs \<and>
        distinct (map (\<lambda>x. to_lower (js_string x)) xs) | _ \<Rightarrow> False"
      using ok [of "''origHeaders''"] given_json [OF d x] by (auto simp: emulation_value_ok_def)
    then have "plain_json (lookup ps ''origHeaders'')" using orig_headers_fit by blast
    then have eq: "x = lookup ps ''origHeaders''" by (rule given_plain [OF d x])
    have "distinct (map to_lower (map js_string (elements x)))"
      using o by (auto simp: eq elements_def comp_def split: jsval.splits)
    moreover have "list_all (\<lambda>s. name_of lib s \<noteq> None) (map js_string (elements x))"
      using named by (simp add: eq headers_named_def entries_at_def list.pred_map comp_def)
    ultimately have "build_orig_header_map lib [] (map js_string (elements x)) = Inr (map js_string (elements x))"
      by (intro build_orig_ok [OF lib] distinct_ascii_lower) auto
    then show ?thesis by blast
  qed
  show ?thesis
    unfolding apply_payload_def Let_def struct_props_def jsval.case
    using tls http1 http2 headers orig
    by (intro res_bind_ok with_option_ok) (auto simp: merge_header_map_Inr build_header_map_Inr)
qed

lemma payload_not_empty:
  assumes "wire_ok (JObject ps)"
  shows "\<not> payload_is_empty (JObject (json_props ps))"
proof -
  from assms obtain k x where kx: "(k, x) \<in> set ps" "x \<noteq> JUndefined" "k \<in> set (map fst emulation_fields)"
    and d: "distinct (map fst ps)" and ok: "\<And>k. lookup ps k = JUndefined \<or> emulation_value_ok k (lookup ps k)"
  proof (rule wire_okD)
    fix qs assume *: "JObject ps = JObject qs" "qs \<noteq> []" "distinct (map fst qs)"
      "set (map fst qs) \<subseteq> set (map fst emulation_fields)"
      "\<And>k. lookup qs k = JUndefined \<or> emulation_value_ok k (lookup qs k)" "\<forall>(k, x) \<in> set qs. x \<noteq> JUndefined"
    then obtain k x where "(k, x) \<in> set qs" by (metis list.set_intros(1) neq_Nil_conv surj_pair)
    with * show thesis by (intro that [of k x]) force+
  qed
  from d kx(1) have x: "lookup ps k = x" by (rule lookup_in)
  with ok [of k] kx(2) have v: "emulation_value_ok k x" by auto
  have obj: "\<exists>qs. json_form y = Some (JObject qs)" if "object_ok allowed P y" for allowed P y
    using that by (auto simp: object_ok_def json_form_JObject split: jsval.splits simp del: json_form.simps(5))
  have "\<exists>w. json_form x = Some w \<and> w \<noteq> JNull \<and> w \<noteq> JArray []"
  proof -
    consider "\<exists>allowed P. object_ok allowed P x" | xs where "x = JArray xs" "xs \<noteq> []"
      using v unfolding emulation_value_ok_def tls_object_ok_def http1_object_ok_def http2_object_ok_def
      by (cases x) (auto split: if_splits)
    then show ?thesis
    proof cases
      case 1
      then show ?thesis using obj by fastforce
    next
      case 2
      then show ?thesis by (simp add: json_form_JArray del: json_form.simps(4))
    qed
  qed
  then have "\<exists>w. given (json_props ps) k = Some w \<and> w \<noteq> JArray []"
    using d x by (auto simp: given_def map_of_json_props split: jsval.split)
  with kx(3) show ?thesis
    by (auto simp: payload_is_empty_def Let_def struct_props_def emulation_fields_def)
qed

text \<open>What the addon makes of a normalised emulation, alone and on top of a preset.\<close>

lemma resolved_iff:
  assumes "normalizeCustomEmulationOptions emulation allowEmpty = Inr v" "v \<noteq> JUndefined"
    and "from_str t = json_form v" and "tokens_only lib" "headers_named lib v"
  shows "((\<exists>e. resolve_custom_emulation lib from_str t = Inr e) \<longleftrightarrow> declared_types v \<and> sizes_fit v) \<and>
    ((\<exists>e. resolve_preset_emulation lib from_str preset (Some t) = Inr e) \<longleftrightarrow> declared_types v \<and> sizes_fit v)"
proof -
  have wire: "wire_ok v" using assms(1,2) by (rule normalized_wire_ok)
  then obtain ps where v: "v = JObject ps" by (rule wire_okD)
  let ?payload = "JObject (json_props ps)"
  have "from_str t = Some ?payload" using assms(3) v by (simp add: json_form_JObject del: json_form.simps(5))
  then have parse: "parse_payload from_str t = (if declared_types v \<and> sizes_fit v then Inr ?payload
      else Inl (PlainError ''Failed to parse emulation JSON''))"
    using de_payload [of ps] wire v by (simp add: parse_payload_def)
  have "\<exists>e'. apply_payload lib overlay ?payload e = Inr e'" for overlay e
    using apply_payload_ok [of ps lib overlay e] wire v assms(4,5) by blast
  with parse payload_not_empty [of ps] wire v show ?thesis
    by (auto simp: resolve_custom_emulation_def resolve_preset_emulation_def)
qed

section \<open>Properties\<close>

text \<open>C11: The addon accepts a custom emulation that \<open>normalizeCustomEmulationOptions\<close> let through, alone or
  on top of a preset, exactly when the flags and lists that are only copied have their documented types
  and every size fits its field: 32 bits for seven of the HTTP/2 settings and for stream identifiers,
  64 for the others. Everything else the normalisation has checked is accepted.\<close>

theorem emulation_accepted:
  assumes "normalizeCustomEmulationOptions emulation allowEmpty = Inr v" "v \<noteq> JUndefined"
    and "from_str t = json_form v" and "tokens_only lib" "headers_named lib v"
  shows "((\<exists>e. resolve_custom_emulation lib from_str t = Inr e) \<longleftrightarrow> declared_types v \<and> sizes_fit v) \<and>
    ((\<exists>e. resolve_preset_emulation lib from_str preset (Some t) = Inr e) \<longleftrightarrow> declared_types v \<and> sizes_fit v)"
  using assms by (rule resolved_iff)

text \<open>A window of 2^32 bytes passes the checks and is refused by the addon.\<close>

definition big_window :: jsval where
  "big_window = JObject [(''http2Options'', JObject [(''initialWindowSize'', JNumber (NumInt 4294967296))])]"

theorem emulation_accepted_witness:
  "normalizeCustomEmulationOptions big_window False = Inr big_window \<and>
   \<not> (\<exists>e. resolve_custom_emulation ascii_lib (\<lambda>_. json_form big_window) ''...'' = Inr e)"
proof -
  have n: "normalizeCustomEmulationOptions big_window False = Inr big_window" by code_simp
  have "tokens_only ascii_lib" by (simp add: tokens_only_def ascii_lib_def)
  moreover have "headers_named ascii_lib big_window"
    by (simp add: headers_named_def entries_at_def big_window_def elements_def)
  moreover have "\<not> sizes_fit big_window" by code_simp
  ultimately show ?thesis
    using n emulation_accepted [OF n, of "\<lambda>_. json_form big_window" "''...''" ascii_lib no_emulation]
    by (auto simp: big_window_def)
qed

text \<open>Headers laid over a preset: a name the emulation mentions has exactly its values, in order,
  whatever the preset had for it; every other header of the preset stays; and the names and values must
  all be valid.\<close>

lemma overlay_headers:
  "merge_header_map lib preset hs = Inr m \<longleftrightarrow>
    list_all (header_valid lib) hs \<and>
    m = (\<lambda>n. if n \<in> set (header_names lib hs) then values_of lib hs n else preset n)"
  by (rule merge_header_map_Inr)

end
