(* ===== verification/NativeBoundary.thy ===== *)
theory NativeBoundary
  imports FetchProperties RustEmulation "HOL-Library.Word"
begin

text \<open>
  The JavaScript objects that \<open>fetch\<close> and \<open>createTransport\<close> hand to the addon, and what the addon makes
  of them: the conversions of rust/src/lib.rs (\<open>js_object_to_request_options\<close>, the reading half of
  \<open>create_transport\<close>) with their machine integers, defaults and type errors.

  An object is its list of properties in the order of the code; reading one that is absent or undefined
  gives nothing (\<open>get_opt\<close>), and one of the wrong type is mostly ignored. What the addon's dependencies
  decide is a parameter, \<open>wreq_util\<close>: which profile and which platform a label stands for
  (\<open>serde_json\<close> on their enumerations). An identifier the addon would generate is an argument.
\<close>

section \<open>Machine integers\<close>

text \<open>A float cast with \<open>as\<close>: the fraction is cut off, what does not fit saturates, NaN is 0.\<close>

definition truncate_number :: "number \<Rightarrow> int" where
  "truncate_number n = (case n of
      NumInt i \<Rightarrow> i
    | NumDec m k \<Rightarrow> sgn m * (\<bar>m\<bar> div 10 ^ k)
    | _ \<Rightarrow> 0)"

definition as_unsigned :: "number \<Rightarrow> 'w::len word" where
  "as_unsigned n = (case n of
      NumNaN \<Rightarrow> 0
    | NumInfinity negative \<Rightarrow> (if negative then 0 else word_of_int (2 ^ LENGTH('w) - 1))
    | _ \<Rightarrow> word_of_int (max 0 (min (2 ^ LENGTH('w) - 1) (truncate_number n))))"

lemma uint_as_unsigned:
  assumes "is_finite n"
  shows "uint (as_unsigned n :: 'w::len word) = max 0 (min (2 ^ LENGTH('w) - 1) (truncate_number n))"
proof -
  have "0 \<le> (2 :: int) ^ LENGTH('w) - 1" by simp
  then have "max 0 (min (2 ^ LENGTH('w) - 1) (truncate_number n)) < (2 :: int) ^ LENGTH('w)"
    by (simp add: max_def min_def)
  moreover have "as_unsigned n = (word_of_int (max 0 (min (2 ^ LENGTH('w) - 1) (truncate_number n))) :: 'w word)"
    using assms by (auto simp: as_unsigned_def is_finite_def split: number.splits)
  ultimately show ?thesis by (simp add: uint_word_of_int)
qed

lemma truncate_nonneg:
  assumes "is_finite n" "\<not> num_less n 0"
  shows "0 \<le> truncate_number n" "truncate_number n = 0 \<longleftrightarrow> num_less n 1"
  using assms
  by (auto simp: truncate_number_def is_finite_def sgn_if zdiv_eq_0_iff pos_imp_zdiv_nonneg_iff
      split: number.splits)

section \<open>Objects at the boundary\<close>

text \<open>The properties hold values of the language, or a \<open>Buffer\<close>.\<close>

datatype native_value = NativeValue jsval | NativeBuffer "nat list"

type_synonym native_object = "(string \<times> native_value) list"

definition optional :: "('a \<Rightarrow> jsval) \<Rightarrow> 'a option \<Rightarrow> native_value" where
  "optional f x = NativeValue (case x of None \<Rightarrow> JUndefined | Some v \<Rightarrow> f v)"

text \<open>
  The object of one request, in the order in which \<open>fetch\<close> sets its properties; one that is not set
  has the value undefined here, which \<open>get_opt\<close> does not tell from an absent one.
\<close>

definition request_object :: "NativeRequestOptions \<Rightarrow> native_object" where
  "request_object o1 =
     [(''url'', NativeValue (JString (nro_url o1))),
      (''method'', NativeValue (JString (nro_method o1))),
      (''sessionId'', NativeValue (JString (nro_sessionId o1))),
      (''ephemeral'', NativeValue (JBool (nro_ephemeral o1))),
      (''body'', case nro_body o1 of None \<Rightarrow> NativeValue JUndefined | Some bs \<Rightarrow> NativeBuffer bs),
      (''captureDiagnostics'', optional JBool (nro_captureDiagnostics o1)),
      (''onRequestEvent'', NativeValue (nro_onRequestEvent o1)),
      (''transportId'', optional JString (nro_transportId o1)),
      (''browser'', optional JString (native_browser o1)),
      (''os'', optional JString (native_os o1)),
      (''emulationJson'', optional JString (native_emulationJson o1)),
      (''proxy'', NativeValue (nro_proxy o1)),
      (''proxyHeaders'', optional tuples_value (nro_proxyHeaders o1)),
      (''insecure'', optional JBool (nro_insecure o1)),
      (''trustStore'', NativeValue (nro_trustStore o1)),
      (''timeout'', NativeValue (nro_timeout o1)),
      (''redirect'', optional JString (nro_redirect o1)),
      (''disableDefaultHeaders'', optional JBool (nro_disableDefaultHeaders o1)),
      (''compress'', optional JBool (nro_compress o1)),
      (''headers'', optional tuples_value (nro_headers o1))]"

definition transport_object :: "NativeTransportOptions \<Rightarrow> native_object" where
  "transport_object o1 =
     [(''proxy'', NativeValue (nto_proxy o1)),
      (''proxyHeaders'', optional tuples_value (nto_proxyHeaders o1)),
      (''insecure'', optional JBool (nto_insecure o1)),
      (''trustStore'', NativeValue (nto_trustStore o1)),
      (''resolve'', NativeValue (nto_resolve o1)),
      (''poolIdleTimeout'', NativeValue (nto_poolIdleTimeout o1)),
      (''poolMaxIdlePerHost'', NativeValue (nto_poolMaxIdlePerHost o1)),
      (''poolMaxSize'', NativeValue (nto_poolMaxSize o1)),
      (''connectTimeout'', NativeValue (nto_connectTimeout o1)),
      (''readTimeout'', NativeValue (nto_readTimeout o1)),
      (''captureDiagnostics'', optional JBool (nto_captureDiagnostics o1)),
      (''browser'', optional JString (native_browser o1)),
      (''os'', optional JString (native_os o1)),
      (''emulationJson'', optional JString (native_emulationJson o1))]"

definition get_opt :: "native_object \<Rightarrow> string \<Rightarrow> native_value option" where
  "get_opt obj k = (case map_of obj k of
      Some (NativeValue JUndefined) \<Rightarrow> None
    | r \<Rightarrow> r)"

definition get_string :: "native_object \<Rightarrow> string \<Rightarrow> string option" where
  "get_string obj k = (case get_opt obj k of Some (NativeValue (JString s)) \<Rightarrow> Some s | _ \<Rightarrow> None)"

definition get_number :: "native_object \<Rightarrow> string \<Rightarrow> number option" where
  "get_number obj k = (case get_opt obj k of Some (NativeValue (JNumber n)) \<Rightarrow> Some n | _ \<Rightarrow> None)"

definition get_bool :: "native_object \<Rightarrow> string \<Rightarrow> bool option" where
  "get_bool obj k = (case get_opt obj k of Some (NativeValue (JBool b)) \<Rightarrow> Some b | _ \<Rightarrow> None)"

definition downcast_error :: "string \<Rightarrow> js_error" where
  "downcast_error type = TypeError (''failed to downcast any to '' @ type)"

section \<open>Headers\<close>

definition parse_header_tuple :: "jsval \<Rightarrow> HeaderTuple res" where
  "parse_header_tuple element = (case element of
      JArray (name # value # _) \<Rightarrow> Inr (js_string name, js_string value)
    | JArray _ \<Rightarrow> Inl (TypeError ''Header tuple must contain a name and a value'')
    | _ \<Rightarrow> Inl (downcast_error ''array''))"

fun parse_headers_from_array :: "jsval list \<Rightarrow> HeaderTuple list res" where
  "parse_headers_from_array [] = Inr []"
| "parse_headers_from_array (element # rest) =
     res_bind (parse_header_tuple element) (\<lambda>header.
     res_bind (parse_headers_from_array rest) (\<lambda>headers. Inr (header # headers)))"

definition parse_headers_from_object :: "props \<Rightarrow> HeaderTuple list" where
  "parse_headers_from_object ps = map (\<lambda>(k, v). (k, js_string v)) ps"

text \<open>
  \<open>get_own_property_names\<close>: a \<open>Buffer\<close> has its indices as property names, an array its length besides.
  (Functions, which are objects for the addon too, are never passed where it asks for names.)
\<close>

definition own_properties :: "native_value \<Rightarrow> props" where
  "own_properties value = (case value of
      NativeBuffer bs \<Rightarrow> map (\<lambda>(i, b). (nat_str i, JNumber (NumInt (int b)))) (enumerate 0 bs)
    | NativeValue (JArray vs) \<Rightarrow>
        map (\<lambda>(i, v). (nat_str i, v)) (enumerate 0 vs) @ [(''length'', JNumber (NumInt (int (length vs))))]
    | NativeValue v \<Rightarrow> object_entries v)"

definition is_native_object :: "native_value \<Rightarrow> bool" where
  "is_native_object value = (case value of NativeBuffer bs \<Rightarrow> True | NativeValue v \<Rightarrow> is_object v)"

definition parse_headers_from_value :: "native_value \<Rightarrow> HeaderTuple list res" where
  "parse_headers_from_value value = (case value of
      NativeValue JUndefined \<Rightarrow> Inr []
    | NativeValue JNull \<Rightarrow> Inr []
    | NativeValue (JArray vs) \<Rightarrow> parse_headers_from_array vs
    | _ \<Rightarrow>
        (if is_native_object value then Inr (parse_headers_from_object (own_properties value))
         else Inl (TypeError ''headers must be an array or object'')))"

definition parse_headers_opt :: "native_object \<Rightarrow> string \<Rightarrow> HeaderTuple list res" where
  "parse_headers_opt obj k = (case get_opt obj k of
      None \<Rightarrow> Inr []
    | Some value \<Rightarrow> parse_headers_from_value value)"

lemma parse_tuples_value [simp]: "parse_headers_from_value (NativeValue (tuples_value ts)) = Inr ts"
proof -
  have "parse_headers_from_array (map tuple_value ts) = Inr ts"
    by (induction ts) (auto simp: parse_header_tuple_def tuple_value_def)
  then show ?thesis by (simp add: parse_headers_from_value_def tuples_value_def)
qed

section \<open>Profiles and other enumerations\<close>

text \<open>
  The addon's own tables of labels (src/rust/src/generated_profiles.rs, made by the same build step as
  src/src/generated-types.ts); a label that \<open>serde_json\<close> does not know is not in the caches, and one
  that is not in a cache stands for Chrome 142 or macOS.
\<close>

definition BROWSER_PROFILES :: "string list" where
  "BROWSER_PROFILES = [
    ''chrome_100'', ''chrome_101'', ''chrome_104'', ''chrome_105'', ''chrome_106'', ''chrome_107'',
    ''chrome_108'', ''chrome_109'', ''chrome_110'', ''chrome_114'', ''chrome_116'', ''chrome_117'',
    ''chrome_118'', ''chrome_119'', ''chrome_120'', ''chrome_123'', ''chrome_124'', ''chrome_126'',
    ''chrome_127'', ''chrome_128'', ''chrome_129'', ''chrome_130'', ''chrome_131'', ''chrome_132'',
    ''chrome_133'', ''chrome_134'', ''chrome_135'', ''chrome_136'', ''chrome_137'', ''chrome_138'',
    ''chrome_139'', ''chrome_140'', ''chrome_141'', ''chrome_142'', ''chrome_143'', ''chrome_144'',
    ''chrome_145'', ''chrome_146'', ''chrome_147'', ''chrome_148'', ''chrome_149'', ''edge_101'',
    ''edge_122'', ''edge_127'', ''edge_131'', ''edge_134'', ''edge_135'', ''edge_136'',
    ''edge_137'', ''edge_138'', ''edge_139'', ''edge_140'', ''edge_141'', ''edge_142'',
    ''edge_143'', ''edge_144'', ''edge_145'', ''edge_146'', ''edge_147'', ''edge_148'',
    ''opera_116'', ''opera_117'', ''opera_118'', ''opera_119'', ''opera_120'', ''opera_121'',
    ''opera_122'', ''opera_123'', ''opera_124'', ''opera_125'', ''opera_126'', ''opera_127'',
    ''opera_128'', ''opera_129'', ''opera_130'', ''opera_131'', ''firefox_109'', ''firefox_117'',
    ''firefox_128'', ''firefox_133'', ''firefox_135'', ''firefox_private_135'',
    ''firefox_android_135'', ''firefox_136'', ''firefox_private_136'', ''firefox_139'',
    ''firefox_142'', ''firefox_143'', ''firefox_144'', ''firefox_145'', ''firefox_146'',
    ''firefox_147'', ''firefox_148'', ''firefox_149'', ''firefox_150'', ''firefox_151'',
    ''safari_ios_17.2'', ''safari_ios_17.4.1'', ''safari_ios_16.5'', ''safari_15.3'',
    ''safari_15.5'', ''safari_15.6.1'', ''safari_16'', ''safari_16.5'', ''safari_17.0'',
    ''safari_17.2.1'', ''safari_17.4.1'', ''safari_17.5'', ''safari_17.6'', ''safari_18'',
    ''safari_ipad_18'', ''safari_18.2'', ''safari_ios_18.1.1'', ''safari_18.3'', ''safari_18.3.1'',
    ''safari_18.5'', ''safari_26'', ''safari_26.1'', ''safari_26.2'', ''safari_26.3'',
    ''safari_26.4'', ''safari_ipad_26'', ''safari_ipad_26.2'', ''safari_ios_26'',
    ''safari_ios_26.2'', ''okhttp_3.9'', ''okhttp_3.11'', ''okhttp_3.13'', ''okhttp_3.14'',
    ''okhttp_4.9'', ''okhttp_4.10'', ''okhttp_4.12'', ''okhttp_5'']"

definition OPERATING_SYSTEMS :: "string list" where
  "OPERATING_SYSTEMS = [''windows'', ''macos'', ''linux'', ''android'', ''ios'']"

record ('p, 'o) wreq_util =
  profile_of_label :: "string \<Rightarrow> 'p option"
  platform_of_label :: "string \<Rightarrow> 'o option"
  Chrome142 :: 'p
  MacOS :: 'o

definition parse_emulation :: "('p, 'o) wreq_util \<Rightarrow> string \<Rightarrow> 'p" where
  "parse_emulation u browser =
     (case (if browser \<in> set BROWSER_PROFILES then profile_of_label u browser else None) of
        Some profile \<Rightarrow> profile
      | None \<Rightarrow> Chrome142 u)"

definition parse_emulation_os :: "('p, 'o) wreq_util \<Rightarrow> string \<Rightarrow> 'o" where
  "parse_emulation_os u os =
     (case (if os \<in> set OPERATING_SYSTEMS then platform_of_label u os else None) of
        Some platform \<Rightarrow> platform
      | None \<Rightarrow> MacOS u)"

datatype TrustStoreMode = Combined | Mozilla | DefaultPaths

definition parse_trust_store_mode :: "string \<Rightarrow> TrustStoreMode" where
  "parse_trust_store_mode value =
     (if value = ''mozilla'' then Mozilla
      else if value = ''defaultPaths'' then DefaultPaths
      else Combined)"

datatype RedirectMode = Follow | Manual | Error

definition parse_redirect :: "string \<Rightarrow> RedirectMode res" where
  "parse_redirect redirect =
     (if redirect = ''follow'' then Inr Follow
      else if redirect = ''manual'' then Inr Manual
      else if redirect = ''error'' then Inr Error
      else Inl (TypeError (''Unsupported redirect mode: '' @ redirect)))"

section \<open>The options of a request\<close>

text \<open>A string of which \<open>str::trim\<close> leaves nothing counts as absent.\<close>

definition not_blank :: "string option \<Rightarrow> string option" where
  "not_blank s = (case s of
      Some t \<Rightarrow> (if list_all rust_space t then None else Some t)
    | None \<Rightarrow> None)"

record ('p, 'o) native_request =
  rq_url :: string
  rq_browser :: "'p option"
  rq_browser_os :: "'o option"
  rq_emulation_json :: "string option"
  rq_headers :: "HeaderTuple list"
  rq_method :: string
  rq_body :: "nat list option"
  rq_proxy :: "string option"
  rq_proxy_headers :: "HeaderTuple list"
  rq_timeout :: "64 word"
  rq_redirect :: RedirectMode
  rq_session_id :: string
  rq_ephemeral :: bool
  rq_disable_default_headers :: bool
  rq_insecure :: bool
  rq_trust_store :: TrustStoreMode
  rq_transport_id :: "string option"
  rq_pool_idle_timeout :: "64 word option"
  rq_pool_max_idle_per_host :: "64 word option"
  rq_pool_max_size :: "32 word option"
  rq_connect_timeout :: "64 word option"
  rq_read_timeout :: "64 word option"
  rq_compress :: bool
  rq_capture_diagnostics :: bool

definition parse_body :: "native_object \<Rightarrow> nat list option res" where
  "parse_body obj = (case get_opt obj ''body'' of
      None \<Rightarrow> Inr None
    | Some (NativeBuffer bs) \<Rightarrow> Inr (Some bs)
    | Some (NativeValue v) \<Rightarrow>
        (if nullish v then Inr None
         else case v of
           JString s \<Rightarrow> Inr (Some (utf8_bytes s))
         | _ \<Rightarrow> Inl (TypeError ''body must be a string or Buffer'')))"

definition parse_url :: "native_object \<Rightarrow> string res" where
  "parse_url obj = (case get_opt obj ''url'' of
      Some (NativeValue (JString url)) \<Rightarrow> Inr url
    | _ \<Rightarrow> Inl (downcast_error ''string''))"

definition js_object_to_request_options ::
  "('p, 'o) wreq_util \<Rightarrow> string \<Rightarrow> native_object \<Rightarrow> ('p, 'o) native_request res" where
  "js_object_to_request_options u generated obj =
     res_bind (parse_url obj) (\<lambda>url.
     res_bind (parse_headers_opt obj ''headers'') (\<lambda>headers.
     res_bind (parse_body obj) (\<lambda>body.
     res_bind (parse_headers_opt obj ''proxyHeaders'') (\<lambda>proxy_headers.
     res_bind (parse_redirect (opt_default (get_string obj ''redirect'') ''follow'')) (\<lambda>redirect.
     Inr \<lparr>rq_url = url,
       rq_browser = map_option (parse_emulation u) (get_string obj ''browser''),
       rq_browser_os = map_option (parse_emulation_os u) (get_string obj ''os''),
       rq_emulation_json = get_string obj ''emulationJson'',
       rq_headers = headers,
       rq_method = opt_default (get_string obj ''method'') ''GET'',
       rq_body = body,
       rq_proxy = get_string obj ''proxy'',
       rq_proxy_headers = proxy_headers,
       rq_timeout = opt_default (map_option as_unsigned (get_number obj ''timeout'')) 30000,
       rq_redirect = redirect,
       rq_session_id = opt_default (not_blank (get_string obj ''sessionId'')) generated,
       rq_ephemeral = opt_default (get_bool obj ''ephemeral'') False,
       rq_disable_default_headers = opt_default (get_bool obj ''disableDefaultHeaders'') False,
       rq_insecure = opt_default (get_bool obj ''insecure'') False,
       rq_trust_store = opt_default (map_option parse_trust_store_mode (get_string obj ''trustStore'')) Combined,
       rq_transport_id = not_blank (get_string obj ''transportId''),
       rq_pool_idle_timeout = map_option as_unsigned (get_number obj ''poolIdleTimeout''),
       rq_pool_max_idle_per_host = map_option as_unsigned (get_number obj ''poolMaxIdlePerHost''),
       rq_pool_max_size = map_option as_unsigned (get_number obj ''poolMaxSize''),
       rq_connect_timeout = map_option as_unsigned (get_number obj ''connectTimeout''),
       rq_read_timeout = map_option as_unsigned (get_number obj ''readTimeout''),
       rq_compress = opt_default (get_bool obj ''compress'') True,
       rq_capture_diagnostics = opt_default (get_bool obj ''captureDiagnostics'') False\<rparr>)))))"

text \<open>The deadline \<open>make_request\<close> puts on the whole request, in milliseconds: none for 0.\<close>

definition deadline :: "('p, 'o) native_request \<Rightarrow> nat option" where
  "deadline r = (if rq_timeout r > 0 then Some (unat (rq_timeout r)) else None)"

text \<open>What \<open>request\<close> reads before it starts anything: the listener of events, then the options.\<close>

definition read_event_sink :: "native_object \<Rightarrow> jsval option res" where
  "read_event_sink obj = (case get_opt obj ''onRequestEvent'' of
      None \<Rightarrow> Inr None
    | Some (NativeValue (JFunction f)) \<Rightarrow> Inr (Some (JFunction f))
    | _ \<Rightarrow> Inl (downcast_error ''function''))"

definition read_request ::
  "('p, 'o) wreq_util \<Rightarrow> string \<Rightarrow> native_object \<Rightarrow> (('p, 'o) native_request \<times> jsval option) res" where
  "read_request u generated obj =
     res_bind (read_event_sink obj) (\<lambda>sink.
     res_bind (js_object_to_request_options u generated obj) (\<lambda>r. Inr (r, sink)))"

section \<open>The options of a transport\<close>

record ('p, 'o, 'a) transport_config =
  tc_browser :: "'p option"
  tc_browser_os :: "'o option"
  tc_emulation_json :: "string option"
  tc_proxy :: "string option"
  tc_proxy_headers :: "HeaderTuple list"
  tc_insecure :: bool
  tc_trust_store :: TrustStoreMode
  tc_pool_idle_timeout :: "64 word option"
  tc_pool_max_idle_per_host :: "64 word option"
  tc_pool_max_size :: "32 word option"
  tc_connect_timeout :: "64 word option"
  tc_read_timeout :: "64 word option"
  tc_capture_diagnostics :: bool
  tc_resolve :: "(string \<times> 'a list) list"

text \<open>\<open>parse_socket_addr\<close> is the standard library's parser of addresses: the argument \<open>addr\<close>.\<close>

fun parse_addresses :: "(string \<Rightarrow> 'a option) \<Rightarrow> string \<Rightarrow> jsval list \<Rightarrow> 'a list res" where
  "parse_addresses addr host [] = Inr []"
| "parse_addresses addr host (raw # rest) =
     (case raw of
        JString s \<Rightarrow>
          (case addr s of
             Some a \<Rightarrow> res_bind (parse_addresses addr host rest) (\<lambda>addrs. Inr (a # addrs))
           | None \<Rightarrow> Inl (TypeError (''Invalid resolve address for host '' @ squote @ host @ squote)))
      | _ \<Rightarrow> Inl (TypeError ''resolve addresses must be strings''))"

fun parse_resolve_from_object ::
  "(string \<Rightarrow> 'a option) \<Rightarrow> props \<Rightarrow> (string \<times> 'a list) list res" where
  "parse_resolve_from_object addr [] = Inr []"
| "parse_resolve_from_object addr ((host, value) # rest) =
     res_bind (case value of
         JArray vs \<Rightarrow> Inr vs
       | JString s \<Rightarrow> Inr [value]
       | _ \<Rightarrow> Inl (TypeError ''resolve values must be a string or array of strings'')) (\<lambda>raw_values.
     res_bind (parse_addresses addr host raw_values) (\<lambda>addrs.
     res_bind (parse_resolve_from_object addr rest) (\<lambda>entries.
     Inr (if addrs = [] then entries else (host, addrs) # entries))))"

definition parse_resolve_opt ::
  "(string \<Rightarrow> 'a option) \<Rightarrow> native_object \<Rightarrow> string \<Rightarrow> (string \<times> 'a list) list res" where
  "parse_resolve_opt addr obj k = (case get_opt obj k of
      None \<Rightarrow> Inr []
    | Some (NativeValue JNull) \<Rightarrow> Inr []
    | Some value \<Rightarrow>
        (if is_native_object value then parse_resolve_from_object addr (own_properties value)
         else Inl (downcast_error ''object'')))"

definition read_transport ::
  "('p, 'o) wreq_util \<Rightarrow> (string \<Rightarrow> 'a option) \<Rightarrow> native_object \<Rightarrow> ('p, 'o, 'a) transport_config res" where
  "read_transport u addr obj =
     res_bind (parse_headers_opt obj ''proxyHeaders'') (\<lambda>proxy_headers.
     res_bind (parse_resolve_opt addr obj ''resolve'') (\<lambda>resolve.
     Inr \<lparr>tc_browser = map_option (parse_emulation u) (get_string obj ''browser''),
       tc_browser_os = map_option (parse_emulation_os u) (get_string obj ''os''),
       tc_emulation_json = get_string obj ''emulationJson'',
       tc_proxy = get_string obj ''proxy'',
       tc_proxy_headers = proxy_headers,
       tc_insecure = opt_default (get_bool obj ''insecure'') False,
       tc_trust_store = opt_default (map_option parse_trust_store_mode (get_string obj ''trustStore'')) Combined,
       tc_pool_idle_timeout = map_option as_unsigned (get_number obj ''poolIdleTimeout''),
       tc_pool_max_idle_per_host = map_option as_unsigned (get_number obj ''poolMaxIdlePerHost''),
       tc_pool_max_size = map_option as_unsigned (get_number obj ''poolMaxSize''),
       tc_connect_timeout = map_option as_unsigned (get_number obj ''connectTimeout''),
       tc_read_timeout = map_option as_unsigned (get_number obj ''readTimeout''),
       tc_capture_diagnostics = opt_default (get_bool obj ''captureDiagnostics'') False,
       tc_resolve = resolve\<rparr>))"

section \<open>What arrives\<close>

definition string_of :: "jsval \<Rightarrow> string option" where
  "string_of v = (case v of JString s \<Rightarrow> Some s | _ \<Rightarrow> None)"

definition number_of :: "jsval \<Rightarrow> number option" where
  "number_of v = (case v of JNumber n \<Rightarrow> Some n | _ \<Rightarrow> None)"

definition trust_store_of :: "jsval \<Rightarrow> TrustStoreMode" where
  "trust_store_of v = opt_default (map_option parse_trust_store_mode (string_of v)) Combined"

text \<open>The request the addon should make of the options of one \<open>fetch\<close>.\<close>

definition redirect_of :: "string option \<Rightarrow> RedirectMode" where
  "redirect_of m = (if m = Some ''manual'' then Manual else if m = Some ''error'' then Error else Follow)"

definition native_request_of ::
  "('p, 'o) wreq_util \<Rightarrow> string \<Rightarrow> NativeRequestOptions \<Rightarrow> ('p, 'o) native_request" where
  "native_request_of u generated o1 =
     \<lparr>rq_url = nro_url o1,
      rq_browser = map_option (parse_emulation u) (native_browser o1),
      rq_browser_os = map_option (parse_emulation_os u) (native_os o1),
      rq_emulation_json = native_emulationJson o1,
      rq_headers = opt_default (nro_headers o1) [],
      rq_method = nro_method o1,
      rq_body = nro_body o1,
      rq_proxy = string_of (nro_proxy o1),
      rq_proxy_headers = opt_default (nro_proxyHeaders o1) [],
      rq_timeout = opt_default (map_option as_unsigned (number_of (nro_timeout o1))) 30000,
      rq_redirect = redirect_of (nro_redirect o1),
      rq_session_id = opt_default (not_blank (Some (nro_sessionId o1))) generated,
      rq_ephemeral = nro_ephemeral o1,
      rq_disable_default_headers = opt_default (nro_disableDefaultHeaders o1) False,
      rq_insecure = opt_default (nro_insecure o1) False,
      rq_trust_store = trust_store_of (nro_trustStore o1),
      rq_transport_id = not_blank (nro_transportId o1),
      rq_pool_idle_timeout = None,
      rq_pool_max_idle_per_host = None,
      rq_pool_max_size = None,
      rq_connect_timeout = None,
      rq_read_timeout = None,
      rq_compress = opt_default (nro_compress o1) True,
      rq_capture_diagnostics = opt_default (nro_captureDiagnostics o1) False\<rparr>"

definition transport_config_of ::
  "('p, 'o) wreq_util \<Rightarrow> (string \<times> 'a list) list \<Rightarrow> NativeTransportOptions \<Rightarrow> ('p, 'o, 'a) transport_config" where
  "transport_config_of u resolve o1 =
     \<lparr>tc_browser = map_option (parse_emulation u) (native_browser o1),
      tc_browser_os = map_option (parse_emulation_os u) (native_os o1),
      tc_emulation_json = native_emulationJson o1,
      tc_proxy = string_of (nto_proxy o1),
      tc_proxy_headers = opt_default (nto_proxyHeaders o1) [],
      tc_insecure = opt_default (nto_insecure o1) False,
      tc_trust_store = trust_store_of (nto_trustStore o1),
      tc_pool_idle_timeout = map_option as_unsigned (number_of (nto_poolIdleTimeout o1)),
      tc_pool_max_idle_per_host = map_option as_unsigned (number_of (nto_poolMaxIdlePerHost o1)),
      tc_pool_max_size = map_option as_unsigned (number_of (nto_poolMaxSize o1)),
      tc_connect_timeout = map_option as_unsigned (number_of (nto_connectTimeout o1)),
      tc_read_timeout = map_option as_unsigned (number_of (nto_readTimeout o1)),
      tc_capture_diagnostics = opt_default (nto_captureDiagnostics o1) False,
      tc_resolve = resolve\<rparr>"

lemma get_opt_Nil [simp]: "get_opt [] k = None"
  by (simp add: get_opt_def)

lemma get_opt_Cons [simp]:
  "get_opt ((k', v) # obj) k = (if k' = k then (if v = NativeValue JUndefined then None else Some v) else get_opt obj k)"
  by (auto simp: get_opt_def split: native_value.split jsval.split)

definition value_opt :: "jsval \<Rightarrow> native_value option" where
  "value_opt v = (if v = JUndefined then None else Some (NativeValue v))"

lemma parse_redirect_of: "m = None \<or> redirect_mode (the m) \<Longrightarrow>
    parse_redirect (opt_default m ''follow'') = Inr (redirect_of m)"
  by (cases m) (auto simp: parse_redirect_def redirect_mode_def redirect_of_def)

text \<open>Each property of the object is read back as the option it was made of.\<close>

lemma request_object_get:
  "get_opt (request_object o1) ''url'' = Some (NativeValue (JString (nro_url o1)))"
  "get_string (request_object o1) ''method'' = Some (nro_method o1)"
  "get_string (request_object o1) ''sessionId'' = Some (nro_sessionId o1)"
  "get_bool (request_object o1) ''ephemeral'' = Some (nro_ephemeral o1)"
  "get_opt (request_object o1) ''body'' = map_option NativeBuffer (nro_body o1)"
  "get_bool (request_object o1) ''captureDiagnostics'' = nro_captureDiagnostics o1"
  "get_opt (request_object o1) ''onRequestEvent'' = value_opt (nro_onRequestEvent o1)"
  "get_string (request_object o1) ''transportId'' = nro_transportId o1"
  "get_string (request_object o1) ''browser'' = native_browser o1"
  "get_string (request_object o1) ''os'' = native_os o1"
  "get_string (request_object o1) ''emulationJson'' = native_emulationJson o1"
  "get_string (request_object o1) ''proxy'' = string_of (nro_proxy o1)"
  "get_opt (request_object o1) ''proxyHeaders'' = map_option (\<lambda>ts. NativeValue (tuples_value ts)) (nro_proxyHeaders o1)"
  "get_bool (request_object o1) ''insecure'' = nro_insecure o1"
  "get_string (request_object o1) ''trustStore'' = string_of (nro_trustStore o1)"
  "get_number (request_object o1) ''timeout'' = number_of (nro_timeout o1)"
  "get_string (request_object o1) ''redirect'' = nro_redirect o1"
  "get_bool (request_object o1) ''disableDefaultHeaders'' = nro_disableDefaultHeaders o1"
  "get_bool (request_object o1) ''compress'' = nro_compress o1"
  "get_opt (request_object o1) ''headers'' = map_option (\<lambda>ts. NativeValue (tuples_value ts)) (nro_headers o1)"
  "get_number (request_object o1) ''poolIdleTimeout'' = None"
  "get_number (request_object o1) ''poolMaxIdlePerHost'' = None"
  "get_number (request_object o1) ''poolMaxSize'' = None"
  "get_number (request_object o1) ''connectTimeout'' = None"
  "get_number (request_object o1) ''readTimeout'' = None"
  by (simp_all add: request_object_def get_string_def get_number_def get_bool_def optional_def
      value_opt_def tuples_value_def string_of_def number_of_def split: option.split jsval.split)

lemma transport_object_get:
  "get_string (transport_object t) ''proxy'' = string_of (nto_proxy t)"
  "get_opt (transport_object t) ''proxyHeaders'' = map_option (\<lambda>ts. NativeValue (tuples_value ts)) (nto_proxyHeaders t)"
  "get_bool (transport_object t) ''insecure'' = nto_insecure t"
  "get_string (transport_object t) ''trustStore'' = string_of (nto_trustStore t)"
  "get_opt (transport_object t) ''resolve'' = value_opt (nto_resolve t)"
  "get_number (transport_object t) ''poolIdleTimeout'' = number_of (nto_poolIdleTimeout t)"
  "get_number (transport_object t) ''poolMaxIdlePerHost'' = number_of (nto_poolMaxIdlePerHost t)"
  "get_number (transport_object t) ''poolMaxSize'' = number_of (nto_poolMaxSize t)"
  "get_number (transport_object t) ''connectTimeout'' = number_of (nto_connectTimeout t)"
  "get_number (transport_object t) ''readTimeout'' = number_of (nto_readTimeout t)"
  "get_bool (transport_object t) ''captureDiagnostics'' = nto_captureDiagnostics t"
  "get_string (transport_object t) ''browser'' = native_browser t"
  "get_string (transport_object t) ''os'' = native_os t"
  "get_string (transport_object t) ''emulationJson'' = native_emulationJson t"
  by (simp_all add: transport_object_def get_string_def get_number_def get_bool_def optional_def
      value_opt_def tuples_value_def string_of_def number_of_def split: option.split jsval.split)

lemma parse_headers_object [simp]:
  "get_opt obj k = map_option (\<lambda>ts. NativeValue (tuples_value ts)) x \<Longrightarrow>
     parse_headers_opt obj k = Inr (opt_default x [])"
  by (cases x) (simp_all add: parse_headers_opt_def)

lemma js_object_to_request_options_object:
  assumes "nro_redirect o1 = None \<or> redirect_mode (the (nro_redirect o1))"
  shows "js_object_to_request_options u g (request_object o1) = Inr (native_request_of u g o1)"
proof -
  have "parse_url (request_object o1) = Inr (nro_url o1)"
    "parse_body (request_object o1) = Inr (nro_body o1)"
    by (simp_all add: parse_url_def parse_body_def request_object_get(1,5) split: option.split)
  moreover have "parse_headers_opt (request_object o1) ''headers'' = Inr (opt_default (nro_headers o1) [])"
    "parse_headers_opt (request_object o1) ''proxyHeaders'' = Inr (opt_default (nro_proxyHeaders o1) [])"
    by (simp_all add: request_object_get)
  ultimately show ?thesis
    by (simp add: js_object_to_request_options_def request_object_get parse_redirect_of [OF assms]
        native_request_of_def trust_store_of_def)
qed

lemma prepare_fetch_redirect:
  assumes "prepare_fetch np input init st = (Inr (o1, signal), st')"
  shows "nro_redirect o1 = None \<or> redirect_mode (the (nro_redirect o1))"
proof -
  from assms obtain url config where "prepare_request np url config st = (Inr o1, st')"
    by (auto simp: prepare_fetch_def Let_def res_bind_Inr_iff split: sum.splits prod.splits)
  then obtain ctx b hs transport sb where "check_request config = Inr sb"
    "o1 = request_options url config ctx b hs transport"
    by (elim prepare_request_Inr)
  then show ?thesis using check_request_Inr [of config sb] by simp
qed

lemma request_options_event:
  "nro_onRequestEvent (request_options url config ctx b hs t) = ri_onRequestEvent config"
  "nro_timeout (request_options url config ctx b hs t) = coalesce (ri_timeout config)
     (coalesce (case sr_defaults ctx of None \<Rightarrow> JUndefined | Some d \<Rightarrow> sd_timeout d) DEFAULT_REQUEST_TIMEOUT_MS)"
  by (simp_all add: request_options_def applyNativeEmulationMode_def Let_def
      split: option.split ResolvedEmulationMode.split)

section \<open>Addresses\<close>

definition addresses_of :: "jsval \<Rightarrow> jsval list" where
  "addresses_of v = (case v of JArray vs \<Rightarrow> vs | _ \<Rightarrow> [v])"

definition resolve_of :: "(string \<Rightarrow> 'a option) \<Rightarrow> props \<Rightarrow> (string \<times> 'a list) list" where
  "resolve_of addr ps = map (\<lambda>(host, v). (host, map (\<lambda>a. the (addr (js_string a))) (addresses_of v))) ps"

definition addresses_known :: "(string \<Rightarrow> 'a option) \<Rightarrow> props \<Rightarrow> bool" where
  "addresses_known addr ps \<longleftrightarrow>
     list_all (\<lambda>(host, v). list_all (\<lambda>a. addr (js_string a) \<noteq> None) (addresses_of v)) ps"

lemma parse_addresses_Inr:
  assumes "list_all address_ok vs"
  shows "parse_addresses addr host vs = Inr as \<longleftrightarrow>
    list_all (\<lambda>a. addr (js_string a) \<noteq> None) vs \<and> as = map (\<lambda>a. the (addr (js_string a))) vs"
  using assms
proof (induction vs arbitrary: as)
  case (Cons v vs)
  then obtain s where "v = JString s" by (cases v) (auto simp: address_ok_def)
  with Cons show ?case by (auto simp: res_bind_Inr_iff split: option.split)
qed auto

lemma parse_resolve_Inr:
  assumes "\<forall>e \<in> set ps. check_host e = Inr ()"
  shows "parse_resolve_from_object addr ps = Inr r \<longleftrightarrow> addresses_known addr ps \<and> r = resolve_of addr ps"
  using assms
proof (induction ps arbitrary: r)
  case Nil
  then show ?case by (auto simp: resolve_of_def addresses_known_def)
next
  case (Cons e ps)
  obtain host v where e: "e = (host, v)" by fastforce
  with Cons.prems have v: "addresses_of v \<noteq> []" "list_all address_ok (addresses_of v)"
    "is_array v \<or> is_string v"
    by (auto simp: check_host_iff addresses_of_def is_array_def is_string_def address_ok_def
        split: jsval.splits)
  then have "(case v of JArray vs \<Rightarrow> Inr vs | JString s \<Rightarrow> Inr [v]
       | _ \<Rightarrow> Inl (TypeError ''resolve values must be a string or array of strings'')) =
      (Inr (addresses_of v) :: jsval list res)"
    by (auto simp: addresses_of_def is_array_def is_string_def split: jsval.splits)
  with Cons e v show ?case
    by (auto simp: res_bind_Inr_iff parse_addresses_Inr resolve_of_def addresses_known_def)
qed

lemma transport_options_of_plain:
  "nto_proxyHeaders (transport_options_of t ph mode) = ph"
  "nto_resolve (transport_options_of t ph mode) = cto_resolve t"
  "nto_poolIdleTimeout (transport_options_of t ph mode) = cto_poolIdleTimeout t"
  "nto_poolMaxIdlePerHost (transport_options_of t ph mode) = cto_poolMaxIdlePerHost t"
  "nto_poolMaxSize (transport_options_of t ph mode) = cto_poolMaxSize t"
  "nto_connectTimeout (transport_options_of t ph mode) = cto_connectTimeout t"
  "nto_readTimeout (transport_options_of t ph mode) = cto_readTimeout t"
  by (simp_all add: transport_options_of_def applyNativeEmulationMode_def Let_def
      split: option.split ResolvedEmulationMode.split)

lemma parse_resolve_opt_Inr:
  assumes "when_defined v validateResolve = Inr ()" "get_opt obj k = value_opt v"
  shows "parse_resolve_opt addr obj k = Inr r \<longleftrightarrow>
    addresses_known addr (object_entries v) \<and> r = resolve_of addr (object_entries v)"
proof (cases "v = JUndefined")
  case True
  with assms(2) show ?thesis
    by (auto simp: parse_resolve_opt_def value_opt_def object_entries_def addresses_known_def resolve_of_def)
next
  case False
  with assms(1) have v: "is_object v" "\<not> is_array v" "\<forall>e \<in> set (object_entries v). check_host e = Inr ()"
    by (auto simp: when_defined_def validateResolve_def res_all_Inr_iff split: if_splits)
  with False assms(2) have "parse_resolve_opt addr obj k = parse_resolve_from_object addr (object_entries v)"
    by (cases v) (auto simp: parse_resolve_opt_def value_opt_def is_native_object_def own_properties_def is_array_def)
  with parse_resolve_Inr [OF v(3)] show ?thesis by simp
qed

lemma read_transport_Inr:
  assumes "createTransport_options np o1 = Inr mode"
    and "normalizeProxyHeaders (cto_proxyHeaders o1) = Inr proxyHeaders"
  shows "read_transport u addr (transport_object (transport_options_of o1 proxyHeaders mode)) = Inr c \<longleftrightarrow>
    addresses_known addr (object_entries (cto_resolve o1)) \<and>
    c = transport_config_of u (resolve_of addr (object_entries (cto_resolve o1)))
          (transport_options_of o1 proxyHeaders mode)"
proof -
  let ?t = "transport_options_of o1 proxyHeaders mode"
  from assms(1) have "when_defined (cto_resolve o1) validateResolve = Inr ()"
    by (auto simp: createTransport_options_def)
  moreover have "get_opt (transport_object ?t) ''resolve'' = value_opt (cto_resolve o1)"
    by (simp add: transport_object_get transport_options_of_plain)
  ultimately have r: "parse_resolve_opt addr (transport_object ?t) ''resolve'' = Inr r \<longleftrightarrow>
      addresses_known addr (object_entries (cto_resolve o1)) \<and> r = resolve_of addr (object_entries (cto_resolve o1))" for r
    by (rule parse_resolve_opt_Inr)
  have "parse_headers_opt (transport_object ?t) ''proxyHeaders'' = Inr (opt_default (nto_proxyHeaders ?t) [])"
    by (simp add: transport_object_get)
  then show ?thesis
    by (auto simp: read_transport_def transport_object_get transport_config_of_def trust_store_of_def
        res_bind_Inr_iff r)
qed

section \<open>Timeouts\<close>

text \<open>The deadline a timeout of \<open>n\<close> milliseconds gives: whole milliseconds, none below one.\<close>

definition deadline_of :: "number \<Rightarrow> nat option" where
  "deadline_of n = (if num_less n 1 then None else Some (nat (min (2 ^ 64 - 1) (truncate_number n))))"

lemma uint_timeout:
  assumes "is_finite n" "\<not> num_less n 0"
  shows "uint (as_unsigned n :: 64 word) = min (2 ^ 64 - 1) (truncate_number n)"
  using truncate_nonneg [OF assms] uint_as_unsigned [OF assms(1), where 'w = 64] by simp

lemma deadline_number:
  assumes "is_finite n" "\<not> num_less n 0" "nro_timeout o1 = JNumber n"
  shows "deadline (native_request_of u g o1) = deadline_of n"
proof -
  let ?t = "as_unsigned n :: 64 word"
  have t: "uint ?t = min (2 ^ 64 - 1) (truncate_number n)" using assms by (intro uint_timeout)
  have "?t = 0 \<longleftrightarrow> num_less n 1"
    using t truncate_nonneg [OF assms(1,2)] by (simp add: uint_0_iff [symmetric] min_def split: if_splits)
  moreover have "unat ?t = nat (min (2 ^ 64 - 1) (truncate_number n))"
    using t by (simp add: unat_eq_nat_uint)
  ultimately show ?thesis
    using assms(3) by (simp add: deadline_def deadline_of_def native_request_of_def number_of_def word_gt_0)
qed

section \<open>Properties\<close>


definition sample_util :: "(string, string) wreq_util" where
  "sample_util = \<lparr>profile_of_label = Some, platform_of_label = Some, Chrome142 = ''chrome_142'', MacOS = ''macos''\<rparr>"



text \<open>Half a millisecond passes for a timeout and means none.\<close>

definition hasty :: RequestInit where
  "hasty = empty_init\<lparr>ri_timeout := JNumber (NumDec 5 1)\<rparr>"

lemma hasty_prepared: "\<exists>o1 st'. prepare_request np url hasty st = (Inr o1, st')"
  by (simp add: hasty_def empty_init_def prepare_request_parts Let_def resolveSessionContext_def
      generateEphemeralSessionId_def present_def check_request_def validateRedirectMode_def when_defined_def
      validateTimeout_def is_finite_def validateTrustStore_def serializeBody_def no_body_def ensureBodyAllowed_def
      default_headers_def mergeHeaderTuples_def add_content_type_def resolveTransportContext_def
      fresh_transport_def resolveEmulationMode_def normalizeProxyHeaders_def deref_def)



definition sample_transport :: CreateTransportOptions where
  "sample_transport = no_transport_options\<lparr>
     cto_resolve := JObject [(''a.b'', JArray [JString ''1.2.3.4''])],
     cto_poolMaxSize := JNumber (NumInt 4294967297), cto_connectTimeout := JNumber (NumDec 25 2)\<rparr>"

lemma sample_transport_ok:
  "createTransport_options np sample_transport = Inr (PresetMode DEFAULT_BROWSER DEFAULT_OS None)"
  "normalizeProxyHeaders (cto_proxyHeaders sample_transport) = Inr None"
proof -
  have "validateResolve (JObject [(''a.b'', JArray [JString ''1.2.3.4''])]) = Inr ()"
    by (simp add: validateResolve_def check_host_def check_address_def is_array_def object_entries_def
        Let_def trim_def is_space_def)
  then show "createTransport_options np sample_transport = Inr (PresetMode DEFAULT_BROWSER DEFAULT_OS None)"
    by (simp add: createTransport_options_def sample_transport_def no_transport_options_def resolveEmulationMode_def
        validateTrustStore_def when_defined_def validatePositiveInteger_def validatePositiveNumber_def
        is_finite_def is_integer_def num_le_def throw_if_def)
  show "normalizeProxyHeaders (cto_proxyHeaders sample_transport) = Inr None"
    by (simp add: sample_transport_def no_transport_options_def normalizeProxyHeaders_def)
qed


text \<open>The numbers of a transport at the addon's widths: timeouts are cut to whole milliseconds and
  saturate at 64 bits, so that a connect or read timeout below one millisecond, which is accepted as
  positive, arrives as 0; the pool's size saturates at 32 bits; the connections per host are exact
  below 2^64.\<close>

lemma transport_limits:
  assumes "createTransport_options np o1 = Inr mode"
    and "read_transport u addr (transport_object (transport_options_of o1 proxyHeaders mode)) = Inr c"
  shows "(\<forall>n. cto_connectTimeout o1 = JNumber n \<longrightarrow>
      map_option uint (tc_connect_timeout c) = Some (min (2 ^ 64 - 1) (truncate_number n))) \<and>
    (\<forall>n. cto_readTimeout o1 = JNumber n \<longrightarrow>
      map_option uint (tc_read_timeout c) = Some (min (2 ^ 64 - 1) (truncate_number n))) \<and>
    (\<forall>n. cto_poolIdleTimeout o1 = JNumber n \<longrightarrow>
      map_option uint (tc_pool_idle_timeout c) = Some (min (2 ^ 64 - 1) (truncate_number n))) \<and>
    (\<forall>n. cto_poolMaxSize o1 = JNumber n \<longrightarrow>
      map_option uint (tc_pool_max_size c) = Some (min (2 ^ 32 - 1) (truncate_number n))) \<and>
    (\<forall>n. cto_poolMaxIdlePerHost o1 = JNumber n \<longrightarrow>
      map_option uint (tc_pool_max_idle_per_host c) = Some (min (2 ^ 64 - 1) (truncate_number n)))"
proof -
  have positive: "is_finite n \<and> 0 \<le> truncate_number n"
    if "is_finite n" "num_greater n 0" for n
    using that truncate_nonneg(1) [of n] by (cases n) auto
  have whole: "is_finite (NumInt i) \<and> truncate_number (NumInt i) = i" for i
    by (simp add: is_finite_def truncate_number_def)
  have "c = transport_config_of u (tc_resolve c) (transport_options_of o1 (nto_proxyHeaders (transport_options_of o1 proxyHeaders mode)) mode)"
    using assms(2)
    by (auto simp: read_transport_def transport_object_get transport_options_of_plain transport_config_of_def
        trust_store_of_def)
  then have c: "tc_connect_timeout c = map_option as_unsigned (number_of (cto_connectTimeout o1))"
    "tc_read_timeout c = map_option as_unsigned (number_of (cto_readTimeout o1))"
    "tc_pool_idle_timeout c = map_option as_unsigned (number_of (cto_poolIdleTimeout o1))"
    "tc_pool_max_size c = map_option as_unsigned (number_of (cto_poolMaxSize o1))"
    "tc_pool_max_idle_per_host c = map_option as_unsigned (number_of (cto_poolMaxIdlePerHost o1))"
    by (metis transport_config_of_def transport_config.select_convs transport_options_of_plain)+
  from assms(1) show ?thesis
    unfolding c
    by (auto simp: createTransport_options_def when_defined_def validatePositiveNumber_iff
        validatePositiveInteger_iff validateNonNegativeInteger_iff number_of_def uint_as_unsigned
        whole positive)
qed

lemma transport_limits_witness:
  "\<exists>c. read_transport sample_util (\<lambda>s. Some s) (transport_object
      (transport_options_of sample_transport None (PresetMode DEFAULT_BROWSER DEFAULT_OS None))) = Inr c \<and>
     map_option uint (tc_connect_timeout c) = Some 0 \<and>
     map_option uint (tc_pool_max_size c) = Some 4294967295"
proof -
  obtain c where c: "read_transport sample_util (\<lambda>s. Some s) (transport_object
      (transport_options_of sample_transport None (PresetMode DEFAULT_BROWSER DEFAULT_OS None))) = Inr c"
    unfolding read_transport_Inr [OF sample_transport_ok]
    by (auto simp: sample_transport_def no_transport_options_def addresses_known_def addresses_of_def object_entries_def)
  from transport_limits [OF sample_transport_ok(1) c] c show ?thesis
    by (auto simp: sample_transport_def no_transport_options_def truncate_number_def)
qed

section \<open>Profiles are never replaced\<close>

text \<open>The addon as the source of its own tables; it knows the labels of the tables it was built with.\<close>

definition addon_profiles :: "(string \<Rightarrow> string \<Rightarrow> HeaderTuple list res) option \<Rightarrow> native_profiles" where
  "addon_profiles headers = \<lparr>native_getProfiles = BROWSER_PROFILES,
     native_getOperatingSystems = Some OPERATING_SYSTEMS, native_getEmulationHeaders = headers\<rparr>"

definition labels_known :: "('p, 'o) wreq_util \<Rightarrow> bool" where
  "labels_known u \<longleftrightarrow>
     (\<forall>b \<in> set BROWSER_PROFILES. profile_of_label u b \<noteq> None) \<and>
     (\<forall>s \<in> set OPERATING_SYSTEMS. platform_of_label u s \<noteq> None)"

lemma parse_labels:
  assumes "labels_known u"
  shows "b \<in> set BROWSER_PROFILES \<Longrightarrow> profile_of_label u b = Some (parse_emulation u b)"
    and "s \<in> set OPERATING_SYSTEMS \<Longrightarrow> platform_of_label u s = Some (parse_emulation_os u s)"
  using assms by (auto simp: labels_known_def parse_emulation_def parse_emulation_os_def)

lemma aliases_known: "list_all (\<lambda>b. b \<in> set BROWSER_PROFILES) (om_values BROWSER_ALIASES)"
  by (simp add: om_values_def BROWSER_ALIASES_def BROWSER_PROFILES_def)

lemma mode_labels:
  assumes "mode_ok (addon_profiles h) (PresetMode b s j)"
  shows "b \<in> set BROWSER_PROFILES" "s \<in> set OPERATING_SYSTEMS"
  using assms aliases_known
  by (auto simp: mode_ok_def addon_profiles_def profiles_of_def oses_of_def list_all_iff
      OPERATING_SYSTEMS_def DEFAULT_OS_def)

lemma resolveEmulationMode_names:
  assumes "resolveEmulationMode np browser os emulation = Inr (PresetMode b s j)"
  shows "b = (if browser = JUndefined then DEFAULT_BROWSER
              else opt_default (om_get BROWSER_ALIASES (js_string browser)) (js_string browser))"
    and "s = (if nullish os then DEFAULT_OS else js_string os)"
  using assms
  by (auto simp: resolveEmulationMode_def resolveProfile_def validateOperatingSystem_Inr opt_default_def
      split: if_splits option.splits)

text \<open>C13: With the addon's own tables, the browser and the system a request emulates are the ones that were
  named: an alias stands for its target, nothing for the default, and no label ever falls back to the
  Chrome 142 and macOS that the addon puts in the place of a label it does not know.\<close>

theorem emulated_profile_exact:
  assumes "labels_known u"
    and "resolveEmulationMode (addon_profiles headers) browser os emulation = Inr (PresetMode b s j)"
  shows "profile_of_label u b = Some (parse_emulation u b) \<and>
    platform_of_label u s = Some (parse_emulation_os u s) \<and>
    b = (if browser = JUndefined then DEFAULT_BROWSER
         else opt_default (om_get BROWSER_ALIASES (js_string browser)) (js_string browser)) \<and>
    s = (if nullish os then DEFAULT_OS else js_string os)"
proof -
  have "mode_ok (addon_profiles headers) (PresetMode b s j)"
    using assms(2) by (rule resolveEmulationMode_ok)
  from mode_labels [OF this] parse_labels [OF assms(1)] resolveEmulationMode_names [OF assms(2)]
  show ?thesis by blast
qed

theorem emulated_profile_exact_witness:
  "parse_emulation sample_util ''firefox_151'' = ''firefox_151'' \<and>
   resolveEmulationMode (addon_profiles None) (JString ''firefox'') JUndefined JUndefined =
     Inr (PresetMode ''firefox_151'' ''macos'' None)"
proof -
  have known: "labels_known sample_util" by (simp add: labels_known_def sample_util_def)
  have r: "resolveEmulationMode (addon_profiles None) (JString ''firefox'') JUndefined JUndefined =
     Inr (PresetMode ''firefox_151'' ''macos'' None)"
    by code_simp
  have "profile_of_label sample_util ''firefox_151'' = Some (parse_emulation sample_util ''firefox_151'')"
    using emulated_profile_exact [OF known r] by (rule conjunct1)
  with r show ?thesis by (simp add: sample_util_def)
qed

end
