(* ===== verification/NativeClients.thy ===== *)
theory NativeClients
  imports NativeBoundary
begin

text \<open>
  Which HTTP client of the addon a request runs on (rust/src/client.rs): \<open>TransportConfig\<close> and
  \<open>SessionConfig\<close>, \<open>build_client\<close> and \<open>build_ephemeral_client\<close>, the cache of clients for requests without a
  session (\<open>EphemeralClientManager\<close>) and the choice between them in \<open>make_request\<close>.

  A client is the list of the calls on its builder, with the emulation's original header names. The
  library decides whether a client, a proxy or a trust store can be built: \<open>http_lib\<close>.

  A transport of the registry is built from the options it was created with and stays until it is
  dropped; that is the locale \<open>client_registry\<close>, interpreted on the registries of the addon.
\<close>

section \<open>Building a client\<close>

datatype store_call = SetDefaultPaths | AddBundledCerts

datatype 'a client_call =
    ClientEmulation wreq_emulation
  | ClientProxy string "HeaderTuple list"
  | NoCertVerification
  | CertStore "store_call list"
  | ResolveTo string "'a list"
  | PoolIdleTimeout "64 word"
  | PoolMaxIdlePerHost "64 word"
  | PoolMaxSize "32 word"
  | ConnectTimeout "64 word"
  | ReadTimeout "64 word"
  | RecordTlsInfo

record ('p, 'o, 'a) http_lib =
  lib_headers :: header_lib
  lib_json :: "string \<Rightarrow> jsval option"
  lib_preset :: "'p \<Rightarrow> 'o \<Rightarrow> wreq_emulation"
  lib_proxy_ok :: "string \<Rightarrow> bool"
  lib_store_ok :: "store_call list \<Rightarrow> bool"
  lib_client_ok :: "'a client_call list \<Rightarrow> bool"

record 'a http_client =
  client_calls :: "'a client_call list"
  client_orig_headers :: "string list"

definition store_error :: "string \<Rightarrow> js_error" where
  "store_error name = PlainError (''Failed to build '' @ name @ '' trust store'')"

definition build_cert_store :: "('p, 'o, 'a) http_lib \<Rightarrow> TrustStoreMode \<Rightarrow> store_call list res" where
  "build_cert_store lib m = (case m of
      Mozilla \<Rightarrow> (if lib_store_ok lib [AddBundledCerts] then Inr [AddBundledCerts] else Inl (store_error ''Mozilla''))
    | DefaultPaths \<Rightarrow>
        (if lib_store_ok lib [SetDefaultPaths] then Inr [SetDefaultPaths] else Inl (store_error ''default-paths''))
    | Combined \<Rightarrow>
        (if lib_store_ok lib [SetDefaultPaths, AddBundledCerts] then Inr [SetDefaultPaths, AddBundledCerts]
         else if lib_store_ok lib [AddBundledCerts] then Inr [AddBundledCerts]
         else Inl (store_error ''combined'')))"

definition check_proxy_header :: "header_lib \<Rightarrow> HeaderTuple \<Rightarrow> unit res" where
  "check_proxy_header lib h =
     (if name_of lib (fst h) = None then Inl (PlainError (''Invalid proxy header name: '' @ fst h))
      else throw_if (\<not> value_ok lib (snd h)) (PlainError (''Invalid proxy header value for '' @ fst h)))"

definition build_proxy ::
  "('p, 'o, 'a) http_lib \<Rightarrow> string \<Rightarrow> HeaderTuple list \<Rightarrow> 'a client_call res" where
  "build_proxy lib proxy_url proxy_headers =
     (if \<not> lib_proxy_ok lib proxy_url then Inl (PlainError ''Failed to create proxy'')
      else res_bind (res_all (check_proxy_header (lib_headers lib)) proxy_headers) (\<lambda>_.
        Inr (ClientProxy proxy_url proxy_headers)))"

definition proxy_calls ::
  "('p, 'o, 'a) http_lib \<Rightarrow> string option \<Rightarrow> HeaderTuple list \<Rightarrow> 'a client_call list res" where
  "proxy_calls lib proxy proxy_headers = (case proxy of
      None \<Rightarrow> Inr []
    | Some proxy_url \<Rightarrow> res_bind (build_proxy lib proxy_url proxy_headers) (\<lambda>c. Inr [c]))"

definition trust_calls ::
  "('p, 'o, 'a) http_lib \<Rightarrow> bool \<Rightarrow> TrustStoreMode \<Rightarrow> 'a client_call list res" where
  "trust_calls lib insecure trust_store =
     (if insecure then Inr [NoCertVerification]
      else res_bind (build_cert_store lib trust_store) (\<lambda>store. Inr [CertStore store]))"

definition optional_call :: "('w \<Rightarrow> 'a client_call) \<Rightarrow> 'w option \<Rightarrow> 'a client_call list" where
  "optional_call f x = (case x of None \<Rightarrow> [] | Some w \<Rightarrow> [f w])"

definition finish_client ::
  "('p, 'o, 'a) http_lib \<Rightarrow> 'a client_call list \<Rightarrow> string list \<Rightarrow> 'a http_client res" where
  "finish_client lib calls orig =
     (if lib_client_ok lib calls then Inr \<lparr>client_calls = calls, client_orig_headers = orig\<rparr>
      else Inl (PlainError ''Failed to build HTTP client''))"

definition build_client ::
  "('p, 'o, 'a) http_lib \<Rightarrow> ('p, 'o, 'a) transport_config \<Rightarrow> 'a http_client res" where
  "build_client lib config =
     res_bind (resolve_emulation (lib_headers lib) (lib_json lib) (lib_preset lib)
       (tc_browser config) (tc_browser_os config) (tc_emulation_json config)) (\<lambda>emulation.
     res_bind (proxy_calls lib (tc_proxy config) (tc_proxy_headers config)) (\<lambda>proxy.
     res_bind (trust_calls lib (tc_insecure config) (tc_trust_store config)) (\<lambda>trust.
     finish_client lib
       (ClientEmulation emulation # proxy @ trust @
        map (\<lambda>(domain, addrs). ResolveTo domain addrs) (tc_resolve config) @
        optional_call PoolIdleTimeout (tc_pool_idle_timeout config) @
        optional_call PoolMaxIdlePerHost (tc_pool_max_idle_per_host config) @
        optional_call PoolMaxSize (tc_pool_max_size config) @
        optional_call ConnectTimeout (tc_connect_timeout config) @
        optional_call ReadTimeout (tc_read_timeout config) @
        (if tc_capture_diagnostics config then [RecordTlsInfo] else []))
       (em_orig_headers emulation))))"

text \<open>The options that distinguish the clients of requests without a session.\<close>

record ('p, 'o) session_config =
  sc_browser :: "'p option"
  sc_browser_os :: "'o option"
  sc_emulation_json :: "string option"
  sc_proxy :: "string option"
  sc_proxy_headers :: "HeaderTuple list"
  sc_insecure :: bool
  sc_trust_store :: TrustStoreMode
  sc_connect_timeout :: "64 word option"
  sc_read_timeout :: "64 word option"
  sc_capture_diagnostics :: bool

definition build_ephemeral_client ::
  "('p, 'o, 'a) http_lib \<Rightarrow> ('p, 'o) session_config \<Rightarrow> 'a http_client res" where
  "build_ephemeral_client lib config =
     res_bind (resolve_emulation (lib_headers lib) (lib_json lib) (lib_preset lib)
       (sc_browser config) (sc_browser_os config) (sc_emulation_json config)) (\<lambda>emulation.
     res_bind (proxy_calls lib (sc_proxy config) (sc_proxy_headers config)) (\<lambda>proxy.
     res_bind (trust_calls lib (sc_insecure config) (sc_trust_store config)) (\<lambda>trust.
     finish_client lib
       (ClientEmulation emulation # PoolMaxIdlePerHost 0 # proxy @ trust @
        optional_call ConnectTimeout (sc_connect_timeout config) @
        optional_call ReadTimeout (sc_read_timeout config) @
        (if sc_capture_diagnostics config then [RecordTlsInfo] else []))
       (em_orig_headers emulation))))"

section \<open>Choosing a client\<close>

definition session_config_from :: "('p, 'o) native_request \<Rightarrow> ('p, 'o) session_config" where
  "session_config_from r =
     \<lparr>sc_browser = rq_browser r, sc_browser_os = rq_browser_os r, sc_emulation_json = rq_emulation_json r,
      sc_proxy = rq_proxy r, sc_proxy_headers = rq_proxy_headers r, sc_insecure = rq_insecure r,
      sc_trust_store = rq_trust_store r, sc_connect_timeout = rq_connect_timeout r,
      sc_read_timeout = rq_read_timeout r, sc_capture_diagnostics = rq_capture_diagnostics r\<rparr>"

definition transport_config_from :: "('p, 'o) native_request \<Rightarrow> ('p, 'o, 'a) transport_config" where
  "transport_config_from r =
     \<lparr>tc_browser = rq_browser r, tc_browser_os = rq_browser_os r, tc_emulation_json = rq_emulation_json r,
      tc_proxy = rq_proxy r, tc_proxy_headers = rq_proxy_headers r, tc_insecure = rq_insecure r,
      tc_trust_store = rq_trust_store r, tc_pool_idle_timeout = rq_pool_idle_timeout r,
      tc_pool_max_idle_per_host = rq_pool_max_idle_per_host r, tc_pool_max_size = rq_pool_max_size r,
      tc_connect_timeout = rq_connect_timeout r, tc_read_timeout = rq_read_timeout r,
      tc_capture_diagnostics = rq_capture_diagnostics r, tc_resolve = []\<rparr>"

type_synonym ('p, 'o, 'a) client_cache = "('p, 'o) session_config \<rightharpoonup> 'a http_client"

definition client_for ::
  "('p, 'o, 'a) http_lib \<Rightarrow> ('p, 'o) session_config \<Rightarrow> ('p, 'o, 'a) client_cache \<Rightarrow>
     'a http_client res \<times> ('p, 'o, 'a) client_cache" where
  "client_for lib config cache = (case cache config of
      Some client \<Rightarrow> (Inr client, cache)
    | None \<Rightarrow>
        (case build_ephemeral_client lib config of
           Inl e \<Rightarrow> (Inl e, cache)
         | Inr client \<Rightarrow> (Inr client, cache(config \<mapsto> client))))"

text \<open>\<open>explicit\<close> are the transports of the registry.\<close>

definition resolve_client ::
  "('p, 'o, 'a) http_lib \<Rightarrow> (string \<rightharpoonup> 'a http_client) \<Rightarrow> ('p, 'o) native_request \<Rightarrow> ('p, 'o, 'a) client_cache \<Rightarrow>
     'a http_client res \<times> ('p, 'o, 'a) client_cache" where
  "resolve_client lib explicit r cache = (case rq_transport_id r of
      Some tid \<Rightarrow>
        ((case explicit tid of
            Some client \<Rightarrow> Inr client
          | None \<Rightarrow> Inl (PlainError (''Transport '' @ squote @ tid @ squote @ '' not found''))), cache)
    | None \<Rightarrow>
        (if rq_ephemeral r then client_for lib (session_config_from r) cache
         else (build_client lib (transport_config_from r), cache)))"

text \<open>What happens to the cache: requests of any kind, and entries that expire after 300 idle seconds.\<close>

inductive cache_step ::
  "('p, 'o, 'a) http_lib \<Rightarrow> ('p, 'o, 'a) client_cache \<Rightarrow> ('p, 'o, 'a) client_cache \<Rightarrow> bool"
  for lib :: "('p, 'o, 'a) http_lib" where
  cache_request: "resolve_client lib explicit r cache = (c, cache') \<Longrightarrow> cache_step lib cache cache'"
| cache_idle: "cache_step lib cache (cache(config := None))"

section \<open>A client is built from the options of its own requests\<close>

definition cache_ok ::
  "('p, 'o, 'a) http_lib \<Rightarrow> ('p, 'o, 'a) client_cache \<Rightarrow> bool" where
  "cache_ok lib cache \<longleftrightarrow>
     (\<forall>config client. cache config = Some client \<longrightarrow> build_ephemeral_client lib config = Inr client)"

lemma client_for_ok:
  assumes "cache_ok lib cache" "client_for lib config cache = (c, cache')"
  shows "cache_ok lib cache' \<and> c = build_ephemeral_client lib config"
proof (cases "cache config")
  case None
  show ?thesis
  proof (cases "build_ephemeral_client lib config")
    case (Inr client)
    with None assms(2) have "c = Inr client" "cache' = cache(config \<mapsto> client)"
      by (simp_all add: client_for_def)
    with Inr assms(1) show ?thesis by (auto simp: cache_ok_def)
  qed (use None assms in \<open>simp add: client_for_def\<close>)
next
  case (Some client)
  with assms show ?thesis by (auto simp: client_for_def cache_ok_def)
qed

lemma cache_step_ok: "cache_step lib cache cache' \<Longrightarrow> cache_ok lib cache \<Longrightarrow> cache_ok lib cache'"
proof (induction rule: cache_step.induct)
  case (cache_request explicit r cache c cache')
  then show ?case
    using client_for_ok [of lib cache "session_config_from r" c cache']
    by (auto simp: resolve_client_def split: option.splits if_splits)
next
  case (cache_idle cache config)
  then show ?case by (auto simp: cache_ok_def)
qed

lemma cache_reachable_ok: "(cache_step lib)\<^sup>*\<^sup>* Map.empty cache \<Longrightarrow> cache_ok lib cache"
  by (induction rule: rtranclp_induct) (auto simp: cache_ok_def [of lib Map.empty] intro: cache_step_ok)

text \<open>The cache is transparent.\<close>

lemma resolve_client_plain:
  assumes "cache_ok lib cache" "resolve_client lib explicit r cache = (c, cache')" "rq_transport_id r = None"
  shows "c = (if rq_ephemeral r then build_ephemeral_client lib (session_config_from r)
              else build_client lib (transport_config_from r))"
  using assms client_for_ok [OF assms(1)] by (auto simp: resolve_client_def split: if_splits)

text \<open>What a client does about certificates, proxies and emulation.\<close>

definition client_like ::
  "('p, 'o, 'a) http_lib \<Rightarrow> bool \<Rightarrow> TrustStoreMode \<Rightarrow> string option \<Rightarrow> HeaderTuple list \<Rightarrow> wreq_emulation res \<Rightarrow>
     'a client_call list \<Rightarrow> bool" where
  "client_like lib insecure trust_store proxy proxy_headers emulation calls \<longleftrightarrow>
     (NoCertVerification \<in> set calls \<longleftrightarrow> insecure) \<and>
     (\<forall>store. CertStore store \<in> set calls \<longleftrightarrow> \<not> insecure \<and> build_cert_store lib trust_store = Inr store) \<and>
     (\<forall>url hs. ClientProxy url hs \<in> set calls \<longleftrightarrow> proxy = Some url \<and> hs = proxy_headers) \<and>
     (\<forall>e. ClientEmulation e \<in> set calls \<longleftrightarrow> emulation = Inr e)"

text \<open>The calls that have no part in it.\<close>

fun other_call :: "'a client_call \<Rightarrow> bool" where
  "other_call (ClientEmulation e) = False"
| "other_call (ClientProxy url hs) = False"
| "other_call NoCertVerification = False"
| "other_call (CertStore store) = False"
| "other_call c = True"

lemma client_like_calls:
  assumes "proxy_calls lib proxy proxy_headers = Inr pc" "trust_calls lib insecure trust_store = Inr tc"
    and "list_all other_call rest"
    and "set calls = insert (ClientEmulation em) (set pc \<union> set tc \<union> set rest)"
  shows "client_like lib insecure trust_store proxy proxy_headers (Inr em) calls"
proof -
  have rest: "c \<notin> set rest" if "\<not> other_call c" for c
    using assms(3) that by (auto simp: list_all_iff)
  have pc: "c \<in> set pc \<longleftrightarrow> (\<exists>u. proxy = Some u \<and> c = ClientProxy u proxy_headers)" for c
    using assms(1) by (cases proxy) (auto simp: proxy_calls_def build_proxy_def split: if_splits)
  have tc: "c \<in> set tc \<longleftrightarrow> (if insecure then c = NoCertVerification
      else \<exists>store. build_cert_store lib trust_store = Inr store \<and> c = CertStore store)" for c
    using assms(2) by (auto simp: trust_calls_def split: if_splits)
  show ?thesis
    unfolding client_like_def assms(4) insert_iff Un_iff pc tc
    using rest by auto
qed

lemma finish_client_Inr:
  "finish_client lib calls orig = Inr client \<longleftrightarrow>
     lib_client_ok lib calls \<and> client = \<lparr>client_calls = calls, client_orig_headers = orig\<rparr>"
  by (auto simp: finish_client_def)

lemma optional_call_set: "c \<in> set (optional_call f x) \<longleftrightarrow> (\<exists>w. x = Some w \<and> c = f w)"
  by (auto simp: optional_call_def split: option.split)

lemma build_client_like:
  assumes "build_client lib config = Inr client"
  shows "client_like lib (tc_insecure config) (tc_trust_store config) (tc_proxy config) (tc_proxy_headers config)
    (resolve_emulation (lib_headers lib) (lib_json lib) (lib_preset lib)
       (tc_browser config) (tc_browser_os config) (tc_emulation_json config)) (client_calls client)"
proof -
  from assms obtain em pc tc rest where em: "resolve_emulation (lib_headers lib) (lib_json lib) (lib_preset lib)
       (tc_browser config) (tc_browser_os config) (tc_emulation_json config) = Inr em"
    and pc: "proxy_calls lib (tc_proxy config) (tc_proxy_headers config) = Inr pc"
    and tc: "trust_calls lib (tc_insecure config) (tc_trust_store config) = Inr tc"
    and rest: "rest = map (\<lambda>(domain, addrs). ResolveTo domain addrs) (tc_resolve config) @
        optional_call PoolIdleTimeout (tc_pool_idle_timeout config) @
        optional_call PoolMaxIdlePerHost (tc_pool_max_idle_per_host config) @
        optional_call PoolMaxSize (tc_pool_max_size config) @
        optional_call ConnectTimeout (tc_connect_timeout config) @
        optional_call ReadTimeout (tc_read_timeout config) @
        (if tc_capture_diagnostics config then [RecordTlsInfo] else [])"
    and calls: "client_calls client = ClientEmulation em # pc @ tc @ rest"
    by (auto simp: build_client_def finish_client_Inr)
  show ?thesis unfolding em
    by (rule client_like_calls [OF pc tc, where rest = rest])
      (auto simp: rest calls optional_call_set list_all_iff split: if_splits)
qed

lemma build_ephemeral_like:
  assumes "build_ephemeral_client lib config = Inr client"
  shows "client_like lib (sc_insecure config) (sc_trust_store config) (sc_proxy config) (sc_proxy_headers config)
    (resolve_emulation (lib_headers lib) (lib_json lib) (lib_preset lib)
       (sc_browser config) (sc_browser_os config) (sc_emulation_json config)) (client_calls client)"
proof -
  define rest :: "'a client_call list" where rest: "rest = PoolMaxIdlePerHost 0 #
      optional_call ConnectTimeout (sc_connect_timeout config) @
      optional_call ReadTimeout (sc_read_timeout config) @
      (if sc_capture_diagnostics config then [RecordTlsInfo] else [])"
  from assms obtain em pc tc where em: "resolve_emulation (lib_headers lib) (lib_json lib) (lib_preset lib)
       (sc_browser config) (sc_browser_os config) (sc_emulation_json config) = Inr em"
    and pc: "proxy_calls lib (sc_proxy config) (sc_proxy_headers config) = Inr pc"
    and tc: "trust_calls lib (sc_insecure config) (sc_trust_store config) = Inr tc"
    and calls: "set (client_calls client) = insert (ClientEmulation em) (set pc \<union> set tc \<union> set rest)"
    by (fastforce simp: build_ephemeral_client_def finish_client_Inr rest)
  show ?thesis unfolding em
    by (rule client_like_calls [OF pc tc _ calls])
      (auto simp: rest optional_call_set list_all_iff split: if_splits)
qed

text \<open>Without a transport, what a request says of its connection is what its options say.\<close>

lemma request_options_fresh:
  assumes "resolveTransportContext np config d = Inr t"
    and "nro_transportId (request_options url config ctx b hs t) = None"
  shows "nro_insecure (request_options url config ctx b hs t) = ri_insecure config"
    and "nro_proxy (request_options url config ctx b hs t) = ri_proxy config"
    and "trust_store_of (nro_trustStore (request_options url config ctx b hs t)) = trust_store_of (ri_trustStore config)"
proof -
  let ?o = "request_options url config ctx b hs t"
  have open_id: "\<not> present (tr_transportId t)"
    using assms(2) by (auto simp: present_def split: if_splits)
  have own: "ri_proxy config = JUndefined \<and> ri_insecure config = None \<and> ri_trustStore config = JUndefined \<and>
      t = fixed_transport (transport_id tr) (ri_captureDiagnostics config)"
    if "ri_transport config = TransportObject tr" for tr
    using assms(1) that by (auto simp: resolveTransportContext_def own_transport_def split: if_splits)
  have fresh: "fresh_transport np config = Inr t" if "\<nexists>tr. ri_transport config = TransportObject tr"
    using assms(1) that open_id
    by (cases "ri_transport config")
      (auto simp: resolveTransportContext_def session_transport_Inr fixed_transport_def present_def
        split: option.splits if_splits)
  have o: "nro_insecure ?o = tr_insecure t" "nro_proxy ?o = tr_proxy t" "nro_trustStore ?o = tr_trustStore t"
    using open_id
    by (simp_all add: request_options_def applyNativeEmulationMode_def Let_def
        split: option.split ResolvedEmulationMode.split)
  have trust: "trust_store_of (or_default_trust v) = trust_store_of v" for v
    by (auto simp: or_default_trust_def trust_store_of_def string_of_def DEFAULT_TRUST_STORE_def
        parse_trust_store_mode_def nullish_def)
  show "nro_insecure ?o = ri_insecure config" "nro_proxy ?o = ri_proxy config"
    "trust_store_of (nro_trustStore ?o) = trust_store_of (ri_trustStore config)"
    using own fresh o trust
    by (cases "\<exists>tr. ri_transport config = TransportObject tr";
        auto simp: fixed_transport_def fresh_transport_def res_bind_Inr_iff)+
qed

lemma resolve_client_like:
  assumes "cache_ok lib cache" "resolve_client lib explicit r cache = (Inr c, cache')" "rq_transport_id r = None"
  shows "client_like lib (rq_insecure r) (rq_trust_store r) (rq_proxy r) (rq_proxy_headers r)
    (resolve_emulation (lib_headers lib) (lib_json lib) (lib_preset lib)
       (rq_browser r) (rq_browser_os r) (rq_emulation_json r)) (client_calls c)"
proof (cases "rq_ephemeral r")
  case True
  then have "build_ephemeral_client lib (session_config_from r) = Inr c"
    using resolve_client_plain [OF assms] by simp
  from build_ephemeral_like [OF this] show ?thesis by (simp add: session_config_from_def)
next
  case False
  then have "build_client lib (transport_config_from r) = Inr c"
    using resolve_client_plain [OF assms] by simp
  from build_client_like [OF this] show ?thesis by (simp add: transport_config_from_def)
qed

section \<open>A session's transport\<close>

text \<open>Creating a transport: the options are read, then its client is built.\<close>

definition create_managed_transport ::
  "('p, 'o) wreq_util \<Rightarrow> (string \<Rightarrow> 'a option) \<Rightarrow> ('p, 'o, 'a) http_lib \<Rightarrow> NativeTransportOptions \<Rightarrow> 'a http_client res" where
  "create_managed_transport u addr lib options =
     res_bind (read_transport u addr (transport_object options)) (build_client lib)"

locale client_registry = registry ops transports sessions ok
  for ops :: "'n lifecycle" and transports :: "'n \<Rightarrow> string set" and sessions :: "'n \<Rightarrow> string set"
    and ok :: "'n \<Rightarrow> bool" +
  fixes client_at :: "'n \<Rightarrow> string \<Rightarrow> 'c option"
    and build :: "NativeTransportOptions \<Rightarrow> 'c res"
  assumes client_create:
      "ok s \<Longrightarrow> native_createTransport ops opts s = (Inr i, s') \<Longrightarrow>
         (\<exists>c. build opts = Inr c \<and> client_at s' i = Some c) \<and> (\<forall>j. j \<noteq> i \<longrightarrow> client_at s' j = client_at s j)"
    and client_no_create:
      "ok s \<Longrightarrow> native_createTransport ops opts s = (Inl e, s') \<Longrightarrow> client_at s' = client_at s"
    and client_drop:
      "ok s \<Longrightarrow> native_dropTransport ops i s = (r, s') \<Longrightarrow> j \<noteq> i \<Longrightarrow> client_at s' j = client_at s j"
    and client_session: "ok s \<Longrightarrow> native_createSession ops k s = (r', s') \<Longrightarrow> client_at s' = client_at s"
    and client_drop_session: "ok s \<Longrightarrow> native_dropSession ops k s = (r, s') \<Longrightarrow> client_at s' = client_at s"
    and client_idle: "ok s \<Longrightarrow> client_at (addon_idle ops k s) = client_at s"

text \<open>Each open session has a transport of its own, with the client its options ask for.\<close>

definition session_bound ::
  "('n \<Rightarrow> string \<Rightarrow> 'c option) \<Rightarrow> (NativeTransportOptions \<Rightarrow> 'c res) \<Rightarrow> 'n \<Rightarrow> Session \<Rightarrow> bool" where
  "session_bound client_at build s ses \<longleftrightarrow>
     session_disposed ses \<or>
     (\<exists>i c. sd_transportId (session_defaults ses) = Some i \<and> i \<noteq> [] \<and> sd_ownsTransport (session_defaults ses) \<and>
        client_at s i = Some c \<and> build (session_transport_options (session_defaults ses)) = Inr c)"

lemma session_transport_options_id [simp]:
  "session_transport_options (d\<lparr>sd_transportId := i, sd_ownsTransport := b\<rparr>) = session_transport_options d"
  by (simp add: session_transport_options_def)

context client_registry
begin

lemma create_frame:
  assumes "ok s" "native_createTransport ops opts s = (r, s')" "j \<in> transports s"
  shows "client_at s' j = client_at s j"
proof (cases r)
  case (Inl e)
  with assms show ?thesis using client_no_create [of s opts e s'] by simp
next
  case (Inr i)
  with assms(1,2) have "native_createTransport ops opts s = (Inr i, s')" by simp
  from createTransport_Inr [OF assms(1) this] client_create [OF assms(1) this] assms(3)
  show ?thesis by metis
qed

lemma createTransport_clients:
  assumes "ok s" "createTransport ops np options s = (r, s')" "j \<in> transports s"
  shows "client_at s' j = client_at s j"
  using assms create_frame [OF assms(1)]
  by (auto simp: createTransport_def Let_def split: sum.splits prod.splits)

lemma transport_close_clients:
  assumes "ok s" "transport_close ops t s = (r, t', s')" "j \<noteq> transport_id t"
  shows "client_at s' j = client_at s j"
  using assms client_drop [OF assms(1)]
  by (auto simp: transport_close_def Let_def split: if_splits sum.splits prod.splits)

lemma session_close_clients:
  assumes "ok s" "session_close ops ses s = (r, ses', s')" "j \<notin> owned_transports ses"
  shows "client_at s' j = client_at s j"
proof -
  obtain rd s1 where d: "native_dropSession ops (session_id ses) s = (rd, s1)" by fastforce
  obtain rt s2 where t: "native_dropTransport ops (the (sd_transportId (session_defaults ses))) s1 = (rt, s2)"
    by fastforce
  have "ok s1" "client_at s1 = client_at s"
    using dropSession [OF assms(1) d] client_drop_session [OF assms(1) d] by auto
  with client_drop [OF _ t] assms(2,3) d t show ?thesis
    by (auto simp: session_close_def owned_transports_def Let_def split: if_splits sum.splits)
qed

lemma createSession_clients:
  assumes ok: "ok s" and run: "createSession ops np uuid options h s = (r, s')"
  shows "(\<forall>j \<in> transports s. client_at s' j = client_at s j) \<and>
    (\<forall>ses h'. r = Inr (ses, h') \<longrightarrow> session_bound client_at build s' ses)"
proof (cases "normalizeSessionOptions np uuid options h")
  case (Inl e)
  with run show ?thesis by (auto simp: createSession_def)
next
  case (Inr v)
  obtain sid d h1 where v: "v = ((sid, d), h1)" by (metis prod.exhaust)
  obtain rt s1 where t: "native_createTransport ops (session_transport_options d) s = (rt, s1)" by fastforce
  show ?thesis
  proof (cases rt)
    case e: (Inl e)
    with t have "native_createTransport ops (session_transport_options d) s = (Inl e, s1)" by simp
    from client_no_create [OF ok this] t e Inr v run show ?thesis by (auto simp: createSession_def)
  next
    case i: (Inr i)
    with t have t: "native_createTransport ops (session_transport_options d) s = (Inr i, s1)" by simp
    note T = createTransport_Inr [OF ok t] client_create [OF ok t]
    obtain rs s2 where c: "native_createSession ops sid s1 = (rs, s2)" by fastforce
    from T client_session [OF _ c] have s2: "client_at s2 = client_at s1" by blast
    from T have ok1: "ok s1" by blast
    have ok2: "ok s2"
    proof (cases rs)
      case (Inl e)
      with c createSession_Inl [OF ok1, of sid e s2] show ?thesis by simp
    next
      case (Inr k)
      with c createSession_Inr [OF ok1, of sid k s2] show ?thesis by simp
    qed
    show ?thesis
    proof (cases rs)
      case e: (Inl e)
      obtain u s3 where dr: "native_dropTransport ops i s2 = (u, s3)" by fastforce
      have "client_at s3 j = client_at s j" if "j \<in> transports s" for j
      proof -
        from that T have "j \<noteq> i" by auto
        then show ?thesis using client_drop [OF ok2 dr] s2 T by auto
      qed
      with e Inr v t c dr run show ?thesis by (auto simp: createSession_def)
    next
      case j: (Inr j)
      have "s' = s2" "\<And>ses h'. r = Inr (ses, h') \<Longrightarrow>
          session_defaults ses = d\<lparr>sd_transportId := Some i, sd_ownsTransport := True\<rparr>"
        using j Inr v t c run by (auto simp: createSession_def)
      note res = this
    have "client_at s' i' = client_at s i'" if "i' \<in> transports s" for i'
      using create_frame [OF ok t that] s2 res(1) by simp
    moreover from T obtain c where "build (session_transport_options d) = Inr c" "client_at s' i = Some c" "i \<noteq> []"
      using s2 res(1) by auto
    ultimately show ?thesis using res(2) by (auto simp: session_bound_def)
    qed
  qed
qed

text \<open>Every open session keeps its client whatever the program does with other objects.\<close>

definition world_bound :: "'n world \<Rightarrow> bool" where
  "world_bound w \<longleftrightarrow> world_ok transports sessions ok {} w \<and>
     (\<forall>ses \<in> set (w_sessions w). session_bound client_at build (w_native w) ses)"

lemma session_bound_frame:
  assumes "session_bound client_at build s ses" "\<not> session_disposed ses"
    and "\<And>j. j \<in> owned_transports ses \<Longrightarrow> client_at s' j = client_at s j"
  shows "session_bound client_at build s' ses"
  using assms by (auto simp: session_bound_def owned_transports_def)

lemma bound_owned: "session_bound client_at build s ses \<Longrightarrow> \<not> session_disposed ses \<Longrightarrow>
    set (open_owned ses) = owned_transports ses"
  by (simp add: owned_transports_open)

lemma held_owned:
  assumes "world_ok transports sessions ok {} w" "ses \<in> set (w_sessions w)" "\<not> session_disposed ses"
    "j \<in> owned_transports ses"
  shows "j \<in> transports (w_native w)"
proof -
  have "j \<in> set (open_owned ses)" using assms(3,4) by (simp add: owned_transports_open)
  with assms(2) have "j \<in> set (held_transports w)" by (auto simp: held_transports_def)
  with assms(1) show ?thesis by (simp add: world_ok_def)
qed

lemma world_frame:
  assumes "world_bound w" "ses \<in> set (w_sessions w)"
    and "\<And>j. j \<in> transports (w_native w) \<Longrightarrow> client_at s' j = client_at (w_native w) j"
  shows "session_bound client_at build s' ses"
proof (cases "session_disposed ses")
  case False
  have w: "world_ok transports sessions ok {} w" "session_bound client_at build (w_native w) ses"
    using assms(1,2) by (simp_all add: world_bound_def)
  show ?thesis
    by (rule session_bound_frame [OF w(2) False]) (rule assms(3), rule held_owned [OF w(1) assms(2) False])
qed (simp add: session_bound_def)

lemma held_distinct_transport:
  assumes "distinct (held_transports w)" "t \<in> set (w_transports w)" "\<not> transport_disposed t"
    and "ses \<in> set (w_sessions w)" "\<not> session_disposed ses" "j \<in> owned_transports ses"
  shows "j \<noteq> transport_id t"
proof -
  have "transport_id t \<in> set (concat (map open_transport (w_transports w)))"
    using assms(2,3) by (force simp: open_transport_def)
  moreover have "j \<in> set (open_owned ses)"
    using assms(5,6) by (simp add: owned_transports_open)
  then have "j \<in> set (concat (map open_owned (w_sessions w)))"
    using assms(4) by auto
  ultimately show ?thesis using assms(1) by (auto simp: held_transports_def)
qed

lemma held_distinct_session:
  assumes "distinct (held_transports w)" "w_sessions w = ys @ s # zs" "\<not> session_disposed s"
    and "ses \<in> set ys \<union> set zs" "\<not> session_disposed ses" "j \<in> owned_transports ses"
  shows "j \<notin> owned_transports s"
proof -
  have "distinct (concat (map open_owned ys) @ open_owned s @ concat (map open_owned zs))"
    using assms(1,2) by (simp add: held_transports_def)
  moreover have "j \<in> set (open_owned ses)"
    using assms(5,6) by (simp add: owned_transports_open)
  then have "j \<in> set (concat (map open_owned ys)) \<union> set (concat (map open_owned zs))"
    using assms(4) by auto
  ultimately show ?thesis
    using owned_transports_open [OF assms(3)] by (auto simp del: set_concat)
qed

lemma world_bound_step:
  assumes "world_step ops np w w'" "world_bound w"
  shows "world_bound w'"
proof -
  have "world_ok transports sessions ok {} w'"
    using world_step_ok [OF assms(1)] assms(2) by (simp add: world_bound_def)
  moreover have w: "world_ok transports sessions ok {} w" and okw: "ok (w_native w)"
    using assms(2) by (simp_all add: world_bound_def world_ok_def)
  moreover have "\<forall>ses \<in> set (w_sessions w'). session_bound client_at build (w_native w') ses"
    using assms(1)
  proof cases
    case (new_transport options t s')
    then show ?thesis using world_frame [OF assms(2)] createTransport_clients [OF okw new_transport(2)] by auto
  next
    case (no_transport options e s')
    then show ?thesis using world_frame [OF assms(2)] createTransport_clients [OF okw no_transport(2)] by auto
  next
    case (close_transport k r t' s')
    let ?t = "w_transports w ! k"
    have t: "?t \<in> set (w_transports w)" using close_transport(2) by simp
    have "session_bound client_at build s' ses" if ses: "ses \<in> set (w_sessions w)" for ses
    proof (cases "session_disposed ses \<or> transport_disposed ?t")
      case True
      then show ?thesis using close_transport(3) assms(2) ses
        by (auto simp: session_bound_def world_bound_def transport_close_def)
    next
      case False
      then have b: "session_bound client_at build (w_native w) ses" using assms(2) ses by (simp add: world_bound_def)
      show ?thesis
        by (rule session_bound_frame [OF b])
          (use False held_distinct_transport [OF _ t _ ses] w
            transport_close_clients [OF okw close_transport(3)] in \<open>auto simp: world_ok_def\<close>)
    qed
    with close_transport(1) show ?thesis by simp
  next
    case (new_session uuid options' ses h' s')
    note C = createSession_clients [OF okw new_session(2)]
    have "session_bound client_at build s' ses0" if "ses0 \<in> set (w_sessions w)" for ses0
      using world_frame [OF assms(2) that] C by blast
    with new_session(1) C show ?thesis by auto
  next
    case (no_session uuid options' e s')
    note C = createSession_clients [OF okw no_session(2)]
    have "session_bound client_at build s' ses0" if "ses0 \<in> set (w_sessions w)" for ses0
      using world_frame [OF assms(2) that] C by blast
    with no_session(1) show ?thesis by simp
  next
    case (close_session k r' ses' s')
    let ?s = "w_sessions w ! k"
    obtain ys zs where split: "w_sessions w = ys @ ?s # zs" "\<And>y. (w_sessions w)[k := y] = ys @ y # zs"
      using close_session(2) by (rule list_update_split) blast
    have others: "session_bound client_at build s' ses" if ses: "ses \<in> set ys \<union> set zs" for ses
    proof (cases "session_disposed ses \<or> session_disposed ?s")
      case True
      have "ses \<in> set (w_sessions w)" using ses by (subst split(1)) auto
      then show ?thesis using True close_session(3) assms(2)
        by (auto simp: session_bound_def world_bound_def session_close_again)
    next
      case False
      have "ses \<in> set (w_sessions w)" using ses by (subst split(1)) auto
      then have b: "session_bound client_at build (w_native w) ses" using assms(2) by (simp add: world_bound_def)
      have d: "distinct (held_transports w)" using w by (simp add: world_ok_def)
      show ?thesis
        by (rule session_bound_frame [OF b])
          (use False held_distinct_session [OF d split(1) _ ses] session_close_clients [OF okw close_session(3)] in auto)
    qed
    have "session_bound client_at build s' ses'"
      using session_close_disposed [OF close_session(3)] by (simp add: session_bound_def)
    with others close_session(1) show ?thesis by (simp add: split(2))
  next
    case (idle_session i)
    then show ?thesis using world_frame [OF assms(2)] client_idle [OF okw] by auto
  qed
  ultimately show ?thesis by (simp add: world_bound_def)
qed

lemma world_bound_reachable:
  assumes "(world_step ops np)\<^sup>*\<^sup>* w w'" "world_bound w"
  shows "world_bound w'"
  using assms by (induction rule: rtranclp_induct) (auto intro: world_bound_step)

end

interpretation rust_clients: client_registry "rust_lifecycle build empty_jar"
  "\<lambda>s. dom (rust_transports s)" "\<lambda>s. dom (rust_sessions s)" rust_ok rust_transports build
  for build :: "NativeTransportOptions \<Rightarrow> 'c res" and empty_jar :: 'j
  by unfold_locales
    (auto simp: rust_lifecycle_def create_transport_def drop_transport_def create_session_def
      drop_session_def expire_session_def Let_def split: sum.splits)

lemma session_transport_options_plain:
  "nto_proxy (session_transport_options d) = sd_proxy d"
  "nto_proxyHeaders (session_transport_options d) = sd_proxyHeaders d"
  "nto_insecure (session_transport_options d) = sd_insecure d"
  "trust_store_of (nto_trustStore (session_transport_options d)) = trust_store_of (sd_trustStore d)"
  "nto_resolve (session_transport_options d) = JUndefined"
proof -
  have "trust_store_of DEFAULT_TRUST_STORE = trust_store_of v" if "nullish v" for v
    using that by (auto simp: nullish_def trust_store_of_def string_of_def DEFAULT_TRUST_STORE_def parse_trust_store_mode_def)
  then show "nto_proxy (session_transport_options d) = sd_proxy d"
    "nto_proxyHeaders (session_transport_options d) = sd_proxyHeaders d"
    "nto_insecure (session_transport_options d) = sd_insecure d"
    "trust_store_of (nto_trustStore (session_transport_options d)) = trust_store_of (sd_trustStore d)"
    "nto_resolve (session_transport_options d) = JUndefined"
    by (simp_all add: session_transport_options_def applyNativeEmulationMode_def base_transport_options_def Let_def
        split: option.split ResolvedEmulationMode.split)
qed

lemma read_session_transport:
  "read_transport u addr (transport_object (session_transport_options d)) =
     Inr (transport_config_of u [] (session_transport_options d))"
proof -
  have "parse_resolve_opt addr (transport_object (session_transport_options d)) ''resolve'' = Inr []"
    by (simp add: parse_resolve_opt_def transport_object_get session_transport_options_plain value_opt_def)
  moreover have "parse_headers_opt (transport_object (session_transport_options d)) ''proxyHeaders'' =
      Inr (opt_default (sd_proxyHeaders d) [])"
    by (simp add: transport_object_get session_transport_options_plain)
  ultimately show ?thesis
    by (simp add: read_transport_def transport_object_get transport_config_of_def trust_store_of_def
        session_transport_options_plain)
qed

text \<open>The emulation that options ask for.\<close>

definition emulation_of ::
  "('p, 'o) wreq_util \<Rightarrow> ('p, 'o, 'a) http_lib \<Rightarrow> 'b native_emulation_scheme \<Rightarrow> wreq_emulation res" where
  "emulation_of u lib opts = resolve_emulation (lib_headers lib) (lib_json lib) (lib_preset lib)
     (map_option (parse_emulation u) (native_browser opts)) (map_option (parse_emulation_os u) (native_os opts))
     (native_emulationJson opts)"

lemma session_client_like:
  assumes "create_managed_transport u addr lib (session_transport_options d) = Inr c"
  shows "client_like lib (sd_insecure d = Some True) (trust_store_of (sd_trustStore d)) (string_of (sd_proxy d))
    (opt_default (sd_proxyHeaders d) []) (emulation_of u lib (session_transport_options d)) (client_calls c)"
proof -
  from assms have "build_client lib (transport_config_of u [] (session_transport_options d)) = Inr c"
    by (simp add: create_managed_transport_def read_session_transport)
  from build_client_like [OF this] show ?thesis
    by (cases "sd_insecure d")
      (simp_all add: transport_config_of_def session_transport_options_plain emulation_of_def)
qed

section \<open>Properties\<close>

text \<open>C4: A request without a transport runs on a client that is built from its own options, whatever other
  requests have left in the cache of clients: certificates go unchecked only if this request says so, its
  proxy and no other is used, its trust store and its emulation.\<close>

theorem request_runs_on_own_client:
  assumes "prepare_request np url config st = (Inr o1, st')" "nro_transportId o1 = None"
    and "(cache_step lib)\<^sup>*\<^sup>* Map.empty cache"
    and "resolve_client lib explicit (native_request_of u generated o1) cache = (Inr c, cache')"
  shows "client_like lib (ri_insecure config = Some True) (trust_store_of (ri_trustStore config))
    (string_of (ri_proxy config)) (opt_default (nro_proxyHeaders o1) []) (emulation_of u lib o1) (client_calls c)"
proof -
  from assms(1) obtain ctx b hs d t where t: "resolveTransportContext np config d = Inr t"
    and o1: "o1 = request_options url config ctx b hs t"
    by (elim prepare_request_Inr)
  note fresh = request_options_fresh [OF t assms(2) [unfolded o1], folded o1]
  have "rq_transport_id (native_request_of u generated o1) = None"
    by (simp add: native_request_of_def assms(2) not_blank_def)
  from resolve_client_like [OF cache_reachable_ok [OF assms(3)] assms(4) this] show ?thesis
    by (cases "ri_insecure config") (simp_all add: native_request_of_def fresh emulation_of_def)
qed

definition sample_lib :: "(string, string, string) http_lib" where
  "sample_lib = \<lparr>lib_headers = ascii_lib, lib_json = (\<lambda>_. None), lib_preset = (\<lambda>b s. no_emulation),
     lib_proxy_ok = (\<lambda>_. True), lib_store_ok = (\<lambda>_. True), lib_client_ok = (\<lambda>_. True)\<rparr>"

lemma hasty_request:
  assumes "prepare_request np url hasty st = (Inr o1, st')"
  shows "nro_transportId o1 = None" "nro_ephemeral o1" "native_browser o1 = Some DEFAULT_BROWSER"
    "native_os o1 = Some DEFAULT_OS" "native_emulationJson o1 = None" "nro_proxy o1 = JUndefined"
    "nro_insecure o1 = None"
  using assms
  by (auto simp: hasty_def empty_init_def prepare_request_parts Let_def resolveSessionContext_def
      generateEphemeralSessionId_def present_def check_request_def validateRedirectMode_def when_defined_def
      validateTimeout_def is_finite_def validateTrustStore_def serializeBody_def no_body_def ensureBodyAllowed_def
      default_headers_def mergeHeaderTuples_def add_content_type_def resolveTransportContext_def
      fresh_transport_def resolveEmulationMode_def normalizeProxyHeaders_def deref_def request_options_def
      applyNativeEmulationMode_def)

theorem request_runs_on_own_client_witness:
  "\<exists>o1 st' c cache. prepare_request sample_profiles ''https://a/'' hasty start_state = (Inr o1, st') \<and>
     resolve_client sample_lib Map.empty (native_request_of sample_util ''g'' o1) Map.empty = (Inr c, cache) \<and>
     NoCertVerification \<notin> set (client_calls c)"
proof -
  obtain o1 st' where r: "prepare_request sample_profiles ''https://a/'' hasty start_state = (Inr o1, st')"
    using hasty_prepared by blast
  note o1 = hasty_request [OF r]
  have "\<exists>c cache. resolve_client sample_lib Map.empty (native_request_of sample_util ''g'' o1) Map.empty = (Inr c, cache)"
    using o1
    by (simp add: resolve_client_def native_request_of_def not_blank_def client_for_def session_config_from_def
        build_ephemeral_client_def resolve_emulation_def resolve_preset_emulation_def proxy_calls_def string_of_def
        trust_calls_def finish_client_def sample_lib_def build_cert_store_def split: TrustStoreMode.split)
  then obtain c cache where c: "resolve_client sample_lib Map.empty (native_request_of sample_util ''g'' o1) Map.empty = (Inr c, cache)"
    by blast
  from request_runs_on_own_client [OF r o1(1) rtranclp.rtrancl_refl c] r c show ?thesis
    by (auto simp: client_like_def hasty_def empty_init_def)
qed

text \<open>The addon finds the transport of an open session, built from the options of the session.\<close>

lemma open_session_client:
  assumes "(world_step (rust_lifecycle (create_managed_transport u addr lib) jar) np)\<^sup>*\<^sup>* w w'"
    and "rust_ok (w_native w)" "w_transports w = []" "w_sessions w = []"
    and "rust_transports (w_native w) = Map.empty" "rust_sessions (w_native w) = Map.empty"
    and "ses \<in> set (w_sessions w')" "\<not> session_disposed ses"
  shows "\<exists>i c. sd_transportId (session_defaults ses) = Some i \<and> i \<noteq> [] \<and> rust_transports (w_native w') i = Some c \<and>
    create_managed_transport u addr lib (session_transport_options (session_defaults ses)) = Inr c"
proof -
  have "rust_clients.world_bound (create_managed_transport u addr lib) w"
    using assms(2-6) by (simp add: rust_clients.world_bound_def world_ok_def held_transports_def held_sessions_def)
  from rust_clients.world_bound_reachable [OF assms(1) this] assms(7,8) show ?thesis
    by (auto simp: rust_clients.world_bound_def session_bound_def)
qed

text \<open>C5: An open session's requests run on the client that was built from the options the session was
  created with, whatever transports and sessions the program has created, closed or lost in the meantime:
  the addon finds the session's transport, and its client checks certificates unless the session said
  otherwise, uses the session's proxy, trust store and emulation.\<close>

theorem session_runs_on_own_client:
  assumes "(world_step (rust_lifecycle (create_managed_transport u addr lib) jar) np)\<^sup>*\<^sup>* w w'"
    and "rust_ok (w_native w)" "w_transports w = []" "w_sessions w = []"
    and "rust_transports (w_native w) = Map.empty" "rust_sessions (w_native w) = Map.empty"
    and "ses \<in> set (w_sessions w')" "\<not> session_disposed ses"
    and "ri_session config = SessionObject ses" "ri_transport config = TransportUndefined"
    and "prepare_request np' url config st = (Inr o1, st')"
    and "\<forall>i \<in> dom (rust_transports (w_native w')). not_blank (Some i) = Some i"
  shows "\<exists>c. fst (resolve_client lib (rust_transports (w_native w')) (native_request_of u generated o1) cache) = Inr c \<and>
    client_like lib (sd_insecure (session_defaults ses) = Some True)
      (trust_store_of (sd_trustStore (session_defaults ses))) (string_of (sd_proxy (session_defaults ses)))
      (opt_default (sd_proxyHeaders (session_defaults ses)) [])
      (emulation_of u lib (session_transport_options (session_defaults ses))) (client_calls c)"
proof -
  let ?d = "session_defaults ses"
  from open_session_client [OF assms(1-8)] obtain i c where
    i: "sd_transportId ?d = Some i" "i \<noteq> []" "rust_transports (w_native w') i = Some c"
    and c: "create_managed_transport u addr lib (session_transport_options ?d) = Inr c"
    by blast
  from assms(11) obtain ctx b hs t counter where
    s: "resolveSessionContext config (fs_ephemeral st) = (Inr ctx, counter)"
    and t: "resolveTransportContext np' config (sr_defaults ctx) = Inr t"
    and o1: "o1 = request_options url config ctx b hs t"
    by (elim prepare_request_Inr)
  from s assms(9) have "sr_defaults ctx = Some ?d"
    by (auto simp: resolveSessionContext_def Let_def split: if_splits)
  with t assms(10) i have "tr_transportId t = Some i"
    by (auto simp: resolveTransportContext_def session_transport_Inr fixed_transport_def)
  with i have "nro_transportId o1 = Some i" by (simp add: o1)
  moreover from assms(12) i(3) have "not_blank (Some i) = Some i" by blast
  ultimately have "rq_transport_id (native_request_of u generated o1) = Some i" by (simp add: native_request_of_def)
  with i(3) have "fst (resolve_client lib (rust_transports (w_native w')) (native_request_of u generated o1) cache) = Inr c"
    by (simp add: resolve_client_def)
  with session_client_like [OF c] show ?thesis by blast
qed

definition managed_state :: "(string http_client, unit) rust_state" where
  "managed_state = \<lparr>rust_transports = Map.empty, rust_sessions = Map.empty,
     rust_uuids = (\<lambda>n. replicate (Suc n) (CHR ''u'')), rust_used = 0\<rparr>"

definition managed_world :: "(string http_client, unit) rust_state world" where
  "managed_world = \<lparr>w_native = managed_state, w_heap = heap_empty, w_transports = [], w_sessions = []\<rparr>"

definition managed_session :: Session where
  "managed_session = \<lparr>session_id = ''id'', session_disposed = False,
     session_defaults = sample_defaults\<lparr>sd_transportMode := PresetMode DEFAULT_BROWSER DEFAULT_OS None,
       sd_defaultHeaders := None, sd_transportId := Some ''u''\<rparr>\<rparr>"

abbreviation managed_ops :: "(string http_client, unit) rust_state lifecycle" where
  "managed_ops \<equiv> rust_lifecycle (create_managed_transport sample_util Some sample_lib) ()"

lemma managed_client:
  "\<exists>c. create_managed_transport sample_util Some sample_lib
     (session_transport_options (session_defaults managed_session)) = Inr c"
proof -
  let ?config = "transport_config_of sample_util [] (session_transport_options (session_defaults managed_session)) ::
    (string, string, string) transport_config"
  have config: "tc_proxy ?config = None" "tc_browser ?config = Some DEFAULT_BROWSER"
    "tc_browser_os ?config = Some DEFAULT_OS" "tc_emulation_json ?config = None" "\<not> tc_insecure ?config"
    by (simp_all add: transport_config_of_def session_transport_options_plain managed_session_def sample_defaults_def
        sample_util_def parse_emulation_def parse_emulation_os_def DEFAULT_BROWSER_def DEFAULT_OS_def
        BROWSER_PROFILES_def OPERATING_SYSTEMS_def string_of_def session_transport_options_def applyNativeEmulationMode_def base_transport_options_def)
  have "\<exists>c. build_client sample_lib ?config = Inr c"
    by (cases "tc_trust_store ?config")
      (simp_all add: build_client_def config resolve_emulation_def resolve_preset_emulation_def proxy_calls_def
        trust_calls_def build_cert_store_def finish_client_def sample_lib_def)
  then show ?thesis by (simp add: create_managed_transport_def read_session_transport)
qed

lemma managed_created:
  assumes "create_managed_transport sample_util Some sample_lib
     (session_transport_options (session_defaults managed_session)) = Inr c"
  shows "createSession managed_ops sample_profiles ''id'' None heap_empty managed_state =
    (Inr (managed_session, heap_empty),
     managed_state\<lparr>rust_used := 1, rust_transports := [''u'' \<mapsto> c], rust_sessions := [''id'' \<mapsto> ()]\<rparr>)"
proof -
  have "normalizeSessionOptions sample_profiles ''id'' None heap_empty =
      Inr ((''id'', (session_defaults managed_session)\<lparr>sd_transportId := None, sd_ownsTransport := False\<rparr>), heap_empty)"
    by (simp add: normalizeSessionOptions_def no_session_options_def resolveEmulationMode_def when_defined_def
        normalizeProxyHeaders_def managed_session_def sample_defaults_def)
  with assms show ?thesis
    by (simp add: createSession_def rust_lifecycle_def create_transport_def create_session_def managed_state_def Let_def)
      (simp add: managed_session_def sample_defaults_def)
qed

definition managed_next :: "string http_client \<Rightarrow> (string http_client, unit) rust_state world" where
  "managed_next c = managed_world\<lparr>
     w_native := managed_state\<lparr>rust_used := 1, rust_transports := [''u'' \<mapsto> c], rust_sessions := [''id'' \<mapsto> ()]\<rparr>,
     w_sessions := [managed_session]\<rparr>"

lemma managed_reaches:
  assumes "create_managed_transport sample_util Some sample_lib
     (session_transport_options (session_defaults managed_session)) = Inr c"
  shows "(world_step managed_ops sample_profiles)\<^sup>*\<^sup>* managed_world (managed_next c)"
  using world_step.new_session [of managed_ops sample_profiles "''id''" None managed_world] managed_created [OF assms]
  by (auto simp: managed_world_def managed_next_def intro!: r_into_rtranclp)

lemma managed_ok: "rust_ok managed_state"
proof -
  have "inj (rust_uuids managed_state)" "\<And>n. rust_uuids managed_state n \<noteq> []"
    by (auto simp: managed_state_def inj_def dest: arg_cong [of _ _ length])
  then show ?thesis by (auto simp: rust_ok_def managed_state_def)
qed

theorem session_runs_on_own_client_witness:
  "\<exists>w' config o1 st' c. (world_step managed_ops sample_profiles)\<^sup>*\<^sup>* managed_world w' \<and>
     ri_session config = SessionObject managed_session \<and> managed_session \<in> set (w_sessions w') \<and>
     prepare_request sample_profiles ''https://a/'' config start_state = (Inr o1, st') \<and>
     fst (resolve_client sample_lib (rust_transports (w_native w')) (native_request_of sample_util ''g'' o1) Map.empty) = Inr c \<and>
     NoCertVerification \<notin> set (client_calls c)"
proof -
  obtain c0 where c0: "create_managed_transport sample_util Some sample_lib
      (session_transport_options (session_defaults managed_session)) = Inr c0"
    using managed_client by blast
  let ?w = "managed_next c0"
  let ?config = "empty_init\<lparr>ri_session := SessionObject managed_session\<rparr>"
  note step = managed_reaches [OF c0]
  have check: "check_request ?config = Inr no_body"
    by (simp add: check_request_def empty_init_def validateRedirectMode_def when_defined_def validateTrustStore_def
        serializeBody_def no_body_def ensureBodyAllowed_def ensureMethod_def)
  have "\<exists>o1. prepare_request sample_profiles ''https://a/'' ?config start_state =
      (Inr o1, start_state\<lparr>fs_heap := fs_heap start_state\<rparr>) \<and>
      nro_headers o1 = (if deref (fs_heap start_state) None = Some [] then None else deref (fs_heap start_state) None) \<and>
      nro_body o1 = sb_body no_body \<and> nro_method o1 = ensureMethod (ri_method ?config)"
    by (rule prepare_session_request [where ses = managed_session and i = "''u''", OF _ _ _ _ _ _ _ _ _ _ _ _ _ check])
      (simp_all add: empty_init_def managed_session_def sample_defaults_def mergeHeaderTuples_def add_content_type_def
        no_body_def)
  then obtain o1 st' where r: "prepare_request sample_profiles ''https://a/'' ?config start_state = (Inr o1, st')"
    by blast
  obtain c where "fst (resolve_client sample_lib (rust_transports (w_native ?w)) (native_request_of sample_util ''g'' o1)
      Map.empty) = Inr c" "NoCertVerification \<notin> set (client_calls c)"
    using session_runs_on_own_client [OF step _ _ _ _ _ _ _ _ _ r, where ses = managed_session and generated = "''g''" and cache = Map.empty] managed_ok
    by (auto simp: managed_next_def managed_world_def managed_state_def managed_session_def sample_defaults_def empty_init_def
        not_blank_def rust_space_def client_like_def)
  moreover have "managed_session \<in> set (w_sessions ?w)" by (simp add: managed_next_def)
  ultimately show ?thesis
    using step r by (intro exI [of _ ?w] exI [of _ ?config] exI [of _ o1] exI [of _ st'] exI [of _ c]) simp
qed

end
