(* ===== verification/Finalizers.thy ===== *)
theory Finalizers
  imports ResponseProperties
begin

text \<open>
  What the collection of objects does to the handles of the addon (\<open>bodyHandleFinalizer\<close> and
  \<open>websocketFinalizer\<close> of src/src/wreq-js.ts).

  A program holds responses and streams of bodies, and lets go of them at any time. An object that can
  no longer be reached from what it holds may be collected, and then the finalizer runs for what it
  was registered with. \<open>live\<close> is reachability along the references that the code makes: a response
  holds its streams, the wrapper that \<open>body\<close> gives holds its response, in \<open>onFirstUse\<close>, and the stream it
  reads, and a branch of a split stream holds the stream it was split from.

  Bodies are those with a handle; for others nothing is registered. Objects that take part in a call
  that is under way are held by the runtime until it ends.
\<close>

section \<open>Reachability\<close>

datatype body_object = LiveResponse nat | LiveStream nat | LiveWrapper nat

text \<open>The stream that was made with the source \<open>k\<close>, from which the others over it were split.\<close>

definition native_stream :: "body_state \<Rightarrow> nat \<Rightarrow> nat" where
  "native_stream s k = hd (filter (\<lambda>c. st_source (bs_streams s ! c) = k) [0..<length (bs_streams s)])"

inductive live :: "body_state \<Rightarrow> nat set \<Rightarrow> nat set \<Rightarrow> body_object \<Rightarrow> bool" for s responses wrappers where
  live_response: "i \<in> responses \<Longrightarrow> live s responses wrappers (LiveResponse i)"
| live_wrapper: "w \<in> wrappers \<Longrightarrow> live s responses wrappers (LiveWrapper w)"
| live_body: "live s responses wrappers (LiveResponse i) \<Longrightarrow> rs_bodyStream (bs_responses s ! i) = Some w \<Longrightarrow>
     live s responses wrappers (LiveWrapper w)"
| live_source: "live s responses wrappers (LiveResponse i) \<Longrightarrow> rs_bodySource (bs_responses s ! i) = Some b \<Longrightarrow>
     live s responses wrappers (LiveStream b)"
| live_owner: "live s responses wrappers (LiveWrapper w) \<Longrightarrow>
     live s responses wrappers (LiveResponse (wr_owner (bs_wrappers s ! w)))"
| live_wrapped: "live s responses wrappers (LiveWrapper w) \<Longrightarrow>
     live s responses wrappers (LiveStream (wr_stream (bs_wrappers s ! w)))"
| live_tee: "live s responses wrappers (LiveStream b) \<Longrightarrow>
     live s responses wrappers (LiveStream (native_stream s (st_source (bs_streams s ! b))))"

fun watched :: "finalizer_target \<Rightarrow> body_object" where
  "watched (ResponseObject i) = LiveResponse i"
| "watched (StreamObject b) = LiveStream b"

lemma nothing_live: "\<not> live s {} {} x"
proof
  assume "live s {} {} x" then show False by induction auto
qed

section \<open>A program with a collector\<close>

record holder =
  ho_body :: body_state
  ho_responses :: "nat set"
  ho_wrappers :: "nat set"

text \<open>
  The program calls what it holds and holds what the calls give it; it lets go of objects, and those out
  of reach are collected.
\<close>

inductive holder_step :: "bool \<Rightarrow> holder \<Rightarrow> holder \<Rightarrow> bool" for expiry where
  hold_body: "i \<in> ho_responses g \<Longrightarrow> get_body i (ho_body g) = (w, s') \<Longrightarrow>
     holder_step expiry g (g\<lparr>ho_body := s', ho_wrappers := ho_wrappers g \<union> set_option w\<rparr>)"
| hold_clone: "i \<in> ho_responses g \<Longrightarrow> clone i (ho_body g) = (Inr j, s') \<Longrightarrow>
     holder_step expiry g (g\<lparr>ho_body := s', ho_responses := insert j (ho_responses g)\<rparr>)"
| hold_clone_fails: "i \<in> ho_responses g \<Longrightarrow> clone i (ho_body g) = (Inl e, s') \<Longrightarrow>
     holder_step expiry g (g\<lparr>ho_body := s'\<rparr>)"
| hold_readable: "i \<in> ho_responses g \<Longrightarrow> readable i (ho_body g) = (Inr w, s') \<Longrightarrow>
     holder_step expiry g (g\<lparr>ho_body := s', ho_wrappers := ho_wrappers g \<union> set_option w\<rparr>)"
| hold_readable_fails: "i \<in> ho_responses g \<Longrightarrow> readable i (ho_body g) = (Inl e, s') \<Longrightarrow>
     holder_step expiry g (g\<lparr>ho_body := s'\<rparr>)"
| hold_consume: "i \<in> ho_responses g \<Longrightarrow> consumeBody i (ho_body g) = Some (r, s') \<Longrightarrow>
     holder_step expiry g (g\<lparr>ho_body := s'\<rparr>)"
| hold_start: "w \<in> ho_wrappers g \<Longrightarrow> holder_step expiry g (g\<lparr>ho_body := start_wrapper w (ho_body g)\<rparr>)"
| hold_get_reader: "w \<in> ho_wrappers g \<Longrightarrow> holder_step expiry g (g\<lparr>ho_body := snd (get_reader w (ho_body g))\<rparr>)"
| hold_read: "w \<in> ho_wrappers g \<Longrightarrow> holder_step expiry g (g\<lparr>ho_body := snd (read_wrapper w (ho_body g))\<rparr>)"
| hold_cancel: "w \<in> ho_wrappers g \<Longrightarrow> holder_step expiry g (g\<lparr>ho_body := cancel_wrapper w (ho_body g)\<rparr>)"
| hold_expire: "expiry \<Longrightarrow>
     holder_step expiry g (g\<lparr>ho_body := (ho_body g)\<lparr>bs_native := cancelBody h (bs_native (ho_body g))\<rparr>\<rparr>)"
| let_go: "holder_step expiry g (g\<lparr>ho_responses := ho_responses g - {i}\<rparr>)"
| let_go_stream: "holder_step expiry g (g\<lparr>ho_wrappers := ho_wrappers g - {w}\<rparr>)"
| collected: "\<not> live (ho_body g) (ho_responses g) (ho_wrappers g) (watched t) \<Longrightarrow>
     holder_step expiry g (g\<lparr>ho_body := collect_body t (ho_body g)\<rparr>)"

definition first_holder :: "NativeResponse \<Rightarrow> string \<Rightarrow> bodies \<Rightarrow> holder" where
  "first_holder p u n = \<lparr>ho_body = first_response p u n, ho_responses = {0}, ho_wrappers = {}\<rparr>"

section \<open>Who watches a handle\<close>

text \<open>Not read yet: the response watches it. Streamed: the native stream does, until the handle is
  gone. Taken: read to the end by one call.\<close>

definition unread :: "nat \<Rightarrow> body_state \<Rightarrow> bool" where
  "unread h s \<longleftrightarrow> (\<exists>r. bs_responses s = [r] \<and> rs_nativeHandleAvailable r \<and> rs_bodySource r = None \<and> rs_bodyStream r = None) \<and>
     bs_sources s = [] \<and> bs_streams s = [] \<and> bs_wrappers s = [] \<and>
     bs_registry s = [(ResponseObject 0, h)] \<and> h \<notin> set (bs_released s)"

definition streamed :: "nat \<Rightarrow> body_state \<Rightarrow> bool" where
  "streamed h s \<longleftrightarrow> (\<exists>x. bs_sources s = [x] \<and> src_handle x = Some h) \<and>
     bs_streams s \<noteq> [] \<and> (\<forall>t \<in> set (bs_streams s). st_source t = 0) \<and>
     (\<forall>v \<in> set (bs_wrappers s). wr_stream v < length (bs_streams s) \<and> wr_owner v < length (bs_responses s)) \<and>
     (\<forall>r \<in> set (bs_responses s). \<not> rs_nativeHandleAvailable r \<and>
        (\<exists>b < length (bs_streams s). rs_bodySource r = Some b) \<and>
        (\<forall>w. rs_bodyStream r = Some w \<longrightarrow> w < length (bs_wrappers s))) \<and>
     (bs_registry s = [(StreamObject 0, h)] \<and> h \<notin> set (bs_released s) \<or>
      bs_registry s = [] \<and> bs_native s h = None)"

definition taken :: "nat \<Rightarrow> body_state \<Rightarrow> bool" where
  "taken h s \<longleftrightarrow> (\<exists>r. bs_responses s = [r] \<and> rs_bodyUsed r \<and> \<not> rs_nativeHandleAvailable r \<and> rs_bodySource r = None) \<and>
     bs_sources s = [] \<and> bs_streams s = [] \<and> bs_wrappers s = [] \<and> bs_registry s = [] \<and> bs_native s h = None"

definition same_payload :: "NativeResponse \<Rightarrow> body_state \<Rightarrow> bool" where
  "same_payload p s \<longleftrightarrow> (\<forall>r \<in> set (bs_responses s). rs_payload r = p \<and> rs_inlineBody r = None)"

definition tracked :: "NativeResponse \<Rightarrow> nat \<Rightarrow> body_state \<Rightarrow> bool" where
  "tracked p h s \<longleftrightarrow> same_payload p s \<and> (unread h s \<or> streamed h s \<or> taken h s)"

subsection \<open>Streams keep the watch\<close>

lemma streamed_response:
  assumes "streamed h s" "i < length (bs_responses s)"
  shows "\<not> rs_nativeHandleAvailable (bs_responses s ! i)"
    and "\<exists>b < length (bs_streams s). rs_bodySource (bs_responses s ! i) = Some b"
    and "rs_bodyStream (bs_responses s ! i) = Some w \<Longrightarrow> w < length (bs_wrappers s)"
  using assms by (auto simp: streamed_def)

lemma streamed_put_response:
  "streamed h s \<Longrightarrow> \<not> rs_nativeHandleAvailable r \<Longrightarrow> rs_bodySource r = Some b \<Longrightarrow> b < length (bs_streams s) \<Longrightarrow>
     (\<And>w. rs_bodyStream r = Some w \<Longrightarrow> w < length (bs_wrappers s)) \<Longrightarrow> streamed h (put_response i r s)"
  by (auto simp: streamed_def dest!: set_update_subset_insert [THEN subsetD])

lemma streamed_put_wrapper:
  "streamed h s \<Longrightarrow> wr_stream v < length (bs_streams s) \<Longrightarrow> wr_owner v < length (bs_responses s) \<Longrightarrow>
     streamed h (put_wrapper w v s)"
  by (auto simp: streamed_def dest!: set_update_subset_insert [THEN subsetD])

lemma streamed_put_stream: "streamed h s \<Longrightarrow> st_source t = 0 \<Longrightarrow> streamed h (put_stream b t s)"
  by (auto simp: streamed_def dest!: set_update_subset_insert [THEN subsetD])

lemma streamed_put_source: "streamed h s \<Longrightarrow> src_handle x = Some h \<Longrightarrow> streamed h (put_source 0 x s)"
  by (auto simp: streamed_def)

lemma streamed_stream: "streamed h s \<Longrightarrow> b < length (bs_streams s) \<Longrightarrow> st_source (bs_streams s ! b) = 0"
  by (auto simp: streamed_def)

lemma streamed_wrapper: "streamed h s \<Longrightarrow> w < length (bs_wrappers s) \<Longrightarrow>
    wr_stream (bs_wrappers s ! w) < length (bs_streams s) \<and> wr_owner (bs_wrappers s ! w) < length (bs_responses s)"
  by (auto simp: streamed_def)

lemma streamed_handle: "streamed h s \<Longrightarrow> src_handle (bs_sources s ! 0) = Some h"
  by (auto simp: streamed_def)

lemma streamed_native: "streamed h s \<Longrightarrow> n h \<noteq> None \<longrightarrow> bs_native s h \<noteq> None \<Longrightarrow> streamed h (s\<lparr>bs_native := n\<rparr>)"
  by (auto simp: streamed_def)

lemma streamed_release: "streamed h s \<Longrightarrow> streamed h (releaseNativeBody h s)"
  by (auto simp: streamed_def releaseNativeBody_def unregister_body_def cancelBody_def)

lemma streamed_mark_used:
  assumes "streamed h s" "i < length (bs_responses s)"
  shows "streamed h (mark_used i s)"
proof -
  obtain b where "b < length (bs_streams s)" "rs_bodySource (bs_responses s ! i) = Some b"
    using streamed_response [OF assms] by blast
  with streamed_response(1,3) [OF assms] assms(1) show ?thesis
    by (auto simp: mark_used_def intro!: streamed_put_response)
qed

lemma streamed_pull: "streamed h s \<Longrightarrow> streamed h (pull_source 0 s)"
  using streamed_handle [of h s]
  by (auto simp: pull_source_def Let_def readBodyChunk_def split: option.splits list.splits
      intro!: streamed_put_source streamed_release streamed_native)

lemma streamed_advance: "streamed h s \<Longrightarrow> b < length (bs_streams s) \<Longrightarrow> streamed h (snd (advance b s))"
  using streamed_stream [of h s b]
  by (auto simp: advance_def Let_def split: option.split sum.split intro!: streamed_put_stream)

lemma streamed_read: "streamed h s \<Longrightarrow> b < length (bs_streams s) \<Longrightarrow> streamed h (snd (read_stream b s))"
  using streamed_stream [of h s b]
  by (simp add: read_stream_def streamed_advance streamed_pull)

lemma streamed_start:
  assumes "streamed h s" "w < length (bs_wrappers s)"
  shows "streamed h (start_wrapper w s)"
proof -
  note v = streamed_wrapper [OF assms]
  have "streamed h (mark_used (wr_owner (bs_wrappers s ! w)) s)"
    by (rule streamed_mark_used [OF assms(1)]) (use v in simp)
  with assms(1) v streamed_stream [OF assms(1)] show ?thesis
    by (auto simp: start_wrapper_def Let_def intro!: streamed_put_wrapper streamed_put_stream)
qed

lemma streamed_cancel: "streamed h s \<Longrightarrow> b < length (bs_streams s) \<Longrightarrow> streamed h (cancel_stream b s)"
  using streamed_stream [of h s b] streamed_handle [of h s]
  by (auto simp: cancel_stream_def Let_def intro!: streamed_put_source streamed_put_stream streamed_release
      split: option.split)

lemma streamed_get_reader: "streamed h s \<Longrightarrow> w < length (bs_wrappers s) \<Longrightarrow> streamed h (snd (get_reader w s))"
  using streamed_wrapper [of h s w] by (auto simp: get_reader_def Let_def intro!: streamed_put_wrapper)

lemma streamed_cancel_wrapper:
  "streamed h s \<Longrightarrow> w < length (bs_wrappers s) \<Longrightarrow> streamed h (cancel_wrapper w s)"
  using streamed_wrapper [of h s w]
  by (auto simp: cancel_wrapper_def Let_def intro!: streamed_put_wrapper streamed_cancel)

lemma streamed_wrap: "streamed h s \<Longrightarrow> b < length (bs_streams s) \<Longrightarrow> i < length (bs_responses s) \<Longrightarrow>
    streamed h (snd (wrapBodyStream b i s))"
  by (auto simp: streamed_def wrapBodyStream_def)

lemma streamed_more:
  assumes "streamed h s" "st_source t = 0" "\<forall>u \<in> set us. st_source u = 0"
  shows "streamed h (s\<lparr>bs_streams := (bs_streams s)[b := t] @ us\<rparr>)"
proof -
  have "\<exists>c < length (bs_streams s) + length us. P c" if "\<exists>c < length (bs_streams s). P c" for P
    using that trans_less_add1 by blast
  with assms show ?thesis
    by (auto simp: streamed_def trans_less_add1 dest!: set_update_subset_insert [THEN subsetD])
qed

lemma streamed_tee:
  assumes "streamed h s" "b < length (bs_streams s)" "tee_stream b s = (r, s')"
  shows "streamed h s' \<and> length (bs_streams s) \<le> length (bs_streams s') \<and> bs_responses s' = bs_responses s \<and>
    (\<forall>b1 b2. r = Inr (b1, b2) \<longrightarrow> b1 < length (bs_streams s') \<and> b2 < length (bs_streams s'))"
  using assms streamed_stream [OF assms(1,2)]
  by (auto simp: tee_stream_def Let_def split: if_splits intro!: streamed_more)

subsection \<open>The methods keep the watch\<close>

definition bound_to :: "NativeResponse \<Rightarrow> nat \<Rightarrow> bool" where
  "bound_to p h \<longleftrightarrow> nr_bodyHandle p = Some h \<and> nr_bodyBytes p = None"

definition extends :: "body_state \<Rightarrow> body_state \<Rightarrow> bool" where
  "extends s s' \<longleftrightarrow> length (bs_responses s) \<le> length (bs_responses s') \<and>
     length (bs_wrappers s) \<le> length (bs_wrappers s')"

lemma extends_trans: "extends s s' \<Longrightarrow> extends s' s'' \<Longrightarrow> extends s s''"
  by (auto simp: extends_def)

lemma same_payload_nth: "same_payload p s \<Longrightarrow> i < length (bs_responses s) \<Longrightarrow>
    rs_payload (bs_responses s ! i) = p \<and> rs_inlineBody (bs_responses s ! i) = None"
  by (simp add: same_payload_def)

lemma same_payload_put: "same_payload p s \<Longrightarrow> rs_payload r = p \<Longrightarrow> rs_inlineBody r = None \<Longrightarrow>
    same_payload p (put_response i r s)"
  by (auto simp: same_payload_def dest!: set_update_subset_insert [THEN subsetD])

lemma same_payload_cong: "bs_responses s' = bs_responses s \<Longrightarrow> same_payload p s \<Longrightarrow> same_payload p s'"
  by (simp add: same_payload_def)

lemma same_payload_mark: "same_payload p s \<Longrightarrow> i < length (bs_responses s) \<Longrightarrow> same_payload p (mark_used i s)"
  using same_payload_nth [of p s i] by (auto simp: mark_used_def intro!: same_payload_put)

lemma same_payload_start:
  "same_payload p s \<Longrightarrow> wr_owner (bs_wrappers s ! w) < length (bs_responses s) \<Longrightarrow> same_payload p (start_wrapper w s)"
  by (auto simp: start_wrapper_def Let_def intro: same_payload_cong [OF _ same_payload_mark])

lemma tracked_mark:
  assumes "tracked p h s" "i < length (bs_responses s)"
  shows "tracked p h (mark_used i s)"
proof -
  have "unread h s \<Longrightarrow> unread h (mark_used i s)" "taken h s \<Longrightarrow> taken h (mark_used i s)"
    using assms(2) by (auto simp: unread_def taken_def mark_used_def)
  with assms show ?thesis by (auto simp: tracked_def same_payload_mark streamed_mark_used)
qed

lemma tracked_source:
  "tracked p h s \<Longrightarrow> i < length (bs_responses s) \<Longrightarrow> rs_bodySource (bs_responses s ! i) = Some b \<Longrightarrow> streamed h s"
  by (auto simp: tracked_def unread_def taken_def)

lemma taken_response: "taken h s \<Longrightarrow> i < length (bs_responses s) \<Longrightarrow>
    \<not> rs_nativeHandleAvailable (bs_responses s ! i)"
  by (cases i) (auto simp: taken_def)

lemma unread_length: "unread h s \<Longrightarrow> length (bs_responses s) = Suc 0"
  by (auto simp: unread_def)

lemma inline_tracked: "tracked p h s \<Longrightarrow> i < length (bs_responses s) \<Longrightarrow> inline_source i s = s"
  using same_payload_nth [of p s i] by (simp add: tracked_def inline_source_def Let_def)

lemma native_tracked:
  assumes "tracked p h s" "i < length (bs_responses s)" "bound_to p h"
  shows "native_source i s = s \<and> \<not> unread h s \<or>
    tracked p h (native_source i s) \<and> streamed h (native_source i s) \<and> bs_wrappers (native_source i s) = bs_wrappers s"
proof -
  note same = same_payload_nth [of p s i]
  have "tracked p h (native_source i s) \<and> streamed h (native_source i s) \<and>
      bs_wrappers (native_source i s) = bs_wrappers s" if "unread h s"
    using that assms same
    by (auto simp: unread_def native_source_def Let_def createNativeBodyStream_def add_source_def bound_to_def
        streamed_def tracked_def new_stream_def same_payload_def unregister_body_def register_body_def put_response_def)
  moreover have "native_source i s = s" if "streamed h s \<or> taken h s"
    using that assms(2) streamed_response(1) [of h s i]
    by (auto simp: native_source_def taken_def Let_def split: option.split)
  ultimately show ?thesis using assms(1) unfolding tracked_def by (metis)
qed

lemma get_body_tracked:
  assumes "tracked p h s" "i < length (bs_responses s)" "bound_to p h" "get_body i s = (w, s')"
  shows "tracked p h s' \<and> extends s s' \<and> length (bs_responses s') = length (bs_responses s) \<and>
    (\<forall>k. w = Some k \<longrightarrow> streamed h s' \<and> k < length (bs_wrappers s'))"
proof -
  define s2 where "s2 = (if rs_bodySource (bs_responses s ! i) = None then native_source i s else s)"
  have len: "length (bs_responses s2) = length (bs_responses s)" by (simp add: s2_def)
  have s2: "tracked p h s2" and w2: "bs_wrappers s2 = bs_wrappers s"
    using assms(1) native_tracked [OF assms(1-3)] by (auto simp: s2_def)
  note same = same_payload_nth [of p s2 i] same_payload_nth [of p s i]
  have "nr_bodyHandle (rs_payload (bs_responses s ! i)) = Some h"
    using assms(1-3) same by (simp add: tracked_def bound_to_def)
  then have g: "get_body i s = (case rs_bodySource (bs_responses s2 ! i) of
        None \<Rightarrow> (None, s2)
      | Some b \<Rightarrow> (case rs_bodyStream (bs_responses s2 ! i) of
          Some w \<Rightarrow> (Some w, s2)
        | None \<Rightarrow> (let (w, s3) = wrapBodyStream b i s2 in
            (Some w, put_response i ((bs_responses s2 ! i)\<lparr>rs_bodyStream := Some w\<rparr>) s3))))"
    by (simp add: get_body_def Let_def inline_tracked [OF assms(1,2)] s2_def [symmetric])
  show ?thesis
  proof (cases "rs_bodySource (bs_responses s2 ! i)")
    case None
    with g s2 len w2 assms(4) show ?thesis by (simp add: extends_def)
  next
    case (Some b)
    have str: "streamed h s2"
      using tracked_source [OF s2 _ Some] assms(2) len by simp
    note i2 = streamed_response [OF str, of i]
    have b: "b < length (bs_streams s2)" using i2(2) Some assms(2) len by auto
    show ?thesis
    proof (cases "rs_bodyStream (bs_responses s2 ! i)")
      case (Some v)
      with g \<open>rs_bodySource _ = Some b\<close> s2 len w2 str i2(3) assms(2,4) show ?thesis
        by (simp add: extends_def)
    next
      case None
      define s3 where "s3 = snd (wrapBodyStream b i s2)"
      have s3: "bs_streams s3 = bs_streams s2" "bs_responses s3 = bs_responses s2"
        "length (bs_wrappers s3) = Suc (length (bs_wrappers s2))"
        by (simp_all add: s3_def wrapBodyStream_def)
      have "streamed h s3" using streamed_wrap [OF str b] assms(2) len by (simp add: s3_def)
      then have "streamed h (put_response i ((bs_responses s2 ! i)\<lparr>rs_bodyStream := Some (length (bs_wrappers s2))\<rparr>) s3)"
        by (rule streamed_put_response [where b = b]) (use b i2(1) Some assms(2) len s3 in auto)
      moreover have "same_payload p (put_response i ((bs_responses s2 ! i)\<lparr>rs_bodyStream := Some (length (bs_wrappers s2))\<rparr>) s3)"
        by (rule same_payload_put [OF same_payload_cong [of _ s2]])
          (use s2 s3 same assms(2) len in \<open>auto simp: tracked_def\<close>)
      ultimately show ?thesis
        using g \<open>rs_bodySource _ = Some b\<close> None len w2 s3 assms(4)
        by (auto simp: extends_def tracked_def s3_def wrapBodyStream_def)
    qed
  qed
qed

lemma get_reader_tracked:
  assumes "streamed h s" "same_payload p s" "w < length (bs_wrappers s)" "get_reader w s = (r, s')"
  shows "streamed h s' \<and> same_payload p s' \<and> length (bs_wrappers s') = length (bs_wrappers s) \<and>
    bs_responses s' = bs_responses s"
  using streamed_get_reader [OF assms(1,3)] assms(2,4) by (auto simp: get_reader_def Let_def same_payload_def split: if_splits)

lemma readable_tracked:
  assumes "tracked p h s" "i < length (bs_responses s)" "bound_to p h" "readable i s = (r, s')"
  shows "tracked p h s' \<and> extends s s' \<and>
    (\<forall>k. r = Inr (Some k) \<longrightarrow> k < length (bs_wrappers s'))"
proof (cases "rs_bodyUsed (bs_responses s ! i)")
  case True
  with assms show ?thesis by (auto simp: readable_def extends_def)
next
  case False
  obtain w s1 where g: "get_body i (mark_used i s) = (w, s1)" by fastforce
  have len: "length (bs_responses (mark_used i s)) = length (bs_responses s)" by simp
  note body = get_body_tracked [OF tracked_mark [OF assms(1,2)] _ assms(3) g, unfolded len, OF assms(2)]
  have e: "extends s s1" using body by (auto simp: extends_def)
  show ?thesis
  proof (cases w)
    case None
    with False g body e assms(4) show ?thesis by (auto simp: readable_def)
  next
    case (Some k)
    obtain q s2 where q: "get_reader k s1 = (q, s2)" by fastforce
    have "streamed h s1" "k < length (bs_wrappers s1)" "same_payload p s1"
      using body Some by (auto simp: tracked_def)
    from get_reader_tracked [OF this(1,3,2) q] False g Some q e assms(4) \<open>k < _\<close> show ?thesis
      by (auto simp: readable_def tracked_def extends_def split: sum.splits)
  qed
qed

lemma clone_tracked:
  assumes "tracked p h s" "i < length (bs_responses s)" "bound_to p h" "clone i s = (r, s')"
  shows "tracked p h s' \<and> extends s s' \<and> (\<forall>j. r = Inr j \<longrightarrow> j < length (bs_responses s'))"
proof (cases "rs_bodyUsed (bs_responses s ! i)")
  case True
  with assms show ?thesis by (auto simp: clone_def extends_def)
next
  case False
  define s1 where "s1 = native_source i s"
  have len: "length (bs_responses s1) = length (bs_responses s)" by (simp add: s1_def)
  have s1: "tracked p h s1" and w1: "bs_wrappers s1 = bs_wrappers s" and u1: "\<not> unread h s1"
    using assms(1) native_tracked [OF assms(1-3)] by (auto simp: s1_def unread_def streamed_def)
  note same = same_payload_nth [of p s1 i]
  show ?thesis
  proof (cases "rs_bodySource (bs_responses s1 ! i)")
    case None
    then have "taken h s1"
      using s1 u1 streamed_response(2) [of h s1 i] assms(2) len by (auto simp: tracked_def)
    then have "rs_bodyUsed (bs_responses s1 ! i)"
      using assms(2) len by (cases i) (auto simp: taken_def)
    with False native_source_used [OF assms(2)] show ?thesis by (simp add: s1_def)
  next
    case (Some b)
    have str: "streamed h s1"
      using tracked_source [OF s1 _ Some] assms(2) len by simp
    note i1 = streamed_response [OF str, of i]
    have b: "b < length (bs_streams s1)" using i1(2) Some assms(2) len by auto
    obtain q s2 where q: "tee_stream b s1 = (q, s2)" by fastforce
    note T = streamed_tee [OF str b q]
    have w2: "bs_wrappers s2 = bs_wrappers s1" using q by (auto simp: tee_stream_def Let_def split: if_splits)
    show ?thesis
    proof (cases q)
      case (Inl e)
      with False Some q T w1 w2 s1 len assms(4) show ?thesis
        by (auto simp: clone_def s1_def [symmetric] Let_def tracked_def extends_def intro: same_payload_cong)
    next
      case (Inr bb)
      obtain b1 b2 where bb: "bb = (b1, b2)" by fastforce
      define s3 where "s3 = put_response i ((bs_responses s1 ! i)\<lparr>rs_bodySource := Some b1, rs_bodyStream := None\<rparr>) s2"
      have str3: "streamed h s3"
        unfolding s3_def by (rule streamed_put_response [where b = b1]) (use T Inr bb i1(1) assms(2) len in auto)
      have same3: "same_payload p s3"
        unfolding s3_def
        by (rule same_payload_put [OF same_payload_cong [of _ s1]])
          (use s1 same T assms(2) len in \<open>auto simp: tracked_def\<close>)
      have r: "r = Inr (length (bs_responses s3))"
        "s' = s3\<lparr>bs_responses := bs_responses s3 @ [Response_new p (rs_requestUrl (bs_responses s1 ! i)) (Some (Some b2))]\<rparr>"
        using False Some q Inr bb same s1 assms(2,4) len
        by (auto simp: clone_def s1_def [symmetric] Let_def s3_def tracked_def)
      have "b2 < length (bs_streams s3)" using T Inr bb by (simp add: s3_def)
      then have "streamed h s'"
        using str3 assms(3) r(2) by (auto simp: streamed_def Response_new_def bound_to_def less_SucI)
      moreover have "same_payload p s'" using same3 r(2) assms(3)
        by (auto simp: same_payload_def Response_new_def bound_to_def)
      ultimately show ?thesis using r T w1 w2 len by (auto simp: tracked_def extends_def s3_def)
    qed
  qed
qed

lemma read_stream_objects [simp]:
  "bs_responses (snd (read_stream b s)) = bs_responses s" "bs_wrappers (snd (read_stream b s)) = bs_wrappers s"
proof -
  have "bs_responses (snd (advance b s)) = bs_responses s \<and> bs_wrappers (snd (advance b s)) = bs_wrappers s" for s
    by (auto simp: advance_def Let_def split: option.split sum.split)
  then show "bs_responses (snd (read_stream b s)) = bs_responses s"
    "bs_wrappers (snd (read_stream b s)) = bs_wrappers s"
    by (simp_all add: read_stream_def)
qed

lemma start_wrapper_lengths:
  "length (bs_wrappers (start_wrapper w s)) = length (bs_wrappers s)"
  "length (bs_responses (start_wrapper w s)) = length (bs_responses s)"
  by (auto simp: start_wrapper_def Let_def mark_used_def)

lemma read_wrapper_tracked:
  assumes "streamed h s" "same_payload p s" "w < length (bs_wrappers s)" "read_wrapper w s = (r, s')"
  shows "streamed h s' \<and> same_payload p s' \<and> length (bs_wrappers s') = length (bs_wrappers s) \<and>
    length (bs_responses s') = length (bs_responses s)"
proof -
  let ?s1 = "start_wrapper w s"
  have s1: "streamed h ?s1" "same_payload p ?s1"
    using streamed_start [OF assms(1,3)] streamed_wrapper [OF assms(1,3)]
      same_payload_start [OF assms(2)] by auto
  have w1: "w < length (bs_wrappers ?s1)" using assms(3) by (simp add: start_wrapper_lengths)
  have "streamed h (snd (read_stream (wr_stream (bs_wrappers ?s1 ! w)) ?s1))"
    using streamed_read [OF s1(1)] streamed_wrapper [OF s1(1) w1] by blast
  moreover have "same_payload p (snd (read_stream (wr_stream (bs_wrappers ?s1 ! w)) ?s1))"
    by (rule same_payload_cong [OF _ s1(2)]) simp
  moreover have "snd (read_wrapper w s) = (if wr_cancelled (bs_wrappers ?s1 ! w) \<or> wr_failed (bs_wrappers ?s1 ! w) \<noteq> None
      then ?s1 else snd (read_stream (wr_stream (bs_wrappers ?s1 ! w)) ?s1))"
    by (auto simp: read_wrapper_def Let_def split: option.split)
  ultimately show ?thesis using s1 assms(4) by (auto simp: start_wrapper_lengths split: if_splits)
qed

definition kept :: "NativeResponse \<Rightarrow> nat \<Rightarrow> body_state \<Rightarrow> body_state \<Rightarrow> bool" where
  "kept p h s s' \<longleftrightarrow> streamed h s' \<and> same_payload p s' \<and> length (bs_wrappers s') = length (bs_wrappers s) \<and>
     length (bs_responses s') = length (bs_responses s)"

lemma drain_tracked:
  assumes "drain w acc s = Some y" "streamed h s" "same_payload p s" "w < length (bs_wrappers s)"
  shows "kept p h s (snd y)"
proof -
  let ?start = "\<lambda>w s. streamed h s \<and> same_payload p s \<and> w < length (bs_wrappers s)"
  have "?start w s \<longrightarrow> kept p h s (snd y)"
  proof (rule drain.raw_induct [OF _ assms(1), where P = "\<lambda>w acc s y. ?start w s \<longrightarrow> kept p h s (snd y)"], intro impI)
    fix dr w acc s y
    assume IH: "\<And>w acc s y. dr w acc s = Some y \<Longrightarrow> ?start w s \<longrightarrow> kept p h s (snd y)"
      and step: "(case read_wrapper w s of (Inl e, s') \<Rightarrow> Some (Inl e, s') | (Inr None, s') \<Rightarrow> Some (Inr acc, s')
        | (Inr (Some c), s') \<Rightarrow> dr w (acc @ c) s') = Some y"
      and start: "?start w s"
    obtain q s1 where q: "read_wrapper w s = (q, s1)" by fastforce
    have s1: "kept p h s s1"
      using read_wrapper_tracked [of h s p w q s1] q start by (simp add: kept_def)
    from step q have "s1 = snd y \<or> (\<exists>acc. dr w acc s1 = Some y)"
      by (auto split: sum.splits option.splits)
    then show "kept p h s (snd y)"
    proof
      assume "\<exists>acc. dr w acc s1 = Some y"
      then obtain acc' where "dr w acc' s1 = Some y" by blast
      from IH [OF this] s1 start have "kept p h s1 (snd y)" by (simp add: kept_def)
      with s1 show ?thesis by (simp add: kept_def)
    qed (use s1 in simp)
  qed
  with assms(2-4) show ?thesis by simp
qed

lemma consumeBody_tracked:
  assumes "tracked p h s" "i < length (bs_responses s)" "bound_to p h" "consumeBody i s = Some (r, s')"
  shows "tracked p h s' \<and> extends s s'"
proof (cases "rs_bodyUsed (bs_responses s ! i)")
  case True
  with assms show ?thesis by (auto simp: consumeBody_def extends_def)
next
  case False
  let ?s1 = "mark_used i s"
  have s1: "tracked p h ?s1" by (rule tracked_mark [OF assms(1,2)])
  have len: "length (bs_responses ?s1) = length (bs_responses s)" "bs_wrappers ?s1 = bs_wrappers s" by simp_all
  have same: "rs_payload (bs_responses ?s1 ! i) = p" "rs_inlineBody (bs_responses ?s1 ! i) = None"
    using same_payload_nth [of p ?s1 i] s1 assms(2) len by (simp_all add: tracked_def)
  show ?thesis
  proof (cases "rs_nativeHandleAvailable (bs_responses ?s1 ! i)")
    case True
    then have u: "unread h ?s1"
      using s1 True streamed_response(1) [of h ?s1 i] taken_response [of h ?s1 i] assms(2) len(1)
      unfolding tracked_def by metis
    obtain a n where an: "readBodyAll h (bs_native ?s1) = (a, n)" by fastforce
    have gone: "n h = None" using an by (auto simp: readBodyAll_def split: option.splits)
    have s': "s' = markNativeBodyReleased h ((put_response i ((bs_responses ?s1 ! i)\<lparr>rs_nativeHandleAvailable := False\<rparr>) ?s1)
        \<lparr>bs_native := n\<rparr>)"
      using False True same an assms(3,4) by (simp add: consumeBody_def Let_def bound_to_def)
    have "length (bs_responses s) = Suc 0" using unread_length [OF u] len(1) by simp
    then obtain r0 where "bs_responses s = [r0]" by (auto simp: length_Suc_conv)
    with u gone assms(2) have "taken h s'"
      by (auto simp: s' taken_def unread_def markNativeBodyReleased_def mark_used_def)
    moreover have "same_payload p s'"
      by (rule same_payload_cong [OF _ same_payload_put [of p ?s1
            "(bs_responses ?s1 ! i)\<lparr>rs_nativeHandleAvailable := False\<rparr>" i]])
        (use s1 same in \<open>auto simp: tracked_def s' markNativeBodyReleased_def\<close>)
    ultimately show ?thesis
      by (auto simp: tracked_def extends_def s' markNativeBodyReleased_def)
  next
    case no_native: False
    obtain w s2 where g: "get_body i ?s1 = (w, s2)" by fastforce
    note body = get_body_tracked [OF s1 _ assms(3) g, unfolded len, OF assms(2)]
    have e: "extends s s2" using body by (auto simp: extends_def)
    have slow: "consumeBody i s = (case get_body i ?s1 of
            (None, s2) \<Rightarrow> Some (Inr [], s2)
          | (Some w, s2) \<Rightarrow> (case get_reader w s2 of
              (Inl e, s3) \<Rightarrow> Some (Inl e, s3)
            | (Inr _, s3) \<Rightarrow> drain w [] s3))"
      using False no_native same by (simp add: consumeBody_def Let_def)
    show ?thesis
    proof (cases w)
      case None
      with slow g body e assms(4) show ?thesis by simp
    next
      case (Some k)
      obtain q s3 where q: "get_reader k s2 = (q, s3)" by fastforce
      have s2: "streamed h s2" "same_payload p s2" "k < length (bs_wrappers s2)"
        using body Some by (auto simp: tracked_def)
      note s3 = get_reader_tracked [OF s2 q]
      have e3: "extends s s3" using e s3 by (simp add: extends_def)
      show ?thesis
      proof (cases q)
        case (Inl x)
        with slow g Some q s3 e3 assms(4) show ?thesis by (auto simp: tracked_def)
      next
        case (Inr x)
        with slow g Some q assms(4) have "drain k [] s3 = Some (r, s')" by simp
        from drain_tracked [OF this, of h p] s3 s2(3) e3 show ?thesis by (auto simp: tracked_def extends_def kept_def)
      qed
    qed
  qed
qed

section \<open>What a holder can rely on\<close>

lemma no_entry: "filter (\<lambda>entry. fst entry = t) (bs_registry s) = [] \<Longrightarrow> collect_body t s = s"
  by (simp add: collect_body_def filter_empty_conv)

text \<open>While anything is held, whatever watches the handle is within reach.\<close>

lemma live_native_stream:
  assumes "streamed h s" "b < length (bs_streams s)" "live s R W (LiveStream b)"
  shows "live s R W (LiveStream 0)"
proof -
  have "native_stream s 0 = 0"
    using assms(1) by (cases "bs_streams s") (auto simp: native_stream_def streamed_def upt_conv_Cons simp del: upt_Suc)
  with live_tee [OF assms(3)] streamed_stream [OF assms(1,2)] show ?thesis by simp
qed

lemma held_is_live:
  assumes "tracked p h s" "R \<subseteq> {..<length (bs_responses s)}" "W \<subseteq> {..<length (bs_wrappers s)}"
    and "R \<noteq> {} \<or> W \<noteq> {}" "(t, k) \<in> set (bs_registry s)"
  shows "live s R W (watched t)"
proof -
  consider "unread h s" | "streamed h s" | "taken h s" using assms(1) by (auto simp: tracked_def)
  then show ?thesis
  proof cases
    case 1
    with assms(2-4) have "0 \<in> R" by (auto simp: unread_def)
    with 1 assms(5) show ?thesis by (auto simp: unread_def intro: live_response)
  next
    case 2
    then have t: "t = StreamObject 0" using assms(5) by (auto simp: streamed_def)
    have "\<exists>b < length (bs_streams s). live s R W (LiveStream b)"
    proof (cases "R = {}")
      case False
      then obtain i where i: "i \<in> R" by blast
      with streamed_response(2) [OF 2, of i] assms(2) show ?thesis
        by (meson lessThan_iff live_response live_source subsetD)
    next
      case True
      then obtain w where w: "w \<in> W" using assms(4) by blast
      with streamed_wrapper [OF 2, of w] assms(3) show ?thesis
        by (meson lessThan_iff live_wrapper live_wrapped subsetD)
    qed
    with live_native_stream [OF 2] t show ?thesis by auto
  next
    case 3
    with assms(5) show ?thesis by (simp add: taken_def)
  qed
qed

lemma collect_harmless:
  assumes "tracked p h s" "R \<subseteq> {..<length (bs_responses s)}" "W \<subseteq> {..<length (bs_wrappers s)}"
    and "R \<noteq> {} \<or> W \<noteq> {}" "\<not> live s R W (watched t)"
  shows "collect_body t s = s"
proof (rule no_entry)
  show "filter (\<lambda>entry. fst entry = t) (bs_registry s) = []"
    using held_is_live [OF assms(1-4)] assms(5) by (auto simp: filter_empty_conv)
qed

text \<open>A handle that the addon still has is watched, once; what is watched and collected is released.\<close>

lemma tracked_registry:
  assumes "tracked p h s"
  obtains "bs_registry s = []" "bs_native s h = None" | t where "bs_registry s = [(t, h)]" "h \<notin> set (bs_released s)"
  using assms by (auto simp: tracked_def unread_def streamed_def taken_def)

lemma collect_releases:
  assumes "bs_registry s = [(t, h)]" "h \<notin> set (bs_released s)"
  shows "bs_registry (collect_body t s) = []" "bs_native (collect_body t s) h = None"
  using assms by (simp_all add: collect_body_def bodyHandleFinalizer_def cancelBody_def)

lemma collect_tracked:
  assumes "tracked p h s"
  shows "collect_body t s = s \<or> bs_registry (collect_body t s) = [] \<and> bs_native (collect_body t s) h = None"
  using assms
proof (cases rule: tracked_registry)
  case 1
  then show ?thesis by (simp add: no_entry)
next
  case (2 u)
  then show ?thesis using collect_releases [OF 2] by (cases "u = t") (simp_all add: no_entry)
qed

lemma expire_tracked: "tracked p h s \<Longrightarrow> tracked p h (s\<lparr>bs_native := cancelBody k (bs_native s)\<rparr>)"
  by (auto simp: tracked_def same_payload_def unread_def streamed_def taken_def cancelBody_def)

text \<open>A step of the program does what it does without a collector.\<close>

definition in_reach :: "NativeResponse \<Rightarrow> nat \<Rightarrow> holder \<Rightarrow> bool" where
  "in_reach p h g \<longleftrightarrow> tracked p h (ho_body g) \<and> ho_responses g \<subseteq> {..<length (bs_responses (ho_body g))} \<and>
     ho_wrappers g \<subseteq> {..<length (bs_wrappers (ho_body g))}"

definition all_gone :: "nat \<Rightarrow> holder \<Rightarrow> bool" where
  "all_gone h g \<longleftrightarrow> ho_responses g = {} \<and> ho_wrappers g = {} \<and> bs_registry (ho_body g) = [] \<and>
     bs_native (ho_body g) h = None"

lemma all_gone_step: "holder_step expiry g g' \<Longrightarrow> all_gone h g \<Longrightarrow> all_gone h g'"
  by (induction rule: holder_step.induct) (auto simp: all_gone_def collect_body_def cancelBody_def)

lemma wrapper_streamed: "tracked p h s \<Longrightarrow> w < length (bs_wrappers s) \<Longrightarrow> streamed h s"
  by (auto simp: tracked_def unread_def taken_def)

lemma wrapper_calls_tracked:
  assumes "tracked p h s" "w < length (bs_wrappers s)"
    and "s' \<in> {start_wrapper w s, snd (get_reader w s), snd (read_wrapper w s), cancel_wrapper w s}"
  shows "tracked p h s' \<and> extends s s'"
proof -
  have str: "streamed h s" and same: "same_payload p s"
    using wrapper_streamed [OF assms(1,2)] assms(1) by (auto simp: tracked_def)
  have "tracked p h (start_wrapper w s) \<and> extends s (start_wrapper w s)"
    using streamed_start [OF str assms(2)] same_payload_start [OF same] streamed_wrapper [OF str assms(2)]
    by (simp add: tracked_def extends_def start_wrapper_lengths)
  moreover have "tracked p h (snd (get_reader w s)) \<and> extends s (snd (get_reader w s))"
    using get_reader_tracked [OF str same assms(2)] by (cases "get_reader w s") (auto simp: tracked_def extends_def)
  moreover have "tracked p h (snd (read_wrapper w s)) \<and> extends s (snd (read_wrapper w s))"
    using read_wrapper_tracked [OF str same assms(2)] by (cases "read_wrapper w s") (auto simp: tracked_def extends_def)
  moreover have "bs_responses (cancel_wrapper w s) = bs_responses s"
    "length (bs_wrappers (cancel_wrapper w s)) = length (bs_wrappers s)"
    by (simp_all add: cancel_wrapper_def Let_def)
  then have "tracked p h (cancel_wrapper w s) \<and> extends s (cancel_wrapper w s)"
    using streamed_cancel_wrapper [OF str assms(2)] same_payload_cong [OF _ same] by (simp add: tracked_def extends_def)
  ultimately show ?thesis using assms(3) by auto
qed

lemma in_reach_call:
  assumes "in_reach p h g" "body_step expiry (ho_body g) s'" "tracked p h s' \<and> extends (ho_body g) s'"
    and "R \<subseteq> {..<length (bs_responses s')}" "W \<subseteq> {..<length (bs_wrappers s')}"
    and "g' = g\<lparr>ho_body := s', ho_responses := R \<union> ho_responses g, ho_wrappers := ho_wrappers g \<union> W\<rparr>"
  shows "in_reach p h g' \<and> (body_step expiry)\<^sup>*\<^sup>* (ho_body g) (ho_body g')"
  using assms by (auto simp: in_reach_def extends_def)

lemma in_reach_step:
  assumes "holder_step expiry g g'" "in_reach p h g" "bound_to p h"
  shows "in_reach p h g' \<and> (body_step expiry)\<^sup>*\<^sup>* (ho_body g) (ho_body g') \<or> all_gone h g'"
proof -
  let ?s = "ho_body g"
  have t: "tracked p h ?s" and i: "\<And>i. i \<in> ho_responses g \<Longrightarrow> i < length (bs_responses ?s)"
    and w: "\<And>w. w \<in> ho_wrappers g \<Longrightarrow> w < length (bs_wrappers ?s)"
    using assms(2) by (auto simp: in_reach_def)
  note call = in_reach_call [OF assms(2)]
  from assms(1) show ?thesis
  proof cases
    case (hold_body k v s')
    have "body_step expiry ?s s'" using step_body [OF i [OF hold_body(2)]] hold_body(3) by (metis snd_conv)
    from call [OF this, of "{}" "set_option v"] show ?thesis
      using get_body_tracked [OF t i assms(3) hold_body(3)] hold_body by (auto split: option.splits)
  next
    case (hold_clone k j s')
    have "body_step expiry ?s s'" using step_clone [OF i [OF hold_clone(2)]] hold_clone(3) by (metis snd_conv)
    from call [OF this, of "{j}" "{}"] show ?thesis
      using clone_tracked [OF t i assms(3) hold_clone(3)] hold_clone by simp
  next
    case (hold_clone_fails k e s')
    have "body_step expiry ?s s'"
      using step_clone [OF i [OF hold_clone_fails(2)]] hold_clone_fails(3) by (metis snd_conv)
    from call [OF this, of "{}" "{}"] show ?thesis
      using clone_tracked [OF t i assms(3) hold_clone_fails(3)] hold_clone_fails by simp
  next
    case (hold_readable k v s')
    have "body_step expiry ?s s'"
      using step_readable [OF i [OF hold_readable(2)]] hold_readable(3) by (metis snd_conv)
    from call [OF this, of "{}" "set_option v"] show ?thesis
      using readable_tracked [OF t i assms(3) hold_readable(3)] hold_readable by (auto split: option.splits)
  next
    case (hold_readable_fails k e s')
    have "body_step expiry ?s s'"
      using step_readable [OF i [OF hold_readable_fails(2)]] hold_readable_fails(3) by (metis snd_conv)
    from call [OF this, of "{}" "{}"] show ?thesis
      using readable_tracked [OF t i assms(3) hold_readable_fails(3)] hold_readable_fails by simp
  next
    case (hold_consume k r s')
    from call [OF step_consume [OF i [OF hold_consume(2)] hold_consume(3)], of "{}" "{}"] show ?thesis
      using consumeBody_tracked [OF t i assms(3) hold_consume(3)] hold_consume by simp
  next
    case (hold_start v)
    from call [OF step_start [OF w [OF hold_start(2)]], of "{}" "{}"] show ?thesis
      using wrapper_calls_tracked [OF t w [OF hold_start(2)]] hold_start by simp
  next
    case (hold_get_reader v)
    from call [OF step_get_reader [OF w [OF hold_get_reader(2)]], of "{}" "{}"] show ?thesis
      using wrapper_calls_tracked [OF t w [OF hold_get_reader(2)]] hold_get_reader by simp
  next
    case (hold_read v)
    from call [OF step_read [OF w [OF hold_read(2)]], of "{}" "{}"] show ?thesis
      using wrapper_calls_tracked [OF t w [OF hold_read(2)]] hold_read by simp
  next
    case (hold_cancel v)
    from call [OF step_cancel [OF w [OF hold_cancel(2)]], of "{}" "{}"] show ?thesis
      using wrapper_calls_tracked [OF t w [OF hold_cancel(2)]] hold_cancel by simp
  next
    case (hold_expire k)
    then show ?thesis
      using assms(2) expire_tracked [OF t, of k] step_expire [of expiry ?s k] by (auto simp: in_reach_def)
  next
    case (let_go k)
    with assms(2) show ?thesis by (auto simp: in_reach_def)
  next
    case (let_go_stream v)
    with assms(2) show ?thesis by (auto simp: in_reach_def)
  next
    case (collected u)
    show ?thesis
    proof (cases "collect_body u ?s = ?s")
      case True
      with collected(1) assms(2) show ?thesis by simp
    next
      case False
      with collect_harmless [OF t _ _ _ collected(2)] assms(2)
      have "ho_responses g = {}" "ho_wrappers g = {}" by (auto simp: in_reach_def)
      with False collect_tracked [OF t, of u] collected(1) show ?thesis by (simp add: all_gone_def)
    qed
  qed
qed

lemma first_in_reach: "bound_to p h \<Longrightarrow> in_reach p h (first_holder p u n)"
  by (simp add: in_reach_def first_holder_def tracked_def unread_def same_payload_def bound_to_def Response_new_def)

lemma holder_reachable:
  assumes "(holder_step expiry)\<^sup>*\<^sup>* (first_holder p u n) g" "bound_to p h"
  shows "in_reach p h g \<and> (body_step expiry)\<^sup>*\<^sup>* (first_response p u n) (ho_body g) \<or> all_gone h g"
  using assms(1)
proof (induction rule: rtranclp_induct)
  case base
  then show ?case using first_in_reach [OF assms(2)] by (simp add: first_holder_def)
next
  case (step g g')
  from step.IH show ?case
  proof
    assume "all_gone h g"
    with all_gone_step [OF step.hyps(2)] show ?thesis by blast
  next
    assume "in_reach p h g \<and> (body_step expiry)\<^sup>*\<^sup>* (first_response p u n) (ho_body g)"
    with in_reach_step [OF step.hyps(2) _ assms(2)] show ?thesis by (meson rtranclp_trans)
  qed
qed

section \<open>Properties\<close>

text \<open>C34: A finalizer never takes a body away from anyone: whatever the program has called, cloned, streamed and
  let go of, and whatever has been collected since, a response that it still holds, and whose own body
  has not been touched, still gives the whole body.\<close>

theorem finalizers_never_steal:
  assumes "nr_bodyHandle p = Some h" "nr_bodyBytes p = None" "n h \<noteq> None"
    and "plain_errors (body_of_payload p n)"
    and "(holder_step False)\<^sup>*\<^sup>* (first_holder p u n) g" "i \<in> ho_responses g" "intact i (ho_body g)"
  shows "\<exists>s'. consumeBody i (ho_body g) = Some (outcome (body_of_payload p n), s')"
proof -
  have "payload_ok p n" using assms(1,3) by (simp add: payload_ok_def)
  moreover have "(body_step False)\<^sup>*\<^sup>* (first_response p u n) (ho_body g)"
    using holder_reachable [OF assms(5), of h] assms(1,2,6) by (auto simp: bound_to_def all_gone_def)
  ultimately show ?thesis using intact_consumed assms(4,7) by blast
qed

lemma sample_clone_fields:
  assumes "clone 0 (first_response sample_payload [] sample_bodies) = (r, s)"
  shows "rs_bodyStream (bs_responses s ! 1) = None" "rs_bodySource (bs_responses s ! 1) = Some 2"
    "bs_registry s = [(StreamObject 0, 1)]" "native_stream s 0 = 0"
    "st_source (bs_streams s ! 2) = 0" "st_source (bs_streams s ! 0) = 0"
  using assms
  by (auto simp: clone_def sample_response native_source_def createNativeBodyStream_def add_source_def
      put_response_def tee_stream_def new_stream_def native_stream_def Let_def)

lemma sample_out_of_reach:
  assumes "clone 0 (first_response sample_payload [] sample_bodies) = (r, s)"
  shows "\<not> live s {1} {} (LiveResponse 0)"
proof
  assume "live s {1} {} (LiveResponse 0)"
  moreover have "live s {1} {} x \<Longrightarrow> x \<in> {LiveResponse 1, LiveStream 2, LiveStream 0}" for x
    by (induction rule: live.induct) (use sample_clone_fields [OF assms] in auto)
  ultimately show False by auto
qed

theorem finalizers_never_steal_witness:
  "\<exists>g s'. (holder_step False)\<^sup>*\<^sup>* (first_holder sample_payload [] sample_bodies) g \<and> ho_responses g = {1} \<and>
     consumeBody 1 (ho_body g) = Some (Inr [1, 2, 3], s')"
proof -
  obtain s where c: "clone 0 (first_response sample_payload [] sample_bodies) = (Inr 1, s)" "intact 1 s"
    using sample_clone by blast
  let ?g0 = "first_holder sample_payload [] sample_bodies"
  let ?g1 = "?g0\<lparr>ho_body := s, ho_responses := {1, 0}\<rparr>"
  let ?g2 = "?g1\<lparr>ho_responses := {1}\<rparr>"
  let ?g3 = "?g2\<lparr>ho_body := collect_body (ResponseObject 0) s\<rparr>"
  have 1: "holder_step False ?g0 ?g1"
    using hold_clone [of 0 ?g0 1 s False] c(1) by (simp add: first_holder_def)
  have "ho_responses ?g1 - {0} = {1}" by auto
  then have 2: "holder_step False ?g1 ?g2" using let_go [of False ?g1 0] by (metis holder.update_convs(2))
  from sample_out_of_reach [OF c(1)] have 3: "holder_step False ?g2 ?g3"
    using collected [of ?g2 "ResponseObject 0" False] by (simp add: first_holder_def)
  from 1 2 3 have g: "(holder_step False)\<^sup>*\<^sup>* ?g0 ?g3" by (meson converse_rtranclp_into_rtranclp r_into_rtranclp)
  have "collect_body (ResponseObject 0) s = s" using sample_clone_fields [OF c(1)] by (simp add: no_entry)
  with c(2) finalizers_never_steal [OF _ _ _ _ g, of 1 1] sample_payload_ok g show ?thesis
    by (intro exI [of _ ?g3]) (auto simp: outcome_def sample_payload_def sample_bodies_def)
qed

text \<open>C35: No body is leaked: as long as the addon has the handle, exactly one object that is not collected is
  registered for it; and once the program has let go of everything, collecting that object, which
  nothing keeps alive, makes the addon drop the body.\<close>

theorem bodies_never_leak:
  assumes "nr_bodyHandle p = Some h" "nr_bodyBytes p = None"
    and "(holder_step expiry)\<^sup>*\<^sup>* (first_holder p u n) g"
  shows "(bs_native (ho_body g) h \<noteq> None \<longrightarrow> (\<exists>t. bs_registry (ho_body g) = [(t, h)])) \<and>
    (ho_responses g = {} \<and> ho_wrappers g = {} \<longrightarrow>
      (\<exists>g'. (holder_step expiry)\<^sup>*\<^sup>* g g' \<and> bs_registry (ho_body g') = [] \<and> bs_native (ho_body g') h = None))"
proof -
  from holder_reachable [OF assms(3), of h] assms(1,2)
  have "bs_registry (ho_body g) = [] \<and> bs_native (ho_body g) h = None \<or>
      (\<exists>t. bs_registry (ho_body g) = [(t, h)] \<and> h \<notin> set (bs_released (ho_body g)))"
    by (auto simp: bound_to_def in_reach_def all_gone_def elim: tracked_registry)
  then show ?thesis
  proof
    assume "bs_registry (ho_body g) = [] \<and> bs_native (ho_body g) h = None"
    then show ?thesis by auto
  next
    assume "\<exists>t. bs_registry (ho_body g) = [(t, h)] \<and> h \<notin> set (bs_released (ho_body g))"
    then obtain t where t: "bs_registry (ho_body g) = [(t, h)]" "h \<notin> set (bs_released (ho_body g))" by blast
    have "\<exists>g'. (holder_step expiry)\<^sup>*\<^sup>* g g' \<and> bs_registry (ho_body g') = [] \<and> bs_native (ho_body g') h = None"
      if "ho_responses g = {}" "ho_wrappers g = {}"
      using collected [of g t expiry] collect_releases [OF t] that nothing_live [of "ho_body g" "watched t"]
      by (intro exI [of _ "g\<lparr>ho_body := collect_body t (ho_body g)\<rparr>"]) auto
    with t show ?thesis by blast
  qed
qed

theorem bodies_never_leak_witness:
  "\<exists>g. (holder_step False)\<^sup>*\<^sup>* ((first_holder sample_payload [] sample_bodies)\<lparr>ho_responses := {}\<rparr>) g \<and>
     bs_native (ho_body g) 1 = None"
proof -
  let ?g0 = "first_holder sample_payload [] sample_bodies"
  have "holder_step False ?g0 (?g0\<lparr>ho_responses := {}\<rparr>)"
    using let_go [of False ?g0 0] by (simp add: first_holder_def)
  then have "(holder_step False)\<^sup>*\<^sup>* ?g0 (?g0\<lparr>ho_responses := {}\<rparr>)" by blast
  from bodies_never_leak [OF _ _ this, of 1] show ?thesis
    by (auto simp: sample_payload_def first_holder_def)
qed

end
