(* ===== verification/SocketFinalizers.thy ===== *)
theory SocketFinalizers
  imports WebSocketProperties
begin

text \<open>
  \<open>websocketFinalizer\<close> and the token by which \<open>connect\<close> and \<open>releaseConnectionTracking\<close> register and
  unregister a socket (src/src/wreq-js.ts): which sockets have a connection that the finalizer closes
  once they have been collected. \<open>ws_finalizerToken\<close> is both the token and the registered connection.
\<close>

text \<open>What happens once the socket has been collected: its connection is closed, without options.\<close>

definition websocketFinalizer :: "'e web_socket \<Rightarrow> 'e web_socket" where
  "websocketFinalizer s = (case ws_finalizerToken s of
      None \<Rightarrow> s
    | Some connection \<Rightarrow> log_action (NativeClose connection None) (s\<lparr>ws_finalizerToken := None\<rparr>))"

definition watch_ok :: "'e web_socket \<Rightarrow> bool" where
  "watch_ok s \<longleftrightarrow>
     ws_finalizerToken s = (if ws_readyState s = CLOSED then None else ws_connection s) \<and>
     (ws_connectState s = ConnectPending \<longrightarrow> ws_connection s = None)"

lemma watch_fields:
  "ws_finalizerToken s' = ws_finalizerToken s \<Longrightarrow> ws_connection s' = ws_connection s \<Longrightarrow>
   ws_connectState s' = ws_connectState s \<Longrightarrow>
   (ws_readyState s' = CLOSED \<longleftrightarrow> ws_readyState s = CLOSED) \<Longrightarrow> watch_ok s \<Longrightarrow> watch_ok s'"
  by (simp add: watch_ok_def)

lemma watch_untouched:
  "untouched s s' \<Longrightarrow> ready_moves (ws_readyState s) (ws_readyState s') \<Longrightarrow> watch_ok s \<Longrightarrow> watch_ok s'"
  by (rule watch_fields [of s' s]) (auto simp: untouched_def ready_moves_def)

lemma watch_side: "side_effects s s' \<Longrightarrow> watch_ok s \<Longrightarrow> watch_ok s'"
  by (rule watch_untouched [of s]) (auto simp: side_effects_def)

lemma watch_dispatch: "watch_ok s \<Longrightarrow> watch_ok (dispatchEvent react e s)"
  by (rule watch_untouched [OF dispatch_effects(1,3)])

lemma watch_message: "watch_ok s \<Longrightarrow> watch_ok (dispatchMessage react s d)"
  by (rule watch_untouched [OF payload_dispatch])

lemma watch_messages: "watch_ok s \<Longrightarrow> watch_ok (foldl (dispatchMessage react) s ds)"
  by (induction ds arbitrary: s) (simp_all add: watch_message)

lemma watch_legacy: "legacy react p cb s = (threw, s') \<Longrightarrow> watch_ok s \<Longrightarrow> watch_ok s'"
  by (rule watch_side [OF legacy_effects])

lemma watch_api: "watch_ok s \<Longrightarrow> watch_ok (snd (api c s))"
  by (rule watch_side [OF side.keep_api]) simp_all

lemma watch_error: "watch_ok s \<Longrightarrow> watch_ok (snd (handleNativeError react m s))"
  by (auto simp: handleNativeError_def watch_dispatch dest: watch_legacy split: prod.split)

lemma watch_finalize: "watch_ok s \<Longrightarrow> watch_ok (finalizeClosed react code reason clean s)"
proof -
  assume ok: "watch_ok s"
  have "watch_ok (s\<lparr>ws_readyState := CLOSED, ws_closeEventDispatched := True, ws_pendingMessages := [],
      ws_finalizerToken := None\<rparr>)" using ok by (simp add: watch_ok_def)
  with ok show ?thesis
    by (auto simp: finalizeClosed_def watch_dispatch Let_def dest: watch_legacy split: prod.split)
qed

lemma watch_fail: "watch_ok s \<Longrightarrow> watch_ok (fail_closed react m s)"
  using watch_error [of s react m] by (auto simp: fail_closed_def watch_finalize split: prod.splits)

lemma watch_open: "watch_ok s \<Longrightarrow> watch_ok (dispatchOpenEvent react s)"
proof -
  assume "watch_ok s"
  then have s1: "watch_ok (dispatchEvent react OpenEvent s)" by (rule watch_dispatch)
  then have "watch_ok (dispatchEvent react OpenEvent s\<lparr>ws_pendingMessages := []\<rparr>)" by (simp add: watch_ok_def)
  with s1 show ?thesis by (simp add: dispatchOpenEvent_def Let_def watch_messages)
qed

lemma watch_received: "watch_ok s \<Longrightarrow> watch_ok (handleNativeMessage react d s)"
proof -
  assume ok: "watch_ok s"
  obtain threw s1 where l: "legacy react has_onMessage (OnMessage d) s = (threw, s1)" by fastforce
  from watch_legacy [OF l ok] have s1: "watch_ok s1" .
  then have "watch_ok (log_action (Received d) s1)" "watch_ok (log_action (Received d) s1\<lparr>ws_pendingMessages := ps\<rparr>)" for ps
    by (simp_all add: watch_ok_def log_action_def)
  with ok l s1 show ?thesis by (simp add: handleNativeMessage_def Let_def watch_message)
qed

lemma watch_connected: "watch_ok s \<Longrightarrow> watch_ok (connected i p x s)"
  by (auto simp: connected_def startNativeClose_def scheduleOpenEventWithDepth_def watch_ok_def log_action_def Let_def)

lemma watch_step:
  assumes "ws_step react s s'" "watch_ok s"
  shows "watch_ok s'"
  using assms
proof (induction rule: ws_step.induct)
  case (step_connect_failed s m)
  then have "watch_ok (s\<lparr>ws_connectState := ConnectRejected\<rparr>)" by (simp add: watch_ok_def)
  then show ?case by (simp add: connect_failed_def watch_fail)
next
  case (step_awaited s)
  then show ?case by (simp add: connect_awaited_def scheduleOpenEventWithDepth_def watch_ok_def)
next
  case (step_microtask s n)
  then have "watch_ok (s\<lparr>ws_openTask := None, ws_openEventQueued := False, ws_openEventDispatched := True\<rparr>)"
    by (simp add: watch_ok_def)
  with step_microtask show ?case by (auto simp: open_microtask_def Let_def watch_open) (simp_all add: watch_ok_def)
next
  case (step_close_failed s m)
  then have "watch_ok (s\<lparr>ws_closeSettled := True\<rparr>)" by (simp add: watch_ok_def)
  then show ?case by (rule watch_fail)
next
  case (step_send_failed s i data n rest m)
  then show ?case
    using watch_fail [of s react m] by (simp add: send_failed_def dequeue_send_def watch_ok_def)
qed (simp_all add: watch_api watch_connected watch_received watch_error handleNativeClose_def watch_finalize,
    simp_all add: watch_ok_def send_done_def dequeue_send_def log_action_def)

lemma watch_reachable:
  assumes "ws_reachable react s"
  shows "watch_ok s"
proof -
  obtain url b l mode e where "(ws_step react)\<^sup>*\<^sup>* (WebSocket_new url b l mode e) s"
    using assms by (auto simp: ws_reachable_def)
  then show ?thesis
  proof (induction rule: rtranclp_induct)
    case base
    show ?case by (simp add: WebSocket_new_def watch_ok_def)
  qed (rule watch_step)
qed

section \<open>Properties\<close>

text \<open>C36: Collecting a socket closes exactly the connection that is left: a socket that has a connection and
  is not \<open>CLOSED\<close> is watched with that connection and no other, one that is connecting or closed is not,
  whatever its caller did in its handlers and whichever of close, connect and errors came first.\<close>

theorem collected_socket_closed:
  assumes "ws_reachable react s"
  shows "websocketFinalizer s =
    (if ws_connection s = None \<or> ws_readyState s = CLOSED then s
     else log_action (NativeClose (the (ws_connection s)) None) (s\<lparr>ws_finalizerToken := None\<rparr>))"
  using watch_reachable [OF assms] by (auto simp: websocketFinalizer_def watch_ok_def split: option.split)

theorem collected_socket_closed_witness:
  "ws_log (websocketFinalizer (connected 7 None None fresh)) = [NativeClose 7 None]"
proof -
  have "ws_connectState fresh = ConnectPending" by (simp add: fresh_def WebSocket_new_def)
  then have "ws_reachable silent (connected 7 None None fresh)"
    using fresh_reachable by (blast intro: ws_reachable_step step_connected)
  from collected_socket_closed [OF this] show ?thesis
    by (simp add: connected_def fresh_def WebSocket_new_def scheduleOpenEventWithDepth_def log_action_def Let_def)
qed

end
