(* ===== verification/OptionTypes.thy ===== *)
theory OptionTypes
  imports RustAcceptance
begin

text \<open>
  The types that src/src/types.ts declares for custom emulation options, as the compiler checks them: a
  type is a term of \<open>ts_type\<close>, and \<open>conforms\<close> says which values have it. The types are erased, so the
  normalisation checks again what it needs; here is what a caller who keeps to the types can rely on.
\<close>

section \<open>Types\<close>

datatype ts_type =
    TBoolean
  | TString
  | TNumber
  | TLiterals "string list"
  | TArray ts_type
  | TNull
  | TUndefined
  | TFunction
  | TPair ts_type ts_type
  | TIterable ts_type
  | TRecord ts_type
  | TUnion "ts_type list"
  | TInterface "(string \<times> bool \<times> ts_type) list"

text \<open>
  An optional property, marked \<open>True\<close>, may be missing or undefined. Functions are not told apart, and
  strings not counted as iterables.
\<close>

fun conforms :: "ts_type \<Rightarrow> jsval \<Rightarrow> bool" where
  "conforms TBoolean v \<longleftrightarrow> (case v of JBool b \<Rightarrow> True | _ \<Rightarrow> False)"
| "conforms TString v \<longleftrightarrow> (case v of JString s \<Rightarrow> True | _ \<Rightarrow> False)"
| "conforms TNumber v \<longleftrightarrow> (case v of JNumber n \<Rightarrow> True | _ \<Rightarrow> False)"
| "conforms (TLiterals ls) v \<longleftrightarrow> (case v of JString s \<Rightarrow> s \<in> set ls | _ \<Rightarrow> False)"
| "conforms (TArray t) v \<longleftrightarrow> (case v of JArray vs \<Rightarrow> list_all (conforms t) vs | _ \<Rightarrow> False)"
| "conforms (TInterface members) v \<longleftrightarrow> (case v of
      JObject ps \<Rightarrow> list_all (\<lambda>m. fst (snd m) \<and> lookup ps (fst m) = JUndefined \<or>
        conforms (snd (snd m)) (lookup ps (fst m))) members
    | _ \<Rightarrow> False)"
| "conforms TNull v \<longleftrightarrow> v = JNull"
| "conforms TUndefined v \<longleftrightarrow> v = JUndefined"
| "conforms TFunction v \<longleftrightarrow> (case v of JFunction s \<Rightarrow> True | _ \<Rightarrow> False)"
| "conforms (TPair t u) v \<longleftrightarrow> (case v of JArray [x, y] \<Rightarrow> conforms t x \<and> conforms u y | _ \<Rightarrow> False)"
| "conforms (TIterable t) v \<longleftrightarrow> (case v of
      JArray vs \<Rightarrow> list_all (conforms t) vs
    | JIterable s vs \<Rightarrow> list_all (conforms t) vs
    | JHeaders st \<Rightarrow> list_all (\<lambda>p. conforms t (tuple_value p)) (headers_iterator st)
    | _ \<Rightarrow> False)"
| "conforms (TRecord t) v \<longleftrightarrow> (case v of JObject ps \<Rightarrow> list_all (\<lambda>p. conforms t (snd p)) ps | _ \<Rightarrow> False)"
| "conforms (TUnion ts) v \<longleftrightarrow> list_ex (\<lambda>t. conforms t v) ts"

abbreviation required_member :: "string \<Rightarrow> ts_type \<Rightarrow> string \<times> bool \<times> ts_type" where
  "required_member k t \<equiv> (k, False, t)"

abbreviation optional_member :: "string \<Rightarrow> ts_type \<Rightarrow> string \<times> bool \<times> ts_type" where
  "optional_member k t \<equiv> (k, True, t)"

definition HeaderTuple_type :: ts_type where
  "HeaderTuple_type = TPair TString TString"

definition HeadersInit :: ts_type where
  "HeadersInit = TUnion
    [TIterable HeaderTuple_type,
     TArray HeaderTuple_type,
     TRecord (TUnion [TString, TNumber, TBoolean, TNull, TUndefined])]"

definition AlpnProtocol :: ts_type where
  "AlpnProtocol = TLiterals [''HTTP1'', ''HTTP2'', ''HTTP3'']"

definition AlpsProtocol :: ts_type where
  "AlpsProtocol = TLiterals [''HTTP1'', ''HTTP2'', ''HTTP3'']"

definition TlsVersion :: ts_type where
  "TlsVersion = TLiterals
    [''1.0'', ''1.1'', ''1.2'', ''1.3'', ''TLS1.0'', ''TLS1.1'', ''TLS1.2'', ''TLS1.3'']"

definition Http2PseudoHeaderId :: ts_type where
  "Http2PseudoHeaderId = TLiterals [''Method'', ''Scheme'', ''Authority'', ''Path'', ''Protocol'']"

definition Http2SettingId :: ts_type where
  "Http2SettingId = TLiterals
    [''HeaderTableSize'', ''EnablePush'', ''MaxConcurrentStreams'', ''InitialWindowSize'',
     ''MaxFrameSize'', ''MaxHeaderListSize'', ''EnableConnectProtocol'', ''NoRfc7540Priorities'']"

definition Http2StreamDependency :: ts_type where
  "Http2StreamDependency = TInterface
    [required_member ''dependencyId'' TNumber,
     required_member ''weight'' TNumber,
     optional_member ''exclusive'' TBoolean]"

definition Http2Priority :: ts_type where
  "Http2Priority = TInterface
    [required_member ''streamId'' TNumber,
     required_member ''dependency'' Http2StreamDependency]"

definition TlsOptions_members :: "(string \<times> bool \<times> ts_type) list" where
  "TlsOptions_members =
    [optional_member ''alpnProtocols'' (TArray AlpnProtocol),
     optional_member ''alpsProtocols'' (TArray AlpsProtocol),
     optional_member ''alpsUseNewCodepoint'' TBoolean,
     optional_member ''sessionTicket'' TBoolean,
     optional_member ''minTlsVersion'' TlsVersion,
     optional_member ''maxTlsVersion'' TlsVersion,
     optional_member ''preSharedKey'' TBoolean,
     optional_member ''enableEchGrease'' TBoolean,
     optional_member ''permuteExtensions'' TBoolean,
     optional_member ''greaseEnabled'' TBoolean,
     optional_member ''enableOcspStapling'' TBoolean,
     optional_member ''enableSignedCertTimestamps'' TBoolean,
     optional_member ''recordSizeLimit'' TNumber,
     optional_member ''pskSkipSessionTicket'' TBoolean,
     optional_member ''pskDheKe'' TBoolean,
     optional_member ''renegotiation'' TBoolean,
     optional_member ''delegatedCredentials'' TString,
     optional_member ''curvesList'' TString,
     optional_member ''cipherList'' TString,
     optional_member ''sigalgsList'' TString,
     optional_member ''certificateCompressionAlgorithms'' (TArray (TLiterals [''zlib'', ''brotli'', ''zstd''])),
     optional_member ''extensionPermutation'' (TArray TNumber),
     optional_member ''aesHwOverride'' TBoolean,
     optional_member ''preserveTls13CipherList'' TBoolean,
     optional_member ''randomAesHwOverride'' TBoolean]"

definition Http1Options_members :: "(string \<times> bool \<times> ts_type) list" where
  "Http1Options_members =
    [optional_member ''http09Responses'' TBoolean,
     optional_member ''writev'' TBoolean,
     optional_member ''maxHeaders'' TNumber,
     optional_member ''readBufExactSize'' TNumber,
     optional_member ''maxBufSize'' TNumber,
     optional_member ''ignoreInvalidHeadersInResponses'' TBoolean,
     optional_member ''allowSpacesAfterHeaderNameInResponses'' TBoolean,
     optional_member ''allowObsoleteMultilineHeadersInResponses'' TBoolean]"

definition Http2Options_members :: "(string \<times> bool \<times> ts_type) list" where
  "Http2Options_members =
    [optional_member ''adaptiveWindow'' TBoolean,
     optional_member ''initialStreamId'' TNumber,
     optional_member ''initialConnectionWindowSize'' TNumber,
     optional_member ''initialWindowSize'' TNumber,
     optional_member ''initialMaxSendStreams'' TNumber,
     optional_member ''maxFrameSize'' TNumber,
     optional_member ''keepAliveInterval'' TNumber,
     optional_member ''keepAliveTimeout'' TNumber,
     optional_member ''keepAliveWhileIdle'' TBoolean,
     optional_member ''maxConcurrentResetStreams'' TNumber,
     optional_member ''maxSendBufferSize'' TNumber,
     optional_member ''maxConcurrentStreams'' TNumber,
     optional_member ''maxHeaderListSize'' TNumber,
     optional_member ''maxPendingAcceptResetStreams'' TNumber,
     optional_member ''enablePush'' TBoolean,
     optional_member ''headerTableSize'' TNumber,
     optional_member ''enableConnectProtocol'' TBoolean,
     optional_member ''noRfc7540Priorities'' TBoolean,
     optional_member ''settingsOrder'' (TArray Http2SettingId),
     optional_member ''headersPseudoOrder'' (TArray Http2PseudoHeaderId),
     optional_member ''headersStreamDependency'' Http2StreamDependency,
     optional_member ''priorities'' (TArray Http2Priority)]"

definition CustomEmulationOptions :: ts_type where
  "CustomEmulationOptions = TInterface
    [optional_member ''tlsOptions'' (TInterface TlsOptions_members),
     optional_member ''http1Options'' (TInterface Http1Options_members),
     optional_member ''http2Options'' (TInterface Http2Options_members),
     optional_member ''headers'' HeadersInit,
     optional_member ''origHeaders'' (TArray TString)]"

section \<open>Three lists of the same options\<close>

text \<open>The interfaces, the normalisation and the structures of the addon name the same options.\<close>

lemma same_options:
  "set (map fst tls_fields) = set (map fst TlsOptions_members)"
  "set (map fst CustomTlsOptions) = set (map fst TlsOptions_members)"
  "set (map fst http1_fields) = set (map fst Http1Options_members)"
  "set (map fst CustomHttp1Options) = set (map fst Http1Options_members)"
  "set (map fst http2_fields) = set (map fst Http2Options_members)"
  "set (map fst CustomHttp2Options) = set (map fst Http2Options_members)"
  by (auto simp: tls_fields_def TlsOptions_members_def CustomTlsOptions_def http1_fields_def Http1Options_members_def
      CustomHttp1Options_def http2_fields_def Http2Options_members_def CustomHttp2Options_def http2_size_def
      opt_field_def)

section \<open>Normalised fields\<close>

lemma lookup_absent: "k \<notin> fst ` set ps \<Longrightarrow> lookup ps k = JUndefined"
  by (simp add: lookup_def map_of_eq_None_iff [THEN iffD2])

lemma normalize_fields_lookup:
  assumes "normalize_fields fs (JObject ps) = Inr n" "distinct (map fst fs)" "(k, f) \<in> set fs"
  shows "f (lookup ps k) = Inr (lookup n k)"
  using assms
proof (induction fs arbitrary: n)
  case (Cons p fs)
  obtain j g where p: "p = (j, g)" by fastforce
  from Cons.prems(1) p obtain v rest where v: "g (lookup ps j) = Inr v"
    and rest: "normalize_fields fs (JObject ps) = Inr rest"
    and n: "n = (if v = JUndefined then rest else (j, v) # rest)"
    by auto
  have absent: "lookup rest j = JUndefined"
    using normalize_fields_keys [OF rest] Cons.prems(2) p
    by (intro lookup_absent) auto
  show ?case
  proof (cases "(k, f) = (j, g)")
    case True
    with v n absent show ?thesis by simp
  next
    case False
    with Cons.prems(2,3) p have "(k, f) \<in> set fs" "k \<noteq> j" by (auto simp: image_iff)
    with Cons.IH [OF rest] Cons.prems(2) p n show ?thesis by simp
  qed
qed simp

text \<open>What a property of a typed object is.\<close>

lemma typed_member:
  "conforms (TInterface ms) (JObject ps) \<Longrightarrow> (k, opt, t) \<in> set ms \<Longrightarrow>
     opt \<and> lookup ps k = JUndefined \<or> conforms t (lookup ps k)"
  by (fastforce simp: list_all_iff)

lemma typed_flag: "conforms (TInterface ms) (JObject ps) \<Longrightarrow> (k, True, TBoolean) \<in> set ms \<Longrightarrow> flag_ok (lookup ps k)"
  by (drule (1) typed_member) (auto simp: flag_ok_def json_absent_def split: jsval.splits)

lemma typed_text: "conforms (TInterface ms) (JObject ps) \<Longrightarrow> (k, True, TString) \<in> set ms \<Longrightarrow> text_ok (lookup ps k)"
  by (drule (1) typed_member) (auto simp: text_ok_def json_absent_def split: jsval.splits)

text \<open>A field that is copied has the type it was given with.\<close>

lemma typed_all_at:
  assumes "normalize_fields fs (JObject ps) = Inr n" "distinct (map fst fs)"
    and "\<And>k. k \<in> set ks \<Longrightarrow> (k, copied) \<in> set fs \<and> P (lookup ps k)"
  shows "all_at P ks n"
proof -
  have "P (lookup n k)" if "k \<in> set ks" for k
    using normalize_fields_lookup [OF assms(1,2), of k copied] assms(3) [OF that] by (simp add: copied_def)
  then show ?thesis by (simp add: all_at_def list_all_iff)
qed

definition properties :: "jsval \<Rightarrow> props" where
  "properties v = (case v of JObject ps \<Rightarrow> ps | _ \<Rightarrow> [])"

lemma properties_simps [simp]: "properties (JObject ps) = ps" "properties JUndefined = []"
  "properties (undefined_if_empty n) = n"
  by (simp_all add: properties_def undefined_if_empty_def isNonEmpty_def)

lemma no_properties [simp]: "tls_declared []" "all_at flag_ok ks []" "http2_declared []"
proof -
  have absent: "flag_ok JUndefined" "text_ok JUndefined" by (simp_all add: flag_ok_def text_ok_def json_absent_def)
  show flags: "all_at flag_ok ks []" for ks using absent by (simp add: all_at_def list_all_iff)
  with absent show "tls_declared []" "http2_declared []"
    by (simp_all add: tls_declared_def http2_declared_def all_at_def list_all_iff dependency_flag_ok_def elements_def)
qed

lemma interface_object:
  "x = JUndefined \<or> conforms (TInterface ms) x \<Longrightarrow> x = JUndefined \<or> (\<exists>ps. x = JObject ps \<and> conforms (TInterface ms) (JObject ps))"
  by (auto split: jsval.splits)

lemma typed_tls:
  assumes "x = JUndefined \<or> conforms (TInterface TlsOptions_members) x" "normalizeCustomTlsOptions x = Inr y"
  shows "tls_declared (properties y)"
proof (cases "x = JUndefined")
  case True
  with assms(2) show ?thesis by (simp add: normalizeCustomTlsOptions_def)
next
  case False
  with interface_object [OF assms(1)] obtain ps where x: "x = JObject ps"
    and ps: "conforms (TInterface TlsOptions_members) (JObject ps)" by blast
  from assms(2) x obtain n where n: "normalize_fields tls_fields (JObject ps) = Inr n" and y: "properties y = n"
    by (auto simp: normalizeCustomTlsOptions_def)
  have "all_at flag_ok tls_flags n"
    by (rule typed_all_at [OF n table_distinct(1)], rule conjI, simp add: tls_fields_def tls_flags_def, fastforce,
        rule typed_flag [OF ps]) (auto simp: tls_flags_def TlsOptions_members_def)
  moreover have "all_at text_ok tls_texts n"
    by (rule typed_all_at [OF n table_distinct(1)], rule conjI, simp add: tls_fields_def tls_texts_def, fastforce,
        rule typed_text [OF ps]) (auto simp: tls_texts_def TlsOptions_members_def)
  ultimately show ?thesis by (simp add: tls_declared_def y)
qed

lemma typed_http1:
  assumes "x = JUndefined \<or> conforms (TInterface Http1Options_members) x" "normalizeCustomHttp1Options x = Inr y"
  shows "all_at flag_ok http1_flags (properties y)"
proof (cases "x = JUndefined")
  case True
  with assms(2) show ?thesis by (simp add: normalizeCustomHttp1Options_def)
next
  case False
  with interface_object [OF assms(1)] obtain ps where x: "x = JObject ps"
    and ps: "conforms (TInterface Http1Options_members) (JObject ps)" by blast
  from assms(2) x obtain n where n: "normalize_fields http1_fields (JObject ps) = Inr n" and y: "properties y = n"
    by (auto simp: normalizeCustomHttp1Options_def split: if_splits)
  show ?thesis unfolding y
    by (rule typed_all_at [OF n table_distinct(2)], rule conjI, simp add: http1_fields_def http1_flags_def, fastforce,
        rule typed_flag [OF ps]) (auto simp: http1_flags_def Http1Options_members_def)
qed

text \<open>A dependency of a stream keeps its flag, in a field or in an entry of a list.\<close>

lemma typed_dependency:
  assumes "conforms Http2StreamDependency d" "normalizeHttp2StreamDependency label d = Inr w"
  shows "dependency_flag_ok w"
  using assms
  by (auto simp: Http2StreamDependency_def normalizeHttp2StreamDependency_def dependency_flag_ok_def exclusive_ok_def
      split: jsval.splits)

lemma typed_priorities:
  assumes "list_all (conforms Http2Priority) xs" "priorities_loop index seen xs = Inr ys"
  shows "list_all (\<lambda>p. dependency_flag_ok (priority_dependency p)) ys"
  using assms
proof (induction xs arbitrary: index seen ys)
  case (Cons p xs)
  from Cons.prems obtain ps d r where p: "p = JObject ps"
    and d: "normalizeHttp2StreamDependency (priorities_label index @ ''.dependency'') (lookup ps ''dependency'') = Inr d"
    and r: "priorities_loop (Suc index) (lookup ps ''streamId'' # seen) xs = Inr r"
    and ys: "ys = JObject [(''streamId'', lookup ps ''streamId''), (''dependency'', d)] # r"
    by (auto split: jsval.splits if_splits)
  have "conforms Http2StreamDependency (lookup ps ''dependency'')"
    using Cons.prems(1) by (simp add: p Http2Priority_def)
  with Cons.IH [OF _ r] Cons.prems(1) d show ?case
    by (simp add: ys priority_dependency_def typed_dependency)
qed simp

lemma typed_http2:
  assumes "x = JUndefined \<or> conforms (TInterface Http2Options_members) x" "normalizeCustomHttp2Options x = Inr y"
  shows "http2_declared (properties y)"
proof (cases "x = JUndefined")
  case True
  with assms(2) show ?thesis by (simp add: normalizeCustomHttp2Options_def)
next
  case False
  with interface_object [OF assms(1)] obtain ps where x: "x = JObject ps"
    and ps: "conforms (TInterface Http2Options_members) (JObject ps)" by blast
  from assms(2) x obtain n where n: "normalize_fields http2_fields (JObject ps) = Inr n" and y: "properties y = n"
    by (auto simp: normalizeCustomHttp2Options_def)
  note field = normalize_fields_lookup [OF n table_distinct(3)]
  have flags: "all_at flag_ok http2_flags n"
    by (rule typed_all_at [OF n table_distinct(3)], rule conjI, simp add: http2_fields_def http2_flags_def, fastforce,
        rule typed_flag [OF ps]) (auto simp: http2_flags_def Http2Options_members_def)
  have dependency: "dependency_flag_ok (lookup n ''headersStreamDependency'')"
  proof -
    have "headers_stream_dependency (lookup ps ''headersStreamDependency'') = Inr (lookup n ''headersStreamDependency'')"
      by (rule field) (simp add: http2_fields_def)
    moreover have "lookup ps ''headersStreamDependency'' = JUndefined \<or>
        conforms Http2StreamDependency (lookup ps ''headersStreamDependency'')"
      using typed_member [OF ps, of "''headersStreamDependency''" True Http2StreamDependency]
      by (auto simp: Http2Options_members_def)
    ultimately show ?thesis
      using typed_dependency by (auto simp: headers_stream_dependency_def dependency_flag_ok_def split: if_splits)
  qed
  have priorities: "list_all (\<lambda>p. dependency_flag_ok (priority_dependency p)) (elements (lookup n ''priorities''))"
  proof -
    have "normalize_priorities (lookup ps ''priorities'') = Inr (lookup n ''priorities'')"
      by (rule field) (simp add: http2_fields_def)
    moreover have "lookup ps ''priorities'' = JUndefined \<or> conforms (TArray Http2Priority) (lookup ps ''priorities'')"
      using typed_member [OF ps, of "''priorities''" True "TArray Http2Priority"]
      by (auto simp: Http2Options_members_def)
    ultimately show ?thesis
      using typed_priorities by (auto simp: normalize_priorities_def elements_def split: jsval.splits)
  qed
  from flags dependency priorities show ?thesis by (simp add: http2_declared_def y)
qed

section \<open>The whole object\<close>

lemma sub_object_properties: "sub_object (JObject n) k = properties (lookup n k)"
  by (simp add: sub_object_def properties_def)

text \<open>The normalisation of a well-typed object has the documented types wherever it only copies.\<close>

lemma typed_emulation:
  assumes "conforms CustomEmulationOptions options" "normalizeCustomEmulationOptions options allowEmpty = Inr v"
    and "v \<noteq> JUndefined"
  shows "declared_types v"
proof -
  from assms(1) obtain ps where options: "options = JObject ps"
    by (auto simp: CustomEmulationOptions_def split: jsval.splits)
  from normalizeCustomEmulationOptions_Inr [OF assms(2)] assms(3) options obtain n
    where n: "normalize_fields emulation_fields (JObject ps) = Inr n" and v: "v = JObject n"
    by auto
  note field = normalize_fields_lookup [OF n table_distinct(4)]
  have member: "lookup ps k = JUndefined \<or> conforms t (lookup ps k)"
    if "(k, True, t) \<in> set [optional_member ''tlsOptions'' (TInterface TlsOptions_members),
      optional_member ''http1Options'' (TInterface Http1Options_members),
      optional_member ''http2Options'' (TInterface Http2Options_members)]" for k t
    using assms(1) that by (auto simp: options CustomEmulationOptions_def simp del: conforms.simps)
      (auto simp: options CustomEmulationOptions_def)
  have outer: "normalizeCustomTlsOptions (lookup ps ''tlsOptions'') = Inr (lookup n ''tlsOptions'')"
    "normalizeCustomHttp1Options (lookup ps ''http1Options'') = Inr (lookup n ''http1Options'')"
    "normalizeCustomHttp2Options (lookup ps ''http2Options'') = Inr (lookup n ''http2Options'')"
    by (rule field, simp add: emulation_fields_def)+
  have "tls_declared (properties (lookup n ''tlsOptions''))"
    by (rule typed_tls [OF member outer(1)]) simp
  moreover have "all_at flag_ok http1_flags (properties (lookup n ''http1Options''))"
    by (rule typed_http1 [OF member outer(2)]) simp
  moreover have "http2_declared (properties (lookup n ''http2Options''))"
    by (rule typed_http2 [OF member outer(3)]) simp
  ultimately show ?thesis by (simp add: declared_types_def v sub_object_properties)
qed

section \<open>Headers\<close>

text \<open>The names of a well-typed list of headers; a property that is null or undefined is skipped.\<close>

definition pair_name :: "jsval \<Rightarrow> string" where
  "pair_name v = (case v of JArray (JString n # _) \<Rightarrow> n | _ \<Rightarrow> [])"

definition init_names :: "jsval \<Rightarrow> string list" where
  "init_names v = (case v of
      JArray vs \<Rightarrow> map pair_name vs
    | JIterable s vs \<Rightarrow> map pair_name vs
    | JHeaders st \<Rightarrow> map fst (headers_iterator st)
    | JObject ps \<Rightarrow> map fst (filter (\<lambda>p. \<not> nullish (snd p)) ps)
    | _ \<Rightarrow> [])"

lemma headers_append_iff: "(\<exists>st'. headers_append st (JString n) (JString v) = Inr st') \<longleftrightarrow> trim n \<noteq> []"
  by (auto simp: headers_append_def normalizeName_def assertValue_def Let_def res_bind_Inr_iff split: option.splits)

lemma res_foldl_iff:
  assumes "\<And>s x. x \<in> set xs \<Longrightarrow> (\<exists>s'. f s x = Inr s') \<longleftrightarrow> P x"
  shows "(\<exists>s'. res_foldl f s xs = Inr s') \<longleftrightarrow> list_all P xs"
  using assms
proof (induction xs arbitrary: s)
  case (Cons x xs)
  have IH: "(\<exists>s'. res_foldl f t xs = Inr s') \<longleftrightarrow> list_all P xs" for t using Cons by simp
  show ?case
  proof (cases "f s x")
    case (Inl e)
    then show ?thesis using Cons.prems [of x s] by simp
  next
    case (Inr t)
    then show ?thesis using Cons.prems [of x s] IH [of t] by simp
  qed
qed simp

lemma typed_pairs:
  assumes "list_all (conforms HeaderTuple_type) vs"
  shows "(\<exists>st'. res_foldl append_tuple st vs = Inr st') \<longleftrightarrow> list_all (\<lambda>v. trim (pair_name v) \<noteq> []) vs"
proof (rule res_foldl_iff)
  fix s x assume "x \<in> set vs"
  with assms have "conforms HeaderTuple_type x" by (simp add: list_all_iff)
  then obtain n v where x: "x = tuple_value (n, v)"
    by (auto simp: HeaderTuple_type_def tuple_value_def split: jsval.splits list.splits)
  then have "pair_name x = n" by (simp add: pair_name_def tuple_value_def)
  with x headers_append_iff show "(\<exists>s'. append_tuple s x = Inr s') \<longleftrightarrow> trim (pair_name x) \<noteq> []" by simp
qed

text \<open>Headers that have their type are refused only for a name that is blank.\<close>

lemma typed_headers:
  assumes "conforms HeadersInit init"
  shows "(\<exists>ts. headersToTuples init = Inr ts) \<longleftrightarrow> list_all (\<lambda>n. trim n \<noteq> []) (init_names init)"
proof -
  have new: "(\<exists>ts. headersToTuples init = Inr ts) \<longleftrightarrow> (\<exists>st. Headers_new init = Inr st)"
    by (auto simp: headersToTuples_def)
  consider (pairs) vs where "init = JArray vs \<or> (\<exists>s. init = JIterable s vs)" "list_all (conforms HeaderTuple_type) vs"
    | (headers) st where "init = JHeaders st"
    | (object) ps where "init = JObject ps"
    using assms by (cases init) (auto simp: HeadersInit_def)
  then show ?thesis
  proof cases
    case pairs
    then have "Headers_new init = res_foldl append_tuple [] vs" "init_names init = map pair_name vs"
      by (auto simp: Headers_new_def applyInit_def is_array_def isIterable_def js_iterate_def init_names_def)
    with typed_pairs [OF pairs(2)] new show ?thesis by (simp add: list.pred_map comp_def)
  next
    case headers
    have "(\<exists>s'. res_foldl (\<lambda>s (name, v). headers_append s (JString name) (JString v)) [] (headers_iterator st) = Inr s') \<longleftrightarrow>
        list_all (\<lambda>p. trim (fst p) \<noteq> []) (headers_iterator st)"
      by (rule res_foldl_iff) (simp add: case_prod_beta headers_append_iff)
    with headers new show ?thesis
      by (simp add: Headers_new_def applyInit_def init_names_def list.pred_map comp_def)
  next
    case object
    have "(\<exists>s'. res_foldl set_property [] ps = Inr s') \<longleftrightarrow> list_all (\<lambda>p. nullish (snd p) \<or> trim (fst p) \<noteq> []) ps"
      by (rule res_foldl_iff) (auto simp: set_property_def headers_set_def normalizeName_def assertValue_def Let_def res_bind_Inr_iff)
    moreover have "list_all (\<lambda>n. trim n \<noteq> []) (init_names init) \<longleftrightarrow> list_all (\<lambda>p. nullish (snd p) \<or> trim (fst p) \<noteq> []) ps"
      by (simp add: init_names_def object list.pred_map comp_def list.pred_set) (metis fst_conv prod.collapse snd_conv)
    moreover have "Headers_new init = res_foldl set_property [] ps"
      by (simp add: object Headers_new_def applyInit_def is_array_def isIterable_def)
    ultimately show ?thesis using new by simp
  qed
qed

section \<open>Properties\<close>


definition typed_example :: jsval where
  "typed_example = JObject
    [(''tlsOptions'', JObject [(''alpnProtocols'', JArray [JString ''HTTP2'']), (''sessionTicket'', JBool True)]),
     (''http2Options'', JObject
       [(''initialWindowSize'', JNumber (NumInt 6291456)),
        (''settingsOrder'', JArray [JString ''MaxFrameSize'', JString ''EnablePush''])])]"


end
