(* ===== verification/WebSocketTypes.thy ===== *)
theory WebSocketTypes
  imports OptionTypes WebSocketOptions
begin

text \<open>
  The types of web socket options in src/src/types.ts, and what a caller who keeps to them can rely on. The
  tables of fields that the normalisations read are those of the interfaces.
\<close>

definition WebSocketBinaryType :: ts_type where
  "WebSocketBinaryType = TLiterals [''nodebuffer'', ''arraybuffer'', ''blob'']"

definition BrowserChoice :: ts_type where
  "BrowserChoice = TUnion [TLiterals BrowserProfile_names, TLiterals BrowserAlias_names]"

definition WebSocketOptions_members :: "(string \<times> bool \<times> ts_type) list" where
  "WebSocketOptions_members =
    [optional_member ''browser'' BrowserChoice,
     optional_member ''os'' (TLiterals EmulationOS_names),
     optional_member ''emulation'' CustomEmulationOptions,
     optional_member ''headers'' HeadersInit,
     optional_member ''proxy'' TString,
     optional_member ''proxyHeaders'' HeadersInit,
     optional_member ''protocols'' (TUnion [TString, TArray TString]),
     optional_member ''maxFrameSize'' TNumber,
     optional_member ''maxMessageSize'' TNumber,
     optional_member ''binaryType'' WebSocketBinaryType]"

text \<open>\<open>Omit<T, K>\<close>\<close>

definition omit_members :: "string list \<Rightarrow> (string \<times> bool \<times> ts_type) list \<Rightarrow> (string \<times> bool \<times> ts_type) list" where
  "omit_members ks ms = filter (\<lambda>m. fst m \<notin> set ks) ms"

definition SessionWebSocketOptions_members :: "(string \<times> bool \<times> ts_type) list" where
  "SessionWebSocketOptions_members =
     omit_members [''browser'', ''os'', ''proxy'', ''proxyHeaders'', ''emulation''] WebSocketOptions_members"

definition legacy_members :: "(string \<times> bool \<times> ts_type) list" where
  "legacy_members =
    [required_member ''url'' TString,
     optional_member ''onMessage'' TFunction,
     optional_member ''onClose'' TFunction,
     optional_member ''onError'' TFunction]"

definition LegacyWebSocketOptions_members :: "(string \<times> bool \<times> ts_type) list" where
  "LegacyWebSocketOptions_members = WebSocketOptions_members @ legacy_members"

definition LegacySessionWebSocketOptions_members :: "(string \<times> bool \<times> ts_type) list" where
  "LegacySessionWebSocketOptions_members = SessionWebSocketOptions_members @ legacy_members"

section \<open>Interfaces and tables\<close>

lemma websocket_same_options:
  "set (map fst standalone_fields) = set (map fst WebSocketOptions_members)"
  "set (map fst session_fields) = set (map fst SessionWebSocketOptions_members)"
  "set (map fst session_overrides) = set (map fst WebSocketOptions_members) - set (map fst SessionWebSocketOptions_members)"
  by (auto simp: standalone_fields_def session_fields_def session_overrides_def common_fields_def
      WebSocketOptions_members_def SessionWebSocketOptions_members_def omit_members_def)

section \<open>Well-typed options\<close>

text \<open>The one check that the types do not make: sizes are positive safe integers.\<close>

definition message_size_ok :: "jsval \<Rightarrow> bool" where
  "message_size_ok v = (case v of JNumber n \<Rightarrow> is_safe_integer n \<and> \<not> num_le n 0 | _ \<Rightarrow> True)"

lemma normalize_fields_ok:
  "(\<exists>n. normalize_fields fs (JObject ps) = Inr n) \<longleftrightarrow> list_all (\<lambda>(k, f). \<exists>v. f (lookup ps k) = Inr v) fs"
proof (induction fs)
  case (Cons p fs)
  obtain k f where p: "p = (k, f)" by fastforce
  show ?case
    using Cons by (cases "f (lookup ps k)"; cases "normalize_fields fs (JObject ps)") (auto simp: p)
qed simp

lemma typed_size:
  "v = JUndefined \<or> conforms TNumber v \<Longrightarrow> (\<exists>w. normalizeWebSocketSizeOption l v = Inr w) \<longleftrightarrow> message_size_ok v"
  by (auto simp: normalizeWebSocketSizeOption_def message_size_ok_def split: jsval.splits)

lemma typed_binaryType:
  "v = JUndefined \<or> conforms WebSocketBinaryType v \<Longrightarrow> \<exists>w. binaryType_option v = Inr w"
  by (auto simp: binaryType_option_def WebSocketBinaryType_def split: jsval.splits)

lemma typed_common:
  assumes "conforms (TInterface ms) (JObject ps)"
    and "(''maxFrameSize'', True, TNumber) \<in> set ms" "(''maxMessageSize'', True, TNumber) \<in> set ms"
      "(''binaryType'', True, WebSocketBinaryType) \<in> set ms"
  shows "list_all (\<lambda>(k, f). \<exists>v. f (lookup ps k) = Inr v) common_fields \<longleftrightarrow>
    message_size_ok (lookup ps ''maxFrameSize'') \<and> message_size_ok (lookup ps ''maxMessageSize'')"
proof -
  have "lookup ps ''maxFrameSize'' = JUndefined \<or> conforms TNumber (lookup ps ''maxFrameSize'')"
    "lookup ps ''maxMessageSize'' = JUndefined \<or> conforms TNumber (lookup ps ''maxMessageSize'')"
    "lookup ps ''binaryType'' = JUndefined \<or> conforms WebSocketBinaryType (lookup ps ''binaryType'')"
    using typed_member [OF assms(1,2)] typed_member [OF assms(1,3)] typed_member [OF assms(1,4)] by blast+
  with typed_size typed_binaryType show ?thesis by (simp add: common_fields_def)
qed

text \<open>A well-typed options object is refused only for its sizes, by a socket of its own as by a session's; the
  latter refuses also an option that its type leaves out but the compiler lets pass on a variable.\<close>

lemma typed_websocket_options:
  assumes "conforms (TInterface WebSocketOptions_members) (JObject ps)"
  shows "(\<exists>n. normalizeStandaloneWebSocketOptions (JObject ps) = Inr n) \<longleftrightarrow>
    message_size_ok (lookup ps ''maxFrameSize'') \<and> message_size_ok (lookup ps ''maxMessageSize'')"
proof -
  have "list_all (\<lambda>(k, f). \<exists>v. f (lookup ps k) = Inr v) standalone_fields \<longleftrightarrow>
      message_size_ok (lookup ps ''maxFrameSize'') \<and> message_size_ok (lookup ps ''maxMessageSize'')"
    using typed_common [OF assms] by (simp add: standalone_fields_def copied_def WebSocketOptions_members_def)
  then show ?thesis
    unfolding normalizeStandaloneWebSocketOptions_def using normalize_fields_ok by simp
qed

lemma typed_session_websocket_options:
  assumes "conforms (TInterface SessionWebSocketOptions_members) (JObject ps)"
  shows "(\<exists>n. normalizeSessionWebSocketOptions (JObject ps) = Inr n) \<longleftrightarrow>
    (\<forall>k \<in> set (map fst session_overrides). lookup ps k = JUndefined) \<and>
    message_size_ok (lookup ps ''maxFrameSize'') \<and> message_size_ok (lookup ps ''maxMessageSize'')"
proof -
  have common: "list_all (\<lambda>(k, f). \<exists>v. f (lookup ps k) = Inr v) session_fields \<longleftrightarrow>
      message_size_ok (lookup ps ''maxFrameSize'') \<and> message_size_ok (lookup ps ''maxMessageSize'')"
    using typed_common [OF assms]
    by (simp add: session_fields_def copied_def SessionWebSocketOptions_members_def omit_members_def WebSocketOptions_members_def)
  have overrides: "res_all (\<lambda>(k, message). res_bind (get_prop (JObject ps) k) (\<lambda>v.
      throw_if (v \<noteq> JUndefined) (RequestError message))) session_overrides = Inr () \<longleftrightarrow>
      (\<forall>k \<in> set (map fst session_overrides). lookup ps k = JUndefined)"
    by (auto simp: res_all_Inr_iff)
  have "(\<exists>n. normalizeSessionWebSocketOptions (JObject ps) = Inr n) \<longleftrightarrow>
      res_all (\<lambda>(k, message). res_bind (get_prop (JObject ps) k) (\<lambda>v.
        throw_if (v \<noteq> JUndefined) (RequestError message))) session_overrides = Inr () \<and>
      (\<exists>n. normalize_fields session_fields (JObject ps) = Inr n)"
    by (auto simp: normalizeSessionWebSocketOptions_def res_bind_Inr_iff)
  with common overrides normalize_fields_ok show ?thesis by simp
qed

end
