(* ===== verification/BenchRun.thy ===== *)
theory BenchRun
  imports BenchTools
begin

text \<open>
  The benchmark of src/src/bench/run.ts from its statistics to \<open>main\<close>: the summary of the samples of a
  scenario (\<open>mean\<close>, \<open>stdevSample\<close>, \<open>tCritical95\<close>, \<open>summarizeSamples\<close>), \<open>runScenario\<close>, the table of
  scenarios and what \<open>main\<close> creates, closes and collects. Samples are real numbers: rounding is left out.
  What a measurement gives is a parameter, for \<open>measureThroughput\<close> depends on a clock and a server.
\<close>

section \<open>Statistics\<close>

definition mean :: "real list \<Rightarrow> real" where
  "mean values = foldl (\<lambda>acc v. acc + v) 0 values / real (length values)"

definition stdevSample :: "real list \<Rightarrow> real \<Rightarrow> real" where
  "stdevSample values sampleMean =
     (if length values < 2 then 0
      else sqrt (foldl (\<lambda>sumSq value. let diff = value - sampleMean in sumSq + diff * diff) 0 values
             / (real (length values) - 1)))"

definition t_table :: "(nat \<times> real) list" where
  "t_table =
    [(1, 12.706), (2, 4.303), (3, 3.182), (4, 2.776), (5, 2.571), (6, 2.447), (7, 2.365), (8, 2.306),
     (9, 2.262), (10, 2.228), (11, 2.201), (12, 2.179), (13, 2.16), (14, 2.145), (15, 2.131), (16, 2.12),
     (17, 2.11), (18, 2.101), (19, 2.093), (20, 2.086), (21, 2.08), (22, 2.074), (23, 2.069), (24, 2.064),
     (25, 2.06), (26, 2.056), (27, 2.052), (28, 2.048), (29, 2.045), (30, 2.042)]"

definition tCritical95 :: "nat \<Rightarrow> real" where
  "tCritical95 df = (case map_of t_table df of Some t \<Rightarrow> t | None \<Rightarrow> 1.96)"

record ScenarioResult =
  sc_name :: string
  sc_samples :: "real list"
  sc_mean :: real
  sc_stdev :: real
  sc_cv :: real
  sc_low :: real
  sc_high :: real
  sc_margin :: real
  sc_marginPct :: real
  sc_min :: real
  sc_max :: real
  sc_errors :: nat

text \<open>\<open>Math.min\<close> and \<open>Math.max\<close> of the samples, of which there are some.\<close>

definition math_min :: "real list \<Rightarrow> real" where
  "math_min xs = fold min (tl xs) (hd xs)"

definition math_max :: "real list \<Rightarrow> real" where
  "math_max xs = fold max (tl xs) (hd xs)"

definition summarizeSamples :: "string \<Rightarrow> real list \<Rightarrow> nat \<Rightarrow> ScenarioResult" where
  "summarizeSamples name samples errors =
     (let m = mean samples;
          sd = stdevSample samples m;
          cv = (if m = 0 then 0 else sd / m);
          t = tCritical95 (length samples - 1);
          margin = t * (sd / sqrt (real (length samples)))
      in \<lparr>sc_name = name, sc_samples = samples, sc_mean = m, sc_stdev = sd, sc_cv = cv,
          sc_low = m - margin, sc_high = m + margin, sc_margin = margin,
          sc_marginPct = (if m = 0 then 0 else margin / m * 100),
          sc_min = math_min samples, sc_max = math_max samples, sc_errors = errors\<rparr>)"

lemma mean_sum: "mean xs = sum_list xs / real (length xs)"
proof -
  have "foldl (\<lambda>acc v. acc + v) a xs = a + sum_list xs" for a
    by (induction xs arbitrary: a) (simp_all add: add.assoc)
  then show ?thesis by (simp add: mean_def)
qed

lemma mean_between:
  assumes "xs \<noteq> []" "\<forall>v \<in> set xs. lo \<le> v \<and> v \<le> hi"
  shows "lo \<le> mean xs \<and> mean xs \<le> hi"
  using sum_list_between [OF assms(2)] assms(1)
  by (simp add: mean_sum pos_le_divide_eq pos_divide_le_eq mult.commute)

lemma squares_sum:
  "foldl (\<lambda>sumSq value. let diff = value - m in sumSq + diff * diff) a xs = a + sum_list (map (\<lambda>v. (v - m)\<^sup>2) xs)"
  for a :: real
  by (induction xs arbitrary: a) (simp_all add: Let_def power2_eq_square)

lemma squares_nonneg: "0 \<le> sum_list (map (\<lambda>v. (v - m)\<^sup>2) xs)" for m :: real
  by (induction xs) simp_all

lemma squares_zero: "sum_list (map (\<lambda>v. (v - m)\<^sup>2) xs) = 0 \<longleftrightarrow> (\<forall>v \<in> set xs. v = m)" for m :: real
  by (induction xs) (auto simp: add_nonneg_eq_0_iff [OF _ squares_nonneg])

lemma stdevSample_nonneg: "0 \<le> stdevSample xs m"
  using squares_nonneg by (simp add: stdevSample_def squares_sum)

lemma mean_constant: "xs \<noteq> [] \<Longrightarrow> \<forall>v \<in> set xs. v = c \<Longrightarrow> mean xs = c"
  using mean_between [where xs = xs and lo = c and hi = c] by auto

text \<open>The deviation is zero exactly if all samples are the same.\<close>

lemma stdevSample_zero:
  assumes "length xs \<ge> 2"
  shows "stdevSample xs (mean xs) = 0 \<longleftrightarrow> (\<exists>c. \<forall>v \<in> set xs. v = c)"
proof -
  have "stdevSample xs (mean xs) = 0 \<longleftrightarrow> (\<forall>v \<in> set xs. v = mean xs)"
    using assms squares_zero [of "mean xs" xs] by (auto simp: stdevSample_def squares_sum)
  moreover have "xs \<noteq> []" using assms by auto
  ultimately show ?thesis using mean_constant by blast
qed

lemma tCritical95_pos: "0 < tCritical95 df"
proof -
  have "\<forall>(d, t) \<in> set t_table. 0 < t" by (simp add: t_table_def)
  then show ?thesis by (auto simp: tCritical95_def dest: map_of_SomeD split: option.split)
qed

lemma math_extremes:
  assumes "xs \<noteq> []"
  shows "math_min xs = Min (set xs)" "math_max xs = Max (set xs)"
  using assms by (cases xs; simp add: math_min_def math_max_def fold_min_max)+

text \<open>The summary of at least two samples.\<close>

lemma summary_sound:
  assumes "length samples \<ge> 2" "r = summarizeSamples name samples errors"
  shows "sc_min r \<in> set samples \<and> sc_max r \<in> set samples \<and> sc_min r \<le> sc_mean r \<and> sc_mean r \<le> sc_max r \<and>
    sc_low r \<le> sc_mean r \<and> sc_mean r \<le> sc_high r \<and> (sc_low r = sc_high r \<longleftrightarrow> (\<exists>c. \<forall>v \<in> set samples. v = c))"
proof -
  have ne: "samples \<noteq> []" using assms(1) by auto
  have r: "sc_min r = Min (set samples)" "sc_max r = Max (set samples)" "sc_mean r = mean samples"
    "sc_low r = mean samples - sc_margin r" "sc_high r = mean samples + sc_margin r"
    "sc_margin r = tCritical95 (length samples - 1) * (stdevSample samples (mean samples) / sqrt (real (length samples)))"
    using math_extremes [OF ne] by (simp_all add: assms(2) summarizeSamples_def Let_def)
  have "Min (set samples) \<le> mean samples \<and> mean samples \<le> Max (set samples)"
    by (rule mean_between [OF ne]) simp
  moreover have "0 \<le> sc_margin r"
    using tCritical95_pos stdevSample_nonneg by (simp add: r(6) less_imp_le)
  moreover have "sc_margin r = 0 \<longleftrightarrow> (\<exists>c. \<forall>v \<in> set samples. v = c)"
    using tCritical95_pos [of "length samples - 1"] ne stdevSample_zero [OF assms(1)] by (auto simp: r(6))
  ultimately show ?thesis using ne by (auto simp: r(1-5))
qed

section \<open>One scenario\<close>

text \<open>Code that returns, throws, or never comes back.\<close>

datatype 'a bench_run = Returns 'a | Throws string | Hangs

definition run_bind :: "'a bench_run \<Rightarrow> ('a \<Rightarrow> 'b bench_run) \<Rightarrow> 'b bench_run" where
  "run_bind m f = (case m of Returns x \<Rightarrow> f x | Throws e \<Rightarrow> Throws e | Hangs \<Rightarrow> Hangs)"

lemma run_bind_simps [simp]:
  "run_bind (Returns x) f = f x" "run_bind (Throws e) f = Throws e" "run_bind Hangs f = Hangs"
  by (simp_all add: run_bind_def)

text \<open>\<open>measureThroughput\<close> on the workers of Bench, in \<open>elapsed\<close> seconds.\<close>

definition measureThroughput ::
  "real \<Rightarrow> nat \<Rightarrow> ((nat \<Rightarrow> nat) \<times> (nat \<Rightarrow> bool)) list \<Rightarrow> (real \<times> nat) bench_run" where
  "measureThroughput elapsed deadline workers = (case measure_counts deadline workers of
      None \<Rightarrow> Hangs
    | Some (s_count, s_errors) \<Rightarrow> Returns (real s_count / elapsed, s_errors))"

text \<open>What the measurement of a scenario number \<open>k\<close> gives, when it has the given duration.\<close>

type_synonym measurements = "number \<Rightarrow> nat \<Rightarrow> (real \<times> nat) bench_run"

datatype scenario_effect = Gc | Sleep nat | Measure number | Warn

record scenario_run =
  su_calls :: nat
  su_errors :: nat
  su_samples :: "real list"
  su_effects :: "scenario_effect list"

text \<open>How often \<open>for (let i = 0; i < n; i += 1)\<close> runs its body.\<close>

definition passes :: "number \<Rightarrow> nat" where
  "passes n = (case n of
      NumInt i \<Rightarrow> nat i
    | NumDec m k \<Rightarrow> nat ((m + 10 ^ k - 1) div 10 ^ k)
    | _ \<Rightarrow> 0)"

definition min_500 :: "number \<Rightarrow> number" where
  "min_500 n = (if num_less n 500 then n else NumInt 500)"

definition measure_step :: "measurements \<Rightarrow> number \<Rightarrow> scenario_run \<Rightarrow> (real \<times> scenario_run) bench_run" where
  "measure_step measured d s = run_bind (measured d (su_calls s)) (\<lambda>(rps, e).
     Returns (rps, s\<lparr>su_calls := su_calls s + 1, su_errors := su_errors s + e,
       su_effects := su_effects s @ [Measure d]\<rparr>))"

fun warmup_loop :: "measurements \<Rightarrow> number \<Rightarrow> nat list \<Rightarrow> scenario_run \<Rightarrow> scenario_run bench_run" where
  "warmup_loop measured d [] s = Returns s"
| "warmup_loop measured d (i # idx) s =
     run_bind (measure_step measured (min_500 d) s) (\<lambda>(rps, s1).
       warmup_loop measured d idx (s1\<lparr>su_effects := su_effects s1 @ [Gc, Sleep 50]\<rparr>))"

fun sample_loop :: "measurements \<Rightarrow> number \<Rightarrow> nat list \<Rightarrow> scenario_run \<Rightarrow> scenario_run bench_run" where
  "sample_loop measured d [] s = Returns s"
| "sample_loop measured d (i # idx) s =
     run_bind (measure_step measured d (s\<lparr>su_effects := su_effects s @ [Gc, Sleep 50]\<rparr>)) (\<lambda>(rps, s1).
       sample_loop measured d idx (s1\<lparr>su_samples := su_samples s1 @ [rps]\<rparr>))"

definition runScenario :: "measurements \<Rightarrow> string \<Rightarrow> Args \<Rightarrow> (ScenarioResult \<times> scenario_effect list) bench_run" where
  "runScenario measured name a =
     run_bind (warmup_loop measured (arg_durationMs a) [0..<passes (arg_warmup a)]
       \<lparr>su_calls = 0, su_errors = 0, su_samples = [], su_effects = []\<rparr>) (\<lambda>s.
     run_bind (sample_loop measured (arg_durationMs a) [0..<passes (arg_samples a)] s) (\<lambda>s'.
     let summary = summarizeSamples name (su_samples s') (su_errors s') in
     Returns (summary, su_effects s' @ (if sc_marginPct summary > 3 then [Warn] else []))))"

lemma le_div_int: "0 < d \<Longrightarrow> j \<le> x div d \<longleftrightarrow> j * d \<le> x" for j x d :: int
proof
  assume d: "0 < d"
  note split = div_mult_mod_eq [of x d] pos_mod_bound [OF d, of x] pos_mod_sign [OF d, of x]
  show "j * d \<le> x" if "j \<le> x div d"
    using mult_right_mono [OF that, of d] d split by linarith
  show "j \<le> x div d" if "j * d \<le> x"
  proof (rule ccontr)
    assume "\<not> j \<le> x div d"
    then have "(x div d + 1) * d \<le> j * d" using d by (intro mult_right_mono) auto
    then have "x div d * d + d \<le> j * d" by (simp add: distrib_right)
    with that split show False by linarith
  qed
qed

lemma passes_iff: "is_finite n \<Longrightarrow> i < passes n \<longleftrightarrow> num_greater n (int i)"
proof (cases n)
  case (NumDec m k)
  have "int i < (m + 10 ^ k - 1) div 10 ^ k \<longleftrightarrow> (int i + 1) * 10 ^ k \<le> m + 10 ^ k - 1"
    using le_div_int [of "10 ^ k" "int i + 1" "m + 10 ^ k - 1"] unfolding add1_zle_eq by simp
  then show ?thesis by (auto simp: NumDec passes_def algebra_simps zless_nat_eq_int_zless)
qed (auto simp: passes_def is_finite_def zless_nat_eq_int_zless)

text \<open>When every measurement comes back with \<open>f d k\<close>.\<close>

lemma warmup_loop_Returns:
  assumes "\<And>d k. measured d k = Returns (f d k)"
  shows "\<exists>es. warmup_loop measured d idx s = Returns (s\<lparr>su_calls := su_calls s + length idx,
    su_errors := su_errors s + (\<Sum>k\<leftarrow>[su_calls s..<su_calls s + length idx]. snd (f (min_500 d) k)), su_effects := es\<rparr>)"
proof (induction idx arbitrary: s)
  case Nil
  show ?case by (rule exI [of _ "su_effects s"]) simp
next
  case (Cons i idx)
  have [simp]: "[c..<Suc (c + n)] = c # [Suc c..<Suc (c + n)]" for c n :: nat by (simp add: upt_conv_Cons)
  show ?case
    using Cons [of "s\<lparr>su_calls := Suc (su_calls s), su_errors := su_errors s + snd (f (min_500 d) (su_calls s)),
      su_effects := su_effects s @ [Measure (min_500 d), Gc, Sleep 50]\<rparr>"]
    by (simp del: upt_Suc add: measure_step_def assms case_prod_beta add.assoc)
qed

lemma sample_loop_Returns:
  assumes "\<And>d k. measured d k = Returns (f d k)"
  shows "\<exists>es. sample_loop measured d idx s = Returns (s\<lparr>su_calls := su_calls s + length idx,
    su_errors := su_errors s + (\<Sum>k\<leftarrow>[su_calls s..<su_calls s + length idx]. snd (f d k)),
    su_samples := su_samples s @ map (\<lambda>k. fst (f d k)) [su_calls s..<su_calls s + length idx], su_effects := es\<rparr>)"
proof (induction idx arbitrary: s)
  case Nil
  show ?case by (rule exI [of _ "su_effects s"]) simp
next
  case (Cons i idx)
  have [simp]: "[c..<Suc (c + n)] = c # [Suc c..<Suc (c + n)]" for c n :: nat by (simp add: upt_conv_Cons)
  show ?case
    using Cons [of "s\<lparr>su_calls := Suc (su_calls s), su_errors := su_errors s + snd (f d (su_calls s)),
      su_effects := su_effects s @ [Gc, Sleep 50, Measure d],
      su_samples := su_samples s @ [fst (f d (su_calls s))]\<rparr>"]
    by (simp del: upt_Suc add: measure_step_def assms case_prod_beta add.assoc)
qed

lemma runScenario_Returns:
  assumes "\<And>d k. measured d k = Returns (f d k)"
  defines "w \<equiv> \<lambda>a. passes (arg_warmup a)" and "n \<equiv> \<lambda>a. passes (arg_samples a)"
  shows "\<exists>es. runScenario measured name a = Returns
    (summarizeSamples name (map (\<lambda>k. fst (f (arg_durationMs a) k)) [w a..<w a + n a])
       ((\<Sum>k\<leftarrow>[0..<w a]. snd (f (min_500 (arg_durationMs a)) k)) +
        (\<Sum>k\<leftarrow>[w a..<w a + n a]. snd (f (arg_durationMs a) k))), es)"
proof -
  let ?s0 = "\<lparr>su_calls = 0, su_errors = 0, su_samples = [], su_effects = []\<rparr>"
  obtain es where warm: "warmup_loop measured (arg_durationMs a) [0..<w a] ?s0 =
      Returns (?s0\<lparr>su_calls := w a, su_errors := (\<Sum>k\<leftarrow>[0..<w a]. snd (f (min_500 (arg_durationMs a)) k)), su_effects := es\<rparr>)"
    using warmup_loop_Returns [where measured = measured and f = f and d = "arg_durationMs a" and idx = "[0..<w a]" and s = ?s0, OF assms(1)] by auto
  show ?thesis
    using sample_loop_Returns [where measured = measured and f = f and d = "arg_durationMs a" and idx = "[0..<n a]" and
      s = "?s0\<lparr>su_calls := w a, su_errors := (\<Sum>k\<leftarrow>[0..<w a]. snd (f (min_500 (arg_durationMs a)) k)), su_effects := es\<rparr>", OF assms(1)] warm
    by (auto simp: runScenario_def Let_def w_def n_def)
qed

section \<open>The scenarios\<close>

datatype bench_resource = OwnSession | OwnTransport | NoResource | GlobalFetch

text \<open>
  A scenario: what it holds while it runs, the request it repeats (its method, path and \<open>len\<close>; the runtime
  cuts the body into chunks) and the answer it counts as a success.
\<close>

record bench_scenario =
  bn_name :: string
  bn_uses :: bench_resource
  bn_method :: string
  bn_path :: string
  bn_len :: "string option"
  bn_bodyLength :: nat
  bn_accepts :: "bench_response \<Rightarrow> bool"

definition SMALL_BODY_LENGTH :: nat where
  "SMALL_BODY_LENGTH = 2"

definition answers :: "nat \<Rightarrow> nat \<Rightarrow> bench_response \<Rightarrow> bool" where
  "answers status len r \<longleftrightarrow> bp_status r = status \<and> length (bp_body r) = len"

definition get_scenario :: "string \<Rightarrow> bench_resource \<Rightarrow> string \<Rightarrow> string option \<Rightarrow> (bench_response \<Rightarrow> bool) \<Rightarrow> bench_scenario" where
  "get_scenario name uses path len accepts =
     \<lparr>bn_name = name, bn_uses = uses, bn_method = ''GET'', bn_path = path, bn_len = len, bn_bodyLength = 0,
      bn_accepts = accepts\<rparr>"

definition post_scenario :: bench_scenario where
  "post_scenario =
     \<lparr>bn_name = ''wreq.session.post.32b'', bn_uses = OwnSession, bn_method = ''POST'', bn_path = ''/echo-len'',
      bn_len = Some ''32'', bn_bodyLength = 32, bn_accepts = (\<lambda>r. bp_status r = 204)\<rparr>"

definition bench_scenarios :: "bench_scenario list" where
  "bench_scenarios =
     [get_scenario ''wreq.session.get.small'' OwnSession ''/small'' None (answers 200 SMALL_BODY_LENGTH),
      get_scenario ''wreq.transport.get.small'' OwnTransport ''/small'' None (answers 200 SMALL_BODY_LENGTH),
      get_scenario ''wreq.session.get.4kb'' OwnSession ''/binary'' (Some ''4096'') (answers 200 4096),
      post_scenario,
      get_scenario ''wreq.isolated.get.small'' NoResource ''/small'' None (answers 200 SMALL_BODY_LENGTH),
      get_scenario ''node.fetch.get.small'' GlobalFetch ''/small'' None
        (\<lambda>r. 200 \<le> bp_status r \<and> bp_status r \<le> 299 \<and> length (bp_body r) = SMALL_BODY_LENGTH)]"

text \<open>
  What \<open>main\<close> does around the scenarios. Creating and closing a session or transport may throw; whatever
  the scenario does, short of never ending, \<open>finally\<close> closes what was created. Starting and stopping the
  server and writing the file are taken to succeed.
\<close>

datatype bench_event =
    ServerStarted
  | Created string
  | Closed string
  | Skipped string
  | JsonWritten string "ScenarioResult list"
  | ServerClosed

record bench_state =
  be_events :: "bench_event list"
  be_results :: "ScenarioResult list"

record bench_world =
  bw_create :: "string \<Rightarrow> unit bench_run"
  bw_close :: "string \<Rightarrow> unit bench_run"
  bw_measure :: "string \<Rightarrow> measurements"
  bw_globalFetch :: bool

text \<open>How a part of \<open>main\<close> ends: it goes on, or it threw, or it hangs.\<close>

definition emit :: "bench_event \<Rightarrow> bench_state \<Rightarrow> bench_state" where
  "emit e s = s\<lparr>be_events := be_events s @ [e]\<rparr>"

definition push_result :: "ScenarioResult \<Rightarrow> bench_state \<Rightarrow> bench_state" where
  "push_result r s = s\<lparr>be_results := be_results s @ [r]\<rparr>"

definition run_and_push ::
  "bench_world \<Rightarrow> Args \<Rightarrow> string \<Rightarrow> bench_state \<Rightarrow> bench_state \<times> unit bench_run" where
  "run_and_push w a name s = (case runScenario (bw_measure w name) name a of
      Returns (r, effects) \<Rightarrow> (push_result r s, Returns ())
    | Throws e \<Rightarrow> (s, Throws e)
    | Hangs \<Rightarrow> (s, Hangs))"

text \<open>\<open>try { run } finally { await resource.close() }\<close>: an error of \<open>close\<close> replaces that of the run.\<close>

definition run_with_resource ::
  "bench_world \<Rightarrow> Args \<Rightarrow> string \<Rightarrow> bench_state \<Rightarrow> bench_state \<times> unit bench_run" where
  "run_with_resource w a name s = (case bw_create w name of
      Throws e \<Rightarrow> (s, Throws e)
    | Hangs \<Rightarrow> (s, Hangs)
    | Returns _ \<Rightarrow>
        (case run_and_push w a name (emit (Created name) s) of (s1, outcome) \<Rightarrow>
           if outcome = Hangs then (s1, Hangs)
           else (emit (Closed name) s1, (case bw_close w name of Returns _ \<Rightarrow> outcome | other \<Rightarrow> other))))"

definition scenario_step ::
  "bench_world \<Rightarrow> Args \<Rightarrow> bench_scenario \<Rightarrow> bench_state \<Rightarrow> bench_state \<times> unit bench_run" where
  "scenario_step w a sc s =
     (if \<not> shouldRun a (bn_name sc) then (s, Returns ())
      else (case bn_uses sc of
          OwnSession \<Rightarrow> run_with_resource w a (bn_name sc) s
        | OwnTransport \<Rightarrow> run_with_resource w a (bn_name sc) s
        | NoResource \<Rightarrow> run_and_push w a (bn_name sc) s
        | GlobalFetch \<Rightarrow>
            (if \<not> bw_globalFetch w then (emit (Skipped (bn_name sc)) s, Returns ())
             else run_and_push w a (bn_name sc) s)))"

fun scenario_steps ::
  "bench_world \<Rightarrow> Args \<Rightarrow> bench_scenario list \<Rightarrow> bench_state \<Rightarrow> bench_state \<times> unit bench_run" where
  "scenario_steps w a [] s = (s, Returns ())"
| "scenario_steps w a (sc # rest) s = (case scenario_step w a sc s of
      (s1, Returns _) \<Rightarrow> scenario_steps w a rest s1
    | (s1, outcome) \<Rightarrow> (s1, outcome))"

definition bench_main :: "bench_world \<Rightarrow> Args \<Rightarrow> bench_state \<times> unit bench_run" where
  "bench_main w a =
     (case scenario_steps w a bench_scenarios \<lparr>be_events = [ServerStarted], be_results = []\<rparr> of
        (s, Returns _) \<Rightarrow>
          (emit ServerClosed (case arg_jsonPath a of None \<Rightarrow> s | Some path \<Rightarrow> emit (JsonWritten path (be_results s)) s),
           Returns ())
      | (s, outcome) \<Rightarrow> (s, outcome))"

subsection \<open>Creating and closing\<close>

definition created_names :: "bench_event list \<Rightarrow> string list" where
  "created_names es = concat (map (\<lambda>e. case e of Created n \<Rightarrow> [n] | _ \<Rightarrow> []) es)"

definition closed_names :: "bench_event list \<Rightarrow> string list" where
  "closed_names es = concat (map (\<lambda>e. case e of Closed n \<Rightarrow> [n] | _ \<Rightarrow> []) es)"

lemma emit_simps [simp]:
  "be_results (emit e s) = be_results s" "be_events (emit e s) = be_events s @ [e]"
  "be_events (push_result r s) = be_events s" "be_results (push_result r s) = be_results s @ [r]"
  by (simp_all add: emit_def push_result_def)

lemma created_closed_simps [simp]:
  "created_names (es @ es') = created_names es @ created_names es'"
  "closed_names (es @ es') = closed_names es @ closed_names es'"
  "created_names (e # es) = (case e of Created n \<Rightarrow> n # created_names es | _ \<Rightarrow> created_names es)"
  "closed_names (e # es) = (case e of Closed n \<Rightarrow> n # closed_names es | _ \<Rightarrow> closed_names es)"
  "created_names [] = []" "closed_names [] = []"
  by (simp_all add: created_names_def closed_names_def split: bench_event.split)

definition balanced :: "bench_state \<Rightarrow> bool" where
  "balanced s \<longleftrightarrow> created_names (be_events s) = closed_names (be_events s)"

lemma run_and_push_events [simp]: "be_events (fst (run_and_push w a name s)) = be_events s"
  by (simp add: run_and_push_def split: bench_run.split prod.split)

lemma run_and_push_keeps: "run_and_push w a name s = (s1, r) \<Longrightarrow> be_events s1 = be_events s"
  by (metis fst_conv run_and_push_events)

lemma run_and_push_results:
  "run_and_push w a name s = (s1, Returns u) \<Longrightarrow> map sc_name (be_results s1) = map sc_name (be_results s) @ [name]"
  by (auto simp: run_and_push_def runScenario_def run_bind_def summarizeSamples_def Let_def split: bench_run.splits prod.splits)

lemma scenario_step_balanced:
  "balanced s \<Longrightarrow> scenario_step w a sc s = (s1, r) \<Longrightarrow> r \<noteq> Hangs \<Longrightarrow> balanced s1"
  by (auto simp: scenario_step_def run_with_resource_def balanced_def dest!: run_and_push_keeps
      split: bench_resource.splits bench_run.splits prod.splits if_splits)

lemma scenario_step_results:
  "scenario_step w a sc s = (s1, Returns u) \<Longrightarrow> map sc_name (be_results s1) = map sc_name (be_results s) @
     (if shouldRun a (bn_name sc) \<and> (bn_uses sc = GlobalFetch \<longrightarrow> bw_globalFetch w) then [bn_name sc] else [])"
  by (auto simp: scenario_step_def run_with_resource_def dest!: run_and_push_results
      split: bench_resource.splits bench_run.splits prod.splits if_splits)

text \<open>The scenarios that are run and whose results are kept.\<close>

definition runs :: "bench_world \<Rightarrow> Args \<Rightarrow> bench_scenario \<Rightarrow> bool" where
  "runs w a sc \<longleftrightarrow> shouldRun a (bn_name sc) \<and> (bn_uses sc = GlobalFetch \<longrightarrow> bw_globalFetch w)"

lemma scenario_step_server:
  "scenario_step w a sc s = (s1, r) \<Longrightarrow> ServerClosed \<in> set (be_events s1) \<longleftrightarrow> ServerClosed \<in> set (be_events s)"
  by (auto simp: scenario_step_def run_with_resource_def dest!: run_and_push_keeps
      split: bench_resource.splits bench_run.splits prod.splits if_splits)

lemma scenario_steps_spec:
  assumes "scenario_steps w a scs s = (s1, r)"
  shows "balanced s \<Longrightarrow> r \<noteq> Hangs \<Longrightarrow> balanced s1"
    and "ServerClosed \<in> set (be_events s1) \<longleftrightarrow> ServerClosed \<in> set (be_events s)"
    and "r = Returns u \<Longrightarrow> map sc_name (be_results s1) = map sc_name (be_results s) @ map bn_name (filter (runs w a) scs)"
  using assms
proof (induction w a scs s rule: scenario_steps.induct)
  case (2 w a sc rest s)
  obtain s2 r2 where step: "scenario_step w a sc s = (s2, r2)" by fastforce
  {
    case 1
    then show ?case using "2.IH"(1) [OF step [symmetric]] scenario_step_balanced [OF _ step] step
      by (cases r2) auto
  next
    case 2
    then show ?case using "2.IH"(2) [OF step [symmetric]] scenario_step_server [OF step] step by (cases r2) auto
  next
    case 3
    then show ?case
      using "2.IH"(3) [OF step [symmetric]] scenario_step_results [of w a sc s s2] step by (cases r2) (auto simp: runs_def)
  }
qed auto

section \<open>Properties\<close>



text \<open>\<open>main\<close>, unless it hangs, closes every session and transport it created, also when a scenario throws;
  it stops the local server and writes its results exactly if nothing threw, and then it has one result for
  each selected scenario, in the order of the table.\<close>

lemma bench_main_spec:
  assumes "bench_main w a = (s, r)" "r \<noteq> Hangs"
  shows "created_names (be_events s) = closed_names (be_events s) \<and>
    (ServerClosed \<in> set (be_events s) \<longleftrightarrow> r = Returns ()) \<and>
    (r = Returns () \<longrightarrow> map sc_name (be_results s) = map bn_name (filter (runs w a) bench_scenarios))"
proof -
  let ?s0 = "\<lparr>be_events = [ServerStarted], be_results = []\<rparr>"
  obtain s1 r1 where steps: "scenario_steps w a bench_scenarios ?s0 = (s1, r1)" by fastforce
  have main: "bench_main w a = (if r1 = Returns () then emit ServerClosed (case arg_jsonPath a of
      None \<Rightarrow> s1 | Some path \<Rightarrow> emit (JsonWritten path (be_results s1)) s1) else s1, r1)"
    by (cases r1) (simp_all add: bench_main_def steps)
  from trans [OF sym [OF assms(1)] main] have r: "r = r1" and s: "s = (if r1 = Returns () then emit ServerClosed (case arg_jsonPath a of
      None \<Rightarrow> s1 | Some path \<Rightarrow> emit (JsonWritten path (be_results s1)) s1) else s1)"
    by (simp_all only: prod.inject)
  note spec = scenario_steps_spec [OF steps]
  have "balanced ?s0" by (simp add: balanced_def)
  with spec(1) assms(2) r have "created_names (be_events s1) = closed_names (be_events s1)" by (simp add: balanced_def)
  moreover have "ServerClosed \<notin> set (be_events s1)" using spec(2) by simp
  ultimately show ?thesis using spec(3) by (auto simp: s r split: option.split)
qed

text \<open>Each scenario is counted right: what the local server answers to its request, however the runtime cuts
  the body into chunks, is what the scenario takes for a success.\<close>

lemma bench_requests_succeed:
  assumes "sc \<in> set bench_scenarios" "to_number ''4096'' = NumInt 4096" "to_number ''32'' = NumInt 32"
    and "sum_list chunks = bn_bodyLength sc"
  shows "bn_accepts sc (handleRequest to_number
    \<lparr>br_method = bn_method sc, br_path = bn_path sc, br_len = bn_len sc, br_chunks = chunks\<rparr>)"
proof -
  let ?answer = "\<lambda>path len. handleRequest to_number
    \<lparr>br_method = ''GET'', br_path = path, br_len = len, br_chunks = chunks\<rparr>"
  have ok: "length (utf8_bytes ''OK'') = 2" by code_simp
  have small: "bp_status (?answer ''/small'' len) = 200 \<and> length (bp_body (?answer ''/small'' len)) = 2" for len
    using ok by (simp add: handleRequest_def sendBytes_def)
  have binary: "bp_status (?answer ''/binary'' (Some ''4096'')) = 200 \<and>
      length (bp_body (?answer ''/binary'' (Some ''4096''))) = 4096"
    using assms(2) by (simp add: handleRequest_def sendBytes_def binary_length_def buffer_length_def is_finite_def)
  have post: "bn_accepts post_scenario (handleRequest to_number
      \<lparr>br_method = ''POST'', br_path = ''/echo-len'', br_len = Some ''32'', br_chunks = chunks\<rparr>)"
    if "sum_list chunks = 32"
    using echo_len_spec [of "\<lparr>br_method = ''POST'', br_path = ''/echo-len'', br_len = Some ''32'', br_chunks = chunks\<rparr>"
      "NumInt 32" to_number] assms(3) that
    by (simp add: post_scenario_def opt_default_def)
  show ?thesis
    using assms(1,4) post small binary
    unfolding bench_scenarios_def
    by (auto simp: get_scenario_def answers_def SMALL_BODY_LENGTH_def) (simp_all add: post_scenario_def)
qed

end
