(* ===== verification/BenchServer.thy ===== *)
theory BenchServer
  imports BenchTools
begin

text \<open>
  The life of the servers of src/src/bench/local-bench-server.ts: which command starts the Rust server and
  what stops it, how the local server comes up, which sockets it keeps and what its \<open>close\<close> does to them.
  The routes and the output of the Rust server are in BenchTools.
\<close>

section \<open>The Rust server\<close>

text \<open>\<open>startRustBenchServer\<close>: the binary, pinned to a processor on Linux if \<open>BENCH_SERVER_CPU\<close> says so.\<close>

definition spawn_command :: "string option \<Rightarrow> string \<Rightarrow> string \<Rightarrow> string list" where
  "spawn_command serverCpu platform binary = (case serverCpu of
      Some cpu \<Rightarrow> (if cpu \<noteq> [] \<and> platform = ''linux'' then [''taskset'', ''-c'', cpu, binary] else [binary])
    | None \<Rightarrow> [binary])"

text \<open>Its \<open>close\<close> asks the process to end and kills it after two seconds; it resolves when it has ended.\<close>

datatype stop_event = StopTimeout | StopExit

record stopping =
  st_signals :: "string list"
  st_timer :: bool
  st_resolved :: bool

definition stop_begin :: stopping where
  "stop_begin = \<lparr>st_signals = [''SIGTERM''], st_timer = True, st_resolved = False\<rparr>"

fun stop_step :: "stopping \<Rightarrow> stop_event \<Rightarrow> stopping" where
  "stop_step s StopTimeout =
     (if st_timer s then s\<lparr>st_signals := st_signals s @ [''SIGKILL''], st_timer := False\<rparr> else s)"
| "stop_step s StopExit = s\<lparr>st_timer := False, st_resolved := True\<rparr>"

text \<open>It resolves exactly once the process ends, and kills only a process that outlived its two seconds.\<close>

lemma stopping_spec:
  "st_resolved (foldl stop_step stop_begin es) \<longleftrightarrow> StopExit \<in> set es"
  "''SIGKILL'' \<in> set (st_signals (foldl stop_step stop_begin es)) \<longleftrightarrow> (\<exists>rest. es = StopTimeout # rest)"
proof -
  have off: "foldl stop_step s es = s\<lparr>st_resolved := st_resolved s \<or> StopExit \<in> set es\<rparr>" if "\<not> st_timer s" for s es
    using that
  proof (induction es arbitrary: s)
    case (Cons e es)
    then show ?case by (cases e) auto
  qed simp
  show "st_resolved (foldl stop_step stop_begin es) \<longleftrightarrow> StopExit \<in> set es"
  proof (cases es)
    case (Cons e es')
    then show ?thesis by (cases e) (simp_all add: off stop_begin_def)
  qed (simp add: stop_begin_def)
  show "''SIGKILL'' \<in> set (st_signals (foldl stop_step stop_begin es)) \<longleftrightarrow> (\<exists>rest. es = StopTimeout # rest)"
  proof (cases es)
    case (Cons e es')
    then show ?thesis by (cases e) (simp_all add: off stop_begin_def)
  qed (simp add: stop_begin_def)
qed

section \<open>Coming up\<close>

datatype ServerKind = RustServer | NodeServer

datatype listen_event = ListenError string | Listening

text \<open>
  The promise around \<open>server.listen\<close>: the first event settles it and removes the handler of the other.
  \<open>None\<close>: not settled yet.
\<close>

definition listen_outcome :: "listen_event list \<Rightarrow> (string + unit) option" where
  "listen_outcome es = (case es of
      [] \<Rightarrow> None
    | ListenError e # _ \<Rightarrow> Some (Inl e)
    | Listening # _ \<Rightarrow> Some (Inr ()))"

text \<open>\<open>startLocalBenchServer\<close> up to its result; \<open>address\<close> is the port the runtime reports.\<close>

definition startLocalBenchServer :: "listen_event list \<Rightarrow> nat option \<Rightarrow> (string + string \<times> ServerKind) option" where
  "startLocalBenchServer es address = (case listen_outcome es of
      None \<Rightarrow> None
    | Some (Inl e) \<Rightarrow> Some (Inl e)
    | Some (Inr _) \<Rightarrow> (case address of
          None \<Rightarrow> Some (Inl ''Unable to determine local bench server address'')
        | Some port \<Rightarrow> Some (Inr (''http://127.0.0.1:'' @ nat_str port, NodeServer))))"

text \<open>
  \<open>startBenchServer\<close>: the Rust server if its binary exists and it came up, else the local one.
  \<open>launch\<close> is what the child process and the timer do, in order.
\<close>

definition startRustBenchServer :: "(string \<Rightarrow> number) \<Rightarrow> bool \<Rightarrow> launch_event list \<Rightarrow> string option option" where
  "startRustBenchServer to_number binaryExists events =
     (if binaryExists then la_result (foldl (launch_step to_number) launch_start events) else Some None)"

definition startBenchServer ::
  "(string \<Rightarrow> number) \<Rightarrow> bool \<Rightarrow> launch_event list \<Rightarrow> listen_event list \<Rightarrow> nat option \<Rightarrow>
     (string + string \<times> ServerKind) option" where
  "startBenchServer to_number binaryExists events es address =
     (case startRustBenchServer to_number binaryExists events of
        None \<Rightarrow> None
      | Some (Some url) \<Rightarrow> Some (Inr (url, RustServer))
      | Some None \<Rightarrow> startLocalBenchServer es address)"

text \<open>The Rust server cannot keep the benchmark waiting: after its five seconds at the latest it has come up or
  the local server is tried.\<close>

lemma launch_timeout: "LaunchTimeout \<in> set es \<Longrightarrow> la_result (foldl (launch_step to_number) launch_start es) \<noteq> None"
proof -
  have settled: "la_settled s \<longleftrightarrow> la_result s \<noteq> None \<Longrightarrow>
      la_settled (launch_step to_number s e) \<longleftrightarrow> la_result (launch_step to_number s e) \<noteq> None" for s e
    by (cases e) (auto simp: launch_settle_def Let_def)
  have inv: "la_settled s \<longleftrightarrow> la_result s \<noteq> None \<Longrightarrow>
      (la_settled (foldl (launch_step to_number) s es) \<longleftrightarrow> la_result (foldl (launch_step to_number) s es) \<noteq> None) \<and>
      (LaunchTimeout \<in> set es \<longrightarrow> la_settled (foldl (launch_step to_number) s es))" for s es
  proof (induction es arbitrary: s)
    case (Cons e es)
    have "la_settled (launch_step to_number s LaunchTimeout)" by (simp add: launch_settle_def)
    with Cons settled [OF Cons.prems, of e] launch_settled [of "launch_step to_number s e" to_number es]
    show ?case by auto
  qed simp
  have "la_settled launch_start \<longleftrightarrow> la_result launch_start \<noteq> None" by (simp add: launch_start_def)
  from inv [OF this] show "la_result (foldl (launch_step to_number) launch_start es) \<noteq> None"
    if "LaunchTimeout \<in> set es" using that by blast
qed

lemma startBenchServer_fallback:
  assumes "LaunchTimeout \<in> set events" "es \<noteq> []"
  shows "\<exists>r. startBenchServer to_number binaryExists events es address = Some r"
  using launch_timeout [OF assms(1), of to_number] assms(2)
  by (cases es)
    (auto simp: startBenchServer_def startRustBenchServer_def startLocalBenchServer_def listen_outcome_def
      split: option.splits listen_event.splits)

section \<open>The sockets of the local server\<close>

text \<open>
  \<open>sv_live\<close> are the connections the runtime has, \<open>sv_sockets\<close> the set the code keeps. A socket that was
  destroyed stays until its close event. The promise of \<open>server.close\<close> resolves when no connection is
  left.
\<close>

record server =
  sv_accepting :: bool
  sv_live :: "nat set"
  sv_sockets :: "nat set"
  sv_destroyed :: "nat set"
  sv_closing :: bool

definition server_up :: server where
  "server_up = \<lparr>sv_accepting = True, sv_live = {}, sv_sockets = {}, sv_destroyed = {}, sv_closing = False\<rparr>"

datatype server_event = Connection nat | SocketClose nat | CloseCalled

text \<open>A connection is a new socket, and none comes when the server no longer accepts any.\<close>

fun server_step :: "server \<Rightarrow> server_event \<Rightarrow> server" where
  "server_step s (Connection c) =
     (if sv_accepting s \<and> c \<notin> sv_live s
      then s\<lparr>sv_live := insert c (sv_live s), sv_sockets := insert c (sv_sockets s)\<rparr> else s)"
| "server_step s (SocketClose c) =
     s\<lparr>sv_live := sv_live s - {c}, sv_sockets := sv_sockets s - {c}\<rparr>"
| "server_step s CloseCalled =
     s\<lparr>sv_destroyed := sv_destroyed s \<union> sv_sockets s, sv_accepting := False, sv_closing := True\<rparr>"

definition close_resolved :: "server \<Rightarrow> bool" where
  "close_resolved s \<longleftrightarrow> sv_closing s \<and> sv_live s = {}"

lemma sockets_live: "sv_sockets s = sv_live s \<Longrightarrow> sv_sockets (foldl server_step s es) = sv_live (foldl server_step s es)"
proof (induction es arbitrary: s)
  case (Cons e es)
  then show ?case by (cases e) auto
qed simp

lemma closing_step:
  assumes "\<not> sv_accepting s"
  shows "\<not> sv_accepting (foldl server_step s es) \<and>
    sv_live (foldl server_step s es) = sv_live s - {c. SocketClose c \<in> set es} \<and>
    (sv_closing s \<longrightarrow> sv_closing (foldl server_step s es))"
  using assms
proof (induction es arbitrary: s)
  case (Cons e es)
  then show ?case by (cases e) (auto simp: Cons.IH)
qed simp

text \<open>\<open>close\<close> destroys every connection there is and lets no other in, so it resolves as soon as the runtime has
  reported each of them closed, whatever else happens meanwhile.\<close>

lemma server_closes:
  assumes "s = foldl server_step server_up before" "s' = server_step s CloseCalled"
  shows "sv_live s' \<subseteq> sv_destroyed s' \<and>
    (close_resolved (foldl server_step s' es) \<longleftrightarrow> sv_live s \<subseteq> {c. SocketClose c \<in> set es})"
proof -
  have "sv_sockets s = sv_live s" using sockets_live [of server_up before] by (simp add: assms(1) server_up_def)
  with closing_step [of s' es] show ?thesis by (auto simp: assms(2) close_resolved_def)
qed

end
