(* ===== verification/CompareReport.thy ===== *)
theory CompareReport
  imports BenchTools
begin

text \<open>
  What src/scripts/aws-perf/compare-bench.mjs makes of two runs beside its verdict: the rows of the report,
  its text (\<open>toMarkdown\<close>), the files that are written and the exit code of \<open>main\<close>. The number formats of the
  runtime, \<open>JSON.stringify\<close> and the clock are parameters.
\<close>

section \<open>Rows\<close>

record bench_entry = bench_result +
  en_marginPct :: rat
  en_errors :: nat

text \<open>\<open>deltaPct\<close>: by a base mean of zero it is an infinity or NaN.\<close>

datatype delta = Delta rat | DeltaInfinity bool | DeltaNaN

definition delta_pct :: "rat \<Rightarrow> rat \<Rightarrow> delta" where
  "delta_pct base head =
     (if base \<noteq> 0 then Delta ((head - base) / base * 100)
      else if head > 0 then DeltaInfinity False else if head < 0 then DeltaInfinity True else DeltaNaN)"

definition delta_positive :: "delta \<Rightarrow> bool" where
  "delta_positive d = (case d of Delta x \<Rightarrow> x > 0 | DeltaInfinity neg \<Rightarrow> \<not> neg | DeltaNaN \<Rightarrow> False)"

definition delta_le :: "delta \<Rightarrow> rat \<Rightarrow> bool" where
  "delta_le d c = (case d of Delta x \<Rightarrow> x \<le> c | DeltaInfinity neg \<Rightarrow> neg | DeltaNaN \<Rightarrow> False)"

definition delta_ge :: "delta \<Rightarrow> rat \<Rightarrow> bool" where
  "delta_ge d c = (case d of Delta x \<Rightarrow> x \<ge> c | DeltaInfinity neg \<Rightarrow> \<not> neg | DeltaNaN \<Rightarrow> False)"

record compare_row =
  cr_name :: string
  cr_baseMean :: rat
  cr_headMean :: rat
  cr_deltaPct :: delta
  cr_baseCiPct :: rat
  cr_headCiPct :: rat
  cr_baseErrors :: nat
  cr_headErrors :: nat
  cr_status :: status

record compare_report =
  co_generatedAt :: string
  co_thresholdPct :: rat
  co_baseCommit :: "string option"
  co_headCommit :: "string option"
  co_regressions :: "string list"
  co_pass :: bool
  co_scenarios :: "compare_row list"

record compare_run =
  cn_commit :: "string option"
  cn_results :: "bench_entry list"

definition entries_by_name :: "bench_entry list \<Rightarrow> (string, bench_entry) omap" where
  "entries_by_name results = foldl (\<lambda>m r. om_set m (br_name r) r) [] results"

definition compare_row_of :: "rat \<Rightarrow> string \<Rightarrow> bench_entry \<Rightarrow> bench_entry \<Rightarrow> compare_row" where
  "compare_row_of thresholdPct name base head =
     (let deltaPct = delta_pct (br_mean base) (br_mean head) in
      \<lparr>cr_name = name, cr_baseMean = br_mean base, cr_headMean = br_mean head, cr_deltaPct = deltaPct,
       cr_baseCiPct = en_marginPct base, cr_headCiPct = en_marginPct head,
       cr_baseErrors = en_errors base, cr_headErrors = en_errors head,
       cr_status = (if delta_le deltaPct (- thresholdPct) then REGRESSION
         else if delta_ge deltaPct thresholdPct then IMPROVEMENT else OK)\<rparr>)"

definition compare_full :: "string \<Rightarrow> compare_run \<Rightarrow> compare_run \<Rightarrow> rat \<Rightarrow> compare_report" where
  "compare_full clock baseRun headRun thresholdPct =
     (let baseMap = entries_by_name (cn_results baseRun); headMap = entries_by_name (cn_results headRun);
          names = sort (filter (om_has headMap) (om_keys baseMap));
          scenarios = map (\<lambda>name. compare_row_of thresholdPct name (the (om_get baseMap name)) (the (om_get headMap name))) names;
          regressions = filter (\<lambda>r. cr_status r = REGRESSION) scenarios
      in \<lparr>co_generatedAt = clock, co_thresholdPct = thresholdPct, co_baseCommit = cn_commit baseRun,
          co_headCommit = cn_commit headRun, co_regressions = map cr_name regressions,
          co_pass = (regressions = []), co_scenarios = scenarios\<rparr>)"

section \<open>Text\<close>

record formats =
  fo_number :: "rat \<Rightarrow> string"
  fo_fixed2 :: "rat \<Rightarrow> string"
  fo_delta2 :: "delta \<Rightarrow> string"
  fo_plain :: "rat \<Rightarrow> string"

definition formatPct :: "formats \<Rightarrow> delta \<Rightarrow> string" where
  "formatPct fo value = (if delta_positive value then ''+'' else []) @ fo_delta2 fo value @ ''%''"

definition plus_minus :: string where
  "plus_minus = [CHR 0xB1]"

definition status_name :: "status \<Rightarrow> string" where
  "status_name s = (case s of OK \<Rightarrow> ''OK'' | REGRESSION \<Rightarrow> ''REGRESSION'' | IMPROVEMENT \<Rightarrow> ''IMPROVEMENT'')"

definition markdown_row :: "formats \<Rightarrow> compare_row \<Rightarrow> string" where
  "markdown_row fo r = ''| '' @ cr_name r @ '' | '' @ fo_number fo (cr_baseMean r) @ '' | '' @
     fo_number fo (cr_headMean r) @ '' | '' @ formatPct fo (cr_deltaPct r) @ '' | '' @ status_name (cr_status r) @
     '' | '' @ plus_minus @ fo_fixed2 fo (cr_baseCiPct r) @ ''% | '' @ plus_minus @ fo_fixed2 fo (cr_headCiPct r) @ ''% |''"

definition commit_line :: "string \<Rightarrow> string option \<Rightarrow> string list" where
  "commit_line label commit = (case commit of
      None \<Rightarrow> [] | Some c \<Rightarrow> if c = [] then [] else [label @ c])"

definition markdown_lines :: "formats \<Rightarrow> compare_report \<Rightarrow> string list" where
  "markdown_lines fo r =
     [''# AWS Perf Compare'', [], ''- Generated: '' @ co_generatedAt r,
      ''- Threshold: '' @ fo_plain fo (co_thresholdPct r) @ ''% throughput drop => regression''] @
     commit_line ''- Base commit: '' (co_baseCommit r) @
     commit_line ''- Head commit: '' (co_headCommit r) @
     [[], ''| Scenario | Base req/s | Head req/s | Delta | Status | Base CI | Head CI |'',
      ''|---|---:|---:|---:|---|---:|---:|''] @
     map (markdown_row fo) (co_scenarios r) @
     [[], ''## Gate: '' @ (if co_pass r then ''PASS'' else ''FAIL'')] @
     (if co_pass r then [] else [''Regressions: '' @ join '', '' (co_regressions r)])"

definition toMarkdown :: "formats \<Rightarrow> compare_report \<Rightarrow> string" where
  "toMarkdown fo r = join [newline] (markdown_lines fo r)"

section \<open>The script\<close>

datatype compare_effect = WriteFile string string | Print string

text \<open>\<open>load\<close> reads and parses a file; the exit code is 0 when \<open>main\<close> returns.\<close>

definition compare_main ::
  "(string \<Rightarrow> string + compare_run) \<Rightarrow> formats \<Rightarrow> (compare_report \<Rightarrow> string) \<Rightarrow> (number \<Rightarrow> rat) \<Rightarrow> string \<Rightarrow> CompareArgs \<Rightarrow>
     string + compare_effect list \<times> nat" where
  "compare_main load fo stringify to_rat clock a =
     (case load (the (ca_basePath a)) of
        Inl e \<Rightarrow> Inl e
      | Inr baseRun \<Rightarrow> (case load (the (ca_headPath a)) of
          Inl e \<Rightarrow> Inl e
        | Inr headRun \<Rightarrow>
            (let report = compare_full clock baseRun headRun (to_rat (ca_thresholdPct a));
                 markdown = toMarkdown fo report
             in Inr ((case ca_markdownPath a of None \<Rightarrow> [] | Some p \<Rightarrow> [WriteFile p markdown]) @
                     (case ca_jsonPath a of None \<Rightarrow> [] | Some p \<Rightarrow> [WriteFile p (stringify report)]) @
                     [Print markdown],
                     if \<not> co_pass report \<and> ca_failOnRegression a then 2 else 0))))"

section \<open>Lemmas\<close>

lemma entries_by_name_map:
  "by_name (map bench_result.truncate rs) = map (\<lambda>(k, r). (k, bench_result.truncate r)) (entries_by_name rs)"
proof -
  have set_map: "om_set (map (\<lambda>(k, r). (k, f r)) m) k (f r) = map (\<lambda>(k, r). (k, f r)) (om_set m k r)" for f m k r
    by (induction m) auto
  have "foldl (\<lambda>m r. om_set m (br_name r) r) (map (\<lambda>(k, r). (k, bench_result.truncate r)) m) (map bench_result.truncate rs) =
      map (\<lambda>(k, r). (k, bench_result.truncate r)) (foldl (\<lambda>m r. om_set m (br_name r) r) m rs)" for m
  proof (induction rs arbitrary: m)
    case (Cons r rs)
    have "br_name (bench_result.truncate r) = br_name r" by (simp add: bench_result.defs)
    with Cons set_map [of bench_result.truncate m "br_name r" r] show ?case by simp
  qed simp
  from this [of "[]"] show ?thesis by (simp add: by_name_def entries_by_name_def)
qed

lemma delta_status:
  "(if delta_le (delta_pct base head) (- t) then REGRESSION else if delta_ge (delta_pct base head) t then IMPROVEMENT else OK) =
    scenario_status t base head"
  by (auto simp: delta_pct_def delta_le_def delta_ge_def scenario_status_def Let_def)

lemma om_map:
  "om_keys (map (\<lambda>(k, r). (k, f r)) m) = om_keys m"
  "om_get (map (\<lambda>(k, r). (k, f r)) m) k = map_option f (om_get m k)"
  "om_has (map (\<lambda>(k, r). (k, f r)) m) k \<longleftrightarrow> om_has m k"
  by (induction m) (auto simp: om_keys_def om_has_def)

text \<open>The report has a row for each scenario of the comparison of Bench, with its status, and passes exactly when its gate does.\<close>

lemma compare_full_refines:
  "map (\<lambda>r. (cr_name r, cr_status r)) (co_scenarios (compare_full clock b h t)) =
    compare_runs t (map bench_result.truncate (cn_results b)) (map bench_result.truncate (cn_results h))"
proof -
  let ?bm = "entries_by_name (cn_results b)" and ?hm = "entries_by_name (cn_results h)"
  have mean: "br_mean (the (map_option bench_result.truncate x)) = br_mean (the x)" if "x \<noteq> None" for x :: "bench_entry option"
    using that by (auto simp: bench_result.defs)
  show ?thesis
    unfolding compare_full_def compare_runs_def Let_def entries_by_name_map om_map
    by (simp add: compare_row_of_def Let_def delta_status comp_def)
      (metis mean om_get_None_iff om_has_def)
qed

lemma compare_full_gate:
  "co_pass (compare_full clock b h t) \<longleftrightarrow>
     gate_passes t (map bench_result.truncate (cn_results b)) (map bench_result.truncate (cn_results h))"
  unfolding gate_passes_def compare_full_refines [of clock, symmetric]
  by (simp add: compare_full_def Let_def filter_empty_conv list_all_iff)

text \<open>The script ends with code 2 exactly if the gate fails and the user did not say \<open>--no-fail\<close>, and always
  prints the report; whatever it writes is that text or the report as JSON.\<close>

lemma compare_main_spec:
  assumes "load (the (ca_basePath a)) = Inr b" "load (the (ca_headPath a)) = Inr h"
  shows "\<exists>effects code. compare_main load fo stringify to_rat clock a = Inr (effects, code) \<and>
    (code = 2 \<longleftrightarrow> ca_failOnRegression a \<and>
       \<not> gate_passes (to_rat (ca_thresholdPct a)) (map bench_result.truncate (cn_results b)) (map bench_result.truncate (cn_results h))) \<and>
    (code = 2 \<or> code = 0) \<and>
    (let r = compare_full clock b h (to_rat (ca_thresholdPct a)) in
       Print (toMarkdown fo r) \<in> set effects \<and>
       (\<forall>p t. WriteFile p t \<in> set effects \<longrightarrow> t = toMarkdown fo r \<or> t = stringify r))"
  using assms compare_full_gate
  by (auto simp: compare_main_def Let_def split: option.splits)

end
