(* ===== verification/Pricing.thy ===== *)
theory Pricing
  imports BenchTools
begin

text \<open>
  src/scripts/aws-perf/pricing-info.mjs: which region of a cloud provider sells a machine cheapest. The
  command \<open>aws\<close>, the parser \<open>JSON.parse\<close>, \<open>Number\<close> and the clock are parameters, the fields of
  \<open>pricing_env\<close>; the command is taken to answer the same question in the same way. Prices are numbers of
  JavaScript; their mean is rational, without the rounding of floating point.
\<close>

section \<open>What the script is run with\<close>

text \<open>A finished process; the status is \<open>None\<close> (null) if it was killed or could not be started.\<close>

record aws_result =
  aws_status :: "int option"
  aws_stdout :: "string option"
  aws_stderr :: "string option"

record pricing_env =
  pe_aws :: "string list \<Rightarrow> aws_result"
  pe_parse :: "string \<Rightarrow> string + jsval"
  pe_number :: "jsval \<Rightarrow> number"
  pe_region :: "string option"
  pe_defaultRegion :: "string option"
  pe_startTime :: string

definition DEFAULT_REGION :: string where
  "DEFAULT_REGION = ''us-west-2''"

record PricingArgs =
  pa_instanceType :: string
  pa_region :: string
  pa_cheapest :: bool
  pa_top :: number

text \<open>\<open>a || b\<close> on texts that may be missing, and on values.\<close>

definition or_text :: "string option \<Rightarrow> string \<Rightarrow> string" where
  "or_text a b = (case a of None \<Rightarrow> b | Some s \<Rightarrow> if s = [] then b else s)"

definition or_value :: "jsval \<Rightarrow> jsval \<Rightarrow> jsval" where
  "or_value a b = (if truthy a then a else b)"

definition pricing_defaults :: "pricing_env \<Rightarrow> PricingArgs" where
  "pricing_defaults env = \<lparr>pa_instanceType = [],
     pa_region = or_text (pe_region env) (or_text (pe_defaultRegion env) DEFAULT_REGION),
     pa_cheapest = False, pa_top = NumInt 5\<rparr>"

definition next_arg :: "string list \<Rightarrow> string option" where
  "next_arg rest = (case rest of [] \<Rightarrow> None | v # _ \<Rightarrow> Some v)"

function pricing_loop :: "pricing_env \<Rightarrow> PricingArgs \<Rightarrow> string list \<Rightarrow> PricingArgs args_res" where
  "pricing_loop env a [] = Inr a"
| "pricing_loop env a (token # rest) =
     (if token = ''--instance-type''
      then pricing_loop env (a\<lparr>pa_instanceType := or_text (next_arg rest) []\<rparr>) (drop 1 rest)
      else if token = ''--region''
      then pricing_loop env (a\<lparr>pa_region := or_text (next_arg rest) []\<rparr>) (drop 1 rest)
      else if token = ''--cheapest'' then pricing_loop env (a\<lparr>pa_cheapest := True\<rparr>) rest
      else if token = ''--top''
      then pricing_loop env (a\<lparr>pa_top := pe_number env (JString (or_text (next_arg rest) ''5''))\<rparr>) (drop 1 rest)
      else if token = ''-h'' \<or> token = ''--help'' then Inl ArgsHelp
      else Inl (ArgsError (''Unknown argument: '' @ token)))"
  by pat_completeness auto

termination
  by (relation "measure (\<lambda>(env, a, argv). length argv)") auto

definition pricing_parseArgs :: "pricing_env \<Rightarrow> string list \<Rightarrow> PricingArgs args_res" where
  "pricing_parseArgs env argv =
     args_bind (pricing_loop env (pricing_defaults env) argv) (\<lambda>a.
     args_bind (args_check (pa_instanceType a = []) ''--instance-type is required'') (\<lambda>_.
     args_bind (args_check (pa_region a = []) ''--region must not be empty'') (\<lambda>_.
     args_bind (args_check (\<not> is_integer (pa_top a) \<or> num_less (pa_top a) 1) ''--top must be a positive integer'') (\<lambda>_.
     Inr a))))"

section \<open>Asking the provider\<close>

text \<open>\<open>JNull\<close> is also the answer to a question that may fail and does.\<close>

definition runAwsJson :: "pricing_env \<Rightarrow> string list \<Rightarrow> bool \<Rightarrow> jsval args_res" where
  "runAwsJson env question allowFailure =
     (let result = pe_aws env question in
      if aws_status result \<noteq> Some 0
      then (if allowFailure then Inr JNull
            else Inl (ArgsError (or_text (map_option trim (aws_stderr result))
              (''aws '' @ join '' '' question @ '' failed with status '' @
               (case aws_status result of None \<Rightarrow> ''null'' | Some n \<Rightarrow> number_string (NumInt n))))))
      else (let stdout = or_text (map_option trim (aws_stdout result)) [] in
            if stdout = [] then Inr JNull
            else (case pe_parse env stdout of Inl message \<Rightarrow> Inl (ArgsError message) | Inr v \<Rightarrow> Inr v)))"

text \<open>\<open>v?.k\<close>, for names that only objects have.\<close>

definition opt_chain :: "jsval \<Rightarrow> string \<Rightarrow> jsval" where
  "opt_chain v k = (case v of JObject ps \<Rightarrow> lookup ps k | _ \<Rightarrow> JUndefined)"

text \<open>\<open>Object.values\<close>\<close>

definition object_values :: "jsval \<Rightarrow> jsval list" where
  "object_values v = (case v of
      JObject ps \<Rightarrow> map snd ps | JArray vs \<Rightarrow> vs | JString s \<Rightarrow> map (\<lambda>c. JString [c]) s | _ \<Rightarrow> [])"

record price_row =
  pr_regionCode :: jsval
  pr_location :: jsval
  pr_usdPerHour :: number
  pr_effectiveDate :: jsval

text \<open>The price of a dimension that is paid by the hour and costs something.\<close>

definition dimension_price :: "pricing_env \<Rightarrow> jsval \<Rightarrow> number option" where
  "dimension_price env dimension =
     (if opt_chain dimension ''unit'' \<noteq> JString ''Hrs'' then None
      else (let usd = pe_number env (opt_chain (opt_chain dimension ''pricePerUnit'') ''USD'') in
            if \<not> is_finite usd \<or> num_le usd 0 then None else Some usd))"

fun dimension_loop :: "pricing_env \<Rightarrow> jsval list \<Rightarrow> number option" where
  "dimension_loop env [] = None"
| "dimension_loop env (dimension # rest) = (case dimension_price env dimension of
      Some usd \<Rightarrow> Some usd
    | None \<Rightarrow> dimension_loop env rest)"

fun term_loop :: "pricing_env \<Rightarrow> jsval list \<Rightarrow> (number \<times> jsval) option" where
  "term_loop env [] = None"
| "term_loop env (t # rest) =
     (case dimension_loop env (object_values (or_value (opt_chain t ''priceDimensions'') (JObject []))) of
        Some usd \<Rightarrow> Some (usd, t)
      | None \<Rightarrow> term_loop env rest)"

definition extractOnDemandHourly :: "pricing_env \<Rightarrow> jsval \<Rightarrow> string \<Rightarrow> price_row option" where
  "extractOnDemandHourly env productPayload fallbackRegionCode =
     (case opt_chain productPayload ''PriceList'' of
        JArray (p # ps) \<Rightarrow>
          (case pe_parse env (js_string p) of
             Inl _ \<Rightarrow> None
           | Inr parsed \<Rightarrow>
               (let attributes = opt_chain (opt_chain parsed ''product'') ''attributes'' in
                case term_loop env (object_values (or_value (opt_chain (opt_chain parsed ''terms'') ''OnDemand'') (JObject []))) of
                  None \<Rightarrow> None
                | Some (usd, t) \<Rightarrow> Some
                    \<lparr>pr_regionCode = or_value (opt_chain attributes ''regionCode'') (JString fallbackRegionCode),
                     pr_location = or_value (opt_chain attributes ''location'') (JString []),
                     pr_usdPerHour = usd,
                     pr_effectiveDate = or_value (opt_chain t ''effectiveDate'') JNull\<rparr>))
      | _ \<Rightarrow> None)"

definition price_question :: "string \<Rightarrow> string \<Rightarrow> string list" where
  "price_question instanceType regionCode =
     [''pricing'', ''get-products'', ''--region'', ''us-east-1'', ''--service-code'', ''AmazonEC2'', ''--filters'',
      ''Type=TERM_MATCH,Field=regionCode,Value='' @ regionCode,
      ''Type=TERM_MATCH,Field=instanceType,Value='' @ instanceType,
      ''Type=TERM_MATCH,Field=operatingSystem,Value=Linux'',
      ''Type=TERM_MATCH,Field=tenancy,Value=Shared'',
      ''Type=TERM_MATCH,Field=preInstalledSw,Value=NA'',
      ''Type=TERM_MATCH,Field=capacitystatus,Value=Used'',
      ''Type=TERM_MATCH,Field=licenseModel,Value=No License required'',
      ''--max-results'', ''1'', ''--output'', ''json'']"

definition getOnDemandPrice :: "pricing_env \<Rightarrow> string \<Rightarrow> string \<Rightarrow> price_row option args_res" where
  "getOnDemandPrice env instanceType regionCode =
     args_bind (runAwsJson env (price_question instanceType regionCode) True) (\<lambda>payload.
       Inr (if truthy payload then extractOnDemandHourly env payload regionCode else None))"

definition regions_question :: "string list" where
  "regions_question =
     [''ec2'', ''describe-regions'', ''--all-regions'', ''--query'',
      ''Regions[?OptInStatus=='' @ [CHR 0x60] @ ''opt-in-not-required'' @ [CHR 0x60] @ '' || OptInStatus=='' @
        [CHR 0x60] @ ''opted-in'' @ [CHR 0x60] @ ''].RegionName'', ''--output'', ''json'']"

definition text_of :: "jsval \<Rightarrow> string option" where
  "text_of v = (case v of JString s \<Rightarrow> if s = [] then None else Some s | _ \<Rightarrow> None)"

definition listEnabledRegions :: "pricing_env \<Rightarrow> string list args_res" where
  "listEnabledRegions env =
     args_bind (runAwsJson env regions_question False) (\<lambda>regions.
       Inr (case regions of JArray vs \<Rightarrow> List.map_filter text_of vs | _ \<Rightarrow> []))"

section \<open>Spot prices\<close>

text \<open>The value of a finite number.\<close>

definition num_rat :: "number \<Rightarrow> rat" where
  "num_rat n = (case n of NumInt i \<Rightarrow> of_int i | NumDec m k \<Rightarrow> of_int m / 10 ^ k | _ \<Rightarrow> 0)"

record spot_stats =
  sp_windowHours :: nat
  sp_samples :: nat
  sp_min :: number
  sp_avg :: rat
  sp_max :: number

definition spot_question :: "pricing_env \<Rightarrow> string \<Rightarrow> string \<Rightarrow> string list" where
  "spot_question env instanceType regionCode =
     [''ec2'', ''describe-spot-price-history'', ''--region'', regionCode, ''--instance-types'', instanceType,
      ''--product-descriptions'', ''Linux/UNIX'', ''--start-time'', pe_startTime env, ''--max-items'', ''500'',
      ''--query'', ''SpotPriceHistory[].SpotPrice'', ''--output'', ''json'']"

text \<open>The loop over the values keeps the least, the greatest and the sum.\<close>

fun spot_loop :: "number \<Rightarrow> number \<Rightarrow> rat \<Rightarrow> number list \<Rightarrow> number \<times> number \<times> rat" where
  "spot_loop lo hi s_usd [] = (lo, hi, s_usd)"
| "spot_loop lo hi s_usd (v # vs) =
     spot_loop (if num_rat v < num_rat lo then v else lo) (if num_rat v > num_rat hi then v else hi)
       (s_usd + num_rat v) vs"

definition spot_values :: "pricing_env \<Rightarrow> jsval list \<Rightarrow> number list" where
  "spot_values env prices = filter (\<lambda>n. is_finite n \<and> num_greater n 0) (map (pe_number env) prices)"

definition spot_summary :: "number list \<Rightarrow> spot_stats option" where
  "spot_summary values = (case values of
      [] \<Rightarrow> None
    | v # _ \<Rightarrow>
        (case spot_loop v v 0 values of (lo, hi, s_usd) \<Rightarrow> Some
          \<lparr>sp_windowHours = 24, sp_samples = length values, sp_min = lo,
           sp_avg = s_usd / of_nat (length values), sp_max = hi\<rparr>))"

definition getSpotStats :: "pricing_env \<Rightarrow> string \<Rightarrow> string \<Rightarrow> spot_stats option args_res" where
  "getSpotStats env instanceType regionCode =
     args_bind (runAwsJson env (spot_question env instanceType regionCode) True) (\<lambda>prices.
       Inr (case prices of JArray (p # ps) \<Rightarrow> spot_summary (spot_values env (p # ps)) | _ \<Rightarrow> None))"

section \<open>The report\<close>

record ranking =
  rk_count :: nat
  rk_cheapest :: "price_row option"
  rk_top :: "price_row list"

record pricing_report =
  rp_instanceType :: string
  rp_region :: string
  rp_onDemand :: "price_row option"
  rp_spot :: "spot_stats option"
  rp_ranking :: "ranking option"

fun price_rows :: "pricing_env \<Rightarrow> string \<Rightarrow> string list \<Rightarrow> price_row list args_res" where
  "price_rows env instanceType [] = Inr []"
| "price_rows env instanceType (regionCode # rest) =
     args_bind (getOnDemandPrice env instanceType regionCode) (\<lambda>row.
     args_bind (price_rows env instanceType rest) (\<lambda>rows.
     Inr (case row of None \<Rightarrow> rows | Some r \<Rightarrow> r # rows)))"

text \<open>\<open>rows.slice(0, top)\<close>\<close>

definition slice_top :: "number \<Rightarrow> 'a list \<Rightarrow> 'a list" where
  "slice_top n xs = (case n of NumInt i \<Rightarrow> take (nat i) xs | _ \<Rightarrow> [])"

definition rank_rows :: "number \<Rightarrow> price_row list \<Rightarrow> ranking" where
  "rank_rows limit rows =
     (let ordered = sort_key (\<lambda>r. num_rat (pr_usdPerHour r)) rows in
      \<lparr>rk_count = length ordered,
       rk_cheapest = (case ordered of [] \<Rightarrow> None | r # _ \<Rightarrow> Some r),
       rk_top = slice_top limit ordered\<rparr>)"

definition pricing_main :: "pricing_env \<Rightarrow> string list \<Rightarrow> pricing_report args_res" where
  "pricing_main env argv =
     args_bind (pricing_parseArgs env argv) (\<lambda>a.
     args_bind (getOnDemandPrice env (pa_instanceType a) (pa_region a)) (\<lambda>onDemand.
     args_bind (getSpotStats env (pa_instanceType a) (pa_region a)) (\<lambda>spot.
     args_bind (if pa_cheapest a
        then args_bind (listEnabledRegions env) (\<lambda>regions.
             args_bind (price_rows env (pa_instanceType a) regions) (\<lambda>rows.
             Inr (Some (rank_rows (pa_top a) rows))))
        else Inr None) (\<lambda>rk.
     Inr \<lparr>rp_instanceType = pa_instanceType a, rp_region = pa_region a, rp_onDemand = onDemand, rp_spot = spot,
       rp_ranking = rk\<rparr>))))"

section \<open>Lemmas\<close>

text \<open>The loops find the first dimension with a price, in the order of the answer.\<close>

lemma dimension_loop_Some:
  "dimension_loop env ds = Some usd \<Longrightarrow> is_finite usd \<and> num_greater usd 0"
  by (induction ds) (auto simp: dimension_price_def num_le_def is_finite_def Let_def split: option.splits if_splits number.splits)

lemma term_loop_Some: "term_loop env ts = Some (usd, t) \<Longrightarrow> is_finite usd \<and> num_greater usd 0"
  by (induction ts) (auto simp: dimension_loop_Some split: option.splits)

lemma num_rat_positive: "is_finite n \<Longrightarrow> num_greater n 0 \<longleftrightarrow> num_rat n > 0"
  by (cases n) (auto simp: is_finite_def num_rat_def zero_less_divide_iff)

lemma extract_positive:
  "extractOnDemandHourly env payload region = Some row \<Longrightarrow> num_rat (pr_usdPerHour row) > 0"
  by (auto simp: extractOnDemandHourly_def Let_def num_rat_positive [symmetric] dest!: term_loop_Some
      split: jsval.splits list.splits sum.splits option.splits)

lemma price_rows_Inr:
  "price_rows env ty regions = Inr rows \<Longrightarrow>
     set rows = {row. \<exists>r \<in> set regions. getOnDemandPrice env ty r = Inr (Some row)} \<and>
     (\<forall>r \<in> set regions. \<exists>x. getOnDemandPrice env ty r = Inr x)"
  by (induction regions arbitrary: rows) (auto split: option.splits)

lemma pricing_loop_top:
  assumes "pricing_parseArgs env argv = Inr a"
  shows "\<exists>n \<ge> 1. pa_top a = NumInt (int n)"
proof -
  from assms obtain i where i: "pa_top a = NumInt i" "i \<ge> 1"
    by (auto simp: pricing_parseArgs_def is_integer_def split: number.splits)
  then have "nat i \<ge> 1" "pa_top a = NumInt (int (nat i))" by simp_all
  then show ?thesis by blast
qed

text \<open>Taking the first of a sorted list leaves nothing smaller.\<close>

lemma take_sorted_least:
  assumes "sorted (map f xs)" "x \<in> set (take n xs)" "y \<in> set xs" "y \<notin> set (take n xs)"
  shows "f x \<le> f y"
proof -
  have "y \<in> set (drop n xs)"
    using assms(3,4) by (metis Un_iff append_take_drop_id set_append)
  moreover have "sorted (map f (take n xs) @ map f (drop n xs))"
    using assms(1) by (simp flip: map_append)
  ultimately show ?thesis using assms(2) by (auto simp: sorted_append)
qed

lemma rank_rows_spec:
  defines "price \<equiv> \<lambda>r. num_rat (pr_usdPerHour r)"
  shows "rk_cheapest (rank_rows (NumInt (int n)) rows) = None \<longleftrightarrow> rows = []"
    and "rk_cheapest (rank_rows (NumInt (int n)) rows) = Some row \<Longrightarrow> row \<in> set rows \<and> (\<forall>r \<in> set rows. price row \<le> price r)"
    and "sorted (map price (rk_top (rank_rows (NumInt (int n)) rows)))"
    and "length (rk_top (rank_rows (NumInt (int n)) rows)) = min n (length rows)"
    and "set (rk_top (rank_rows (NumInt (int n)) rows)) \<subseteq> set rows"
    and "\<lbrakk>r \<in> set (rk_top (rank_rows (NumInt (int n)) rows)); r' \<in> set rows;
      r' \<notin> set (rk_top (rank_rows (NumInt (int n)) rows))\<rbrakk> \<Longrightarrow> price r \<le> price r'"
proof -
  let ?o = "sort_key price rows"
  have o: "sorted (map price ?o)" "set ?o = set rows" "length ?o = length rows" by simp_all
  have ranked: "rank_rows (NumInt (int n)) rows =
      \<lparr>rk_count = length ?o, rk_cheapest = (case ?o of [] \<Rightarrow> None | r # _ \<Rightarrow> Some r), rk_top = take n ?o\<rparr>"
    by (simp add: rank_rows_def slice_top_def price_def Let_def)
  show "rk_cheapest (rank_rows (NumInt (int n)) rows) = None \<longleftrightarrow> rows = []"
  proof -
    have "?o = [] \<longleftrightarrow> rows = []" using o(3) by (metis length_0_conv)
    then show ?thesis unfolding ranked by (cases ?o) simp_all
  qed
  show "row \<in> set rows \<and> (\<forall>r \<in> set rows. price row \<le> price r)"
    if "rk_cheapest (rank_rows (NumInt (int n)) rows) = Some row"
    using that o by (cases ?o) (auto simp: ranked)
  show "sorted (map price (rk_top (rank_rows (NumInt (int n)) rows)))"
    using o(1) by (simp add: ranked take_map [symmetric] sorted_wrt_take)
  show "length (rk_top (rank_rows (NumInt (int n)) rows)) = min n (length rows)"
    by (simp add: ranked min.commute)
  show "set (rk_top (rank_rows (NumInt (int n)) rows)) \<subseteq> set rows"
    using o(2) set_take_subset [of n ?o] by (simp add: ranked)
  show "price r \<le> price r'"
    if "r \<in> set (rk_top (rank_rows (NumInt (int n)) rows))" "r' \<in> set rows"
      "r' \<notin> set (rk_top (rank_rows (NumInt (int n)) rows))"
    using that o take_sorted_least [OF o(1)] by (simp add: ranked)
qed

text \<open>The statistics of the spot prices.\<close>

lemma spot_loop_spec:
  assumes "spot_loop lo hi s_usd vs = (lo', hi', s_usd')"
  shows "num_rat lo' = fold min (map num_rat vs) (num_rat lo)" "num_rat hi' = fold max (map num_rat vs) (num_rat hi)"
    "s_usd' = s_usd + sum_list (map num_rat vs)" "lo' \<in> insert lo (set vs)" "hi' \<in> insert hi (set vs)"
  using assms
  by (induction lo hi s_usd vs rule: spot_loop.induct) (auto simp: min_def max_def not_less split: if_splits)

lemma spot_summary_spec:
  assumes "spot_summary values = Some s"
  shows "sp_samples s = length values \<and> sp_min s \<in> set values \<and> sp_max s \<in> set values \<and>
    (\<forall>v \<in> set values. num_rat (sp_min s) \<le> num_rat v \<and> num_rat v \<le> num_rat (sp_max s)) \<and>
    num_rat (sp_min s) \<le> sp_avg s \<and> sp_avg s \<le> num_rat (sp_max s)"
proof -
  obtain v vs where given: "values = v # vs" using assms by (auto simp: spot_summary_def split: list.splits)
  obtain lo hi s_usd where loop: "spot_loop v v 0 values = (lo, hi, s_usd)" by (metis prod_cases3)
  with assms given have s: "s = \<lparr>sp_windowHours = 24, sp_samples = length values, sp_min = lo,
      sp_avg = s_usd / of_nat (length values), sp_max = hi\<rparr>"
    by (simp add: spot_summary_def del: spot_loop.simps)
  note loop = spot_loop_spec [OF loop, unfolded fold_min_max]
  have in_range: "num_rat lo \<le> num_rat w \<and> num_rat w \<le> num_rat hi" if "w \<in> set values" for w
    using loop(1,2) that by simp
  have "sum_list (map num_rat values) = s_usd" using loop(3) by simp
  with sum_list_between [of "map num_rat values" "num_rat lo" "num_rat hi"] in_range
  have "of_nat (length values) * num_rat lo \<le> s_usd" "s_usd \<le> of_nat (length values) * num_rat hi" by auto
  then have "num_rat lo \<le> s_usd / of_nat (length values)" "s_usd / of_nat (length values) \<le> num_rat hi"
    using given by (simp_all add: pos_le_divide_eq pos_divide_le_eq mult.commute del: of_nat_Suc)
  with in_range loop(4,5) given show ?thesis by (auto simp: s)
qed

text \<open>The mean of the spot prices lies between the least and the greatest of them; all are positive.\<close>

lemma spot_stats_sound:
  assumes "getSpotStats env ty region = Inr (Some s)"
  shows "0 < num_rat (sp_min s) \<and> num_rat (sp_min s) \<le> sp_avg s \<and> sp_avg s \<le> num_rat (sp_max s) \<and> sp_samples s > 0"
proof -
  obtain p ps where s: "spot_summary (spot_values env (p # ps)) = Some s"
  proof -
    from assms obtain prices where "(case prices of JArray (p # ps) \<Rightarrow> spot_summary (spot_values env (p # ps)) | _ \<Rightarrow> None) = Some s"
      by (auto simp: getSpotStats_def)
    then show thesis by (auto split: jsval.splits list.splits intro: that)
  qed
  have "\<forall>v \<in> set (spot_values env xs). 0 < num_rat v" for xs
    by (auto simp: spot_values_def num_rat_positive)
  with spot_summary_spec [OF s] show ?thesis by (fastforce dest: length_pos_if_in_set)
qed

section \<open>Properties\<close>

text \<open>C39: With \<open>--cheapest\<close> the report names the cheapest region: there is none exactly if no enabled region
  has a price; otherwise it is the answer of an enabled region, the price is positive and no enabled region
  has a lower one. The list beside it is in order of price, as long as \<open>--top\<close> asks or as there are prices,
  and leaves out nothing cheaper than what it holds.\<close>

theorem cheapest_region:
  assumes "pricing_main env argv = Inr report" "rp_ranking report = Some rk"
  shows "\<exists>limit regions. listEnabledRegions env = Inr regions \<and>
    (let rows = {row. \<exists>r \<in> set regions. getOnDemandPrice env (rp_instanceType report) r = Inr (Some row)};
         price = (\<lambda>row. num_rat (pr_usdPerHour row)) in
     (rk_cheapest rk = None \<longleftrightarrow> rows = {}) \<and>
     (\<forall>row. rk_cheapest rk = Some row \<longrightarrow> row \<in> rows \<and> 0 < price row \<and> (\<forall>r \<in> rows. price row \<le> price r)) \<and>
     set (rk_top rk) \<subseteq> rows \<and> sorted (map price (rk_top rk)) \<and> length (rk_top rk) = min limit (rk_count rk) \<and>
     (\<forall>r \<in> set (rk_top rk). \<forall>r' \<in> rows - set (rk_top rk). price r \<le> price r'))"
proof -
  from assms obtain a regions rows where a: "pricing_parseArgs env argv = Inr a"
    and regions: "listEnabledRegions env = Inr regions"
    and rows: "price_rows env (rp_instanceType report) regions = Inr rows"
    and rk: "rk = rank_rows (pa_top a) rows"
    by (auto simp: pricing_main_def split: if_splits)
  from pricing_loop_top [OF a] obtain n where n: "pa_top a = NumInt (int n)" by blast
  have set_rows: "{row. \<exists>r \<in> set regions. getOnDemandPrice env (rp_instanceType report) r = Inr (Some row)} = set rows"
    using price_rows_Inr [OF rows] by simp
  have positive: "0 < num_rat (pr_usdPerHour row)" if "row \<in> set rows" for row
    using that extract_positive by (auto simp: set_rows [symmetric] getOnDemandPrice_def split: if_splits)
  have count: "rk_count rk = length rows" by (simp add: rk rank_rows_def Let_def)
  show ?thesis
  proof (intro exI [of _ n] exI [of _ regions], unfold Let_def set_rows, intro conjI ballI allI impI)
    show "listEnabledRegions env = Inr regions" by (rule regions)
    show "(rk_cheapest rk = None) = (set rows = {})" using rank_rows_spec(1) by (simp add: rk n)
    show "set (rk_top rk) \<subseteq> set rows" using rank_rows_spec(5) by (simp add: rk n)
    show "sorted (map (\<lambda>row. num_rat (pr_usdPerHour row)) (rk_top rk))" using rank_rows_spec(3) by (simp add: rk n)
    show "length (rk_top rk) = min n (rk_count rk)" using rank_rows_spec(4) count by (simp add: rk n)
    show "num_rat (pr_usdPerHour r) \<le> num_rat (pr_usdPerHour r')"
      if "r \<in> set (rk_top rk)" "r' \<in> set rows - set (rk_top rk)" for r r'
      using that rank_rows_spec(6) by (simp add: rk n)
    fix row assume "rk_cheapest rk = Some row"
    then have least: "row \<in> set rows \<and> (\<forall>r \<in> set rows. num_rat (pr_usdPerHour row) \<le> num_rat (pr_usdPerHour r))"
      using rank_rows_spec(2) by (simp add: rk n)
    then show "row \<in> set rows" "0 < num_rat (pr_usdPerHour row)" using positive by blast+
    show "num_rat (pr_usdPerHour row) \<le> num_rat (pr_usdPerHour r)" if "r \<in> set rows" for r using least that by blast
  qed
qed

text \<open>Two regions, the second cheaper.\<close>

definition example_env :: pricing_env where
  "example_env = \<lparr>
     pe_aws = (\<lambda>question. \<lparr>aws_status = Some 0,
        aws_stdout = Some (if question = regions_question then ''R''
          else if question = price_question ''m'' ''west'' then ''W''
          else if question = price_question ''m'' ''east'' then ''E'' else []),
        aws_stderr = None\<rparr>),
     pe_parse = (\<lambda>s. if s = ''R'' then Inr (JArray [JString ''west'', JString ''east''])
        else if s = ''W'' then Inr (JObject [(''PriceList'', JArray [JString ''2''])])
        else if s = ''E'' then Inr (JObject [(''PriceList'', JArray [JString ''1''])])
        else Inr (JObject [(''terms'', JObject [(''OnDemand'', JObject [(''t'', JObject [(''priceDimensions'',
          JObject [(''d'', JObject [(''unit'', JString ''Hrs''),
            (''pricePerUnit'', JObject [(''USD'', JString s)])])])])])])])),
     pe_number = (\<lambda>v. NumInt (if v = JString ''1'' then 1 else 2)),
     pe_region = None, pe_defaultRegion = None, pe_startTime = ''2025-01-01T00:00:00Z''\<rparr>"

theorem cheapest_region_witness:
  "\<exists>report rk row. pricing_main example_env [''--instance-type'', ''m'', ''--cheapest''] = Inr report \<and>
     rp_ranking report = Some rk \<and> rk_cheapest rk = Some row \<and> num_rat (pr_usdPerHour row) = 1 \<and>
     sorted (map (\<lambda>row. num_rat (pr_usdPerHour row)) (rk_top rk))"
proof -
  obtain report where r: "pricing_main example_env [''--instance-type'', ''m'', ''--cheapest''] = Inr report"
    "case rp_ranking report of Some rk \<Rightarrow> (case rk_cheapest rk of Some row \<Rightarrow> pr_usdPerHour row = NumInt 1 | None \<Rightarrow> False)
      | None \<Rightarrow> False"
  proof -
    have "case pricing_main example_env [''--instance-type'', ''m'', ''--cheapest''] of
        Inr report \<Rightarrow> (case rp_ranking report of Some rk \<Rightarrow> (case rk_cheapest rk of Some row \<Rightarrow> pr_usdPerHour row = NumInt 1 | None \<Rightarrow> False)
          | None \<Rightarrow> False) | Inl e \<Rightarrow> False"
      by code_simp
    then show thesis by (auto split: sum.splits intro: that)
  qed
  then obtain rk row where rk: "rp_ranking report = Some rk" "rk_cheapest rk = Some row" "pr_usdPerHour row = NumInt 1"
    by (auto split: option.splits)
  from cheapest_region [OF r(1) rk(1)] have "sorted (map (\<lambda>row. num_rat (pr_usdPerHour row)) (rk_top rk))"
    by (auto simp: Let_def)
  with r(1) rk show ?thesis by (auto simp: num_rat_def)
qed

end
