(* ===== verification/SmokeNative.thy ===== *)
theory SmokeNative
  imports Platform
begin

text \<open>
  src/scripts/smoke-native.cjs, the check of a freshly built addon: which file it loads and what it wants of
  it. The addon is a parameter. A target named like a property every object inherits is left out.
\<close>

definition targetMap :: "(string \<times> string) list" where
  "targetMap =
    [(''x86_64-apple-darwin'', ''darwin-x64''),
     (''aarch64-apple-darwin'', ''darwin-arm64''),
     (''x86_64-unknown-linux-gnu'', ''linux-x64-gnu''),
     (''aarch64-unknown-linux-gnu'', ''linux-arm64-gnu''),
     (''x86_64-unknown-linux-musl'', ''linux-x64-musl''),
     (''aarch64-unknown-linux-musl'', ''linux-arm64-musl''),
     (''x86_64-pc-windows-msvc'', ''win32-x64-msvc''),
     (''aarch64-pc-windows-msvc'', ''win32-arm64-msvc''),
     (''aarch64-linux-android'', ''android-arm64'')]"

text \<open>\<open>platformArchOverride ?? (target ? targetMap[target] : undefined)\<close>\<close>

definition platform_arch :: "string option \<Rightarrow> string option \<Rightarrow> string option" where
  "platform_arch override target = (case override of
      Some p \<Rightarrow> Some p
    | None \<Rightarrow> (case target of
          Some (c # cs) \<Rightarrow> map_of targetMap (c # cs)
        | _ \<Rightarrow> None))"

text \<open>What the module exports as \<open>getProfiles\<close>: what calling it gives, if it is a function.\<close>

record smoke_binding =
  sm_getProfiles :: "jsval option"

definition binary_name :: "string \<Rightarrow> string" where
  "binary_name platformArch = ''freq-js.'' @ platformArch @ ''.node''"

definition smoke :: "string option \<Rightarrow> string option \<Rightarrow> (string \<Rightarrow> string + smoke_binding) \<Rightarrow> string + string" where
  "smoke override target require = (case platform_arch override target of
      Some (c # cs) \<Rightarrow>
        (let binaryName = binary_name (c # cs) in
         case require (''../rust/'' @ binaryName) of
           Inl e \<Rightarrow> Inl e
         | Inr binding \<Rightarrow> (case sm_getProfiles binding of
               None \<Rightarrow> Inl (binaryName @ '' did not export getProfiles()'')
             | Some (JArray (p # ps)) \<Rightarrow>
                 Inr (''smoke-ok '' @ binaryName @ '' profiles='' @ nat_str (length (p # ps)))
             | Some _ \<Rightarrow> Inl (binaryName @ '' returned no profiles'')))
    | _ \<Rightarrow> Inl ''Set WREQ_TARGET or WREQ_PLATFORM_ARCH to locate the native binding.'')"

text \<open>The targets of the check are the platforms of the loader, each once.\<close>

lemma smoke_targets:
  "set (map snd targetMap) = set NATIVE_PLATFORMS" "distinct (map fst targetMap)" "distinct (map snd targetMap)"
  by (auto simp: targetMap_def NATIVE_PLATFORMS_def)

text \<open>The check of a target loads the file that \<open>loadNativeBinding\<close> tries first on that platform, and passes
  exactly if that has a list of profiles that is not empty.\<close>

lemma smoke_spec:
  assumes "(target, platform) \<in> set targetMap" "require (hd (candidates platform)) = Inr b"
  shows "(\<exists>message. smoke None (Some target) require = Inr message) \<longleftrightarrow> (\<exists>p ps. sm_getProfiles b = Some (JArray (p # ps)))"
proof -
  have "target \<noteq> []" "platform \<noteq> []" using assms(1) by (auto simp: targetMap_def)
  moreover have "map_of targetMap target = Some platform" by (rule map_of_is_SomeI [OF smoke_targets(2) assms(1)])
  ultimately have "platform_arch None (Some target) = Some platform" by (cases target) (simp_all add: platform_arch_def)
  moreover have "require (''../rust/'' @ binary_name platform) = Inr b"
    using assms(2) by (simp add: candidates_def binary_name_def)
  ultimately show ?thesis
    using \<open>platform \<noteq> []\<close> unfolding smoke_def
    by (auto simp: Let_def split: option.splits jsval.splits list.splits)
qed

end
