(* ===== verification/NativeWebSocket.thy ===== *)
theory NativeWebSocket
  imports NativeClients WebSocketOptions FetchTasks
begin

text \<open>
  Web sockets at the boundary: the objects that \<open>websocket\<close>, \<open>new WebSocket\<close> and \<open>session.websocket\<close> hand to
  the addon, what src/rust/src/lib.rs reads of them, the upgrade request that src/rust/src/websocket.rs
  makes, and the callbacks by which the addon tells the program what comes over the wire. Sending the request
  and driving the socket is the client library's; its results are arguments here.
\<close>

section \<open>The objects\<close>

text \<open>The class always gives its three callbacks; functions are not told apart.\<close>

definition given_callbacks :: native_object where
  "given_callbacks = [(''onMessage'', NativeValue (JFunction [])), (''onClose'', NativeValue (JFunction [])),
     (''onError'', NativeValue (JFunction []))]"

definition websocket_object :: "NativeWebSocketOptions \<Rightarrow> native_object" where
  "websocket_object o1 =
     [(''url'', NativeValue (JString (nwo_url o1))),
      (''headers'', NativeValue (tuples_value (nwo_headers o1))),
      (''protocols'', optional JArray (nwo_protocols o1)),
      (''proxy'', NativeValue (nwo_proxy o1)),
      (''proxyHeaders'', optional tuples_value (nwo_proxyHeaders o1)),
      (''maxFrameSize'', NativeValue (nwo_maxFrameSize o1)),
      (''maxMessageSize'', NativeValue (nwo_maxMessageSize o1))] @ given_callbacks @
     [(''browser'', optional JString (native_browser o1)),
      (''os'', optional JString (native_os o1)),
      (''emulationJson'', optional JString (native_emulationJson o1))]"

definition session_websocket_object :: "NativeWebSocketSessionOptions \<Rightarrow> native_object" where
  "session_websocket_object o1 =
     [(''url'', NativeValue (JString (nws_url o1))),
      (''sessionId'', NativeValue (JString (nws_sessionId o1))),
      (''transportId'', NativeValue (JString (nws_transportId o1))),
      (''headers'', NativeValue (tuples_value (nws_headers o1))),
      (''protocols'', optional JArray (nws_protocols o1)),
      (''maxFrameSize'', NativeValue (nws_maxFrameSize o1)),
      (''maxMessageSize'', NativeValue (nws_maxMessageSize o1))] @ given_callbacks"

section \<open>Reading them\<close>

text \<open>What the addon throws here: the errors of the language, a \<open>RangeError\<close> among them.\<close>

datatype read_error = ReadError js_error | RangeError string

definition lift_read :: "'a res \<Rightarrow> read_error + 'a" where
  "lift_read r = (case r of Inl e \<Rightarrow> Inl (ReadError e) | Inr x \<Rightarrow> Inr x)"

definition read_bind :: "read_error + 'a \<Rightarrow> ('a \<Rightarrow> read_error + 'b) \<Rightarrow> read_error + 'b" where
  "read_bind r f = (case r of Inl e \<Rightarrow> Inl e | Inr x \<Rightarrow> f x)"

lemma read_simps [simp]:
  "lift_read (Inr x) = Inr x" "lift_read (Inl e) = Inl (ReadError e)"
  "read_bind (Inr x) f = f x" "read_bind (Inl e') f = Inl e'"
  by (simp_all add: lift_read_def read_bind_def)

text \<open>A property that must be a string, as \<open>parse_url\<close> reads the URL.\<close>

definition required_string :: "native_object \<Rightarrow> string \<Rightarrow> string res" where
  "required_string obj k = (case get_opt obj k of
      Some (NativeValue (JString s)) \<Rightarrow> Inr s
    | _ \<Rightarrow> Inl (downcast_error ''string''))"

fun protocol_strings :: "jsval list \<Rightarrow> string list res" where
  "protocol_strings [] = Inr []"
| "protocol_strings (v # vs) = (case v of
      JString s \<Rightarrow> res_bind (protocol_strings vs) (\<lambda>ss. Inr (s # ss))
    | _ \<Rightarrow> Inl (downcast_error ''string''))"

definition extract_ws_protocols :: "native_object \<Rightarrow> string list res" where
  "extract_ws_protocols obj = (case get_opt obj ''protocols'' of
      None \<Rightarrow> Inr []
    | Some (NativeValue JNull) \<Rightarrow> Inr []
    | Some (NativeValue (JString s)) \<Rightarrow> Inr [s]
    | Some (NativeValue (JArray vs)) \<Rightarrow> protocol_strings vs
    | Some _ \<Rightarrow> Inl (TypeError ''protocols must be a string or string array''))"

definition extract_optional_ws_size :: "native_object \<Rightarrow> string \<Rightarrow> read_error + 64 word option" where
  "extract_optional_ws_size obj k = (case get_opt obj k of
      None \<Rightarrow> Inr None
    | Some (NativeValue JNull) \<Rightarrow> Inr None
    | Some (NativeValue (JNumber n)) \<Rightarrow>
        (if \<not> is_finite n \<or> num_le n 0 \<or> \<not> is_integer n
         then Inl (RangeError (k @ '' must be a positive integer''))
         else Inr (Some (as_unsigned n)))
    | Some _ \<Rightarrow> Inl (ReadError (downcast_error ''number'')))"

definition optional_callback :: "native_object \<Rightarrow> string \<Rightarrow> bool res" where
  "optional_callback obj k = (case get_opt obj k of
      None \<Rightarrow> Inr False
    | Some (NativeValue (JFunction _)) \<Rightarrow> Inr True
    | Some _ \<Rightarrow> Inl (downcast_error ''function''))"

text \<open>Whether there is a function for closing, and one for errors; the one for messages must be there.\<close>

definition extract_ws_callbacks :: "native_object \<Rightarrow> (bool \<times> bool) res" where
  "extract_ws_callbacks obj =
     res_bind (optional_callback obj ''onMessage'') (\<lambda>m.
     if \<not> m then Inl (downcast_error ''function'')
     else res_bind (optional_callback obj ''onClose'') (\<lambda>c.
          res_bind (optional_callback obj ''onError'') (\<lambda>e. Inr (c, e))))"

record ('p, 'o) ws_options =
  wo_url :: string
  wo_browser :: "'p option"
  wo_browser_os :: "'o option"
  wo_emulation_json :: "string option"
  wo_headers :: "HeaderTuple list"
  wo_protocols :: "string list"
  wo_proxy :: "string option"
  wo_proxy_headers :: "HeaderTuple list"
  wo_max_frame_size :: "64 word option"
  wo_max_message_size :: "64 word option"
  wo_callbacks :: "bool \<times> bool"

definition websocket_connect :: "('p, 'o) wreq_util \<Rightarrow> native_object \<Rightarrow> read_error + ('p, 'o) ws_options" where
  "websocket_connect u obj =
     read_bind (lift_read (required_string obj ''url'')) (\<lambda>url.
     read_bind (lift_read (parse_headers_opt obj ''headers'')) (\<lambda>headers.
     read_bind (lift_read (extract_ws_protocols obj)) (\<lambda>protocols.
     read_bind (extract_optional_ws_size obj ''maxFrameSize'') (\<lambda>frame.
     read_bind (extract_optional_ws_size obj ''maxMessageSize'') (\<lambda>message.
     read_bind (lift_read (parse_headers_opt obj ''proxyHeaders'')) (\<lambda>proxy_headers.
     read_bind (lift_read (extract_ws_callbacks obj)) (\<lambda>callbacks.
     Inr \<lparr>wo_url = url,
       wo_browser = map_option (parse_emulation u) (get_string obj ''browser''),
       wo_browser_os = map_option (parse_emulation_os u) (get_string obj ''os''),
       wo_emulation_json = get_string obj ''emulationJson'',
       wo_headers = headers, wo_protocols = protocols, wo_proxy = get_string obj ''proxy'',
       wo_proxy_headers = proxy_headers, wo_max_frame_size = frame, wo_max_message_size = message,
       wo_callbacks = callbacks\<rparr>)))))))"

record ws_session_options =
  wso_url :: string
  wso_session_id :: string
  wso_transport_id :: string
  wso_headers :: "HeaderTuple list"
  wso_protocols :: "string list"
  wso_max_frame_size :: "64 word option"
  wso_max_message_size :: "64 word option"
  wso_callbacks :: "bool \<times> bool"

definition websocket_connect_session :: "native_object \<Rightarrow> read_error + ws_session_options" where
  "websocket_connect_session obj =
     read_bind (lift_read (required_string obj ''url'')) (\<lambda>url.
     read_bind (lift_read (required_string obj ''sessionId'')) (\<lambda>session_id.
     read_bind (lift_read (required_string obj ''transportId'')) (\<lambda>transport_id.
     read_bind (lift_read (parse_headers_opt obj ''headers'')) (\<lambda>headers.
     read_bind (lift_read (extract_ws_protocols obj)) (\<lambda>protocols.
     read_bind (extract_optional_ws_size obj ''maxFrameSize'') (\<lambda>frame.
     read_bind (extract_optional_ws_size obj ''maxMessageSize'') (\<lambda>message.
     read_bind (lift_read (extract_ws_callbacks obj)) (\<lambda>callbacks.
     Inr \<lparr>wso_url = url, wso_session_id = session_id, wso_transport_id = transport_id, wso_headers = headers,
       wso_protocols = protocols, wso_max_frame_size = frame, wso_max_message_size = message,
       wso_callbacks = callbacks\<rparr>))))))))"

section \<open>The upgrade request\<close>

record 'a ws_upgrade =
  up_client :: "'a http_client"
  up_url :: string
  up_headers :: "HeaderTuple list"
  up_protocols :: "string list"
  up_max_frame_size :: "64 word option"
  up_max_message_size :: "64 word option"
  up_orig_headers :: "string list"

text \<open>The names in the order in which they are inserted into the library's map.\<close>

definition standard_ws_headers :: "string list" where
  "standard_ws_headers =
    [''Host'', ''Connection'', ''Pragma'', ''Cache-Control'', ''User-Agent'', ''Upgrade'', ''Origin'',
     ''Sec-WebSocket-Version'', ''Accept-Encoding'', ''Accept-Language'', ''Accept'', ''Cookie'',
     ''Sec-WebSocket-Key'', ''Sec-WebSocket-Extensions'', ''Sec-WebSocket-Protocol'', ''Sec-Fetch-Dest'',
     ''Sec-Fetch-Mode'', ''Sec-Fetch-Site'', ''Sec-Fetch-User'']"

definition build_ws_orig_headers :: "string list \<Rightarrow> HeaderTuple list \<Rightarrow> string list" where
  "build_ws_orig_headers emulation_orig_headers user_headers =
     emulation_orig_headers @ standard_ws_headers @ map fst user_headers"

definition connect_websocket_with_client ::
  "'a http_client \<Rightarrow> string \<Rightarrow> HeaderTuple list \<Rightarrow> string list \<Rightarrow> 64 word option \<Rightarrow> 64 word option \<Rightarrow> 'a ws_upgrade" where
  "connect_websocket_with_client client url headers protocols frame message =
     \<lparr>up_client = client, up_url = url, up_headers = headers, up_protocols = protocols,
      up_max_frame_size = frame, up_max_message_size = message,
      up_orig_headers = build_ws_orig_headers (client_orig_headers client) headers\<rparr>"

definition connect_websocket :: "('p, 'o, 'a) http_lib \<Rightarrow> ('p, 'o) ws_options \<Rightarrow> 'a ws_upgrade res" where
  "connect_websocket lib options =
     res_bind (resolve_emulation (lib_headers lib) (lib_json lib) (lib_preset lib)
       (wo_browser options) (wo_browser_os options) (wo_emulation_json options)) (\<lambda>emulation.
     res_bind (proxy_calls lib (wo_proxy options) (wo_proxy_headers options)) (\<lambda>proxy.
     res_bind (finish_client lib (ClientEmulation emulation # proxy) (em_orig_headers emulation)) (\<lambda>client.
     Inr (connect_websocket_with_client client (wo_url options) (wo_headers options) (wo_protocols options)
       (wo_max_frame_size options) (wo_max_message_size options)))))"

text \<open>
  A jar only knows the URLs of HTTP. A URI is its text here; \<open>parse_uri\<close> is the library's parser, with the
  text it prints for what it has read.
\<close>

definition cookie_origin_uri :: "(string \<Rightarrow> string option) \<Rightarrow> string \<Rightarrow> string" where
  "cookie_origin_uri parse_uri uri =
     (if take 5 uri = ''ws://'' \<or> take 6 uri = ''wss://''
      then opt_default (parse_uri (''http'' @ drop 2 uri)) uri else uri)"

text \<open>
  The \<open>Cookie\<close> header of a session's socket: what the caller gave, in any case of the name, then the cookies
  of the jar for the URL (\<open>jar_values\<close>: the header values the library makes of them that are text).
\<close>

definition is_cookie :: "HeaderTuple \<Rightarrow> bool" where
  "is_cookie h \<longleftrightarrow> ascii_lower (fst h) = ''cookie''"

definition cookie_segments :: "HeaderTuple list \<Rightarrow> string list \<Rightarrow> string list" where
  "cookie_segments headers jar_values =
     filter (\<lambda>s. s \<noteq> []) (map rust_trim (map snd (filter is_cookie headers) @ jar_values))"

definition with_cookies :: "HeaderTuple list \<Rightarrow> string list \<Rightarrow> HeaderTuple list" where
  "with_cookies headers jar_values =
     (let segments = cookie_segments headers jar_values in
      filter (\<lambda>h. \<not> is_cookie h) headers @ (if segments = [] then [] else [(''Cookie'', join ''; '' segments)]))"

definition connect_websocket_with_session ::
  "(string \<Rightarrow> string option) \<Rightarrow> ('j \<Rightarrow> string \<Rightarrow> string list) \<Rightarrow> 'j \<Rightarrow> ws_session_options \<Rightarrow> ('a http_client, 'j) rust_state \<Rightarrow>
     'a ws_upgrade res \<times> ('a http_client, 'j) rust_state" where
  "connect_websocket_with_session parse_uri cookies empty_jar options s =
     (case rust_transports s (wso_transport_id options) of
        None \<Rightarrow> (Inl (PlainError (''Transport '' @ squote @ wso_transport_id options @ squote @ '' not found'')), s)
      | Some client \<Rightarrow>
          (let s1 = jar_for empty_jar (wso_session_id options) s;
               jar = opt_default (rust_sessions s1 (wso_session_id options)) empty_jar in
           case parse_uri (wso_url options) of
             None \<Rightarrow> (Inl (PlainError ''Failed to parse WebSocket URL''), s1)
           | Some uri \<Rightarrow>
               (Inr (connect_websocket_with_client client (wso_url options)
                  (with_cookies (wso_headers options) (cookies jar (cookie_origin_uri parse_uri uri)))
                  (wso_protocols options) (wso_max_frame_size options) (wso_max_message_size options)), s1)))"

section \<open>From the wire to the callbacks\<close>

text \<open>
  What the client library reads off the connection: messages, pings and pongs, a close frame with or without
  a payload, an error. A list is everything up to the end of the connection.
\<close>

datatype wire =
    WireText string
  | WireBinary "nat list"
  | WireOther
  | WireClose "(nat \<times> string) option"
  | WireError string

datatype wire_event = EvText string | EvBinary "nat list" | EvClose nat string | EvError string

text \<open>The task that reads, and the task that makes the calls, with \<open>close_emitted\<close>.\<close>

fun receive_events :: "wire list \<Rightarrow> wire_event list" where
  "receive_events [] = [EvClose 1006 []]"
| "receive_events (WireText t # rest) = EvText t # receive_events rest"
| "receive_events (WireBinary b # rest) = EvBinary b # receive_events rest"
| "receive_events (WireOther # rest) = receive_events rest"
| "receive_events (WireClose f # rest) =
     [case f of None \<Rightarrow> EvClose 1005 [] | Some (code, reason) \<Rightarrow> EvClose code reason]"
| "receive_events (WireError m # rest) = [EvError m, EvClose 1006 []]"

datatype native_callback = CallMessage ws_data | CallError string | CallClose2 nat string

fun emit_callbacks :: "bool \<times> bool \<Rightarrow> bool \<Rightarrow> wire_event list \<Rightarrow> native_callback list" where
  "emit_callbacks cbs close_emitted [] =
     (if \<not> close_emitted \<and> fst cbs then [CallClose2 1006 []] else [])"
| "emit_callbacks cbs close_emitted (EvText t # rest) =
     CallMessage (TextData t) # emit_callbacks cbs close_emitted rest"
| "emit_callbacks cbs close_emitted (EvBinary b # rest) =
     CallMessage (BinaryData b) # emit_callbacks cbs close_emitted rest"
| "emit_callbacks cbs close_emitted (EvError m # rest) =
     (if snd cbs then [CallError m] else []) @ emit_callbacks cbs close_emitted rest"
| "emit_callbacks cbs close_emitted (EvClose code reason # rest) =
     (if \<not> close_emitted \<and> fst cbs then [CallClose2 code reason] else []) @ emit_callbacks cbs True rest"

definition setup_ws_callbacks :: "bool \<times> bool \<Rightarrow> wire list \<Rightarrow> native_callback list" where
  "setup_ws_callbacks cbs wire = emit_callbacks cbs False (receive_events wire)"

text \<open>What a callback runs in the class.\<close>

definition run_native_callback :: "'e reaction \<Rightarrow> native_callback \<Rightarrow> 'e web_socket \<Rightarrow> 'e web_socket" where
  "run_native_callback react cb s = (case cb of
      CallMessage d \<Rightarrow> handleNativeMessage react d s
    | CallError m \<Rightarrow> snd (handleNativeError react m s)
    | CallClose2 code reason \<Rightarrow> handleNativeClose react (int code) reason s)"

text \<open>
  The life of a socket whose addon makes these calls, in this order: between two of them anything may
  happen to it that can happen to a socket.
\<close>

inductive socket_run :: "'e reaction \<Rightarrow> native_callback list \<Rightarrow> 'e web_socket \<Rightarrow> 'e web_socket \<Rightarrow> bool" for react where
  run_over: "socket_run react [] s s"
| run_step: "ws_step react s s' \<Longrightarrow> socket_run react cbs s' s'' \<Longrightarrow> socket_run react cbs s s''"
| run_call: "socket_run react cbs (run_native_callback react cb s) s'' \<Longrightarrow> socket_run react (cb # cbs) s s''"

section \<open>What arrives\<close>

text \<open>The values the class sends for a list of protocols and for a size: nothing for none.\<close>

definition protocols_value :: "string list \<Rightarrow> jsval list option" where
  "protocols_value ss = (if ss = [] then None else Some (map JString ss))"

definition size_value :: "64 word option \<Rightarrow> jsval" where
  "size_value w = (case w of None \<Rightarrow> JUndefined | Some n \<Rightarrow> JNumber (NumInt (uint n)))"

definition ws_size :: "jsval \<Rightarrow> bool" where
  "ws_size v \<longleftrightarrow> v = JUndefined \<or> (\<exists>k. v = JNumber (NumInt k) \<and> 0 < k \<and> k \<le> 9007199254740991)"

text \<open>Reading the objects: each property is the option it was made of.\<close>

lemma websocket_object_get:
  "required_string (websocket_object t) ''url'' = Inr (nwo_url t)"
  "get_string (websocket_object t) ''browser'' = native_browser t"
  "get_string (websocket_object t) ''os'' = native_os t"
  "get_string (websocket_object t) ''emulationJson'' = native_emulationJson t"
  "get_string (websocket_object t) ''proxy'' = string_of (nwo_proxy t)"
  "parse_headers_opt (websocket_object t) ''headers'' = Inr (nwo_headers t)"
  "parse_headers_opt (websocket_object t) ''proxyHeaders'' = Inr (opt_default (nwo_proxyHeaders t) [])"
  "get_opt (websocket_object t) ''protocols'' = map_option (\<lambda>vs. NativeValue (JArray vs)) (nwo_protocols t)"
  "get_opt (websocket_object t) ''maxFrameSize'' = value_opt (nwo_maxFrameSize t)"
  "get_opt (websocket_object t) ''maxMessageSize'' = value_opt (nwo_maxMessageSize t)"
  "extract_ws_callbacks (websocket_object t) = Inr (True, True)"
  by (simp_all add: websocket_object_def given_callbacks_def required_string_def get_string_def optional_def
      value_opt_def tuples_value_def string_of_def parse_headers_opt_def extract_ws_callbacks_def
      optional_callback_def parse_tuples_value [unfolded tuples_value_def] split: option.split jsval.split)

lemma session_websocket_object_get:
  "required_string (session_websocket_object t) ''url'' = Inr (nws_url t)"
  "required_string (session_websocket_object t) ''sessionId'' = Inr (nws_sessionId t)"
  "required_string (session_websocket_object t) ''transportId'' = Inr (nws_transportId t)"
  "parse_headers_opt (session_websocket_object t) ''headers'' = Inr (nws_headers t)"
  "get_opt (session_websocket_object t) ''protocols'' = map_option (\<lambda>vs. NativeValue (JArray vs)) (nws_protocols t)"
  "get_opt (session_websocket_object t) ''maxFrameSize'' = value_opt (nws_maxFrameSize t)"
  "get_opt (session_websocket_object t) ''maxMessageSize'' = value_opt (nws_maxMessageSize t)"
  "extract_ws_callbacks (session_websocket_object t) = Inr (True, True)"
  by (simp_all add: session_websocket_object_def given_callbacks_def required_string_def optional_def
      value_opt_def tuples_value_def parse_headers_opt_def extract_ws_callbacks_def
      optional_callback_def parse_tuples_value [unfolded tuples_value_def] split: option.split jsval.split)

lemma protocol_strings_map [simp]: "protocol_strings (map JString ss) = Inr ss"
  by (induction ss) auto

lemma extract_protocols_value:
  "get_opt obj ''protocols'' = map_option (\<lambda>vs. NativeValue (JArray vs)) (protocols_value ss) \<Longrightarrow>
     extract_ws_protocols obj = Inr ss"
  by (simp add: extract_ws_protocols_def protocols_value_def split: if_splits)

lemma extract_size_value:
  assumes "ws_size v" "get_opt obj k = value_opt v"
  shows "\<exists>w. extract_optional_ws_size obj k = Inr w \<and> size_value w = v"
proof (cases "v = JUndefined")
  case True
  with assms(2) show ?thesis by (simp add: extract_optional_ws_size_def value_opt_def size_value_def)
next
  case False
  with assms(1) obtain n where n: "v = JNumber (NumInt n)" "0 < n" "n \<le> 9007199254740991"
    by (auto simp: ws_size_def)
  then have "uint (as_unsigned (NumInt n) :: 64 word) = n"
    by (simp add: uint_as_unsigned is_finite_def truncate_number_def)
  with n assms(2) show ?thesis
    by (intro exI [of _ "Some (as_unsigned (NumInt n))"])
      (simp add: extract_optional_ws_size_def value_opt_def size_value_def is_finite_def is_integer_def num_le_def)
qed

lemma normalized_size: "normalizeWebSocketSizeOption l x = Inr v \<Longrightarrow> ws_size v"
  by (auto simp: normalizeWebSocketSizeOption_def ws_size_def is_safe_integer_def num_le_def
      split: jsval.splits if_splits number.splits)

lemma field_size:
  assumes "normalize_fields fs x = Inr n" "\<And>f. (k, f) \<in> set fs \<Longrightarrow> f = normalizeWebSocketSizeOption k"
  shows "ws_size (lookup n k)"
proof (cases "map_of n k")
  case None
  then show ?thesis by (simp add: lookup_def ws_size_def)
next
  case (Some v)
  then have "(k, v) \<in> set n" by (rule map_of_SomeD)
  from normalize_fields_entry [OF assms(1) this] assms(2) have "\<exists>y. normalizeWebSocketSizeOption k y = Inr v"
    by metis
  with Some show ?thesis by (auto simp: lookup_def normalized_size)
qed

lemma option_sizes:
  assumes "normalizeStandaloneWebSocketOptions x = Inr n \<or> normalizeSessionWebSocketOptions x = Inr n"
    and "k = ''maxFrameSize'' \<or> k = ''maxMessageSize''"
  shows "ws_size (lookup n k)"
proof (cases "truthy x")
  case True
  with assms(1) have "normalize_fields standalone_fields x = Inr n \<or> normalize_fields session_fields x = Inr n"
    by (auto simp: normalizeStandaloneWebSocketOptions_def normalizeSessionWebSocketOptions_def)
  moreover have "f = normalizeWebSocketSizeOption k" if "(k, f) \<in> set standalone_fields \<union> set session_fields" for f
    using that assms(2) by (elim disjE) (simp_all add: standalone_fields_def session_fields_def common_fields_def)
  ultimately show ?thesis using field_size [of standalone_fields x n k] field_size [of session_fields x n k] by blast
next
  case False
  with assms(1) show ?thesis
    by (auto simp: normalizeStandaloneWebSocketOptions_def normalizeSessionWebSocketOptions_def lookup_def ws_size_def)
qed

lemma sent_protocols_strings:
  assumes "validateWebSocketProtocols v = Inr ()" "normalizeWebSocketProtocolList v = Inr p"
  shows "\<exists>ss. sent_protocols p = protocols_value ss \<and> distinct ss \<and> list_all protocol_ok ss"
proof (cases "v = JUndefined")
  case True
  with assms(2) show ?thesis
    by (intro exI [of _ "[]"]) (simp add: normalizeWebSocketProtocolList_def sent_protocols_def protocols_value_def)
next
  case False
  obtain vs w where p: "p = Some vs"
    and loop: "unique_loop check_protocol (\<lambda>q. RequestError (''Duplicate WebSocket protocol: '' @ js_string q)) [] vs = Inr w"
  proof (cases "is_string v")
    case True
    then obtain s where "v = JString s" by (cases v) (auto simp: is_string_def)
    with assms that [of "[v]"] show ?thesis
      by (auto simp: validateWebSocketProtocols_def normalizeWebSocketProtocolList_def res_bind_Inr_iff
          simp del: unique_loop.simps)
  next
    case False
    with \<open>v \<noteq> JUndefined\<close> assms that show ?thesis
      by (cases v; cases "js_iterate v") (auto simp: validateWebSocketProtocols_def normalizeWebSocketProtocolList_def
          res_bind_Inr_iff is_string_def simp del: unique_loop.simps)
  qed
  then have "(\<forall>v \<in> set vs. check_protocol v = Inr ()) \<and> distinct vs"
    by (simp add: unique_loop_Inr)
  note vs = p this
  from vs(2) obtain ss where "vs = map JString ss" "distinct ss" "list_all protocol_ok ss"
    unfolding protocols_of_strings by blast
  with vs(1) show ?thesis
    by (intro exI [of _ ss]) (simp add: sent_protocols_def protocols_value_def)
qed

text \<open>What the program sends for a standalone socket is what the addon works with.\<close>

definition ws_carries ::
  "('p, 'o) wreq_util \<Rightarrow> NativeWebSocketOptions \<Rightarrow> ('p, 'o) ws_options \<Rightarrow> bool" where
  "ws_carries u t options \<longleftrightarrow>
     wo_url options = nwo_url t \<and> wo_headers options = nwo_headers t \<and>
     wo_browser options = map_option (parse_emulation u) (native_browser t) \<and>
     wo_browser_os options = map_option (parse_emulation_os u) (native_os t) \<and>
     wo_emulation_json options = native_emulationJson t \<and>
     wo_proxy options = string_of (nwo_proxy t) \<and>
     wo_proxy_headers options = opt_default (nwo_proxyHeaders t) [] \<and>
     nwo_protocols t = protocols_value (wo_protocols options) \<and>
     nwo_maxFrameSize t = size_value (wo_max_frame_size options) \<and>
     nwo_maxMessageSize t = size_value (wo_max_message_size options) \<and>
     wo_callbacks options = (True, True)"

definition ws_session_carries :: "NativeWebSocketSessionOptions \<Rightarrow> ws_session_options \<Rightarrow> bool" where
  "ws_session_carries t options \<longleftrightarrow>
     wso_url options = nws_url t \<and> wso_headers options = nws_headers t \<and>
     wso_session_id options = nws_sessionId t \<and> wso_transport_id options = nws_transportId t \<and>
     nws_protocols t = protocols_value (wso_protocols options) \<and>
     nws_maxFrameSize t = size_value (wso_max_frame_size options) \<and>
     nws_maxMessageSize t = size_value (wso_max_message_size options) \<and>
     wso_callbacks options = (True, True)"

lemma websocket_object_carried:
  assumes "nwo_protocols t = protocols_value ss" "ws_size (nwo_maxFrameSize t)" "ws_size (nwo_maxMessageSize t)"
  shows "\<exists>options. websocket_connect u (websocket_object t) = Inr options \<and> ws_carries u t options \<and>
    wo_protocols options = ss"
proof -
  note get = websocket_object_get [of t]
  have "extract_ws_protocols (websocket_object t) = Inr ss"
    by (rule extract_protocols_value) (simp add: get(8) assms(1))
  moreover obtain f where "extract_optional_ws_size (websocket_object t) ''maxFrameSize'' = Inr f"
    "size_value f = nwo_maxFrameSize t"
    using extract_size_value [OF assms(2) get(9)] by blast
  moreover obtain m where "extract_optional_ws_size (websocket_object t) ''maxMessageSize'' = Inr m"
    "size_value m = nwo_maxMessageSize t"
    using extract_size_value [OF assms(3) get(10)] by blast
  ultimately show ?thesis by (simp add: websocket_connect_def get ws_carries_def assms(1))
qed

lemma session_websocket_object_carried:
  assumes "nws_protocols t = protocols_value ss" "ws_size (nws_maxFrameSize t)" "ws_size (nws_maxMessageSize t)"
  shows "\<exists>options. websocket_connect_session (session_websocket_object t) = Inr options \<and>
    ws_session_carries t options \<and> wso_protocols options = ss"
proof -
  note get = session_websocket_object_get [of t]
  have "extract_ws_protocols (session_websocket_object t) = Inr ss"
    by (rule extract_protocols_value) (simp add: get(5) assms(1))
  moreover obtain f where "extract_optional_ws_size (session_websocket_object t) ''maxFrameSize'' = Inr f"
    "size_value f = nws_maxFrameSize t"
    using extract_size_value [OF assms(2) get(6)] by blast
  moreover obtain m where "extract_optional_ws_size (session_websocket_object t) ''maxMessageSize'' = Inr m"
    "size_value m = nws_maxMessageSize t"
    using extract_size_value [OF assms(3) get(7)] by blast
  ultimately show ?thesis by (simp add: websocket_connect_session_def get ws_session_carries_def assms(1))
qed

definition ws_request_carried :: "('p, 'o) wreq_util \<Rightarrow> native_ws_request \<Rightarrow> bool" where
  "ws_request_carried u r \<longleftrightarrow> (case r of
      WebsocketConnect t \<Rightarrow>
        (\<exists>options. websocket_connect u (websocket_object t) = Inr options \<and> ws_carries u t options \<and>
           distinct (wo_protocols options) \<and> list_all protocol_ok (wo_protocols options))
    | WebsocketConnectSession t \<Rightarrow>
        (\<exists>options. websocket_connect_session (session_websocket_object t) = Inr options \<and> ws_session_carries t options \<and>
           distinct (wso_protocols options) \<and> list_all protocol_ok (wso_protocols options)))"

lemma native_fields_mode [simp]:
  "nwo_protocols (applyNativeEmulationMode t mode) = nwo_protocols (t :: NativeWebSocketOptions)"
  "nwo_maxFrameSize (applyNativeEmulationMode t mode) = nwo_maxFrameSize (t :: NativeWebSocketOptions)"
  "nwo_maxMessageSize (applyNativeEmulationMode t mode) = nwo_maxMessageSize (t :: NativeWebSocketOptions)"
  by (simp_all add: applyNativeEmulationMode_def Let_def split: ResolvedEmulationMode.split option.split)

lemma standalone_connect_carried:
  assumes "standalone_connect url opts protocols ph mode = Inr r"
    and "validateWebSocketProtocols v = Inr ()" "normalizeWebSocketProtocolList v = Inr protocols"
    and "normalizeStandaloneWebSocketOptions x = Inr opts"
  shows "ws_request_carried u r"
proof -
  from sent_protocols_strings [OF assms(2,3)] obtain ss where
    ss: "sent_protocols protocols = protocols_value ss" "distinct ss" "list_all protocol_ok ss" by blast
  from assms(1) obtain t where t: "r = WebsocketConnect t" "nwo_protocols t = protocols_value ss"
    "nwo_maxFrameSize t = lookup opts ''maxFrameSize''" "nwo_maxMessageSize t = lookup opts ''maxMessageSize''"
    by (auto simp: standalone_connect_def res_bind_Inr_iff ss(1))
  have "ws_size (nwo_maxFrameSize t)" "ws_size (nwo_maxMessageSize t)"
    using option_sizes [of x opts] assms(4) t(3,4) by auto
  from websocket_object_carried [OF t(2) this, of u] ss t(1) show ?thesis
    by (auto simp: ws_request_carried_def)
qed

lemma session_connect_carried:
  assumes "session_connect url ses opts protocols = Inr r"
    and "validateWebSocketProtocols v = Inr ()" "normalizeWebSocketProtocolList v = Inr protocols"
    and "normalizeSessionWebSocketOptions x = Inr opts"
  shows "ws_request_carried u r"
proof -
  from sent_protocols_strings [OF assms(2,3)] obtain ss where
    ss: "sent_protocols protocols = protocols_value ss" "distinct ss" "list_all protocol_ok ss" by blast
  from assms(1) obtain t where t: "r = WebsocketConnectSession t" "nws_protocols t = protocols_value ss"
    "nws_maxFrameSize t = lookup opts ''maxFrameSize''" "nws_maxMessageSize t = lookup opts ''maxMessageSize''"
    by (auto simp: session_connect_def res_bind_Inr_iff ss(1))
  have "ws_size (nws_maxFrameSize t)" "ws_size (nws_maxMessageSize t)"
    using option_sizes [of x opts] assms(4) t(3,4) by auto
  from session_websocket_object_carried [OF t(2) this] ss t(1) show ?thesis
    by (auto simp: ws_request_carried_def)
qed

lemma ws_arguments_options:
  "normalize_ws_arguments parse f u os = Inr a \<Longrightarrow> \<exists>x. f x = Inr (arg_options a)"
  by (auto simp: normalize_ws_arguments_def res_bind_Inr_iff split: if_splits)

lemma websocket_carried:
  assumes "websocket parse np v os = Inr i" "init_connect i = Inr r"
  shows "ws_request_carried u r"
proof -
  from assms obtain a protocols ph mode where a: "normalizeStandaloneWebSocketArgs parse v os = Inr a"
    "validateWebSocketProtocols (lookup (arg_options a) ''protocols'') = Inr ()"
    "normalizeWebSocketProtocolList (lookup (arg_options a) ''protocols'') = Inr protocols"
    "standalone_connect (arg_url a) (arg_options a) protocols ph mode = Inr r"
    by (auto simp: websocket_def Let_def res_bind_Inr_iff)
  from a(1) obtain x where "normalizeStandaloneWebSocketOptions x = Inr (arg_options a)"
    unfolding normalizeStandaloneWebSocketArgs_def using ws_arguments_options by blast
  with a show ?thesis by (metis standalone_connect_carried)
qed

lemma buildStandaloneInit_carried:
  assumes "buildStandaloneInit parse np v ps os = Inr i" "init_connect i = Inr r"
  shows "ws_request_carried u r"
proof -
  from assms obtain x opts p protocols url ph mode where "normalizeStandaloneWebSocketOptions x = Inr opts"
    "validateWebSocketProtocols p = Inr ()" "normalizeWebSocketProtocolList p = Inr protocols"
    "standalone_connect url opts protocols ph mode = Inr r"
    by (auto simp: buildStandaloneInit_def Let_def res_bind_Inr_iff)
  then show ?thesis by (metis standalone_connect_carried)
qed

lemma session_websocket_carried:
  assumes "session_websocket parse ses v os = Inr i" "init_connect i = Inr r"
  shows "ws_request_carried u r"
proof -
  from assms obtain a protocols where a: "normalizeSessionWebSocketArgs parse v os = Inr a"
    "validateWebSocketProtocols (lookup (arg_options a) ''protocols'') = Inr ()"
    "normalizeWebSocketProtocolList (lookup (arg_options a) ''protocols'') = Inr protocols"
    "session_connect (arg_url a) ses (arg_options a) protocols = Inr r"
    by (auto simp: session_websocket_def Let_def res_bind_Inr_iff split: if_splits)
  from a(1) obtain x where "normalizeSessionWebSocketOptions x = Inr (arg_options a)"
    unfolding normalizeSessionWebSocketArgs_def using ws_arguments_options by blast
  with a show ?thesis by (metis session_connect_carried)
qed

section \<open>Cookies and the client of a session\<close>

text \<open>At most one \<open>Cookie\<close> header is left; the others keep their order.\<close>

lemma with_cookies_split:
  "filter is_cookie (with_cookies headers jar_values) =
     (if cookie_segments headers jar_values = [] then []
      else [(''Cookie'', join ''; '' (cookie_segments headers jar_values))])"
  "filter (\<lambda>h. \<not> is_cookie h) (with_cookies headers jar_values) = filter (\<lambda>h. \<not> is_cookie h) headers"
proof -
  have "ascii_lower ''Cookie'' = ''cookie''" by code_simp
  then have "is_cookie (''Cookie'', v)" for v by (simp add: is_cookie_def)
  then show "filter is_cookie (with_cookies headers jar_values) =
     (if cookie_segments headers jar_values = [] then []
      else [(''Cookie'', join ''; '' (cookie_segments headers jar_values))])"
    "filter (\<lambda>h. \<not> is_cookie h) (with_cookies headers jar_values) = filter (\<lambda>h. \<not> is_cookie h) headers"
    by (simp_all add: with_cookies_def Let_def)
qed

lemma connect_session_Inr:
  assumes "rust_transports s (wso_transport_id options) = Some client" "parse_uri (wso_url options) = Some uri"
  shows "connect_websocket_with_session parse_uri cookies empty_jar options s =
    (Inr (connect_websocket_with_client client (wso_url options)
       (with_cookies (wso_headers options)
         (cookies (opt_default (rust_sessions s (wso_session_id options)) empty_jar) (cookie_origin_uri parse_uri uri)))
       (wso_protocols options) (wso_max_frame_size options) (wso_max_message_size options)),
     jar_for empty_jar (wso_session_id options) s)"
  using assms by (cases "rust_sessions s (wso_session_id options)")
    (simp_all add: connect_websocket_with_session_def jar_for_def Let_def)

section \<open>Every connection ends in a close event\<close>

interpretation closing: caller_safe "ws_closeEventDispatched :: 'e web_socket \<Rightarrow> bool"
proof unfold_locales
  fix s :: "'e web_socket" and c
  assume "ws_closeEventDispatched s"
  then show "ws_closeEventDispatched (snd (api c s))" using untouched_api [of s c] by (simp add: untouched_def)
qed simp

lemma closing_event [simp]: "ws_closeEventDispatched s \<Longrightarrow> ws_closeEventDispatched (dispatchEvent react e s)"
  by (simp add: closing.keep_dispatch)

lemma closing_finalize: "ws_closeEventDispatched (finalizeClosed react code reason clean s)"
proof (cases "ws_closeEventDispatched s")
  case True
  then show ?thesis by (simp add: finalizeClosed_def)
next
  case False
  then show ?thesis by (rule finalizeClosed_effects(1))
qed

lemma closing_error: "ws_closeEventDispatched s \<Longrightarrow> ws_closeEventDispatched (snd (handleNativeError react m s))"
  using closing.keep_legacy [of s react has_onError "OnError m"]
  by (auto simp: handleNativeError_def split: prod.split)

lemma closing_fail: "ws_closeEventDispatched s \<Longrightarrow> ws_closeEventDispatched (fail_closed react m s)"
  using closing_error [of s react m] by (auto simp: fail_closed_def closing_finalize split: prod.split)

lemma closing_start: "ws_closeEventDispatched s \<Longrightarrow> ws_closeEventDispatched (startNativeClose s)"
  by (cases rule: startNativeClose_cases [of s]) simp_all

lemma closing_open: "ws_closeEventDispatched s \<Longrightarrow> ws_closeEventDispatched (dispatchOpenEvent react s)"
  by (simp add: dispatchOpenEvent_def Let_def)

text \<open>Once its close event is fired, nothing takes that back.\<close>

lemma closed_step:
  assumes "ws_step react s s'" "ws_closeEventDispatched s"
  shows "ws_closeEventDispatched s'"
  using assms
proof (cases rule: ws_step.cases)
  case (step_call c)
  with assms show ?thesis using closing.keep_api [of s c] by simp
qed (simp_all add: connected_def connect_failed_def connect_awaited_def scheduleOpenEventWithDepth_def
    open_microtask_def handleNativeMessage_def closing_error handleNativeClose_def closing_finalize
    send_done_def send_failed_def dequeue_send_def Let_def closing_fail closing_start closing_open)

lemma run_native_callback_step: "ws_step react s (run_native_callback react cb s)"
  by (cases cb) (simp_all add: run_native_callback_def ws_step.intros)

lemma socket_run_keeps:
  "socket_run react cbs s s' \<Longrightarrow> ws_reachable react s \<Longrightarrow>
     ws_reachable react s' \<and> (ws_closeEventDispatched s \<longrightarrow> ws_closeEventDispatched s')"
proof (induction rule: socket_run.induct)
  case (run_step s s' cbs s'')
  then show ?case using ws_reachable_step closed_step by blast
next
  case (run_call cbs cb s s'')
  then show ?case using ws_reachable_step closed_step run_native_callback_step by blast
qed simp

lemma socket_run_closes:
  "socket_run react cbs s s' \<Longrightarrow> ws_reachable react s \<Longrightarrow> CallClose2 code reason \<in> set cbs \<Longrightarrow>
     ws_closeEventDispatched s'"
proof (induction rule: socket_run.induct)
  case (run_step s s' cbs s'')
  then show ?case using ws_reachable_step by blast
next
  case (run_call cbs cb s s'')
  have r: "ws_reachable react (run_native_callback react cb s)"
    using run_call.prems(1) run_native_callback_step by (rule ws_reachable_step)
  show ?case
  proof (cases "CallClose2 code reason \<in> set cbs")
    case True
    with run_call.IH r show ?thesis by blast
  next
    case False
    with run_call.prems have "cb = CallClose2 code reason" by simp
    then have "ws_closeEventDispatched (run_native_callback react cb s)"
      by (simp add: run_native_callback_def handleNativeClose_def closing_finalize)
    with socket_run_keeps [OF run_call.hyps r] show ?thesis by simp
  qed
qed simp

text \<open>What is heard: the messages up to the first close frame or error, an error, and one close.\<close>

fun ends_wire :: "wire \<Rightarrow> bool" where
  "ends_wire (WireClose f) = True"
| "ends_wire (WireError m) = True"
| "ends_wire w = False"

fun wire_data :: "wire \<Rightarrow> ws_data list" where
  "wire_data (WireText t) = [TextData t]"
| "wire_data (WireBinary b) = [BinaryData b]"
| "wire_data w = []"

fun wire_end :: "wire list \<Rightarrow> native_callback list" where
  "wire_end (WireClose None # rest) = [CallClose2 1005 []]"
| "wire_end (WireClose (Some (code, reason)) # rest) = [CallClose2 code reason]"
| "wire_end (WireError m # rest) = [CallError m, CallClose2 1006 []]"
| "wire_end w = [CallClose2 1006 []]"

lemma setup_ws_callbacks_heard:
  "setup_ws_callbacks (True, True) wire =
     map CallMessage (concat (map wire_data (takeWhile (\<lambda>w. \<not> ends_wire w) wire))) @
     wire_end (dropWhile (\<lambda>w. \<not> ends_wire w) wire)"
proof (induction wire)
  case (Cons w wire)
  show ?case
  proof (cases w)
    case (WireClose f)
    then show ?thesis by (cases f) (auto simp: setup_ws_callbacks_def)
  qed (use Cons.IH in \<open>simp_all add: setup_ws_callbacks_def\<close>)
qed (simp add: setup_ws_callbacks_def)

lemma wire_end_close: "\<exists>errors code reason. wire_end w = map CallError errors @ [CallClose2 code reason]"
proof (cases w rule: wire_end.cases)
  case (3 m rest)
  then show ?thesis by (intro exI [of _ "[m]"]) simp
qed (auto intro: exI [of _ "[]"])

section \<open>Properties\<close>

text \<open>C7: Every connection request that the program makes, from \<open>websocket\<close>, from the constructor or from a
  session, is read by the addon exactly: URL, headers, emulation, proxy, identifiers, the protocols as
  distinct tokens in their order, and the sizes, which fit the machine integers of the addon, as the
  numbers they are; the addon finds the functions for messages, errors and closing, so that no request of the
  class fails on its way in.\<close>

theorem websocket_arrives:
  assumes "init_connect i = Inr r"
    and "websocket parse np v os = Inr i \<or> buildStandaloneInit parse np v ps os = Inr i \<or>
      session_websocket parse ses v os = Inr i"
  shows "case r of
      WebsocketConnect t \<Rightarrow>
        (\<exists>options. websocket_connect u (websocket_object t) = Inr options \<and> ws_carries u t options \<and>
           distinct (wo_protocols options) \<and> list_all protocol_ok (wo_protocols options))
    | WebsocketConnectSession t \<Rightarrow>
        (\<exists>options. websocket_connect_session (session_websocket_object t) = Inr options \<and> ws_session_carries t options \<and>
           distinct (wso_protocols options) \<and> list_all protocol_ok (wso_protocols options))"
proof -
  have "ws_request_carried u r"
    using assms websocket_carried buildStandaloneInit_carried session_websocket_carried by metis
  then show ?thesis by (simp add: ws_request_carried_def)
qed

theorem websocket_arrives_witness:
  "\<exists>i t options. websocket sample_parse sample_profiles (JString ''https://a/'') JUndefined = Inr i \<and>
     init_connect i = Inr (WebsocketConnect t) \<and>
     websocket_connect sample_util (websocket_object t) = Inr options \<and> wo_callbacks options = (True, True)"
proof -
  obtain i r where i: "websocket sample_parse sample_profiles (JString ''https://a/'') JUndefined = Inr i"
    "init_connect i = Inr r"
    using sample_websocket by blast
  have "\<exists>t. r = WebsocketConnect t"
    using i by (auto simp: websocket_def Let_def res_bind_Inr_iff standalone_connect_def)
  with websocket_arrives [OF i(2) disjI1 [OF i(1)], of sample_util] i show ?thesis
    by (auto simp: ws_carries_def)
qed

text \<open>C6: A socket of an open session goes out on the client that was built from the session's own options,
  whatever else the program has created, closed or lost meanwhile, with the cookies of the session's own
  jar after those the caller gave, in a single header; the caller's other headers keep their order, and
  no transport and no other session's jar changes.\<close>

theorem session_websocket_shares:
  assumes "(world_step (rust_lifecycle (create_managed_transport u addr lib) jar) np)\<^sup>*\<^sup>* w w'"
    and "rust_ok (w_native w)" "w_transports w = []" "w_sessions w = []"
    and "rust_transports (w_native w) = Map.empty" "rust_sessions (w_native w) = Map.empty"
    and "ses \<in> set (w_sessions w')"
    and "session_websocket parse ses v os = Inr i" "init_connect i = Inr r"
    and "parse_uri (init_url i) = Some uri"
  shows "\<exists>t options up s'. r = WebsocketConnectSession t \<and>
    websocket_connect_session (session_websocket_object t) = Inr options \<and>
    connect_websocket_with_session parse_uri cookies jar options (w_native w') = (Inr up, s') \<and>
    up_url up = init_url i \<and>
    client_like lib (sd_insecure (session_defaults ses) = Some True)
      (trust_store_of (sd_trustStore (session_defaults ses))) (string_of (sd_proxy (session_defaults ses)))
      (opt_default (sd_proxyHeaders (session_defaults ses)) [])
      (emulation_of u lib (session_transport_options (session_defaults ses))) (client_calls (up_client up)) \<and>
    filter (\<lambda>h. \<not> is_cookie h) (up_headers up) = filter (\<lambda>h. \<not> is_cookie h) (nws_headers t) \<and>
    (let segments = cookie_segments (nws_headers t)
           (cookies (opt_default (rust_sessions (w_native w') (session_id ses)) jar) (cookie_origin_uri parse_uri uri)) in
     filter is_cookie (up_headers up) = (if segments = [] then [] else [(''Cookie'', join ''; '' segments)])) \<and>
    rust_transports s' = rust_transports (w_native w') \<and>
    (\<forall>k. k \<noteq> session_id ses \<longrightarrow> rust_sessions s' k = rust_sessions (w_native w') k)"
proof -
  from session_websocket_ok [OF assms(8,9)] obtain t where t: "r = WebsocketConnectSession t"
    "nws_sessionId t = session_id ses" "sd_transportId (session_defaults ses) = Some (nws_transportId t)"
    and active: "\<not> session_disposed ses" by blast
  from session_websocket_carried [OF assms(8,9)] t(1) obtain options where
    options: "websocket_connect_session (session_websocket_object t) = Inr options" "ws_session_carries t options"
    by (auto simp: ws_request_carried_def)
  have url: "init_url i = nws_url t"
    using assms(8,9) t(1) by (auto simp: session_websocket_def session_connect_def Let_def res_bind_Inr_iff split: if_splits)
  from open_session_client [OF assms(1-7) active] t(3) obtain c where
    c: "rust_transports (w_native w') (nws_transportId t) = Some c"
    "create_managed_transport u addr lib (session_transport_options (session_defaults ses)) = Inr c"
    by auto
  have "connect_websocket_with_session parse_uri cookies jar options (w_native w') =
      (Inr (connect_websocket_with_client c (nws_url t)
         (with_cookies (nws_headers t)
           (cookies (opt_default (rust_sessions (w_native w') (session_id ses)) jar) (cookie_origin_uri parse_uri uri)))
         (wso_protocols options) (wso_max_frame_size options) (wso_max_message_size options)),
       jar_for jar (session_id ses) (w_native w'))"
    using options(2) t(2) c(1) assms(10) url
    by (subst connect_session_Inr) (simp_all add: ws_session_carries_def)
  with t(1) options(1) url session_client_like [OF c(2)] show ?thesis
    by (simp add: connect_websocket_with_client_def with_cookies_split Let_def jar_for_def split: option.split)
qed

lemma managed_websocket:
  "\<exists>i r. session_websocket sample_parse managed_session (JString ''https://a/'') JUndefined = Inr i \<and>
     init_connect i = Inr r \<and> init_url i = ''wss://a/''"
proof -
  have "trim ''https://a/'' = ''https://a/''" by code_simp
  then have "normalizeWebSocketUrl sample_parse (JString ''https://a/'') = Inr ''wss://a/''"
    by (simp add: normalizeWebSocketUrl_def sample_parse_def ws_protocol_of_def url_toString_def)
  then show ?thesis
    by (simp add: session_websocket_def normalizeSessionWebSocketArgs_def normalize_ws_arguments_def
        is_url_argument_def normalizeSessionWebSocketOptions_def validateWebSocketProtocols_def
        assertNoManualWebSocketProtocolHeader_def hasWebSocketProtocolHeader_def ensureActive_def
        normalizeWebSocketProtocolList_def session_connect_def or_empty_def managed_session_def
        headersToTuples_def Headers_new_def applyInit_def is_array_def isIterable_def)
qed

theorem session_websocket_shares_witness:
  "\<exists>w' i up s' options. (world_step managed_ops sample_profiles)\<^sup>*\<^sup>* managed_world w' \<and>
     session_websocket sample_parse managed_session (JString ''https://a/'') JUndefined = Inr i \<and>
     connect_websocket_with_session Some (\<lambda>_ _. [''a=1'']) () options (w_native w') = (Inr up, s') \<and>
     up_url up = ''wss://a/'' \<and> NoCertVerification \<notin> set (client_calls (up_client up))"
proof -
  obtain c where c: "create_managed_transport sample_util Some sample_lib
      (session_transport_options (session_defaults managed_session)) = Inr c"
    using managed_client by blast
  obtain i r where i: "session_websocket sample_parse managed_session (JString ''https://a/'') JUndefined = Inr i"
    "init_connect i = Inr r" "init_url i = ''wss://a/''"
    using managed_websocket by blast
  have "rust_ok (w_native managed_world)" "w_transports managed_world = []" "w_sessions managed_world = []"
    "rust_transports (w_native managed_world) = Map.empty" "rust_sessions (w_native managed_world) = Map.empty"
    "managed_session \<in> set (w_sessions (managed_next c))" "sd_insecure (session_defaults managed_session) \<noteq> Some True"
    using managed_ok
    by (simp_all add: managed_world_def managed_state_def managed_next_def managed_session_def sample_defaults_def)
  with session_websocket_shares [OF managed_reaches [OF c] _ _ _ _ _ _ i(1,2), of Some "''wss://a/''" "\<lambda>_ _. [''a=1'']"]
    i managed_reaches [OF c] show ?thesis
    by (auto simp: client_like_def)
qed



end
