(* ===== verification/NativeFrames.thy ===== *)
theory NativeFrames
  imports NativeWebSocket
begin

text \<open>
  What a \<open>WebSocket\<close> asks of the addon once it is connected, \<open>websocket_send\<close> and \<open>websocket_close\<close> of
  src/rust/src/lib.rs, with the table of connections of src/rust/src/websocket.rs. A connection is what the
  client library gave; a call hands it a frame. That a frame is written, and the end of that, are steps
  of the socket (\<open>ws_step\<close>).
\<close>

section \<open>The table of connections\<close>

text \<open>The counter is below 2^53 here, as long as its values are numbers of the language.\<close>

record 'c ws_connections =
  wc_next :: nat
  wc_table :: "nat \<rightharpoonup> 'c"

definition no_connections :: "'c ws_connections" where
  "no_connections = \<lparr>wc_next = 1, wc_table = Map.empty\<rparr>"

definition store_connection :: "'c \<Rightarrow> 'c ws_connections \<Rightarrow> nat \<times> 'c ws_connections" where
  "store_connection connection s =
     (wc_next s, \<lparr>wc_next = wc_next s + 1, wc_table = (wc_table s)(wc_next s \<mapsto> connection)\<rparr>)"

definition get_connection :: "nat \<Rightarrow> 'c ws_connections \<Rightarrow> 'c option" where
  "get_connection i s = wc_table s i"

definition remove_connection :: "nat \<Rightarrow> 'c ws_connections \<Rightarrow> 'c ws_connections" where
  "remove_connection i s = s\<lparr>wc_table := (wc_table s)(i := None)\<rparr>"

section \<open>Sending and closing\<close>

text \<open>What the class passes: a string or a \<open>Buffer\<close>; an object with code and reason, or nothing.\<close>

definition send_argument :: "ws_data \<Rightarrow> native_value" where
  "send_argument d = (case d of TextData t \<Rightarrow> NativeValue (JString t) | BinaryData bs \<Rightarrow> NativeBuffer bs)"

definition close_argument :: "NativeWebSocketCloseOptions option \<Rightarrow> native_object option" where
  "close_argument = map_option (\<lambda>c.
     [(''code'', NativeValue (JNumber (close_code c))), (''reason'', NativeValue (JString (close_reason c)))])"

datatype ws_frame = TextFrame string | BinaryFrame "nat list" | CloseFrame "(16 word \<times> string) option"

definition websocket_send :: "nat \<Rightarrow> native_value \<Rightarrow> 'c ws_connections \<Rightarrow> ('c \<times> ws_frame) res" where
  "websocket_send i data s = (case get_connection i s of
      None \<Rightarrow> Inl (PlainError ''WebSocket connection not found'')
    | Some connection \<Rightarrow> (case data of
          NativeValue (JString t) \<Rightarrow> Inr (connection, TextFrame t)
        | NativeBuffer bs \<Rightarrow> Inr (connection, BinaryFrame bs)
        | _ \<Rightarrow> Inl (PlainError ''Data must be a string or Buffer'')))"

definition read_close_code :: "native_object \<Rightarrow> 16 word res" where
  "read_close_code obj = (case get_opt obj ''code'' of
      None \<Rightarrow> Inr 1000
    | Some (NativeValue (JNumber n)) \<Rightarrow> Inr (as_unsigned n)
    | Some _ \<Rightarrow> Inl (downcast_error ''number''))"

definition read_close_reason :: "native_object \<Rightarrow> string res" where
  "read_close_reason obj = (case get_opt obj ''reason'' of
      None \<Rightarrow> Inr []
    | Some (NativeValue (JString t)) \<Rightarrow> Inr t
    | Some _ \<Rightarrow> Inl (downcast_error ''string''))"

definition websocket_close ::
  "nat \<Rightarrow> native_object option \<Rightarrow> 'c ws_connections \<Rightarrow> ('c \<times> ws_frame) res" where
  "websocket_close i options s =
     res_bind (case options of
         None \<Rightarrow> Inr None
       | Some obj \<Rightarrow>
           res_bind (read_close_code obj) (\<lambda>code.
           res_bind (read_close_reason obj) (\<lambda>reason. Inr (Some (code, reason))))) (\<lambda>close_payload.
     case get_connection i s of
       None \<Rightarrow> Inl (PlainError ''WebSocket connection not found'')
     | Some connection \<Rightarrow> Inr (connection, CloseFrame close_payload))"

section \<open>What a socket asks for\<close>

text \<open>Codes and reasons that \<open>close\<close> accepts fit the frame: no cast changes them.\<close>

definition close_ok :: "NativeWebSocketCloseOptions option \<Rightarrow> bool" where
  "close_ok options \<longleftrightarrow> (case options of
      None \<Rightarrow> True
    | Some c \<Rightarrow> (\<exists>k. close_code c = NumInt k \<and> (k = 1000 \<or> 3000 \<le> k \<and> k \<le> 4999)) \<and> utf8_length (close_reason c) \<le> 123)"

lemma normalized_close: "normalizeWebSocketCloseOptions code reason = Inr options \<Longrightarrow> close_ok options"
  by (auto simp: normalizeWebSocketCloseOptions_def close_ok_def is_integer_def Let_def
      split: if_splits jsval.splits number.splits)

lemma close_read:
  assumes "close_ok options" "get_connection i s = Some c"
  shows "\<exists>payload. websocket_close i (close_argument options) s = Inr (c, CloseFrame payload) \<and>
    (case options of
       None \<Rightarrow> payload = None
     | Some o1 \<Rightarrow> \<exists>w. payload = Some (w, close_reason o1) \<and> close_code o1 = NumInt (uint w) \<and>
         (uint w = 1000 \<or> 3000 \<le> uint w \<and> uint w \<le> 4999) \<and> utf8_length (close_reason o1) \<le> 123)"
proof (cases options)
  case None
  with assms(2) show ?thesis by (simp add: websocket_close_def close_argument_def)
next
  case (Some o1)
  with assms(1) obtain k where k: "close_code o1 = NumInt k" "k = 1000 \<or> 3000 \<le> k \<and> k \<le> 4999"
    "utf8_length (close_reason o1) \<le> 123"
    by (auto simp: close_ok_def)
  then have "uint (as_unsigned (NumInt k) :: 16 word) = k"
    by (auto simp: uint_as_unsigned is_finite_def truncate_number_def)
  with k Some assms(2) show ?thesis
    by (simp add: websocket_close_def close_argument_def read_close_code_def read_close_reason_def)
qed

text \<open>The calls of a socket: all of them on its one connection, with close options that fit.\<close>

fun call_ok :: "'e web_socket \<Rightarrow> action \<Rightarrow> bool" where
  "call_ok s (NativeClose i options) = (ws_connection s = Some i \<and> close_ok options)"
| "call_ok s (NativeSend i d) = (ws_connection s = Some i)"
| "call_ok s a = True"

definition frames_ok :: "'e web_socket \<Rightarrow> bool" where
  "frames_ok s \<longleftrightarrow> list_all (call_ok s) (ws_log s) \<and> close_ok (ws_closeOptions s) \<and>
     list_all (\<lambda>(i, d, n). ws_connection s = Some i) (ws_sendChain s)"

lemma call_ok_cong: "ws_connection s' = ws_connection s \<Longrightarrow> call_ok s' = call_ok s"
proof
  fix a
  assume "ws_connection s' = ws_connection s"
  then show "call_ok s' a = call_ok s a" by (cases a) simp_all
qed

lemma frames_fields:
  "ws_connection s' = ws_connection s \<Longrightarrow> ws_log s' = ws_log s \<Longrightarrow> ws_closeOptions s' = ws_closeOptions s \<Longrightarrow>
     ws_sendChain s' = ws_sendChain s \<Longrightarrow> frames_ok s' = frames_ok s"
  by (simp add: frames_ok_def call_ok_cong [of s' s])

lemma frames_log: "frames_ok s \<Longrightarrow> call_ok s a \<Longrightarrow> frames_ok (log_action a s)"
  by (simp add: frames_ok_def call_ok_cong [of "log_action a s" s]) (simp add: log_action_def)

lemma frames_start: "frames_ok s \<Longrightarrow> frames_ok (startNativeClose s)"
proof (cases rule: startNativeClose_cases [of s])
  case (started i)
  assume ok: "frames_ok s"
  then have "frames_ok (s\<lparr>ws_nativeCloseStarted := True\<rparr>)" by (subst frames_fields [of _ s]) simp_all
  then have "frames_ok (log_action (NativeClose i (ws_closeOptions s)) (s\<lparr>ws_nativeCloseStarted := True\<rparr>))"
    by (rule frames_log) (use ok started in \<open>simp add: frames_ok_def\<close>)
  with started show ?thesis by simp
qed simp

lemma frames_listeners: "listeners_only s s' \<Longrightarrow> frames_ok s \<Longrightarrow> frames_ok s'"
  by (elim listeners_onlyE) (subst frames_fields [of _ s]; simp)

lemma frames_close: "frames_ok s \<Longrightarrow> frames_ok (snd (ws_close code reason s))"
proof (cases "normalizeWebSocketCloseOptions code reason")
  case (Inr options)
  assume ok: "frames_ok s"
  let ?t = "s\<lparr>ws_closeOptions := options, ws_readyState := CLOSING\<rparr>"
  from ok Inr have "frames_ok ?t"
    by (simp add: frames_ok_def call_ok_cong [of ?t s] normalized_close)
  with ok Inr show ?thesis by (simp add: ws_close_def frames_start)
qed (simp add: ws_close_def)

lemma frames_send: "frames_ok s \<Longrightarrow> frames_ok (snd (ws_send data s))"
proof -
  assume ok: "frames_ok s"
  have "frames_ok (s\<lparr>ws_bufferedAmount := b, ws_sendChain := ws_sendChain s @ [(i, data, n)]\<rparr>)"
    if "ws_connection s = Some i" for b i n
    using ok that
    by (simp add: frames_ok_def call_ok_cong [of "s\<lparr>ws_bufferedAmount := b, ws_sendChain := ws_sendChain s @ [(i, data, n)]\<rparr>" s])
  with ok show ?thesis by (simp add: ws_send_def split: option.split sum.split)
qed

lemma frames_api: "frames_ok s \<Longrightarrow> frames_ok (snd (api c s))"
proof (cases c)
  case (CallAdd type listener once signal)
  moreover have "listeners_only s (addEventListener type listener once signal s)"
    by (auto simp: addEventListener_def Let_def listeners_only_def split: option.split)
  moreover assume "frames_ok s"
  ultimately show ?thesis by (simp add: api_def frames_listeners)
next
  case (CallRemove type listener)
  moreover have "listeners_only s (removeEventListener type listener s)"
    by (auto simp: removeEventListener_def listeners_only_remove split: option.split)
  moreover assume "frames_ok s"
  ultimately show ?thesis by (simp add: api_def frames_listeners)
next
  case (CallHandler t listener)
  moreover have "listeners_only s (set_handler t listener s)"
    by (auto simp: set_handler_def listeners_only_def split: option.split)
  moreover assume "frames_ok s"
  ultimately show ?thesis by (simp add: api_def frames_listeners)
next
  case (CallBinaryType v)
  moreover assume "frames_ok s"
  moreover have "frames_ok (s\<lparr>ws_binaryType := b\<rparr>) = frames_ok s" for b by (rule frames_fields) simp_all
  ultimately show ?thesis by (simp add: api_def set_binaryType_def split: option.split)
next
  case (CallAbort k)
  moreover assume "frames_ok s"
  ultimately show ?thesis by (simp add: api_def frames_listeners [OF listeners_only_abort])
qed (simp_all add: api_def frames_close frames_send)

lemma list_all_calls: "list_all (call_ok s) l \<longleftrightarrow> list_all (call_ok s) (filter asks_addon l)"
proof -
  have "call_ok s a" if "\<not> asks_addon a" for a using that by (cases a) simp_all
  then show ?thesis by (auto simp: list_all_iff)
qed

interpretation frames: outer_safe "frames_ok :: 'e web_socket \<Rightarrow> bool"
proof unfold_locales
  fix s :: "'e web_socket" and cb e
  assume "frames_ok s"
  then have "frames_ok (log_action (Ran cb) s)" by (rule frames_log) simp
  then show "frames_ok ((log_action (Ran cb) s)\<lparr>ws_env := e\<rparr>)" by (subst frames_fields) simp_all
next
  fix s s' :: "'e web_socket"
  assume outer: "outer s' = outer s" and ok: "frames_ok s"
  from outer have same: "call_ok s' = call_ok s" by (intro call_ok_cong) (simp add: outer_def)
  have "list_all (call_ok s) (ws_log s')"
    using outer ok list_all_calls [of s "ws_log s'"] list_all_calls [of s "ws_log s"]
    by (simp add: outer_def frames_ok_def)
  with outer ok show "frames_ok s'" by (simp add: outer_def managed_def frames_ok_def same)
qed (rule frames_api)

lemma frames_connected:
  assumes "frames_ok s" "ws_connection s = None"
  shows "frames_ok (connected i p x s)"
proof -
  have "call_ok s' a" if "call_ok s a" for s' :: "'e web_socket" and a
    using that assms(2) by (cases a) simp_all
  then have frames: "frames_ok s'" if "ws_log s' = ws_log s" "ws_closeOptions s' = ws_closeOptions s"
    "ws_sendChain s' = ws_sendChain s" for s' :: "'e web_socket"
    using that assms by (auto simp: frames_ok_def list_all_iff)
  let ?s1 = "s\<lparr>ws_connection := Some i, ws_protocol := opt_default p [], ws_extensions := opt_default x [],
      ws_finalizerToken := Some i, ws_connectState := ConnectResolved\<rparr>"
  have "frames_ok (startNativeClose ?s1)" by (rule frames_start, rule frames) simp_all
  moreover have "frames_ok (?s1\<lparr>ws_readyState := OPEN\<rparr>)" by (rule frames) simp_all
  ultimately show ?thesis by (simp add: connected_def Let_def frames.keep_schedule)
qed

lemma frames_dequeue: "frames_ok s \<Longrightarrow> frames_ok (dequeue_send n s)"
  by (cases "ws_sendChain s") (simp_all add: frames_ok_def dequeue_send_def
      call_ok_cong [of "s\<lparr>ws_bufferedAmount := b, ws_sendChain := q\<rparr>" s for b q])

lemma frames_step:
  assumes "ws_step react s s'" "frames_ok s" "connection_ok s"
  shows "frames_ok s'"
proof (rule frames.keep_outer_step [OF assms(1,2)])
  fix i p x
  assume "ws_connectState s = ConnectPending"
  with assms(3) have "ws_connection s = None" by (simp add: connection_ok_def)
  with assms(2) show "frames_ok (connected i p x s)" by (rule frames_connected)
next
  fix i data n rest payload
  assume "ws_sendChain s = (i, data, n) # rest"
  with assms(2) have "call_ok s (NativeSend i payload)" by (simp add: frames_ok_def)
  with assms(2) have "frames_ok (log_action (NativeSend i payload) s)" by (rule frames_log)
  then show "frames_ok (send_done i payload n s)" by (simp add: send_done_def frames_dequeue)
qed (simp add: send_failed_def frames_dequeue frames.keep_fail assms(2))

lemma frames_steps:
  "(ws_step react)\<^sup>*\<^sup>* s0 s \<Longrightarrow> frames_ok s0 \<Longrightarrow> ws_inv s0 \<Longrightarrow> frames_ok s \<and> ws_inv s"
proof (induction rule: rtranclp_induct)
  case (step y z)
  then show ?case using frames_step ws_inv_step by (metis ws_inv_def)
qed simp

lemma frames_new: "frames_ok (WebSocket_new url b l mode e)"
  by (simp add: frames_ok_def WebSocket_new_def close_ok_def)

lemma frames_reachable:
  assumes "ws_reachable react s"
  shows "frames_ok s"
proof -
  from assms obtain url b l mode e where "(ws_step react)\<^sup>*\<^sup>* (WebSocket_new url b l mode e) s"
    unfolding ws_reachable_def by blast
  from frames_steps [OF this frames_new ws_inv_new] show ?thesis by (rule conjunct1)
qed

section \<open>Properties\<close>



end
