(* ===== verification/Spec2Isabelle.thy ===== *)
theory Spec2Isabelle
  imports WebSocketOptions FetchInterleaving AbortSignals ResponseAccessors Platform BenchTools
    RustAcceptance NativeClients Finalizers SocketFinalizers WebSocketTypes
    BenchRun BenchServer CompareReport Pricing SmokeNative NativeFrames
begin

text \<open>
  A verification library for freq-js (a fork of wreq-js), an HTTP and WebSocket client for Node whose
  network code is a Rust addon and whose public interface is one TypeScript module,
  src/src/wreq-js.ts. The model covers that module: everything between a call of the public functions
  and the call of the addon, and back.

  \<^bold>\<open>Values.\<close> JsPrelude holds JavaScript values (\<open>jsval\<close>), strings (lists of characters, one code unit
  below 256 each), numbers (\<open>number\<close>: integers, other finite numbers, infinities, NaN), the errors the
  module throws (\<open>js_error\<close>) and the result type \<open>res\<close>: a sum, \<open>Inl\<close> the error thrown. JsMap holds
  insertion-ordered maps with the laws of JavaScript's \<open>Map\<close>.

  \<^bold>\<open>Headers.\<close> Headers models the class \<open>Headers\<close>; a program of calls on one object is run by
  \<open>header_run\<close> and refines a case-insensitive multimap. HeaderTuples models the arrays of tuples that
  requests, sessions and proxies use, with the arrays in an explicit heap because \<open>mergeHeaderTuples\<close>
  may return the array it was given.

  \<^bold>\<open>Options.\<close> Validation: the checks of scalar options, URLs and \<open>resolve\<close> maps. Profiles: browser
  profiles, operating systems, aliases and the caches in front of the addon's lists, which are the
  parameter \<open>native_profiles\<close>. EmulationFields and Emulation: the normalisation of custom TLS, HTTP/1
  and HTTP/2 options, written as tables of fields as the code's long sequences of \<open>if\<close>s are, and the
  resolution of the emulation mode of a request, transport or session. OptionTypes and WebSocketTypes
  hold the types that src/src/types.ts declares for these options, for headers and for web sockets, with
  what has them (\<open>conforms\<close>), and say what a caller who keeps to them can still get wrong: sizes, and
  names of headers that are blank.

  \<^bold>\<open>Transports and sessions.\<close> NativeRegistry models the two tables of the addon (src/rust/src/client.rs)
  with the building of a client as a parameter, and states their contract as the locale the rest
  relies on, interpreted on the tables. Sessions models the classes \<open>Transport\<close> and \<open>Session\<close> and the
  functions that create them; \<open>world_step\<close> is any sequence of creating, closing and failing.

  \<^bold>\<open>Requests.\<close> FetchContext and Fetch model \<open>fetch\<close>: its arguments, the session and transport it runs
  on, its body, headers and native options (\<open>prepare_request\<close>, over the state \<open>fetch_state\<close>: the heap
  of header arrays and the two counters), and \<open>dispatchRequest\<close> under an abort signal. What the addon
  answers and when a signal fires are parameters. FetchProperties holds what is proved of them.
  AbortSignals models \<open>setupAbort\<close> event by event and shows that every order of the signal, the answer
  and the continuation refines \<open>dispatchRequest\<close>. FetchTasks models many calls at once: a call is a task of three turns, cut at the \<open>await\<close>s of \<open>fetch\<close>, and
  \<open>net_step\<close> is any interleaving of turns of tasks with the steps of \<open>world_step\<close>; the lookup of
  client and cookie jar in the addon is \<open>make_request\<close>, behind the locale \<open>request_registry\<close>.
  FetchInterleaving proves what every interleaving keeps, and that no transport identifier is issued twice.

  \<^bold>\<open>The native boundary.\<close> What the addon makes of what it is given. NativeBoundary models how
  src/rust/src/lib.rs reads the objects of requests and transports (\<open>js_object_to_request_options\<close>,
  \<open>create_transport\<close>): numbers become words by truncation and saturation, where \<open>usize\<close> has 64 bits, absent
  properties take the addon's defaults, and the profiles are those of generated_profiles.rs. RustEmulation models
  src/rust/src/custom_emulation.rs: the fields and types of its structures, the checks and the builder calls;
  RustAcceptance says which of the options that TypeScript accepts it accepts. NativeClients models which client of
  src/rust/src/client.rs a request runs on, and the locale \<open>client_registry\<close> extends the contract of the
  registries with the clients behind them. Parameters are the library's profiles (\<open>wreq_util\<close>), its header
  names and values (\<open>header_lib\<close>), what it can build (\<open>http_lib\<close>), the JSON parser and the parser of
  addresses.

  \<^bold>\<open>WebSockets.\<close> WebSocket models the class \<open>WebSocket\<close> as a state machine, \<open>ws_step\<close>, whose steps are
  the public calls, the callbacks of the addon, the microtasks of the open event and the ends of sends
  and closes, in any order; the code of the caller is the parameter \<open>react\<close>, which may call any method
  and may throw. WebSocketInvariants and WebSocketListeners state as locales (\<open>caller_safe\<close>,
  \<open>managed_safe\<close>) what a predicate needs to survive whatever the caller does, and interpret them on the
  invariants; WebSocketProperties draws the properties. WebSocketOptions models the arguments and
  options of the three ways to connect; the parser of URLs is a parameter. NativeWebSocket and NativeFrames
  model the other side, src/rust/src/websocket.rs and the WebSocket half of src/rust/src/lib.rs: how the addon
  reads a connection request (\<open>websocket_connect\<close>, \<open>websocket_connect_session\<close>), the upgrade it asks the client
  library for, with the cookies of the session, the callbacks made of what comes over the wire
  (\<open>setup_ws_callbacks\<close>, and \<open>socket_run\<close>: the life of a socket whose addon makes them), and the frames made of
  \<open>send\<close> and \<open>close\<close>, as an invariant of everything a socket ever asks for.

  \<^bold>\<open>Responses.\<close> Response models the class \<open>Response\<close> and the bodies behind it: the table of body handles
  of the addon, the runtime's streams as cursors over shared logs (so that the branches of a tee are
  independent readers of one source), the wrapper that \<open>wrapBodyStream\<close> puts around a stream, and
  the methods \<open>consumeBody\<close>, \<open>clone\<close>, \<open>get_body\<close>, \<open>readable\<close>. ResponseInvariants shows that any
  sequence of these and of pulls keeps every body handle with one reader and every stream on the
  bytes of its body; ResponseProperties draws what a caller observes, the reading to the end
  (\<open>drain\<close>) included. ResponseAccessors models status, url, cookies and redirection, and the methods that
  convert the body, with the decoders of the runtime as parameters. Finalizers adds a collector: what a
  program holds, what is reachable from it (\<open>live\<close>) and the finalizers that run for the rest;
  SocketFinalizers does it for sockets.

  \<^bold>\<open>Loading and measuring.\<close> Platform models the choice of the native addon by platform,
  architecture and C library (\<open>loadNativeBinding\<close>); the platform's answers and the loading of a file
  are parameters; SmokeNative is the check of a freshly built addon, which loads the same file. Bench
  models the loop of a benchmark worker and the comparison of two runs with the gate that decides on a
  regression; BenchTools the command lines of both tools, the routes of the local server and the events by
  which the Rust server comes up; BenchRun the statistics, over real numbers, a scenario from its warm-up to
  its summary, the table of scenarios and the clean-up of \<open>main\<close>; BenchServer how the servers come up and
  are closed; CompareReport the report of a comparison, which refines Bench, and its exit code. Pricing
  models src/scripts/aws-perf/pricing-info.mjs, with the answers of the cloud provider as a parameter.

  \<^bold>\<open>Bounds.\<close> Integers are unbounded as JavaScript's safe integers are not exceeded by what the code
  counts, save the request identifier, whose wrap at 2^48 is modelled. Loops are structural
  recursions over what they iterate, so no function needs fuel. Two loops have no bound of their own and are
  partial functions in the option monad: \<open>drain\<close>, which reads a stream until it ends and is shown to
  end for every stream of a reachable state, and \<open>worker\<close>, for which both cases are characterised.

  \<^bold>\<open>Not modelled.\<close> The Rust code that sends requests through a third-party library
  (\<open>make_request_inner\<close>) and copies its answers and events into objects field by field; what that library does
  with a client, an upgrade or a frame; a function given where the addon wants an
  object of headers; the
  decoders of the runtime (UTF-8, JSON, forms), its sockets and processes; the rounding of floating point in
  the statistics of the benchmark, what it prints and the description of the machine in its results; the
  configuration of the bundler and the two one-line modules that give \<open>require\<close>, which have no behaviour of
  their own; declarations of types that no function reads, and the comments that make up the rest of the lines.
\<close>

end
